(* ===== verification/Prelude.thy ===== *)
theory Prelude
  imports
    Complex_Main
    "HOL-Library.AList"
    "HOL-Library.List_Lexorder"
    "HOL-Library.Char_ord"
    "HOL-Library.Sublist"
begin

text \<open>
  Shared vocabulary of the development: Python exceptions as values, the string methods the
  sources call, dictionaries as association lists in insertion order, and the few SQL statement
  shapes of \<^verbatim>\<open>broker/store.py\<close> on tables kept as lists of rows in row-id order.

  A Python \<^verbatim>\<open>str\<close> is a \<^typ>\<open>string\<close> whose characters are code points below 256.
  The code classifies characters by ASCII class, so code points above that add no case; where
  a method treats Latin-1 letters or digits specially (\<^verbatim>\<open>lower\<close>, \<^verbatim>\<open>isspace\<close>,
  \<^verbatim>\<open>isdigit\<close>) the model does too. Clock readings (\<^verbatim>\<open>time.time()\<close>) are rationals.
\<close>

named_theorems char_simps \<open>definitions that unfold a character class\<close>
named_theorems sql_simps \<open>how a column reads after a statement\<close>

section \<open>Exceptions\<close>

datatype exn =
    ValueError
  | TypeError
  | PermissionError
  | LookupError
  | KeyError
  | IntegrityError
  | AttributeError
  | RuntimeError
  | TimeoutError
  | OverflowError
  | OSError

text \<open>\<^verbatim>\<open>type(exc).__name__\<close>.\<close>

definition exn_name :: "exn \<Rightarrow> string" where
  "exn_name x = (case x of ValueError \<Rightarrow> ''ValueError'' | TypeError \<Rightarrow> ''TypeError''
     | PermissionError \<Rightarrow> ''PermissionError'' | LookupError \<Rightarrow> ''LookupError'' | KeyError \<Rightarrow> ''KeyError''
     | IntegrityError \<Rightarrow> ''IntegrityError'' | AttributeError \<Rightarrow> ''AttributeError''
     | RuntimeError \<Rightarrow> ''RuntimeError'' | TimeoutError \<Rightarrow> ''TimeoutError''
     | OverflowError \<Rightarrow> ''OverflowError'' | OSError \<Rightarrow> ''OSError'')"

text \<open>A call that may raise returns \<^term>\<open>Inl e\<close> for the exception \<^term>\<open>e\<close>.\<close>

type_synonym 'a result = "exn + 'a"

text \<open>Statements in sequence: the first that raises ends the block. \<open>ensure\<close> is
  \<^verbatim>\<open>if not c: raise e\<close>.\<close>

definition andthen :: "'e + 'a \<Rightarrow> ('a \<Rightarrow> 'e + 'b) \<Rightarrow> 'e + 'b" where
  "andthen x f = (case x of Inl e \<Rightarrow> Inl e | Inr v \<Rightarrow> f v)"

definition ensure :: "bool \<Rightarrow> 'e \<Rightarrow> 'e + unit" where
  "ensure c e = (if c then Inr () else Inl e)"

lemma andthen_simps [simp]: "andthen (Inl e) f = Inl e" "andthen (Inr v) f = f v"
  by (simp_all add: andthen_def)

lemma andthen_Inr [simp]: "andthen x f = Inr y \<longleftrightarrow> (\<exists>v. x = Inr v \<and> f v = Inr y)"
  by (cases x) simp_all

lemma andthen_Inl: "andthen x f = Inl e \<longleftrightarrow> x = Inl e \<or> (\<exists>v. x = Inr v \<and> f v = Inl e)"
  by (cases x) simp_all

lemma ensure_Inr [simp]: "ensure c e = Inr u \<longleftrightarrow> c"
  by (simp add: ensure_def)

lemma ensure_Inl [simp]: "ensure c e = Inl e' \<longleftrightarrow> \<not> c \<and> e' = e"
  by (auto simp: ensure_def)

lemma ensure_simps [simp]: "ensure True e = Inr ()" "ensure False e = Inl e"
  by (simp_all add: ensure_def)

lemma andthen_cong [fundef_cong]:
  "x = y \<Longrightarrow> (\<And>v. y = Inr v \<Longrightarrow> f v = g v) \<Longrightarrow> andthen x f = andthen y g"
  by (cases y) auto

text \<open>A loop whose body may raise: the state is threaded through the items in order.\<close>

fun fold_res :: "('s \<Rightarrow> 'a \<Rightarrow> 'e + 's) \<Rightarrow> 's \<Rightarrow> 'a list \<Rightarrow> 'e + 's" where
  "fold_res f s [] = Inr s"
| "fold_res f s (x # xs) = andthen (f s x) (\<lambda>s'. fold_res f s' xs)"

lemma fold_res_inv:
  "fold_res f s xs = Inr s' \<Longrightarrow> P s \<Longrightarrow> (\<And>s x s'. f s x = Inr s' \<Longrightarrow> P s \<Longrightarrow> P s') \<Longrightarrow> P s'"
  by (induction xs arbitrary: s) auto

lemma fold_res_inv_mem:
  "fold_res f s xs = Inr s' \<Longrightarrow> P s \<Longrightarrow> (\<And>s x s'. x \<in> set xs \<Longrightarrow> f s x = Inr s' \<Longrightarrow> P s \<Longrightarrow> P s') \<Longrightarrow> P s'"
  by (induction xs arbitrary: s) auto

section \<open>Characters\<close>

definition code :: "char \<Rightarrow> nat" where
  "code c = of_char c"

definition is_lower :: "char \<Rightarrow> bool" where
  "is_lower c \<longleftrightarrow> 97 \<le> code c \<and> code c \<le> 122"

definition is_upper :: "char \<Rightarrow> bool" where
  "is_upper c \<longleftrightarrow> 65 \<le> code c \<and> code c \<le> 90"

definition is_dec :: "char \<Rightarrow> bool" where
  "is_dec c \<longleftrightarrow> 48 \<le> code c \<and> code c \<le> 57"

definition is_alnum :: "char \<Rightarrow> bool" where
  "is_alnum c \<longleftrightarrow> is_lower c \<or> is_upper c \<or> is_dec c"

text \<open>The class \<^verbatim>\<open>[A-Za-z0-9_-]\<close> of the repository's identifier expressions.\<close>

definition is_word :: "char \<Rightarrow> bool" where
  "is_word c \<longleftrightarrow> is_alnum c \<or> code c = 95 \<or> code c = 45"

definition is_hex_lower :: "char \<Rightarrow> bool" where
  "is_hex_lower c \<longleftrightarrow> is_dec c \<or> (97 \<le> code c \<and> code c \<le> 102)"

definition is_hex :: "char \<Rightarrow> bool" where
  "is_hex c \<longleftrightarrow> is_hex_lower c \<or> (65 \<le> code c \<and> code c \<le> 70)"

text \<open>\<^verbatim>\<open>str.isspace\<close> and \<^verbatim>\<open>str.isdigit\<close> of one character below 256. The superscript
  digits two, three and one (178, 179, 185) are digits for \<^verbatim>\<open>isdigit\<close>.\<close>

definition is_space :: "char \<Rightarrow> bool" where
  "is_space c \<longleftrightarrow> (9 \<le> code c \<and> code c \<le> 13) \<or> (28 \<le> code c \<and> code c \<le> 32)
     \<or> code c = 133 \<or> code c = 160"

definition is_pydigit :: "char \<Rightarrow> bool" where
  "is_pydigit c \<longleftrightarrow> is_dec c \<or> code c = 178 \<or> code c = 179 \<or> code c = 185"

definition is_control :: "char \<Rightarrow> bool" where
  "is_control c \<longleftrightarrow> code c < 32 \<or> code c = 127"

declare is_lower_def [char_simps] is_upper_def [char_simps] is_dec_def [char_simps]
  is_alnum_def [char_simps] is_word_def [char_simps] is_hex_lower_def [char_simps]
  is_hex_def [char_simps] is_space_def [char_simps] is_pydigit_def [char_simps]
  is_control_def [char_simps]

lemma code_less_256 [simp]: "code c < 256"
  by (metis char_of_char code_def mod_less_divisor of_char_of zero_less_numeral)

lemma code_inject: "code c = code d \<longleftrightarrow> c = d"
  by (simp add: code_def)

lemma code_char_of [simp]: "code (char_of n) = n mod 256"
  by (simp add: code_def)

section \<open>String methods\<close>

definition py_lower_char :: "char \<Rightarrow> char" where
  "py_lower_char c =
     (if is_upper c \<or> (192 \<le> code c \<and> code c \<le> 222 \<and> code c \<noteq> 215)
      then char_of (code c + 32) else c)"

definition py_lower :: "string \<Rightarrow> string" where
  "py_lower s = map py_lower_char s"

text \<open>\<^verbatim>\<open>upper\<close> on ASCII letters; the code compares its result with ASCII words only.\<close>

definition py_upper_char :: "char \<Rightarrow> char" where
  "py_upper_char c = (if is_lower c then char_of (code c - 32) else c)"

definition py_upper :: "string \<Rightarrow> string" where
  "py_upper s = map py_upper_char s"

definition py_lstrip :: "string \<Rightarrow> string" where
  "py_lstrip s = dropWhile is_space s"

definition py_strip :: "string \<Rightarrow> string" where
  "py_strip s = rev (dropWhile is_space (rev (dropWhile is_space s)))"

definition py_isdigit :: "string \<Rightarrow> bool" where
  "py_isdigit s \<longleftrightarrow> s \<noteq> [] \<and> list_all is_pydigit s"

definition starts_with :: "string \<Rightarrow> string \<Rightarrow> bool" where
  "starts_with p s \<longleftrightarrow> take (length p) s = p"

fun contains :: "string \<Rightarrow> string \<Rightarrow> bool" where
  "contains n [] = (n = [])"
| "contains n (x # xs) = (starts_with n (x # xs) \<or> contains n xs)"

text \<open>\<^verbatim>\<open>s.split(c)\<close> and \<^verbatim>\<open>s.partition(c)\<close> for a one-character separator.\<close>

fun split_on :: "char \<Rightarrow> string \<Rightarrow> string list" where
  "split_on c [] = [[]]"
| "split_on c (x # xs) =
     (if x = c then [] # split_on c xs
      else (case split_on c xs of [] \<Rightarrow> [[x]] | y # ys \<Rightarrow> (x # y) # ys))"

definition partition_at :: "char \<Rightarrow> string \<Rightarrow> string \<times> bool \<times> string" where
  "partition_at c s =
     (takeWhile (\<lambda>x. x \<noteq> c) s, c \<in> set s, drop 1 (dropWhile (\<lambda>x. x \<noteq> c) s))"

fun join_with :: "string \<Rightarrow> string list \<Rightarrow> string" where
  "join_with sep [] = []"
| "join_with sep [x] = x"
| "join_with sep (x # y # ys) = x @ sep @ join_with sep (y # ys)"

text \<open>\<^verbatim>\<open>int(s)\<close> on a string of decimal digits; any other character is a \<^const>\<open>ValueError\<close>, and so
  is a text of more than 4300 digits (the interpreter's limit on conversions).\<close>

fun dec_value :: "nat \<Rightarrow> string \<Rightarrow> nat option" where
  "dec_value n [] = Some n"
| "dec_value n (c # cs) = (if is_dec c then dec_value (10 * n + (code c - 48)) cs else None)"

definition py_int_digits :: "string \<Rightarrow> int result" where
  "py_int_digits s =
     (case (if s = [] \<or> length s > 4300 then None else dec_value 0 s) of
        None \<Rightarrow> Inl ValueError
      | Some n \<Rightarrow> Inr (int n))"

text \<open>\<^verbatim>\<open>str(n)\<close> on integers.\<close>

fun show_nat :: "nat \<Rightarrow> string" where
  "show_nat n = (if n < 10 then [char_of (48 + n)] else show_nat (n div 10) @ [char_of (48 + n mod 10)])"

declare show_nat.simps [simp del]

definition show_int :: "int \<Rightarrow> string" where
  "show_int i = (if i < 0 then CHR ''-'' # show_nat (nat (- i)) else show_nat (nat i))"

subsection \<open>Facts about the string methods\<close>

lemma starts_with_iff: "starts_with p s \<longleftrightarrow> (\<exists>t. s = p @ t)"
  by (auto simp: starts_with_def) (metis append_take_drop_id)

lemma contains_iff: "contains n s \<longleftrightarrow> (\<exists>a b. s = a @ n @ b)"
proof (induction s)
  case (Cons x xs)
  have "(\<exists>a b. x # xs = a @ n @ b) \<longleftrightarrow> (\<exists>b. x # xs = n @ b) \<or> (\<exists>a b. xs = a @ n @ b)"
    by (metis append_Cons append_Nil append_eq_Cons_conv)
  with Cons.IH show ?case by (simp add: starts_with_iff)
qed simp

lemma split_on_not_Nil [simp]: "split_on c s \<noteq> []"
  by (cases s) (auto split: list.splits)

lemma join_split_on: "join_with [c] (split_on c s) = s"
proof (induction s)
  case (Cons x xs)
  have "join_with [c] ((x # y) # ys) = x # join_with [c] (y # ys)" for y ys
    by (cases ys) auto
  with Cons show ?case
    by (cases "split_on c xs") auto
qed simp

lemma split_on_no_sep: "p \<in> set (split_on c s) \<Longrightarrow> c \<notin> set p"
proof (induction s arbitrary: p)
  case (Cons x xs)
  then show ?case
    by (cases "split_on c xs") (auto split: if_splits)
qed simp

lemma split_on_fresh: "c \<notin> set s \<Longrightarrow> split_on c s = [s]"
  by (induction s) auto

lemma split_on_append_sep:
  "c \<notin> set a \<Longrightarrow> split_on c (a @ c # b) = a # split_on c b"
  by (induction a) auto

lemma show_nat_not_Nil [simp]: "show_nat n \<noteq> []"
  by (subst show_nat.simps) simp

lemma show_nat_dec: "c \<in> set (show_nat n) \<Longrightarrow> is_dec c"
proof (induction n rule: show_nat.induct)
  case (1 n)
  show ?case
  proof (cases "n < 10")
    case True
    with "1.prems" show ?thesis
      by (subst (asm) show_nat.simps) (auto simp: is_dec_def)
  next
    case False
    with "1.prems" have "c \<in> set (show_nat (n div 10)) \<or> c = char_of (48 + n mod 10)"
      by (subst (asm) show_nat.simps) auto
    then show ?thesis
    proof
      assume "c \<in> set (show_nat (n div 10))"
      then show ?thesis using False "1.IH" by blast
    next
      assume "c = char_of (48 + n mod 10)"
      then show ?thesis by (simp add: is_dec_def)
    qed
  qed
qed

lemma dec_value_append:
  "dec_value k (a @ b) = (case dec_value k a of None \<Rightarrow> None | Some m \<Rightarrow> dec_value m b)"
  by (induction a arbitrary: k) auto

lemma dec_value_show_nat: "dec_value 0 (show_nat n) = Some n"
proof (induction n rule: show_nat.induct)
  case (1 n)
  show ?case
  proof (cases "n < 10")
    case True
    then show ?thesis by (subst show_nat.simps) (simp add: is_dec_def)
  next
    case False
    with "1.IH" have "dec_value 0 (show_nat (n div 10)) = Some (n div 10)" by simp
    with False show ?thesis
      by (subst show_nat.simps) (simp add: dec_value_append is_dec_def)
  qed
qed

lemma show_nat_inject [simp]: "show_nat m = show_nat n \<longleftrightarrow> m = n"
  by (metis dec_value_show_nat option.inject)

lemma show_int_chars: "c \<in> set (show_int i) \<Longrightarrow> is_dec c \<or> c = CHR ''-''"
  by (auto simp: show_int_def dest: show_nat_dec split: if_splits)

lemma show_int_not_Nil [simp]: "show_int i \<noteq> []"
  by (simp add: show_int_def)

lemma show_int_inject [simp]: "show_int i = show_int j \<longleftrightarrow> i = j"
proof
  assume eq: "show_int i = show_int j"
  have minus: "CHR ''-'' \<notin> set (show_nat n)" for n
    by (auto dest!: show_nat_dec simp: is_dec_def code_def)
  have hd_minus: "show_nat n \<noteq> CHR ''-'' # s" for n s
    using minus [of n] by auto
  from eq show "i = j"
    by (auto simp: show_int_def hd_minus split: if_splits dest: hd_minus [THEN notE])
      (metis hd_minus)+
qed simp

lemma dec_digits: "list_all is_dec s \<Longrightarrow> \<exists>n. dec_value k s = Some n"
  by (induction s arbitrary: k) auto

lemma takeWhile_stop: "(\<forall>x \<in> set a. P x) \<Longrightarrow> b = [] \<or> \<not> P (hd b) \<Longrightarrow> takeWhile P (a @ b) = a"
  by (induction a) (cases b, auto)

lemma dropWhile_stop: "(\<forall>x \<in> set a. P x) \<Longrightarrow> b = [] \<or> \<not> P (hd b) \<Longrightarrow> dropWhile P (a @ b) = b"
  by (induction a) (cases b, auto)

section \<open>Tables\<close>

text \<open>
  \<^verbatim>\<open>UPDATE t SET ... WHERE p\<close>, \<^verbatim>\<open>SELECT ... WHERE p\<close> with \<^verbatim>\<open>fetchone\<close>, the
  \<^verbatim>\<open>rowcount\<close> of an update, and the row id SQLite gives to a new row of an
  \<^verbatim>\<open>INTEGER PRIMARY KEY\<close> table: one more than the largest in the table.
\<close>

definition sql_update :: "('r \<Rightarrow> bool) \<Rightarrow> ('r \<Rightarrow> 'r) \<Rightarrow> 'r list \<Rightarrow> 'r list" where
  "sql_update p f rows = map (\<lambda>r. if p r then f r else r) rows"

definition sql_count :: "('r \<Rightarrow> bool) \<Rightarrow> 'r list \<Rightarrow> nat" where
  "sql_count p rows = length (filter p rows)"

definition next_rowid :: "('r \<Rightarrow> int) \<Rightarrow> 'r list \<Rightarrow> int" where
  "next_rowid key rows = fold max (map key rows) 0 + 1"

lemma sql_update_Nil [simp]: "sql_update p f [] = []"
  by (simp add: sql_update_def)

lemma sql_update_Cons [simp]:
  "sql_update p f (r # rs) = (if p r then f r else r) # sql_update p f rs"
  by (simp add: sql_update_def)

lemma set_sql_update: "set (sql_update p f rows) = (\<lambda>r. if p r then f r else r) ` set rows"
  by (simp add: sql_update_def)

lemma map_sql_update: "(\<And>r. g (f r) = g r) \<Longrightarrow> map g (sql_update p f rows) = map g rows"
  by (induction rows) auto

lemma image_sql_update: "(\<And>r. g (f r) = g r) \<Longrightarrow> g ` set (sql_update p f rows) = g ` set rows"
  using map_sql_update [of g f p rows] by (metis list.set_map)

lemma sql_update_append [simp]: "sql_update p f (a @ b) = sql_update p f a @ sql_update p f b"
  by (simp add: sql_update_def)

lemma sql_update_id: "(\<And>r. r \<in> set rows \<Longrightarrow> \<not> p r) \<Longrightarrow> sql_update p f rows = rows"
  by (induction rows) auto

lemma find_sql_update:
  assumes "\<And>r. q (f r) = q r"
  shows "find q (sql_update p f rows) = map_option (\<lambda>r. if p r then f r else r) (find q rows)"
  using assms by (induction rows) auto

lemma find_append: "find p (xs @ ys) = (case find p xs of None \<Rightarrow> find p ys | Some x \<Rightarrow> Some x)"
  by (induction xs) auto

lemma find_SomeD: "find p xs = Some x \<Longrightarrow> x \<in> set xs \<and> p x"
  by (induction xs) (auto split: if_splits)

lemma find_NoneD: "find p xs = None \<Longrightarrow> x \<in> set xs \<Longrightarrow> \<not> p x"
  by (induction xs) (auto split: if_splits)

lemma find_None_iff': "find p xs = None \<longleftrightarrow> (\<forall>x \<in> set xs. \<not> p x)"
  by (induction xs) auto

lemma fold_max_ge: "(a::int) \<le> fold max xs a \<and> (\<forall>x \<in> set xs. x \<le> fold max xs a)"
proof (induction xs arbitrary: a)
  case (Cons x xs)
  from Cons.IH [of "max x a"] show ?case by auto
qed simp

lemma next_rowid_fresh: "r \<in> set rows \<Longrightarrow> key r < next_rowid key rows"
  using fold_max_ge [of 0 "map key rows"] by (auto simp: next_rowid_def)

lemma next_rowid_notin [simp]: "next_rowid key rows \<notin> key ` set rows"
  by (auto dest: next_rowid_fresh [of _ rows key])

lemma next_rowid_pos: "0 < next_rowid key rows"
  using fold_max_ge [of 0 "map key rows"] by (auto simp: next_rowid_def)

text \<open>A table whose key column is distinct: the key finds exactly its row.\<close>

lemma find_key_distinct:
  assumes "distinct (map key rows)" and "r \<in> set rows"
  shows "find (\<lambda>x. key x = key r) rows = Some r"
  using assms by (induction rows) (auto simp: image_iff)

lemma find_key_unique:
  assumes "distinct (map key rows)" and "find (\<lambda>x. key x = k) rows = Some r"
    and "x \<in> set rows" and "key x = k"
  shows "x = r"
  using assms find_key_distinct [of key rows x] by auto

section \<open>Dictionaries\<close>

text \<open>The dictionary with a function applied to its values.\<close>

definition map_vals :: "('v \<Rightarrow> 'w) \<Rightarrow> ('k \<times> 'v) list \<Rightarrow> ('k \<times> 'w) list" where
  "map_vals f d = map (\<lambda>kv. (fst kv, f (snd kv))) d"

lemma map_of_map_vals [simp]: "map_of (map_vals f d) k = map_option f (map_of d k)"
  by (induction d) (auto simp: map_vals_def)

lemma keys_map_vals [simp]: "map fst (map_vals f d) = map fst d"
  by (simp add: map_vals_def comp_def)

lemma set_map_vals: "set (map_vals f d) = (\<lambda>kv. (fst kv, f (snd kv))) ` set d"
  by (simp add: map_vals_def)

lemma update_mem: "kv \<in> set (AList.update k v d) \<Longrightarrow> kv = (k, v) \<or> kv \<in> set d"
  by (induction d) (auto split: if_splits)

lemma update_all: "\<forall>(k, v) \<in> set d. P k v \<Longrightarrow> P k' v' \<Longrightarrow> \<forall>(k, v) \<in> set (AList.update k' v' d). P k v"
  using update_mem [of _ k' v' d] by fastforce

text \<open>\<^verbatim>\<open>sort_keys=True\<close>: the items of a dictionary in the order of their keys.\<close>

definition sort_items :: "(string \<times> 'v) list \<Rightarrow> (string \<times> 'v) list" where
  "sort_items d = sort_key fst d"

lemma set_sort_items [simp]: "set (sort_items d) = set d"
  by (simp add: sort_items_def)

lemma distinct_sort_items [simp]: "distinct (map fst (sort_items d)) = distinct (map fst d)"
  using distinct_map [of fst d] distinct_map [of fst "sort_items d"]
  by (simp add: sort_items_def)

lemma map_of_sort_items: "distinct (map fst d) \<Longrightarrow> map_of (sort_items d) = map_of d"
  by (rule map_of_eqI) (auto simp: map_of_eq_Some_iff [of "sort_items d"] map_of_eq_Some_iff
      intro!: ext simp del: map_of_eq_Some_iff)

section \<open>Integers in text\<close>

text \<open>\<^verbatim>\<open>int(s)\<close>: surrounding white space, a sign and single underscores between digits.\<close>

definition py_int :: "string \<Rightarrow> int result" where
  "py_int s =
     (let t = py_strip s;
          (neg, body) = (case t of [] \<Rightarrow> (False, [])
             | c # r \<Rightarrow> if c = CHR ''-'' then (True, r) else if c = CHR ''+'' then (False, r) else (False, t));
          parts = split_on (CHR ''_'') body
      in if list_ex (\<lambda>p. p = []) parts then Inl ValueError
         else andthen (py_int_digits (concat parts)) (\<lambda>n. Inr (if neg then - n else n)))"

lemma dec_not_space: "is_dec c \<Longrightarrow> \<not> is_space c \<and> c \<noteq> CHR ''-'' \<and> c \<noteq> CHR ''+'' \<and> c \<noteq> CHR ''_'' \<and> c \<noteq> CHR ''|''"
  by (auto simp: is_dec_def is_space_def code_def)

lemma show_nat_plain: "list_all is_dec (show_nat n)"
  by (auto simp: list_all_iff dest: show_nat_dec)

lemma py_strip_id:
  assumes "s \<noteq> []" "\<not> is_space (hd s)" "\<not> is_space (last s)"
  shows "py_strip s = s"
proof -
  have "dropWhile is_space s = s" using assms by (cases s) auto
  moreover have "dropWhile is_space (rev s) = rev s" using assms by (cases s rule: rev_cases) auto
  ultimately show ?thesis by (simp add: py_strip_def)
qed

lemma py_int_show_cases:
  "py_int (show_int n) = (if length (show_nat (nat \<bar>n\<bar>)) \<le> 4300 then Inr n else Inl ValueError)"
proof -
  let ?d = "show_nat (nat \<bar>n\<bar>)"
  have d: "list_all is_dec ?d" "?d \<noteq> []" by (simp_all add: show_nat_plain)
  then have hd: "is_dec (hd ?d)" "is_dec (last ?d)" by (auto simp: list_all_iff)
  have fresh: "split_on (CHR ''_'') ?d = [?d]"
    using d(1) dec_not_space by (intro split_on_fresh) (auto simp: list_all_iff)
  have digits: "py_int_digits ?d = (if length ?d \<le> 4300 then Inr (int (nat \<bar>n\<bar>)) else Inl ValueError)"
    by (simp add: py_int_digits_def dec_value_show_nat)
  show ?thesis
  proof (cases "n < 0")
    case True
    then have s: "show_int n = CHR ''-'' # ?d" by (simp add: show_int_def)
    have "py_strip (CHR ''-'' # ?d) = CHR ''-'' # ?d"
      using d(2) hd dec_not_space by (intro py_strip_id) (auto simp: is_space_def code_def)
    then show ?thesis using True fresh d(2) digits unfolding s by (simp add: py_int_def)
  next
    case False
    then have s: "show_int n = ?d" and n: "int (nat \<bar>n\<bar>) = n" by (simp_all add: show_int_def)
    obtain c r where c: "?d = c # r" using d(2) by (cases ?d) auto
    then have "c \<noteq> CHR ''-''" "c \<noteq> CHR ''+''" using hd dec_not_space by force+
    moreover have "py_strip ?d = ?d"
      using d(2) hd dec_not_space by (intro py_strip_id) auto
    ultimately show ?thesis using fresh digits unfolding s c n by (simp add: py_int_def)
  qed
qed

lemma py_int_show: "length (show_int n) \<le> 4300 \<Longrightarrow> py_int (show_int n) = Inr n"
  unfolding py_int_show_cases by (auto simp: show_int_def split: if_splits)

lemma py_int_show_Inr: "py_int (show_int n) = Inr p \<Longrightarrow> p = n"
  by (simp add: py_int_show_cases split: if_splits)

end
