(* ===== verification/Url.thy ===== *)
theory Url
  imports Prelude
begin

text \<open>
  \<^verbatim>\<open>urllib.parse.urlsplit\<close> as far as the sources read it: scheme, network location, path,
  query and fragment, and the user name, password, host name and port of the location. Leading
  C0 control characters and spaces and every tab, line feed and carriage return are removed
  first, as the library does. A bracketed host is kept as it stands between the brackets (the
  library also checks that it is an IP literal).
\<close>

record url =
  url_scheme :: string
  url_netloc :: string
  url_path :: string
  url_query :: string
  url_fragment :: string

definition is_scheme_char :: "char \<Rightarrow> bool" where
  "is_scheme_char c \<longleftrightarrow> is_alnum c \<or> c \<in> set ''+-.''"

text \<open>The part before a separator and the part after its first occurrence.\<close>

definition cut :: "char \<Rightarrow> string \<Rightarrow> string \<times> string option" where
  "cut c s = (case partition_at c s of (a, found, b) \<Rightarrow> (a, if found then Some b else None))"

text \<open>\<^verbatim>\<open>rpartition(c)\<close>: the part before the last occurrence, if there is one, and the rest.\<close>

definition rcut :: "char \<Rightarrow> string \<Rightarrow> string option \<times> string" where
  "rcut c s = (if c \<in> set s
     then (Some (rev (drop 1 (dropWhile (\<lambda>x. x \<noteq> c) (rev s)))), rev (takeWhile (\<lambda>x. x \<noteq> c) (rev s)))
     else (None, s))"

definition clean_url :: "string \<Rightarrow> string" where
  "clean_url s = filter (\<lambda>c. code c \<notin> {9, 10, 13}) (dropWhile (\<lambda>c. code c \<le> 32) s)"

definition urlsplit :: "string \<Rightarrow> url result" where
  "urlsplit s =
     (let s0 = clean_url s;
          (scheme, rest) =
            (case cut (CHR '':'') s0 of
               (a, Some b) \<Rightarrow>
                 if a \<noteq> [] \<and> (is_lower (hd a) \<or> is_upper (hd a)) \<and> list_all is_scheme_char a
                 then (py_lower a, b) else ([], s0)
             | (_, None) \<Rightarrow> ([], s0));
          (netloc, rest) =
            (if starts_with ''//'' rest
             then (takeWhile (\<lambda>c. c \<notin> set ''/?#'') (drop 2 rest), dropWhile (\<lambda>c. c \<notin> set ''/?#'') (drop 2 rest))
             else ([], rest))
      in if (CHR ''['' \<in> set netloc) \<noteq> (CHR '']'' \<in> set netloc) then Inl ValueError
         else
           let (rest, fragment) = (case cut (CHR ''#'') rest of (a, f) \<Rightarrow> (a, case f of None \<Rightarrow> [] | Some x \<Rightarrow> x));
               (path, query) = (case cut (CHR ''?'') rest of (a, q) \<Rightarrow> (a, case q of None \<Rightarrow> [] | Some x \<Rightarrow> x))
           in Inr \<lparr>url_scheme = scheme, url_netloc = netloc, url_path = path, url_query = query,
                   url_fragment = fragment\<rparr>)"

definition userinfo :: "url \<Rightarrow> string option" where
  "userinfo u = fst (rcut (CHR ''@'') (url_netloc u))"

definition url_username :: "url \<Rightarrow> string option" where
  "url_username u = (case userinfo u of None \<Rightarrow> None | Some i \<Rightarrow> Some (fst (cut (CHR '':'') i)))"

definition url_password :: "url \<Rightarrow> string option" where
  "url_password u = (case userinfo u of None \<Rightarrow> None | Some i \<Rightarrow> snd (cut (CHR '':'') i))"

text \<open>\<^verbatim>\<open>_hostinfo\<close>: the host and the port text after the user information.\<close>

definition hostinfo :: "url \<Rightarrow> string \<times> string option" where
  "hostinfo u =
     (let h = snd (rcut (CHR ''@'') (url_netloc u))
      in case cut (CHR ''['') h of
           (_, Some bracketed) \<Rightarrow>
             (case cut (CHR '']'') bracketed of
                (host, rest) \<Rightarrow>
                  (host, case rest of None \<Rightarrow> None
                         | Some r \<Rightarrow> (case cut (CHR '':'') r of (_, None) \<Rightarrow> None
                                     | (_, Some p) \<Rightarrow> if p = [] then None else Some p)))
         | (_, None) \<Rightarrow>
             (case cut (CHR '':'') h of
                (host, None) \<Rightarrow> (host, None)
              | (host, Some p) \<Rightarrow> (host, if p = [] then None else Some p)))"

definition url_hostname :: "url \<Rightarrow> string option" where
  "url_hostname u = (let h = fst (hostinfo u) in if h = [] then None else Some (py_lower h))"

text \<open>\<^verbatim>\<open>SplitResult.port\<close>: a port that is not a decimal number up to 65535 raises.\<close>

definition url_port :: "url \<Rightarrow> nat option result" where
  "url_port u =
     (case snd (hostinfo u) of
        None \<Rightarrow> Inr None
      | Some p \<Rightarrow>
          (case dec_value 0 p of
             None \<Rightarrow> Inl ValueError
           | Some n \<Rightarrow> if n \<le> 65535 then Inr (Some n) else Inl ValueError))"

end
