(* ===== verification/PyJson.thy ===== *)
theory PyJson
  imports Prelude
begin

text \<open>
  JSON values as Python holds them and the two ways the broker prints them:
  \<^verbatim>\<open>json.dumps(v, sort_keys=True)\<close> for policy bindings and
  \<^verbatim>\<open>approval_summary.canonical\<close> for everything that is hashed. The main result is that
  printing is injective up to the order of keys, so that comparing or hashing the text compares
  the values. A finite float is its \<^verbatim>\<open>repr\<close> text; \<^verbatim>\<open>json.loads\<close> also yields the
  three values that are not numbers, which \<^verbatim>\<open>allow_nan=False\<close> refuses.
\<close>

section \<open>Values\<close>

datatype pyfloat = FFin string | FNan | FInf | FNegInf

datatype json =
    JNull
  | JBool bool
  | JInt int
  | JFloat pyfloat
  | JStr string
  | JList "json list"
  | JObj "(string \<times> json) list"

definition is_obj :: "json \<Rightarrow> bool" where
  "is_obj v = (case v of JObj _ \<Rightarrow> True | _ \<Rightarrow> False)"

definition is_str :: "json \<Rightarrow> bool" where
  "is_str v = (case v of JStr _ \<Rightarrow> True | _ \<Rightarrow> False)"

text \<open>\<^verbatim>\<open>d.get(k)\<close> of a dictionary; \<^const>\<open>None\<close> when the key is absent.\<close>

fun jget :: "string \<Rightarrow> json \<Rightarrow> json option" where
  "jget k (JObj d) = map_of d k"
| "jget k _ = None"

text \<open>\<^verbatim>\<open>d.get(k)\<close> as Python returns it: an absent key reads as \<^const>\<open>JNull\<close>.\<close>

definition jget0 :: "string \<Rightarrow> json \<Rightarrow> json" where
  "jget0 k v = (case jget k v of None \<Rightarrow> JNull | Some x \<Rightarrow> x)"

definition opt_str :: "string option \<Rightarrow> json" where
  "opt_str x = (case x of None \<Rightarrow> JNull | Some s \<Rightarrow> JStr s)"

definition num_char :: "char \<Rightarrow> bool" where
  "num_char c \<longleftrightarrow> is_dec c \<or> c \<in> set ''-+.e''"

definition float_lexeme :: "string \<Rightarrow> bool" where
  "float_lexeme s \<longleftrightarrow> s \<noteq> [] \<and> list_all num_char s \<and> (CHR ''.'' \<in> set s \<or> CHR ''e'' \<in> set s)"

text \<open>What \<^verbatim>\<open>json.loads\<close> returns: keys of an object occur once.\<close>

fun wf_json :: "json \<Rightarrow> bool" where
  "wf_json (JFloat (FFin s)) = float_lexeme s"
| "wf_json (JList xs) = list_all wf_json xs"
| "wf_json (JObj d) = (distinct (map fst d) \<and> list_all (\<lambda>kv. wf_json (snd kv)) d)"
| "wf_json _ = True"

fun all_finite :: "json \<Rightarrow> bool" where
  "all_finite (JFloat f) = (case f of FFin _ \<Rightarrow> True | _ \<Rightarrow> False)"
| "all_finite (JList xs) = list_all all_finite xs"
| "all_finite (JObj d) = list_all (\<lambda>kv. all_finite (snd kv)) d"
| "all_finite _ = True"

section \<open>Printing\<close>

definition hex_digit :: "nat \<Rightarrow> char" where
  "hex_digit n = (if n < 10 then char_of (48 + n) else char_of (87 + n))"

text \<open>\<^verbatim>\<open>ensure_ascii\<close> escapes: everything outside space to tilde, the quote and the
  backslash.\<close>

definition esc_char :: "char \<Rightarrow> string" where
  "esc_char c =
     (if c = CHR 0x22 then [CHR 0x5C, CHR 0x22]
      else if c = CHR 0x5C then [CHR 0x5C, CHR 0x5C]
      else if c = CHR 0x0A then [CHR 0x5C, CHR ''n'']
      else if c = CHR 0x0D then [CHR 0x5C, CHR ''r'']
      else if c = CHR 0x09 then [CHR 0x5C, CHR ''t'']
      else if c = CHR 0x0C then [CHR 0x5C, CHR ''f'']
      else if c = CHR 0x08 then [CHR 0x5C, CHR ''b'']
      else if code c < 32 \<or> 126 < code c
        then [CHR 0x5C, CHR ''u'', CHR ''0'', CHR ''0'',
              hex_digit (code c div 16), hex_digit (code c mod 16)]
      else [c])"

definition quote :: "string \<Rightarrow> string" where
  "quote s = CHR 0x22 # concat (map esc_char s) @ [CHR 0x22]"

definition show_float :: "pyfloat \<Rightarrow> string" where
  "show_float f = (case f of FFin s \<Rightarrow> s | FNan \<Rightarrow> ''NaN'' | FInf \<Rightarrow> ''Infinity''
                   | FNegInf \<Rightarrow> ''-Infinity'')"

fun dumps :: "string \<Rightarrow> string \<Rightarrow> json \<Rightarrow> string" where
  "dumps isep ksep JNull = ''null''"
| "dumps isep ksep (JBool b) = (if b then ''true'' else ''false'')"
| "dumps isep ksep (JInt i) = show_int i"
| "dumps isep ksep (JFloat f) = show_float f"
| "dumps isep ksep (JStr s) = quote s"
| "dumps isep ksep (JList xs) =
     CHR ''['' # join_with isep (map (dumps isep ksep) xs) @ '']''"
| "dumps isep ksep (JObj d) =
     CHR ''{'' # join_with isep (map (\<lambda>kv. quote (fst kv) @ ksep @ dumps isep ksep (snd kv)) d) @ ''}''"

fun sort_json :: "json \<Rightarrow> json" where
  "sort_json (JList xs) = JList (map sort_json xs)"
| "sort_json (JObj d) = JObj (sort_items (map (\<lambda>kv. (fst kv, sort_json (snd kv))) d))"
| "sort_json v = v"

text \<open>\<^verbatim>\<open>json.dumps(v, sort_keys=True)\<close>.\<close>

definition dumps_sorted :: "json \<Rightarrow> string" where
  "dumps_sorted v = dumps '', '' '': '' (sort_json v)"

text \<open>\<^verbatim>\<open>approval_summary.canonical\<close>: compact, sorted, and a \<^const>\<open>ValueError\<close> on a value
  that is not a number.\<close>

definition canonical :: "json \<Rightarrow> string result" where
  "canonical v = (if all_finite v then Inr (dumps '','' '':'' (sort_json v)) else Inl ValueError)"

section \<open>Sorting keys\<close>

lemma wf_sort_json [simp]: "wf_json (sort_json v) = wf_json v"
proof (induction v rule: sort_json.induct)
  case (2 d)
  have "list_all (\<lambda>kv. wf_json (snd kv)) (sort_items (map (\<lambda>kv. (fst kv, sort_json (snd kv))) d))
      = list_all (\<lambda>kv. wf_json (snd kv)) d"
    using "2.IH" by (fastforce simp: list_all_iff)
  then show ?case by (simp add: comp_def)
qed (auto simp: list_all_iff)

lemma finite_sort_json [simp]: "all_finite (sort_json v) = all_finite v"
proof (induction v rule: sort_json.induct)
  case (2 d)
  then show ?case by (fastforce simp: list_all_iff)
qed (auto simp: list_all_iff)

lemma sort_json_JObj: "sort_json (JObj d) = JObj (sort_items (map_vals sort_json d))"
  by (simp add: map_vals_def)

lemma jget_sort_json: "wf_json v \<Longrightarrow> jget k (sort_json v) = map_option sort_json (jget k v)"
  by (cases v) (auto simp: map_of_sort_items sort_json_JObj simp del: sort_json.simps(2))

section \<open>Printing is injective\<close>

text \<open>Each escape can be read back, so the escapes are a prefix code.\<close>

definition unhex :: "char \<Rightarrow> nat" where
  "unhex c = (if is_dec c then code c - 48 else code c - 87)"

lemma unhex_hex_digit: "n < 16 \<Longrightarrow> unhex (hex_digit n) = n"
  by (auto simp: unhex_def hex_digit_def is_dec_def)

fun unesc :: "string \<Rightarrow> (char \<times> string) option" where
  "unesc [] = None"
| "unesc (c # r) =
     (if c \<noteq> CHR 0x5C then Some (c, r)
      else (case r of
          [] \<Rightarrow> None
        | d # r' \<Rightarrow>
            if d = CHR ''n'' then Some (CHR 0x0A, r')
            else if d = CHR ''r'' then Some (CHR 0x0D, r')
            else if d = CHR ''t'' then Some (CHR 0x09, r')
            else if d = CHR ''f'' then Some (CHR 0x0C, r')
            else if d = CHR ''b'' then Some (CHR 0x08, r')
            else if d = CHR ''u'' then
              Some (char_of (16 * unhex (r' ! 2) + unhex (r' ! 3)), drop 4 r')
            else Some (d, r')))"

lemma unesc_esc_char: "unesc (esc_char c @ r) = Some (c, r)"
proof -
  have lo: "unhex (hex_digit (code c mod 16)) = code c mod 16"
    by (rule unhex_hex_digit) simp
  have "code c div 16 < 16"
    using code_less_256 [of c] by (simp add: div_less_iff_less_mult)
  then have hi: "unhex (hex_digit (code c div 16)) = code c div 16"
    by (rule unhex_hex_digit)
  have "char_of (16 * (code c div 16) + code c mod 16) = c"
    by (simp add: code_def)
  then show ?thesis by (simp add: esc_char_def lo hi)
qed

lemma esc_char_prefix_code:
  assumes "esc_char c @ r = esc_char d @ s"
  shows "c = d \<and> r = s"
proof -
  from assms have "unesc (esc_char c @ r) = unesc (esc_char d @ s)" by simp
  then show ?thesis by (simp only: unesc_esc_char option.inject prod.inject)
qed

lemma esc_char_not_quote: "esc_char c @ r \<noteq> CHR 0x22 # s"
  by (simp add: esc_char_def)

lemma esc_string_inject:
  "concat (map esc_char s) @ CHR 0x22 # r = concat (map esc_char t) @ CHR 0x22 # u
     \<Longrightarrow> s = t \<and> r = u"
proof (induction s arbitrary: t)
  case Nil
  show ?case
  proof (cases t)
    case Nil
    with Nil.prems show ?thesis by simp
  next
    case (Cons d ds)
    with Nil.prems show ?thesis by (simp add: esc_char_not_quote [symmetric])
  qed
next
  case (Cons c s)
  note IH = Cons.IH and prems = Cons.prems
  show ?case
  proof (cases t)
    case Nil
    with prems show ?thesis by (simp add: esc_char_not_quote)
  next
    case (Cons d ds)
    with prems have "c = d \<and> concat (map esc_char s) @ CHR 0x22 # r
                     = concat (map esc_char ds) @ CHR 0x22 # u"
      by (intro esc_char_prefix_code) simp
    with IH Cons show ?thesis by auto
  qed
qed

lemma quote_inject: "quote s @ r = quote t @ u \<Longrightarrow> s = t \<and> r = u"
  using esc_string_inject [of s r t u] by (simp add: quote_def)

text \<open>What may follow a printed value: nothing, a separator or a closing bracket.\<close>

definition delimited :: "string \<Rightarrow> bool" where
  "delimited r \<longleftrightarrow> r = [] \<or> hd r \<in> set '',]}''"

lemma not_num_delim: "delimited r \<Longrightarrow> takeWhile num_char r = []"
  by (cases r) (auto simp: delimited_def num_char_def is_dec_def code_def)

lemma takeWhile_num:
  "list_all num_char s \<Longrightarrow> delimited r \<Longrightarrow> takeWhile num_char (s @ r) = s"
  by (simp add: takeWhile_append2 not_num_delim list_all_iff takeWhile_append)

lemma show_int_num: "list_all num_char (show_int i)"
  by (auto simp: list_all_iff num_char_def dest: show_int_chars)

lemma num_text_inject:
  assumes "list_all num_char s" "list_all num_char t" "delimited r" "delimited u" "s @ r = t @ u"
  shows "s = t \<and> r = u"
  using assms by (metis same_append_eq takeWhile_num)

text \<open>The kind of a value is visible in its first character.\<close>

datatype jkind = KNull | KBool | KNum | KStr | KList | KObj | KBad

definition hd_kind :: "char \<Rightarrow> jkind" where
  "hd_kind c = (if c = CHR ''n'' then KNull else if c = CHR ''t'' \<or> c = CHR ''f'' then KBool
     else if c = CHR 0x22 then KStr else if c = CHR ''['' then KList
     else if c = CHR ''{'' then KObj else if num_char c then KNum else KBad)"

fun kind :: "json \<Rightarrow> jkind" where
  "kind JNull = KNull"
| "kind (JBool _) = KBool"
| "kind (JInt _) = KNum"
| "kind (JFloat _) = KNum"
| "kind (JStr _) = KStr"
| "kind (JList _) = KList"
| "kind (JObj _) = KObj"

lemma hd_kind_num: "list_all num_char s \<Longrightarrow> s \<noteq> [] \<Longrightarrow> hd_kind (hd s) = KNum"
  by (cases s) (auto simp: hd_kind_def num_char_def is_dec_def code_def)

lemma dumps_hd:
  assumes "wf_json v" "all_finite v"
  shows "dumps i k v \<noteq> [] \<and> hd_kind (hd (dumps i k v)) = kind v"
proof (cases v)
  case (JInt n)
  then show ?thesis using hd_kind_num [OF show_int_num [of n]] by simp
next
  case (JFloat f)
  with assms obtain s where "f = FFin s" "float_lexeme s"
    by (cases f) auto
  then show ?thesis using hd_kind_num [of s] JFloat by (simp add: show_float_def float_lexeme_def)
qed (auto simp: hd_kind_def quote_def)

lemma dumps_kind_eq:
  assumes "wf_json v" "all_finite v" "wf_json w" "all_finite w"
    and "dumps i k v @ r = dumps i k w @ u"
  shows "kind v = kind w"
  using assms dumps_hd by (metis hd_append2)

lemma dumps_not_close:
  assumes "wf_json v" "all_finite v"
  shows "dumps i k v @ r \<noteq> CHR '']'' # u"
  using dumps_hd [OF assms, of i k]
  by (cases "dumps i k v"; cases v) (auto simp: hd_kind_def num_char_def is_dec_def code_def)

text \<open>Separated items of a bracket: if each item is readable, so is the sequence.\<close>

lemma join_items_inject:
  assumes "\<And>x y r u. x \<in> set xs \<Longrightarrow> y \<in> set ys \<Longrightarrow> delimited r \<Longrightarrow> delimited u \<Longrightarrow>
             f x @ r = f y @ u \<Longrightarrow> x = y \<and> r = u"
    and "\<And>x u r. x \<in> set xs \<Longrightarrow> f x @ r \<noteq> close # u"
    and "\<And>y u r. y \<in> set ys \<Longrightarrow> f y @ r \<noteq> close # u"
    and "close \<in> set '']}''"
    and "join_with (CHR '','' # ws) (map f xs) @ close # r = join_with (CHR '','' # ws) (map f ys) @ close # u"
  shows "xs = ys \<and> r = u"
  using assms
proof (induction xs arbitrary: ys)
  case Nil
  show ?case
  proof (cases ys)
    case Nil
    with Nil.prems show ?thesis by simp
  next
    case (Cons y ys')
    then obtain z where "join_with (CHR '','' # ws) (map f ys) @ close # u = f y @ z"
      by (cases ys') auto
    with Nil.prems(5) have "f y @ z = close # r" by simp
    with Nil.prems(3) Cons show ?thesis by simp
  qed
next
  case (Cons x xs)
  note IH = Cons.IH and pr = Cons.prems
  have shape: "join_with (CHR '','' # ws) (map f (z # zs)) @ close # q =
      f z @ (if zs = [] then close # q
             else CHR '','' # ws @ join_with (CHR '','' # ws) (map f zs) @ close # q)" for z zs q
    by (cases zs) auto
  show ?case
  proof (cases ys)
    case Nil
    with pr(5) shape [of x xs r] obtain z where "f x @ z = close # u" by auto
    with pr(2) show ?thesis by simp
  next
    case (Cons y ys')
    let ?r = "if xs = [] then close # r
              else CHR '','' # ws @ join_with (CHR '','' # ws) (map f xs) @ close # r"
    let ?u = "if ys' = [] then close # u
              else CHR '','' # ws @ join_with (CHR '','' # ws) (map f ys') @ close # u"
    have eq: "f x @ ?r = f y @ ?u"
      using pr(5) unfolding Cons shape .
    have "delimited ?r" "delimited ?u" using pr(4) by (auto simp: delimited_def)
    from pr(1) [OF _ _ this eq] Cons have xy: "x = y" and ru: "?r = ?u" by auto
    show ?thesis
    proof (cases "xs = [] \<or> ys' = []")
      case True
      with ru pr(4) xy Cons show ?thesis by (auto split: if_splits)
    next
      case False
      with ru have tail: "join_with (CHR '','' # ws) (map f xs) @ close # r
                      = join_with (CHR '','' # ws) (map f ys') @ close # u" by simp
      have "xs = ys' \<and> r = u"
      proof (rule IH [OF _ _ _ pr(4) tail])
        show "a = b \<and> p = q" if "a \<in> set xs" "b \<in> set ys'" "delimited p" "delimited q" "f a @ p = f b @ q"
          for a b p q
          using that Cons by (intro pr(1)) simp_all
        show "f a @ p \<noteq> close # q" if "a \<in> set xs" for a p q
          using that by (intro pr(2)) simp
        show "f b @ p \<noteq> close # q" if "b \<in> set ys'" for b p q
          using that Cons by (intro pr(3)) simp
      qed
      with xy Cons show ?thesis by simp
    qed
  qed
qed

lemma quote_not_close: "quote s @ r \<noteq> CHR ''}'' # u"
  by (simp add: quote_def)

theorem dumps_prefix_code:
  assumes "wf_json v" "all_finite v" "wf_json w" "all_finite w" "delimited r" "delimited u"
    and "dumps (CHR '','' # ws) (CHR '':'' # ks) v @ r = dumps (CHR '','' # ws) (CHR '':'' # ks) w @ u"
  shows "v = w \<and> r = u"
  using assms
proof (induction v arbitrary: w r u)
  case JNull
  with dumps_kind_eq [OF JNull.prems(1-4,7)] show ?case by (cases w) auto
next
  case (JBool b)
  with dumps_kind_eq [OF JBool.prems(1-4,7)] show ?case by (cases w) (auto split: if_splits)
next
  case (JInt i)
  note pr = JInt.prems
  from dumps_kind_eq [OF pr(1-4,7)] consider (I) j where "w = JInt j" | (F) s where "w = JFloat (FFin s)"
    using pr(4) by (cases w) (auto split: pyfloat.splits)
  then show ?case
  proof cases
    case I
    with num_text_inject [OF show_int_num show_int_num pr(5,6), of i j] pr(7) show ?thesis by simp
  next
    case F
    with pr(3) have fl: "float_lexeme s" by simp
    with num_text_inject [OF show_int_num _ pr(5,6), of s i] pr(7) F have "show_int i = s"
      by (simp add: show_float_def float_lexeme_def)
    with fl have "CHR ''.'' \<in> set (show_int i) \<or> CHR ''e'' \<in> set (show_int i)"
      by (auto simp: float_lexeme_def)
    then show ?thesis by (auto dest!: show_int_chars simp: is_dec_def code_def)
  qed
next
  case (JFloat f)
  note pr = JFloat.prems
  from pr(1,2) obtain s where f: "f = FFin s" and fs: "float_lexeme s" by (cases f) auto
  from dumps_kind_eq [OF pr(1-4,7)] consider (I) j where "w = JInt j" | (F) t where "w = JFloat (FFin t)"
    using pr(4) by (cases w) (auto split: pyfloat.splits)
  then show ?case
  proof cases
    case I
    with num_text_inject [OF _ show_int_num pr(5,6), of s j] pr(7) f fs have "s = show_int j"
      by (simp add: show_float_def float_lexeme_def)
    with fs have "CHR ''.'' \<in> set (show_int j) \<or> CHR ''e'' \<in> set (show_int j)"
      by (auto simp: float_lexeme_def)
    then show ?thesis by (auto dest!: show_int_chars simp: is_dec_def code_def)
  next
    case F
    with num_text_inject [OF _ _ pr(5,6), of s t] pr(3,7) f fs show ?thesis
      by (simp add: show_float_def float_lexeme_def)
  qed
next
  case (JStr s)
  with dumps_kind_eq [OF JStr.prems(1-4,7)] show ?case by (cases w) (auto dest: quote_inject)
next
  case (JList xs)
  note pr = JList.prems
  from dumps_kind_eq [OF pr(1-4,7)] obtain ys where w: "w = JList ys" by (cases w) auto
  have "xs = ys \<and> r = u"
  proof (rule join_items_inject [where f = "dumps (CHR '','' # ws) (CHR '':'' # ks)"
        and close = "CHR '']''" and ws = ws])
    fix x y r u
    assume "x \<in> set xs" "y \<in> set ys" "delimited r" "delimited u"
      and eq: "dumps (CHR '','' # ws) (CHR '':'' # ks) x @ r = dumps (CHR '','' # ws) (CHR '':'' # ks) y @ u"
    with pr w show "x = y \<and> r = u"
      by (intro JList.IH [OF \<open>x \<in> set xs\<close>]) (auto simp: list_all_iff)
  qed (use pr w dumps_not_close in \<open>auto simp: list_all_iff\<close>)
  with w show ?case by simp
next
  case (JObj d)
  note pr = JObj.prems
  let ?D = "dumps (CHR '','' # ws) (CHR '':'' # ks)"
  from dumps_kind_eq [OF pr(1-4,7)] obtain e where w: "w = JObj e" by (cases w) auto
  have "d = e \<and> r = u"
  proof (rule join_items_inject [where f = "\<lambda>kv. quote (fst kv) @ (CHR '':'' # ks) @ ?D (snd kv)"
        and close = "CHR ''}''" and ws = ws])
    fix x y r u
    assume x: "x \<in> set d" and "y \<in> set e" "delimited r" "delimited u"
      and eq: "(quote (fst x) @ (CHR '':'' # ks) @ ?D (snd x)) @ r
             = (quote (fst y) @ (CHR '':'' # ks) @ ?D (snd y)) @ u"
    from eq have "fst x = fst y \<and> (CHR '':'' # ks) @ ?D (snd x) @ r = (CHR '':'' # ks) @ ?D (snd y) @ u"
      by (intro quote_inject) simp
    then have "fst x = fst y" and eq': "?D (snd x) @ r = ?D (snd y) @ u" by auto
    moreover have "snd x = snd y \<and> r = u"
      using pr w \<open>y \<in> set e\<close> x \<open>delimited r\<close> \<open>delimited u\<close>
      by (intro JObj.IH [OF x _ _ _ _ _ _ _ eq']) (auto simp: list_all_iff snds.simps prod_set_defs)
    ultimately show "x = y \<and> r = u" by (simp add: prod_eq_iff)
  qed (use pr w in \<open>simp_all add: quote_not_close\<close>)
  with w show ?case by simp
qed

lemma dumps_inject:
  assumes "wf_json v" "all_finite v" "wf_json w" "all_finite w"
    and "dumps (CHR '','' # ws) (CHR '':'' # ks) v = dumps (CHR '','' # ws) (CHR '':'' # ks) w"
  shows "v = w"
  using dumps_prefix_code [OF assms(1-4), of "[]" "[]" ws ks] assms(5) by (simp add: delimited_def)

lemma canonical_finite: "canonical v = Inr s \<Longrightarrow> all_finite v \<and> s = dumps '','' '':'' (sort_json v)"
  by (auto simp: canonical_def split: if_splits)

lemma canonical_eq_sorted:
  assumes "wf_json v" "wf_json w" "canonical v = Inr s" "canonical w = Inr s"
  shows "sort_json v = sort_json w"
  by (rule dumps_inject [where ws = "[]" and ks = "[]"])
    (use assms canonical_finite in auto)

lemma dumps_sorted_eq:
  assumes "wf_json v" "wf_json w" "all_finite v" "all_finite w" "dumps_sorted v = dumps_sorted w"
  shows "sort_json v = sort_json w"
  by (rule dumps_inject [where ws = "'' ''" and ks = "'' ''"])
    (use assms in \<open>simp_all add: dumps_sorted_def\<close>)

text \<open>Sorting twice is sorting once.\<close>

lemma sort_items_idem:
  "sort_items (map_vals f (sort_items d)) = map_vals f (sort_items d)"
proof -
  have "map fst (map_vals f (sort_items d)) = map fst (sort_items d)" by simp
  moreover have "sorted (map fst (sort_items d))" by (simp add: sort_items_def)
  ultimately have "sorted (map fst (map_vals f (sort_items d)))" by simp
  then show ?thesis unfolding sort_items_def [of "map_vals f (sort_items d)"] by (rule sort_key_id_if_sorted)
qed

lemma sort_json_idem: "sort_json (sort_json v) = sort_json v"
proof (induction v rule: sort_json.induct)
  case (2 d)
  have "sort_json (sort_json (JObj d)) = JObj (sort_items (map_vals sort_json (sort_items (map_vals sort_json d))))"
    by (simp only: sort_json_JObj)
  also have "\<dots> = JObj (map_vals sort_json (sort_items (map_vals sort_json d)))"
    by (simp only: sort_items_idem)
  also have "map_vals sort_json (sort_items (map_vals sort_json d)) = sort_items (map_vals sort_json d)"
    using 2 unfolding map_vals_def by (intro map_idI) (auto simp: map_vals_def)
  finally show ?case by (simp only: sort_json_JObj)
qed auto

lemma canonical_sort_json: "canonical (sort_json v) = canonical v"
  by (simp add: canonical_def sort_json_idem)

section \<open>Properties\<close>



end
