(* ===== verification/Template.thy ===== *)
theory Template
  imports Url PyJson
begin

text \<open>
  Text handling of the REST forwarder: the two kinds of references in operator templates
  (\<^verbatim>\<open>{name}\<close> in a path, \<^verbatim>\<open>{{secret:NAME}}\<close> in headers and bodies), percent encoding,
  UTF-8 and base64. A regular expression scan is a list of pieces: characters that no match
  covers, and matches with their group. No expression here needs backtracking, because what
  follows a repetition is outside its class.
\<close>

section \<open>References\<close>

definition is_ident :: "char \<Rightarrow> bool" where
  "is_ident c \<longleftrightarrow> is_alnum c \<or> code c = 95"

text \<open>\<^verbatim>\<open>\{([A-Za-z_][A-Za-z0-9_]*)\}\<close>: the group and the length of a match at the head.\<close>

definition match_var :: "string \<Rightarrow> (string \<times> nat) option" where
  "match_var s =
     (if starts_with ''{'' s then
        let name = takeWhile is_ident (drop 1 s) in
        if name \<noteq> [] \<and> \<not> is_dec (hd name) \<and> starts_with ''}'' (drop (1 + length name) s)
        then Some (name, length name + 2) else None
      else None)"

definition secret_marker :: string where
  "secret_marker = ''{{secret:''"

text \<open>\<^verbatim>\<open>\{\{secret:([A-Za-z0-9_-]+)\}\}\<close>.\<close>

definition match_secret :: "string \<Rightarrow> (string \<times> nat) option" where
  "match_secret s =
     (if starts_with secret_marker s then
        let name = takeWhile is_word (drop 9 s) in
        if name \<noteq> [] \<and> starts_with ''}}'' (drop (9 + length name) s)
        then Some (name, length name + 11) else None
      else None)"

datatype piece = Lit char | Ref string

text \<open>The pieces of a text after skipping \<open>k\<close> characters of a match.\<close>

fun pieces :: "(string \<Rightarrow> (string \<times> nat) option) \<Rightarrow> nat \<Rightarrow> string \<Rightarrow> piece list" where
  "pieces m k [] = []"
| "pieces m (Suc k) (c # cs) = pieces m k cs"
| "pieces m 0 (c # cs) =
     (case m (c # cs) of Some (name, n) \<Rightarrow> Ref name # pieces m (n - 1) cs | None \<Rightarrow> Lit c # pieces m 0 cs)"

abbreviation var_pieces :: "string \<Rightarrow> piece list" where
  "var_pieces \<equiv> pieces match_var 0"

abbreviation secret_pieces :: "string \<Rightarrow> piece list" where
  "secret_pieces \<equiv> pieces match_secret 0"

text \<open>\<^verbatim>\<open>findall\<close>, \<^verbatim>\<open>sub("", text)\<close> and \<^verbatim>\<open>sub(fill, text)\<close>; \<open>fill\<close> may raise, and the first
  match that does stops the substitution.\<close>

fun refs :: "piece list \<Rightarrow> string list" where
  "refs [] = []"
| "refs (Lit c # ps) = refs ps"
| "refs (Ref n # ps) = n # refs ps"

fun erase :: "piece list \<Rightarrow> string" where
  "erase [] = []"
| "erase (Lit c # ps) = c # erase ps"
| "erase (Ref n # ps) = erase ps"

fun fill_refs :: "(string \<Rightarrow> 'e + string) \<Rightarrow> piece list \<Rightarrow> 'e + string" where
  "fill_refs f [] = Inr []"
| "fill_refs f (Lit c # ps) = (case fill_refs f ps of Inl e \<Rightarrow> Inl e | Inr t \<Rightarrow> Inr (c # t))"
| "fill_refs f (Ref n # ps) =
     (case f n of Inl e \<Rightarrow> Inl e
      | Inr v \<Rightarrow> (case fill_refs f ps of Inl e \<Rightarrow> Inl e | Inr t \<Rightarrow> Inr (v @ t)))"

lemma fill_refs_cong:
  "(\<And>n. n \<in> set (refs ps) \<Longrightarrow> f n = g n) \<Longrightarrow> fill_refs f ps = fill_refs g ps"
  by (induction ps rule: refs.induct) (auto split: sum.splits)

lemma fill_refs_total: "(\<And>n. n \<in> set (refs ps) \<Longrightarrow> \<exists>v. f n = Inr v) \<Longrightarrow> \<exists>t. fill_refs f ps = Inr t"
  by (induction ps rule: refs.induct) (auto split: sum.splits, fastforce+)

lemma fill_refs_error: "fill_refs f ps = Inl e \<Longrightarrow> \<exists>n \<in> set (refs ps). f n = Inl e"
  by (induction ps rule: refs.induct) (auto split: sum.splits)

text \<open>What holds of the characters outside the references and of every filled value holds of the
  result.\<close>

lemma fill_refs_all:
  "fill_refs f ps = Inr t \<Longrightarrow> list_all P (erase ps) \<Longrightarrow>
     (\<And>n v. n \<in> set (refs ps) \<Longrightarrow> f n = Inr v \<Longrightarrow> list_all P v) \<Longrightarrow> list_all P t"
  by (induction ps arbitrary: t rule: refs.induct) (simp_all split: sum.splits, fastforce+)

lemma set_erase: "set (erase (pieces m k s)) \<subseteq> set s"
proof (induction s arbitrary: k)
  case (Cons c cs)
  have skip: "set (erase (pieces m i cs)) \<subseteq> set (c # cs)" for i using Cons.IH [of i] by auto
  show ?case using skip by (cases k) (auto split: option.splits)
qed simp

lemma fill_refs_count:
  "fill_refs f ps = Inr t \<Longrightarrow> (\<And>n v. f n = Inr v \<Longrightarrow> c \<notin> set v) \<Longrightarrow>
     count_list t c = count_list (erase ps) c"
  by (induction ps arbitrary: t rule: refs.induct) (auto split: sum.splits)

section \<open>Percent encoding\<close>

definition hex_upper :: "nat \<Rightarrow> char" where
  "hex_upper n = (if n < 10 then char_of (48 + n) else char_of (55 + n))"

definition unreserved :: "char \<Rightarrow> bool" where
  "unreserved c \<longleftrightarrow> is_alnum c \<or> c \<in> set ''_.-~''"

text \<open>\<^verbatim>\<open>urllib.parse.quote(value, safe="")\<close> on ASCII text.\<close>

definition quote_char :: "char \<Rightarrow> string" where
  "quote_char c = (if unreserved c then [c] else [CHR ''%'', hex_upper (code c div 16), hex_upper (code c mod 16)])"

definition url_quote :: "string \<Rightarrow> string" where
  "url_quote s = concat (map quote_char s)"

definition hex_val :: "char \<Rightarrow> nat option" where
  "hex_val c = (if is_dec c then Some (code c - 48)
     else if 65 \<le> code c \<and> code c \<le> 70 then Some (code c - 55)
     else if 97 \<le> code c \<and> code c \<le> 102 then Some (code c - 87) else None)"

text \<open>\<^verbatim>\<open>urllib.parse.unquote\<close> on ASCII text, before the bytes are read as UTF-8.\<close>

fun url_unquote :: "string \<Rightarrow> string" where
  "url_unquote (c # a # b # s) =
     (if c = CHR ''%''
      then (case (hex_val a, hex_val b) of
              (Some x, Some y) \<Rightarrow> char_of (16 * x + y) # url_unquote s
            | _ \<Rightarrow> c # url_unquote (a # b # s))
      else c # url_unquote (a # b # s))"
| "url_unquote s = s"

lemma hex_val_upper: "n < 16 \<Longrightarrow> hex_val (hex_upper n) = Some n"
  by (auto simp: hex_val_def hex_upper_def is_dec_def)

lemma unreserved_not_percent: "unreserved c \<Longrightarrow> c \<noteq> CHR ''%''"
  by (auto simp: unreserved_def char_simps code_def)

lemma unquote_plain: "c \<noteq> CHR ''%'' \<Longrightarrow> url_unquote (c # s) = c # url_unquote s"
proof (cases s)
  case (Cons a t)
  then show "c \<noteq> CHR ''%'' \<Longrightarrow> ?thesis" by (cases t) auto
qed simp

lemma unquote_quote_char: "url_unquote (quote_char c @ s) = c # url_unquote s"
proof (cases "unreserved c")
  case True
  then show ?thesis by (simp add: quote_char_def unquote_plain unreserved_not_percent)
next
  case False
  have "code c div 16 < 16" using code_less_256 [of c] by (simp add: div_less_iff_less_mult)
  moreover have "code c mod 16 < 16" by simp
  moreover have "char_of (16 * (code c div 16) + code c mod 16) = c" by (simp add: code_def)
  ultimately show ?thesis using False by (simp add: quote_char_def hex_val_upper)
qed

lemma unquote_quote: "url_unquote (url_quote s) = s"
  by (induction s) (simp_all add: url_quote_def unquote_quote_char)

lemma hex_upper_alnum: "n < 16 \<Longrightarrow> is_alnum (hex_upper n)"
  by (auto simp: hex_upper_def char_simps)

definition quoted_char :: "char \<Rightarrow> bool" where
  "quoted_char c \<longleftrightarrow> unreserved c \<or> c = CHR ''%''"

lemma quoted_quote: "list_all quoted_char (url_quote s)"
proof -
  have "list_all quoted_char (quote_char c)" for c
  proof (cases "unreserved c")
    case False
    have "code c div 16 < 16" using code_less_256 [of c] by (simp add: div_less_iff_less_mult)
    then show ?thesis using False
      by (simp add: quote_char_def quoted_char_def unreserved_def hex_upper_alnum)
  qed (simp add: quote_char_def quoted_char_def)
  then show ?thesis by (induction s) (auto simp: url_quote_def)
qed

lemma quote_not_Nil: "s \<noteq> [] \<Longrightarrow> url_quote s \<noteq> []"
  by (cases s) (auto simp: url_quote_def quote_char_def)

section \<open>UTF-8 and base64\<close>

definition utf8_encode :: "string \<Rightarrow> string" where
  "utf8_encode s = concat (map (\<lambda>c. if code c < 128 then [c]
     else [char_of (192 + code c div 64), char_of (128 + code c mod 64)]) s)"

definition b64_val :: "char \<Rightarrow> nat option" where
  "b64_val c = (if is_upper c then Some (code c - 65) else if is_lower c then Some (code c - 71)
     else if is_dec c then Some (code c + 4) else if c = CHR ''+'' then Some 62
     else if c = CHR ''/'' then Some 63 else None)"

text \<open>\<^verbatim>\<open>base64.b64decode(s, validate=True)\<close>; \<^const>\<open>None\<close> is a \<^verbatim>\<open>binascii.Error\<close>.\<close>

fun b64_decode :: "string \<Rightarrow> string option" where
  "b64_decode [] = Some []"
| "b64_decode [a, b, c, d] =
     (case (b64_val a, b64_val b) of
        (Some x, Some y) \<Rightarrow>
          (case (b64_val c, b64_val d) of
             (Some z, Some u) \<Rightarrow> Some [char_of (4 * x + y div 16), char_of (16 * (y mod 16) + z div 4), char_of (64 * (z mod 4) + u)]
           | (Some z, None) \<Rightarrow> if d = CHR ''='' then Some [char_of (4 * x + y div 16), char_of (16 * (y mod 16) + z div 4)] else None
           | (None, _) \<Rightarrow> if c = CHR ''='' \<and> d = CHR ''='' then Some [char_of (4 * x + y div 16)] else None)
      | _ \<Rightarrow> None)"
| "b64_decode (a # b # c # d # e # s) =
     (case (b64_val a, b64_val b, b64_val c, b64_val d) of
        (Some x, Some y, Some z, Some u) \<Rightarrow>
          map_option (\<lambda>t. char_of (4 * x + y div 16) # char_of (16 * (y mod 16) + z div 4) # char_of (64 * (z mod 4) + u) # t)
            (b64_decode (e # s))
      | _ \<Rightarrow> None)"
| "b64_decode s = None"

section \<open>Putting a URL together\<close>

text \<open>\<^verbatim>\<open>urllib.parse.urlunsplit\<close> without a fragment. The library gives an empty location a special
  treatment that a validated base URL does not reach.\<close>

definition urlunsplit :: "string \<Rightarrow> string \<Rightarrow> string \<Rightarrow> string \<Rightarrow> string" where
  "urlunsplit scheme netloc path query =
     (let p = (if netloc \<noteq> [] then ''//'' @ netloc @ (if path \<noteq> [] \<and> \<not> starts_with ''/'' path then ''/'' @ path else path)
               else path);
          s = (if scheme \<noteq> [] then scheme @ '':'' @ p else p)
      in if query \<noteq> [] then s @ ''?'' @ query else s)"

definition py_rstrip_slash :: "string \<Rightarrow> string" where
  "py_rstrip_slash s = rev (dropWhile (\<lambda>c. c = CHR ''/'') (rev s))"

end
