(* ===== verification/ApprovalSummary.thy ===== *)
theory ApprovalSummary
  imports PyJson
begin

text \<open>
  \<^verbatim>\<open>broker/approval_summary.py\<close> and \<^verbatim>\<open>broker/approval.py\<close>: the digest that binds a
  request to its arguments and the masked, bounded summary a human sees. The hash
  \<^verbatim>\<open>hashlib.sha256(text).hexdigest()\<close> is the argument \<open>sha\<close>; every result about it holds
  for any function of the text unless it names what it needs.
\<close>

section \<open>Binding a request\<close>

definition action_value :: "int \<Rightarrow> string \<Rightarrow> string \<Rightarrow> string \<Rightarrow> json \<Rightarrow> json \<Rightarrow> json \<Rightarrow> json" where
  "action_value caller_id tool op generation arguments reason nonce = JObj
     [(''caller_id'', JInt caller_id), (''tool'', JStr tool), (''op'', JStr op),
      (''operation_generation'', JStr generation), (''arguments'', arguments),
      (''reason'', reason), (''nonce'', nonce)]"

text \<open>\<^verbatim>\<open>bound_request\<close>: \<open>fresh\<close> is the reading of \<^verbatim>\<open>secrets.token_hex(32)\<close>, used when
  the caller passes no nonce.\<close>

definition bound_request ::
  "(string \<Rightarrow> string) \<Rightarrow> int \<Rightarrow> string \<Rightarrow> string \<Rightarrow> string \<Rightarrow> json \<Rightarrow> json \<Rightarrow> json \<Rightarrow> string
     \<Rightarrow> (string \<times> string) result" where
  "bound_request sha caller_id tool op generation arguments reason nonce fresh =
     (case canonical (action_value caller_id tool op generation arguments reason
              (if nonce \<noteq> JNull then nonce else JStr fresh)) of
        Inl e \<Rightarrow> Inl e
      | Inr action \<Rightarrow> Inr (action, sha action))"

section \<open>Configured pointers\<close>

fun bad_tilde :: "string \<Rightarrow> bool" where
  "bad_tilde [] = False"
| "bad_tilde (c # cs) =
     ((c = CHR ''~'' \<and> (cs = [] \<or> hd cs \<notin> set ''01'')) \<or> bad_tilde cs)"

definition bad_pointer :: "json \<Rightarrow> bool" where
  "bad_pointer p =
     (case p of
        JStr s \<Rightarrow> \<not> starts_with ''/'' s \<or> CHR ''*'' \<in> set s \<or> length s > 256 \<or> bad_tilde s
      | _ \<Rightarrow> True)"

definition the_str :: "json \<Rightarrow> string" where
  "the_str v = (case v of JStr s \<Rightarrow> s | _ \<Rightarrow> [])"

definition validate_fields :: "json \<Rightarrow> string list result" where
  "validate_fields fields =
     (case fields of
        JList ps \<Rightarrow>
          if length ps > 32 \<or> list_ex bad_pointer ps \<or> \<not> distinct ps then Inl ValueError
          else Inr (map the_str ps)
      | _ \<Rightarrow> Inl ValueError)"

section \<open>Masking\<close>

definition sensitive_parts :: "string list" where
  "sensitive_parts = [''password'', ''passwd'', ''passphrase'', ''secret'', ''token'', ''credential'',
     ''apikey'', ''authorization'', ''cookie'', ''privatekey'', ''session'', ''bearer'']"

definition sensitive_names :: "string list" where
  "sensitive_names = [''pwd'', ''auth'', ''accesskey'', ''key'', ''pin'', ''otp'', ''ssn'', ''reason'',
     ''justification'']"

definition sensitive :: "string \<Rightarrow> bool" where
  "sensitive name =
     (let n = filter (\<lambda>c. is_lower c \<or> is_dec c) (py_lower name)
      in list_ex (\<lambda>part. contains part n) sensitive_parts \<or> n \<in> set sensitive_names)"

definition masked :: json where
  "masked = JStr ''[MASKED]''"

definition long_name :: string where
  "long_name = ''[OMITTED: long field name]''"

text \<open>\<^verbatim>\<open>result[k] = v\<close> for each pair in turn.\<close>

definition build_dict :: "(string \<times> json) list \<Rightarrow> (string \<times> json) list" where
  "build_dict kvs = foldl (\<lambda>d kv. AList.update (fst kv) (snd kv) d) [] kvs"

function mask :: "nat \<Rightarrow> json \<Rightarrow> json" where
  "mask depth (JObj d) =
     (if depth \<ge> 4 then JStr ''[OMITTED: nesting limit]''
      else
        let result = build_dict (map (\<lambda>kv.
              if length (fst kv) > 64 then (long_name, masked)
              else (fst kv, if sensitive (fst kv) then masked else mask (depth + 1) (snd kv)))
              (take 16 d))
        in JObj (if length d > 16
                 then AList.update ''[OMITTED]'' (JStr (show_nat (length d - 16) @ '' additional fields'')) result
                 else result))"
| "mask depth (JList xs) =
     (if depth \<ge> 4 then JStr ''[OMITTED: nesting limit]''
      else JList (map (mask (depth + 1)) (take 16 xs)
             @ (if length xs > 16
                then [JStr (''[OMITTED: '' @ show_nat (length xs - 16) @ '' additional items]'')] else [])))"
| "mask depth (JStr s) =
     (if length s > 256 then JStr (take 256 s @ ''[TRUNCATED: remaining text omitted]'') else JStr s)"
| "mask depth JNull = JNull"
| "mask depth (JBool b) = JBool b"
| "mask depth (JInt i) = JInt i"
| "mask depth (JFloat x) = JFloat x"
  by pat_completeness auto
termination
  by (relation "measure (\<lambda>(depth, _). 4 - depth)") auto

section \<open>The summary\<close>

fun replace_pair :: "char \<Rightarrow> char \<Rightarrow> char \<Rightarrow> string \<Rightarrow> string" where
  "replace_pair a b r (x # y # zs) =
     (if x = a \<and> y = b then r # replace_pair a b r zs else x # replace_pair a b r (y # zs))"
| "replace_pair a b r s = s"

definition pointer_parts :: "string \<Rightarrow> string list" where
  "pointer_parts pointer =
     map (\<lambda>p. replace_pair (CHR ''~'') (CHR ''0'') (CHR ''~'')
                (replace_pair (CHR ''~'') (CHR ''1'') (CHR ''/'') p))
       (split_on (CHR ''/'') (drop 1 pointer))"

definition index_text :: "string \<Rightarrow> bool" where
  "index_text s \<longleftrightarrow> s = ''0'' \<or> (s \<noteq> [] \<and> list_all is_dec s \<and> hd s \<noteq> CHR ''0'')"

text \<open>Follow one part of a pointer; \<^const>\<open>None\<close> is any of the exceptions the loop catches.\<close>

definition follow :: "json \<Rightarrow> string \<Rightarrow> json option" where
  "follow v part =
     (case v of
        JList xs \<Rightarrow>
          if \<not> index_text part then None
          else (case dec_value 0 part of
                  None \<Rightarrow> None
                | Some i \<Rightarrow> if i < length xs then Some (xs ! i) else None)
      | JObj d \<Rightarrow> map_of d part
      | _ \<Rightarrow> None)"

fun walk :: "json \<Rightarrow> string list \<Rightarrow> json option" where
  "walk v [] = Some v"
| "walk v (p # ps) = (case follow v p of None \<Rightarrow> None | Some w \<Rightarrow> walk w ps)"

definition safe_value :: "json \<Rightarrow> string \<Rightarrow> json" where
  "safe_value arguments pointer =
     (let parts = pointer_parts pointer
      in case walk arguments parts of
           None \<Rightarrow> JStr ''[OMITTED: configured field not present]''
         | Some v \<Rightarrow> if list_ex sensitive parts then masked else mask 0 v)"

definition summary_entry :: "string \<Rightarrow> json \<Rightarrow> json" where
  "summary_entry pointer safe = JObj [(''field'', JStr pointer), (''value'', safe)]"

definition canonical_length :: "json \<Rightarrow> nat result" where
  "canonical_length v = (case canonical v of Inl e \<Rightarrow> Inl e | Inr s \<Rightarrow> Inr (length s))"

text \<open>One turn of the loop over the pointers: entries so far and values omitted for size.\<close>

definition summary_step :: "json \<Rightarrow> json list \<times> nat \<Rightarrow> string \<Rightarrow> (json list \<times> nat) result" where
  "summary_step arguments st pointer =
     (let entries = fst st; size_omitted = snd st;
          entry = summary_entry pointer (safe_value arguments pointer)
      in case (canonical_length entry, canonical_length (JList (entries @ [entry]))) of
           (Inr n, Inr m) \<Rightarrow>
             (let (entry, size_omitted) =
                (if n > 1000 \<or> m > 3600
                 then (summary_entry pointer (JStr ''[OMITTED: summary size limit]''), size_omitted + 1)
                 else (entry, size_omitted))
              in case canonical_length (JList (entries @ [entry])) of
                   Inl e \<Rightarrow> Inl e
                 | Inr k \<Rightarrow> Inr (if k \<le> 3600 then entries @ [entry] else entries, size_omitted))
         | (Inl e, _) \<Rightarrow> Inl e
         | (_, Inl e) \<Rightarrow> Inl e)"

fun summary_loop :: "json \<Rightarrow> string list \<Rightarrow> json list \<times> nat \<Rightarrow> (json list \<times> nat) result" where
  "summary_loop arguments [] st = Inr st"
| "summary_loop arguments (p # ps) st =
     (case summary_step arguments st p of Inl e \<Rightarrow> Inl e | Inr st' \<Rightarrow> summary_loop arguments ps st')"

definition omissions_text :: "nat \<Rightarrow> nat \<Rightarrow> string list" where
  "omissions_text n size_omitted =
     (if n = 0 then [''ALL arguments omitted: no approval_fields configured.''] else [])
     @ [''Fields outside configured pointers are omitted.'', ''Agent justification is omitted.'']
     @ (if size_omitted \<noteq> 0
        then [''Configured fields: '' @ show_nat n @ ''; values shown: '' @ show_nat (n - size_omitted)
                @ ''; omitted for summary size: '' @ show_nat size_omitted
                @ '' (labels included where space permits).'']
             @ (if size_omitted = n
                then [''ALL configured field values omitted: summary size limit; 0 shown.''] else [])
        else [])"

definition summarize :: "json \<Rightarrow> string list \<Rightarrow> string result" where
  "summarize arguments fields =
     (case summary_loop arguments fields ([], 0) of
        Inl e \<Rightarrow> Inl e
      | Inr (entries, size_omitted) \<Rightarrow>
          canonical (JObj [(''selected_fields'', JList entries),
                           (''omissions'', JList (map JStr (omissions_text (length fields) size_omitted)))]))"

section \<open>The card\<close>

record operation_card =
  card_request_id :: int
  card_title :: string
  card_caller :: string
  card_tool :: string
  card_op :: string
  card_risk :: json
  card_reason :: string
  card_justification :: "string option"
  card_details :: "string option"
  card_endpoint :: "string option"
  card_installation_id :: "string option"
  card_request_digest :: "string option"
  card_operation_generation :: "string option"

definition build_card ::
  "int \<Rightarrow> string \<Rightarrow> string \<Rightarrow> string \<Rightarrow> json \<Rightarrow> string \<Rightarrow> string option \<Rightarrow> string option \<Rightarrow> string option
     \<Rightarrow> string option \<Rightarrow> string option \<Rightarrow> string option \<Rightarrow> operation_card" where
  "build_card request_id caller tool op risk reason justification details endpoint
     installation_id request_digest operation_generation =
     (let label = tool @ ''.'' @ op
      in \<lparr>card_request_id = request_id, card_title = ''Approve '' @ label @ '' for caller '' @ caller,
          card_caller = caller, card_tool = tool, card_op = op, card_risk = risk,
          card_reason = reason, card_justification = justification, card_details = details,
          card_endpoint = endpoint, card_installation_id = installation_id,
          card_request_digest = request_digest, card_operation_generation = operation_generation\<rparr>)"

datatype surface_outcome = SPending | SApproved | SRejected | SExpired | SCancelled

record surface_state =
  ss_outcome :: surface_outcome
  ss_approver :: "string option"
  ss_note :: "string option"
  ss_decided_at :: "string option"

section \<open>What the binding fixes\<close>

lemma action_value_parts [simp]:
  "jget ''arguments'' (action_value c t p g a r n) = Some a"
  "jget ''reason'' (action_value c t p g a r n) = Some r"
  "jget ''nonce'' (action_value c t p g a r n) = Some n"
  "jget ''caller_id'' (action_value c t p g a r n) = Some (JInt c)"
  "jget ''tool'' (action_value c t p g a r n) = Some (JStr t)"
  "jget ''op'' (action_value c t p g a r n) = Some (JStr p)"
  "jget ''operation_generation'' (action_value c t p g a r n) = Some (JStr g)"
  by (simp_all add: action_value_def)

lemma wf_action_value [simp]:
  "wf_json (action_value c t p g a r n) \<longleftrightarrow> wf_json a \<and> wf_json r \<and> wf_json n"
  by (auto simp: action_value_def)

lemma finite_action_value [simp]:
  "all_finite (action_value c t p g a r n) \<longleftrightarrow> all_finite a \<and> all_finite r \<and> all_finite n"
  by (auto simp: action_value_def)

lemma is_obj_sort_json [simp]: "is_obj (sort_json v) = is_obj v"
  by (cases v) (auto simp: is_obj_def)

lemma sort_json_sorted [simp]: "sort_json (JStr s) = JStr s" "sort_json (JInt i) = JInt i"
  "sort_json JNull = JNull"
  by simp_all

lemma sorted_action_inject:
  assumes wf: "wf_json a" "wf_json r" "wf_json n" "wf_json a'" "wf_json r'" "wf_json n'"
    and eq: "sort_json (action_value c t p g a r n) = sort_json (action_value c' t' p' g' a' r' n')"
  shows "c = c' \<and> t = t' \<and> p = p' \<and> g = g' \<and> sort_json a = sort_json a' \<and> sort_json r = sort_json r'
    \<and> sort_json n = sort_json n'"
proof -
  let ?v = "action_value c t p g a r n" and ?w = "action_value c' t' p' g' a' r' n'"
  have "map_option sort_json (jget k ?v) = map_option sort_json (jget k ?w)" for k
    using jget_sort_json [of ?v k] jget_sort_json [of ?w k] wf eq by simp
  from this [of "''caller_id''"] this [of "''tool''"] this [of "''op''"]
    this [of "''operation_generation''"] this [of "''arguments''"] this [of "''reason''"]
    this [of "''nonce''"]
  show ?thesis by simp
qed

section \<open>What the summary hides\<close>

text \<open>No member with a sensitive name shows its value, at any depth.\<close>

fun hides_sensitive :: "json \<Rightarrow> bool" where
  "hides_sensitive (JObj d) =
     list_all (\<lambda>kv. (sensitive (fst kv) \<longrightarrow> snd kv = masked) \<and> hides_sensitive (snd kv)) d"
| "hides_sensitive (JList xs) = list_all hides_sensitive xs"
| "hides_sensitive _ = True"

lemma set_alist_update: "set (AList.update k v d) \<subseteq> insert (k, v) (set d)"
  by (induction d) auto

lemma set_build_dict: "set (build_dict kvs) \<subseteq> set kvs"
proof (induction kvs rule: rev_induct)
  case (snoc kv kvs)
  have "build_dict (kvs @ [kv]) = AList.update (fst kv) (snd kv) (build_dict kvs)"
    by (simp add: build_dict_def)
  then show ?case using snoc set_alist_update [of "fst kv" "snd kv" "build_dict kvs"] by auto
qed (simp add: build_dict_def)

lemma omitted_not_sensitive: "\<not> sensitive ''[OMITTED]''"
  by code_simp

definition hidden_item :: "string \<times> json \<Rightarrow> bool" where
  "hidden_item kv \<longleftrightarrow> (sensitive (fst kv) \<longrightarrow> snd kv = masked) \<and> hides_sensitive (snd kv)"

lemma hides_sensitive_JObj: "hides_sensitive (JObj d) \<longleftrightarrow> (\<forall>kv \<in> set d. hidden_item kv)"
  by (simp add: list_all_iff hidden_item_def)

lemma hidden_build_dict:
  "(\<And>kv. kv \<in> set d \<Longrightarrow> hidden_item (f kv)) \<Longrightarrow> \<forall>kv \<in> set (build_dict (map f d)). hidden_item kv"
  using set_build_dict [of "map f d"] by auto

lemma hidden_update:
  "\<forall>kv \<in> set d. hidden_item kv \<Longrightarrow> hidden_item (k, v) \<Longrightarrow>
     \<forall>kv \<in> set (AList.update k v d). hidden_item kv"
  using set_alist_update [of k v d] by blast

lemma mask_hides_sensitive: "hides_sensitive (mask depth v)"
proof (induction depth v rule: mask.induct)
  case (1 depth d)
  show ?case
  proof (cases "depth \<ge> 4")
    case False
    let ?item = "\<lambda>kv. if length (fst kv) > 64 then (long_name, masked)
              else (fst kv, if sensitive (fst kv) then masked else mask (depth + 1) (snd kv))"
    have "hidden_item (?item kv)" if "kv \<in> set (take 16 d)" for kv
      using "1.IH" [OF False that] by (simp add: hidden_item_def masked_def)
    then have items: "\<forall>kv \<in> set (build_dict (map ?item (take 16 d))). hidden_item kv"
      by (rule hidden_build_dict)
    have "\<forall>kv \<in> set (AList.update ''[OMITTED]'' (JStr s) (build_dict (map ?item (take 16 d)))).
        hidden_item kv" for s
      by (rule hidden_update [OF items]) (simp add: hidden_item_def omitted_not_sensitive)
    with items False show ?thesis
      by (simp only: mask.simps Let_def if_False if_cancel hides_sensitive_JObj split: if_split) simp
  qed simp
next
  case (2 depth xs)
  then show ?case by (auto simp: list_all_iff dest: in_set_takeD)
qed simp_all

lemma safe_value_hides: "hides_sensitive (safe_value arguments pointer)"
  by (auto simp: safe_value_def Let_def mask_hides_sensitive masked_def split: option.splits)

lemma safe_value_sensitive_path:
  "list_ex sensitive (pointer_parts pointer) \<Longrightarrow>
     safe_value arguments pointer = masked \<or>
     safe_value arguments pointer = JStr ''[OMITTED: configured field not present]''"
  by (auto simp: safe_value_def Let_def split: option.splits)

section \<open>How large a summary gets\<close>

definition entries_fit :: "json list \<Rightarrow> bool" where
  "entries_fit entries \<longleftrightarrow> (case canonical (JList entries) of Inl _ \<Rightarrow> False | Inr s \<Rightarrow> length s \<le> 3600)"

lemma summary_step_fits:
  "entries_fit (fst st) \<Longrightarrow> summary_step arguments st p = Inr st' \<Longrightarrow> entries_fit (fst st')"
  by (auto simp: summary_step_def Let_def entries_fit_def canonical_length_def
      split: sum.splits if_splits)

lemma summary_loop_fits:
  "entries_fit (fst st) \<Longrightarrow> summary_loop arguments ps st = Inr st' \<Longrightarrow> entries_fit (fst st')"
  by (induction arguments ps st rule: summary_loop.induct)
    (auto split: sum.splits intro: summary_step_fits)

lemma entries_fit_Nil [simp]: "entries_fit []"
  by (simp add: entries_fit_def canonical_def)

text \<open>Every entry of the result names a configured pointer and shows only a safe value.\<close>

definition entry_ok :: "json \<Rightarrow> string list \<Rightarrow> json \<Rightarrow> bool" where
  "entry_ok arguments pointers e \<longleftrightarrow>
     (\<exists>p \<in> set pointers. e = summary_entry p (safe_value arguments p)
        \<or> e = summary_entry p (JStr ''[OMITTED: summary size limit]''))"

lemma summary_step_entries:
  assumes "summary_step arguments st p = Inr st'"
  shows "set (fst st') \<subseteq> set (fst st) \<union> {e. entry_ok arguments [p] e}"
  using assms
  by (auto simp: summary_step_def Let_def entry_ok_def split: sum.splits if_splits)

lemma summary_loop_entries:
  "summary_loop arguments ps st = Inr st' \<Longrightarrow>
     set (fst st') \<subseteq> set (fst st) \<union> {e. entry_ok arguments ps e}"
proof (induction arguments ps st rule: summary_loop.induct)
  case (2 arguments p ps st)
  then obtain st1 where st1: "summary_step arguments st p = Inr st1"
      and rest: "summary_loop arguments ps st1 = Inr st'"
    by (auto split: sum.splits)
  from "2.IH" [OF st1 rest] summary_step_entries [OF st1] show ?case
    by (fastforce simp: entry_ok_def)
qed simp

section \<open>Properties\<close>

lemma bound_request_Inr:
  assumes "bound_request sha c t p g a r n fresh = Inr (text, digest)"
  shows "canonical (action_value c t p g a r (if n \<noteq> JNull then n else JStr fresh)) = Inr text \<and> digest = sha text"
  using assms by (auto simp: bound_request_def split: sum.splits)





end
