(* ===== verification/Registry.thy ===== *)
theory Registry
  imports ApprovalSummary Url
begin

text \<open>
  \<^verbatim>\<open>broker/registry.py\<close>: the tool catalog. Building it from the parsed \<^verbatim>\<open>toolyard.toml\<close>
  files (\<open>add_toml\<close>), resolving an operation for execution (\<open>lookup\<close>) and discovery. A parsed
  TOML document is a \<^typ>\<open>json\<close> value. \<^verbatim>\<open>hashlib.sha256\<close> is \<open>sha\<close>, and \<open>files\<close> reads a file
  (\<^const>\<open>None\<close> is an \<^verbatim>\<open>OSError\<close>).
\<close>

section \<open>The catalog\<close>

record rest_meta =
  rm_verb :: string
  rm_path_template :: string
  rm_base_url_host :: string
  rm_body_kind :: string

record op_meta =
  om_risk :: json
  om_description :: json
  om_args :: json
  om_approval_fields :: "string list option"
  om_rest :: "rest_meta option"

record tool_entry =
  te_port :: int
  te_type :: string
  te_ops :: "(string \<times> op_meta) list"
  te_manifest_path :: string
  te_manifest_digest :: string

type_synonym catalog = "(string \<times> tool_entry) list"

record tool_op =
  to_tool :: string
  to_op :: string
  to_risk :: json
  to_port :: int
  to_type :: string
  to_verb :: "string option"
  to_path_template :: "string option"
  to_base_url_host :: "string option"
  to_body_kind :: "string option"
  to_generation :: string
  to_approval_fields :: "string list"

text \<open>The dictionaries of the catalog, whose sorted text is hashed into the generation.\<close>

definition meta_json :: "op_meta \<Rightarrow> json" where
  "meta_json m = JObj
     ([(''risk'', om_risk m), (''description'', om_description m), (''args'', om_args m)]
      @ (case om_approval_fields m of None \<Rightarrow> [] | Some fs \<Rightarrow> [(''approval_fields'', JList (map JStr fs))])
      @ (case om_rest m of None \<Rightarrow> []
         | Some r \<Rightarrow> [(''verb'', JStr (rm_verb r)), (''path_template'', JStr (rm_path_template r)),
                      (''base_url_host'', JStr (rm_base_url_host r)), (''body_kind'', JStr (rm_body_kind r))]))"

definition entry_json :: "tool_entry \<Rightarrow> json" where
  "entry_json e = JObj
     [(''port'', JInt (te_port e)), (''type'', JStr (te_type e)),
      (''ops'', JObj (map_vals meta_json (te_ops e))),
      (''manifest_path'', JStr (te_manifest_path e)), (''manifest_digest'', JStr (te_manifest_digest e))]"

definition generation_of :: "(string \<Rightarrow> string) \<Rightarrow> tool_entry \<Rightarrow> string" where
  "generation_of sha e = sha (dumps_sorted (entry_json e))"

section \<open>Loading\<close>

definition tool_types :: "string list" where
  "tool_types = [''api'', ''mcp'', ''rest'']"

text \<open>\<^verbatim>\<open>_ID_RE.fullmatch\<close>.\<close>

definition id_ok :: "string \<Rightarrow> bool" where
  "id_ok s \<longleftrightarrow> s \<noteq> [] \<and> is_alnum (hd s) \<and> list_all is_word s"

text \<open>\<^verbatim>\<open>d.get(k, default)\<close>.\<close>

definition jget_or :: "json \<Rightarrow> string \<Rightarrow> json \<Rightarrow> json" where
  "jget_or dflt k v = (case jget k v of None \<Rightarrow> dflt | Some x \<Rightarrow> x)"

definition is_host_char :: "char \<Rightarrow> bool" where
  "is_host_char c \<longleftrightarrow> is_alnum c \<or> c \<in> set ''.-''"

definition rest_base_url_host :: "json \<Rightarrow> string result" where
  "rest_base_url_host data =
     (case jget ''base_url'' data of
        Some (JStr base_url) \<Rightarrow>
          if base_url = [] then Inl ValueError
          else (case urlsplit base_url of
             Inl e \<Rightarrow> Inl e
           | Inr u \<Rightarrow>
               if url_scheme u \<notin> {''http'', ''https''} then Inl ValueError
               else (case url_hostname u of
                  None \<Rightarrow> Inl ValueError
                | Some host \<Rightarrow>
                    if url_username u \<noteq> None \<or> url_password u \<noteq> None then Inl ValueError
                    else if \<not> list_all is_host_char host then Inl ValueError
                    else (case url_port u of
                       Inl e \<Rightarrow> Inl e
                     | Inr None \<Rightarrow> Inr host
                     | Inr (Some p) \<Rightarrow> Inr (host @ '':'' @ show_nat p))))
      | _ \<Rightarrow> Inl ValueError)"

definition rest_verbs :: "string list" where
  "rest_verbs = [''GET'', ''POST'', ''PUT'', ''PATCH'', ''DELETE'']"

text \<open>The part of the loop body that runs for an operation of a rest tool.\<close>

definition rest_fields :: "string \<Rightarrow> json \<Rightarrow> rest_meta result" where
  "rest_fields host o' =
     (case (jget ''verb'' o', jget ''path'' o') of
        (Some (JStr verb), path) \<Rightarrow>
          if py_upper verb \<notin> set rest_verbs then Inl ValueError
          else (case path of
             Some (JStr pt) \<Rightarrow>
               if \<not> starts_with ''/'' pt \<or> starts_with ''//'' pt then Inl ValueError
               else
                 (case (case jget ''body_kind'' o' of
                          None \<Rightarrow> JStr (if py_upper verb \<in> {''GET'', ''DELETE''} then ''none'' else ''text'')
                        | Some b \<Rightarrow> b) of
                    JStr bk \<Rightarrow>
                      if bk \<in> {''none'', ''text'', ''binary''}
                      then Inr \<lparr>rm_verb = py_upper verb, rm_path_template = pt, rm_base_url_host = host,
                                rm_body_kind = bk\<rparr>
                      else Inl ValueError
                  | JList _ \<Rightarrow> Inl TypeError
                  | JObj _ \<Rightarrow> Inl TypeError
                  | _ \<Rightarrow> Inl ValueError)
           | _ \<Rightarrow> Inl ValueError)
      | _ \<Rightarrow> Inl ValueError)"

text \<open>One turn of the loop over \<^verbatim>\<open>operations\<close>; \<open>host\<close> is given for a rest tool.\<close>

definition add_op :: "string option \<Rightarrow> (string \<times> op_meta) list \<Rightarrow> json \<Rightarrow> (string \<times> op_meta) list result" where
  "add_op host ops o' =
     (if \<not> is_obj o' then Inl AttributeError else
      case jget ''name'' o' of
        Some (JStr name) \<Rightarrow>
          if \<not> id_ok name then Inl ValueError
          else if map_of ops name \<noteq> None then Inl ValueError
          else (case (case host of None \<Rightarrow> Inr None
                      | Some h \<Rightarrow> (case rest_fields h o' of Inl e \<Rightarrow> Inl e | Inr r \<Rightarrow> Inr (Some r))) of
             Inl e \<Rightarrow> Inl e
           | Inr rest \<Rightarrow>
               (case validate_fields (jget_or (JList []) ''approval_fields'' o') of
                  Inl e \<Rightarrow> Inl e
                | Inr fs \<Rightarrow>
                    Inr (ops @ [(name,
                       \<lparr>om_risk = jget_or (JStr ''unknown'') ''risk'' o',
                        om_description = jget_or (JStr '''') ''description'' o',
                        om_args = jget_or (JList []) ''args'' o',
                        om_approval_fields = Some fs, om_rest = rest\<rparr>)])))
      | _ \<Rightarrow> Inl ValueError)"

fun add_ops :: "string option \<Rightarrow> (string \<times> op_meta) list \<Rightarrow> json list \<Rightarrow> (string \<times> op_meta) list result" where
  "add_ops host ops [] = Inr ops"
| "add_ops host ops (o' # os) =
     (case add_op host ops o' of Inl e \<Rightarrow> Inl e | Inr ops' \<Rightarrow> add_ops host ops' os)"

text \<open>Python truth of a value.\<close>

definition truthy :: "json \<Rightarrow> bool" where
  "truthy v = (case v of JNull \<Rightarrow> False | JBool b \<Rightarrow> b | JInt i \<Rightarrow> i \<noteq> 0 | JFloat f \<Rightarrow> f \<noteq> FFin ''0.0'' \<and> f \<noteq> FFin ''-0.0''
     | JStr s \<Rightarrow> s \<noteq> [] | JList xs \<Rightarrow> xs \<noteq> [] | JObj d \<Rightarrow> d \<noteq> [])"

definition declares_secret :: "json \<Rightarrow> bool" where
  "declares_secret data =
     (case jget ''secrets'' data of
        Some (JList xs) \<Rightarrow> list_ex (\<lambda>s. is_obj s \<and> truthy (jget0 ''name'' s)) xs
      | _ \<Rightarrow> False)"

definition refresh_meta :: "op_meta" where
  "refresh_meta = \<lparr>om_risk = JStr ''read'',
     om_description = JStr ''Re-pull every declared secret from the backend into the tool's in-memory cache.'',
     om_args = JList [], om_approval_fields = None, om_rest = None\<rparr>"

definition refresh_one_meta :: "op_meta" where
  "refresh_one_meta = \<lparr>om_risk = JStr ''read'',
     om_description = JStr ''Re-pull a single secret by name (arg: name).'',
     om_args = JList [JObj [(''name'', JStr ''name''), (''type'', JStr ''string''), (''required'', JBool True),
                            (''description'', JStr ''Secret name to refresh.'')]],
     om_approval_fields = None, om_rest = None\<rparr>"

definition inject_refresh :: "json \<Rightarrow> (string \<times> op_meta) list \<Rightarrow> (string \<times> op_meta) list result" where
  "inject_refresh data ops =
     (if \<not> declares_secret data then Inr ops
      else if map_of ops ''refresh'' \<noteq> None \<or> map_of ops ''refresh_one'' \<noteq> None then Inl ValueError
      else Inr (ops @ [(''refresh'', refresh_meta), (''refresh_one'', refresh_one_meta)]))"

definition valid_port :: "json \<Rightarrow> int option" where
  "valid_port v = (case v of JInt p \<Rightarrow> if 1 \<le> p \<and> p \<le> 65535 then Some p else None | _ \<Rightarrow> None)"

text \<open>What the loop \<^verbatim>\<open>for o in data.get("operations", [])\<close> runs over: the keys of a table and
  the characters of a string are items without a \<^verbatim>\<open>get\<close>, other values cannot be iterated.\<close>

definition iter_items :: "json \<Rightarrow> json list result" where
  "iter_items v = (case v of JList xs \<Rightarrow> Inr xs | JObj d \<Rightarrow> Inr (map (JStr \<circ> fst) d)
     | JStr s \<Rightarrow> Inr (map (\<lambda>c. JStr [c]) s) | _ \<Rightarrow> Inl TypeError)"

text \<open>\<^verbatim>\<open>_add_toml\<close>: \<open>path\<close> is the resolved path of the file, \<open>raw\<close> its bytes and \<open>data\<close> what
  \<^verbatim>\<open>tomllib.loads\<close> makes of them.\<close>

definition add_toml ::
  "(string \<Rightarrow> string) \<Rightarrow> string \<Rightarrow> string \<Rightarrow> json \<Rightarrow> catalog \<Rightarrow> catalog result" where
  "add_toml sha path raw data catalog =
     (case jget ''id'' data of
        Some (JStr tool_id) \<Rightarrow>
          if \<not> id_ok tool_id then Inl ValueError
          else
            (case (jget_or (JObj []) ''entrypoint'' data, jget_or (JStr ''api'') ''type'' data,
                   jget_or (JList []) ''operations'' data) of
               (entry, JStr tool_type, operations) \<Rightarrow>
                 if tool_type \<notin> set tool_types then Inl ValueError
                 else if \<not> is_obj entry then Inl AttributeError
                 else
                   (case valid_port (jget0 ''port'' entry) of
                      None \<Rightarrow> Inl ValueError
                    | Some port \<Rightarrow>
                        (case (if tool_type = ''rest''
                               then (case rest_base_url_host data of Inl e \<Rightarrow> Inl e | Inr h \<Rightarrow> Inr (Some h))
                               else Inr None) of
                           Inl e \<Rightarrow> Inl e
                         | Inr host \<Rightarrow>
                             (case iter_items operations of
                                Inl e \<Rightarrow> Inl e
                              | Inr os \<Rightarrow>
                                  (case add_ops host [] os of
                                     Inl e \<Rightarrow> Inl e
                                   | Inr ops \<Rightarrow>
                                       (case inject_refresh data ops of
                                          Inl e \<Rightarrow> Inl e
                                        | Inr ops' \<Rightarrow>
                                            Inr (AList.update tool_id
                                              \<lparr>te_port = port, te_type = tool_type, te_ops = ops',
                                               te_manifest_path = path, te_manifest_digest = sha raw\<rparr> catalog))))))
             | _ \<Rightarrow> Inl ValueError)
      | _ \<Rightarrow> Inl ValueError)"

text \<open>\<^verbatim>\<open>from_sources\<close>: the manifests of the tools root in path order, then those of the
  tool directories, each with its path, bytes and parsed value; the first that raises stops it.\<close>

fun load_manifests ::
  "(string \<Rightarrow> string) \<Rightarrow> (string \<times> string \<times> json) list \<Rightarrow> catalog \<Rightarrow> catalog result" where
  "load_manifests sha [] catalog = Inr catalog"
| "load_manifests sha ((path, raw, data) # ms) catalog =
     (case add_toml sha path raw data catalog of Inl e \<Rightarrow> Inl e | Inr c \<Rightarrow> load_manifests sha ms c)"

definition from_sources ::
  "(string \<Rightarrow> string) \<Rightarrow> (string \<times> string \<times> json) list \<Rightarrow> (string \<times> string \<times> json) list \<Rightarrow> catalog result" where
  "from_sources sha root_manifests dir_manifests =
     load_manifests sha (sort_key fst root_manifests @ dir_manifests) []"

section \<open>Reading\<close>

definition lookup :: "(string \<Rightarrow> string) \<Rightarrow> (string \<Rightarrow> string option) \<Rightarrow> catalog \<Rightarrow> string \<Rightarrow> string \<Rightarrow> tool_op option" where
  "lookup sha files catalog tool op =
     (case map_of catalog tool of
        None \<Rightarrow> None
      | Some entry \<Rightarrow>
          (case map_of (te_ops entry) op of
             None \<Rightarrow> None
           | Some meta \<Rightarrow>
               (case files (te_manifest_path entry) of
                  None \<Rightarrow> None
                | Some raw \<Rightarrow>
                    if sha raw \<noteq> te_manifest_digest entry then None
                    else Some \<lparr>to_tool = tool, to_op = op, to_risk = om_risk meta, to_port = te_port entry,
                       to_type = te_type entry, to_verb = map_option rm_verb (om_rest meta),
                       to_path_template = map_option rm_path_template (om_rest meta),
                       to_base_url_host = map_option rm_base_url_host (om_rest meta),
                       to_body_kind = map_option rm_body_kind (om_rest meta),
                       to_generation = generation_of sha entry,
                       to_approval_fields = (case om_approval_fields meta of None \<Rightarrow> [] | Some fs \<Rightarrow> fs)\<rparr>)))"

definition tool_ids :: "catalog \<Rightarrow> string list" where
  "tool_ids catalog = sort (map fst catalog)"

definition describe :: "catalog \<Rightarrow> string \<Rightarrow> string \<Rightarrow> json option" where
  "describe catalog tool op =
     (case map_of catalog tool of
        None \<Rightarrow> None
      | Some entry \<Rightarrow>
          (case map_of (te_ops entry) op of
             None \<Rightarrow> None
           | Some meta \<Rightarrow> Some (JObj
               [(''tool'', JStr tool), (''op'', JStr op), (''risk'', om_risk meta),
                (''description'', om_description meta), (''args'', om_args meta),
                (''approval_fields'',
                 JList (map JStr (case om_approval_fields meta of None \<Rightarrow> [] | Some fs \<Rightarrow> fs)))])))"

text \<open>\<^verbatim>\<open>list_ops\<close>: one dictionary per operation; a row keeps the names it was made from.\<close>

definition list_ops :: "catalog \<Rightarrow> (string \<times> string \<times> (string \<times> json) list) list" where
  "list_ops catalog =
     concat (map (\<lambda>(tool, entry). map (\<lambda>(op, meta).
       (tool, op, [(''tool'', JStr tool), (''op'', JStr op), (''type'', JStr (te_type entry)),
                   (''risk'', om_risk meta), (''description'', om_description meta)])) (te_ops entry)) catalog)"

section \<open>A loaded catalog\<close>

text \<open>What loading establishes of an entry.\<close>

definition op_ok :: "string \<Rightarrow> string \<times> op_meta \<Rightarrow> bool" where
  "op_ok type nm \<longleftrightarrow> id_ok (fst nm)
     \<and> (case om_rest (snd nm) of
          None \<Rightarrow> type \<noteq> ''rest'' \<or> om_approval_fields (snd nm) = None
        | Some r \<Rightarrow> type = ''rest'' \<and> rm_verb r \<in> set rest_verbs \<and> starts_with ''/'' (rm_path_template r)
            \<and> \<not> starts_with ''//'' (rm_path_template r) \<and> rm_body_kind r \<in> {''none'', ''text'', ''binary''})
     \<and> (case om_approval_fields (snd nm) of None \<Rightarrow> True
        | Some fs \<Rightarrow> length fs \<le> 32 \<and> distinct fs \<and> list_all (\<lambda>f. \<not> bad_pointer (JStr f)) fs)"

definition entry_ok' :: "tool_entry \<Rightarrow> bool" where
  "entry_ok' e \<longleftrightarrow> 1 \<le> te_port e \<and> te_port e \<le> 65535 \<and> te_type e \<in> set tool_types
     \<and> distinct (map fst (te_ops e)) \<and> list_all (op_ok (te_type e)) (te_ops e)"

definition catalog_ok :: "catalog \<Rightarrow> bool" where
  "catalog_ok c \<longleftrightarrow> distinct (map fst c) \<and> list_all (\<lambda>te. id_ok (fst te) \<and> entry_ok' (snd te)) c"

lemma validate_fields_ok:
  "validate_fields v = Inr fs \<Longrightarrow>
     length fs \<le> 32 \<and> distinct fs \<and> list_all (\<lambda>f. \<not> bad_pointer (JStr f)) fs"
proof -
  assume ok: "validate_fields v = Inr fs"
  then obtain ps where v: "v = JList ps" and len: "length ps \<le> 32" and good: "list_all (\<lambda>p. \<not> bad_pointer p) ps"
    and d: "distinct ps" and fs: "fs = map the_str ps"
    by (auto simp: validate_fields_def list_all_iff list_ex_iff split: json.splits if_splits)
  have str: "JStr (the_str p) = p" if "p \<in> set ps" for p
    using good that by (auto simp: list_all_iff bad_pointer_def the_str_def split: json.splits)
  then have "inj_on the_str (set ps)" by (metis inj_onI)
  with len d good str show ?thesis
    by (auto simp: fs distinct_map list_all_iff)
qed

lemma rest_fields_ok:
  "rest_fields host o' = Inr r \<Longrightarrow> rm_verb r \<in> set rest_verbs \<and> starts_with ''/'' (rm_path_template r)
     \<and> \<not> starts_with ''//'' (rm_path_template r) \<and> rm_body_kind r \<in> {''none'', ''text'', ''binary''}"
  by (auto simp: rest_fields_def split: option.splits json.splits if_splits)

definition ops_ok :: "string \<Rightarrow> (string \<times> op_meta) list \<Rightarrow> bool" where
  "ops_ok type ops \<longleftrightarrow> distinct (map fst ops) \<and> list_all (op_ok type) ops"

lemma ops_ok_snoc:
  "ops_ok type ops \<Longrightarrow> map_of ops name = None \<Longrightarrow> op_ok type (name, m) \<Longrightarrow> ops_ok type (ops @ [(name, m)])"
  by (auto simp: ops_ok_def map_of_eq_None_iff)

lemma add_op_ok:
  assumes "add_op host ops o' = Inr ops'" "ops_ok type ops" "host \<noteq> None \<longleftrightarrow> type = ''rest''"
  shows "ops_ok type ops'"
proof -
  from assms(1) obtain name rest fs m where
    name: "id_ok name" "map_of ops name = None"
    and rest: "(case host of None \<Rightarrow> Inr None
        | Some h \<Rightarrow> (case rest_fields h o' of Inl e \<Rightarrow> Inl e | Inr r \<Rightarrow> Inr (Some r))) = Inr rest"
    and fs: "validate_fields (jget_or (JList []) ''approval_fields'' o') = Inr fs"
    and m: "om_approval_fields m = Some fs" "om_rest m = rest"
    and ops': "ops' = ops @ [(name, m)]"
    unfolding add_op_def by (fastforce split: if_splits option.splits json.splits sum.splits)
  have "case rest of None \<Rightarrow> type \<noteq> ''rest'' | Some r \<Rightarrow> type = ''rest'' \<and> rm_verb r \<in> set rest_verbs
      \<and> starts_with ''/'' (rm_path_template r) \<and> \<not> starts_with ''//'' (rm_path_template r)
      \<and> rm_body_kind r \<in> {''none'', ''text'', ''binary''}"
    using rest assms(3) by (auto split: option.splits sum.splits dest!: rest_fields_ok)
  then have "op_ok type (name, m)"
    using name(1) validate_fields_ok [OF fs] m by (auto simp: op_ok_def split: option.splits)
  with ops_ok_snoc [OF assms(2) name(2)] ops' show ?thesis by simp
qed

lemma add_ops_ok:
  "add_ops host ops os = Inr ops' \<Longrightarrow> ops_ok type ops \<Longrightarrow> (host \<noteq> None \<longleftrightarrow> type = ''rest'') \<Longrightarrow> ops_ok type ops'"
  by (induction host ops os rule: add_ops.induct) (auto split: sum.splits intro: add_op_ok)

lemma inject_refresh_ok:
  assumes "inject_refresh data ops = Inr ops'" "ops_ok type ops"
  shows "ops_ok type ops'"
proof -
  have "id_ok ''refresh''" "id_ok ''refresh_one''"
    by (simp_all add: id_ok_def char_simps code_def)
  with assms show ?thesis
    by (auto simp: inject_refresh_def ops_ok_def op_ok_def refresh_meta_def refresh_one_meta_def
        map_of_eq_None_iff split: if_splits)
qed

lemma add_toml_ok:
  assumes "add_toml sha path raw data c = Inr c'" "catalog_ok c"
  shows "catalog_ok c'"
proof -
  from assms(1) obtain tool_id entry tool_type port host ops ops' os e where
    id: "id_ok tool_id" and ty: "tool_type \<in> set tool_types"
    and port: "valid_port (jget0 ''port'' entry) = Some port"
    and host: "(if tool_type = ''rest''
         then (case rest_base_url_host data of Inl e \<Rightarrow> Inl e | Inr h \<Rightarrow> Inr (Some h)) else Inr None) = Inr host"
    and ops: "add_ops host [] os = Inr ops" "inject_refresh data ops = Inr ops'"
    and e: "te_port e = port" "te_type e = tool_type" "te_ops e = ops'"
    and c': "c' = AList.update tool_id e c"
    unfolding add_toml_def by (fastforce split: if_splits option.splits json.splits sum.splits)
  from host have "host \<noteq> None \<longleftrightarrow> tool_type = ''rest''" by (auto split: if_splits sum.splits)
  moreover have "ops_ok tool_type []" by (simp add: ops_ok_def)
  ultimately have "ops_ok tool_type ops'" using ops by (blast intro: add_ops_ok inject_refresh_ok)
  then have entry: "entry_ok' e"
    using ty port e by (auto simp: entry_ok'_def ops_ok_def valid_port_def split: json.splits if_splits)
  show ?thesis
    unfolding catalog_ok_def list_all_iff
  proof (intro conjI ballI)
    show "distinct (map fst c')"
      using assms(2) by (simp add: c' catalog_ok_def distinct_update)
    fix te assume "te \<in> set c'"
    with set_alist_update [of tool_id e c] c' have "te \<in> set c \<or> te = (tool_id, e)" by blast
    with id entry assms(2) show "id_ok (fst te)" "entry_ok' (snd te)"
      by (auto simp: catalog_ok_def list_all_iff)
  qed
qed

lemma load_manifests_ok:
  "load_manifests sha ms c = Inr c' \<Longrightarrow> catalog_ok c \<Longrightarrow> catalog_ok c'"
  by (induction sha ms c rule: load_manifests.induct) (auto split: sum.splits intro: add_toml_ok)

lemma id_ok_no_dot: "id_ok s \<Longrightarrow> CHR ''.'' \<notin> set s"
  by (auto simp: id_ok_def list_all_iff char_simps code_def)

text \<open>What a successful lookup says of the catalog and of the file it was loaded from.\<close>

lemma lookup_SomeD:
  assumes "lookup sha files c tool op = Some t"
  obtains e m raw where "map_of c tool = Some e" "map_of (te_ops e) op = Some m"
    "files (te_manifest_path e) = Some raw" "sha raw = te_manifest_digest e"
    "to_generation t = generation_of sha e" "to_tool t = tool" "to_op t = op" "to_type t = te_type e"
    "to_body_kind t = map_option rm_body_kind (om_rest m)"
  using assms by (auto simp: lookup_def split: option.splits if_splits)

section \<open>Properties\<close>

text \<open>A catalog that loads is well formed: tool and operation names have no dot or slash and occur
  once, ports are in range, types are known, REST operations have a known verb, an absolute path
  template and a known body kind, and approval pointers are valid and distinct.\<close>

theorem loaded_catalog_ok:
  assumes "from_sources sha root_manifests dir_manifests = Inr c"
  shows "catalog_ok c"
  using load_manifests_ok assms by (auto simp: from_sources_def catalog_ok_def)

theorem loaded_catalog_ok_witness:
  "catalog_ok [(''echo'', \<lparr>te_port = 7000, te_type = ''api'', te_ops = [], te_manifest_path = ''m'',
      te_manifest_digest = ''raw''\<rparr>)]"
  by (rule loaded_catalog_ok [where sha = id and dir_manifests = "[]"
      and root_manifests = "[(''m'', ''raw'', JObj [(''id'', JStr ''echo''), (''entrypoint'', JObj [(''port'', JInt 7000)])])]"])
    code_simp

end
