(* ===== verification/Sps.thy ===== *)
theory Sps
  imports Template Registry
begin

text \<open>
  The secrets provider service (\<^verbatim>\<open>sps/store.py\<close>, \<^verbatim>\<open>sps/handlers.py\<close>,
  \<^verbatim>\<open>sps/wire.py\<close>, \<^verbatim>\<open>sps/server.py\<close>, \<^verbatim>\<open>sps/audit.py\<close>): a tool's
  registration, the six operations, the framing of a request, the audit record and the reply.
  The backend plugin is a pair of functions on a backend state \<open>'b\<close>; \<open>sha\<close> is the hexadecimal
  SHA-256 digest and \<open>loads\<close> is \<^verbatim>\<open>json.loads\<close>.
\<close>

section \<open>Wire\<close>

definition MAX_BODY_BYTES :: nat where
  "MAX_BODY_BYTES = 1048576"

definition message_set :: "string list" where
  "message_set = [''Bad request'', ''Unauthorized'', ''Not found'', ''Not writable'', ''Backend error'']"

definition err_envelope :: "string \<Rightarrow> json" where
  "err_envelope m = JObj [(''status'', JStr ''error''), (''message'', JStr m)]"

definition constant_time_eq :: "string \<Rightarrow> string \<Rightarrow> bool" where
  "constant_time_eq a b \<longleftrightarrow> utf8_encode a = utf8_encode b"

text \<open>What \<^verbatim>\<open>recv\<close> gives: some bytes (none at the end of the stream), or nothing before the
  deadline.\<close>

datatype recv = Chunk string | Late

datatype wire_exn = Oversized | BadFrame | WireTimeout

definition read_one_json :: "(string \<Rightarrow> json option) \<Rightarrow> string \<Rightarrow> wire_exn + json" where
  "read_one_json loads raw =
     (if raw = [] then Inr (JObj [])
      else if length raw > MAX_BODY_BYTES then Inl Oversized
      else if last raw \<noteq> CHR 0x0A then Inl BadFrame
      else if list_all (\<lambda>c. code c \<in> {9, 10, 11, 12, 13, 32}) raw then Inr (JObj [])
      else case loads raw of None \<Rightarrow> Inl BadFrame | Some v \<Rightarrow> Inr v)"

text \<open>The loop of \<^verbatim>\<open>read_socket_json\<close> over what the socket delivers; each \<^verbatim>\<open>recv\<close> asks
  for at most 65536 bytes and at most one byte more than the limit leaves.\<close>

definition recv_size :: "string \<Rightarrow> nat" where
  "recv_size raw = min 65536 (MAX_BODY_BYTES + 1 - length raw)"

fun collect_line :: "string \<Rightarrow> recv list \<Rightarrow> wire_exn + string" where
  "collect_line raw [] = (if length raw > MAX_BODY_BYTES then Inr raw else Inl WireTimeout)"
| "collect_line raw (Late # rs) = (if length raw > MAX_BODY_BYTES then Inr raw else Inl WireTimeout)"
| "collect_line raw (Chunk s # rs) =
     (if length raw > MAX_BODY_BYTES then Inr raw
      else let chunk = take (recv_size raw) s in
           if chunk = [] then Inr raw
           else (case partition_at (CHR 0x0A) chunk of
                   (line, sep, _) \<Rightarrow> if sep then Inr (raw @ line @ [CHR 0x0A]) else collect_line (raw @ line) rs))"

definition read_socket_json :: "(string \<Rightarrow> json option) \<Rightarrow> recv list \<Rightarrow> wire_exn + json" where
  "read_socket_json loads rs =
     andthen (collect_line [] rs) (\<lambda>raw.
     if length raw > MAX_BODY_BYTES then Inl Oversized else read_one_json loads raw)"

section \<open>Registrations\<close>

record cs_tuple =
  cs_name :: string
  cs_field :: string
  cs_item :: "string option"
  cs_writable :: bool

record registration =
  rg_esecret :: string
  rg_entries :: "cs_tuple list"

type_synonym tool_store = "(string \<times> registration) list"

definition store_register :: "string \<Rightarrow> registration \<Rightarrow> tool_store \<Rightarrow> tool_store" where
  "store_register tool_id rec st = AList.update tool_id rec st"

definition store_unregister :: "string \<Rightarrow> tool_store \<Rightarrow> tool_store" where
  "store_unregister tool_id st = AList.delete tool_id st"

definition store_get :: "string \<Rightarrow> tool_store \<Rightarrow> registration option" where
  "store_get tool_id st = map_of st tool_id"

definition store_ids :: "tool_store \<Rightarrow> string list" where
  "store_ids st = map fst st"

section \<open>Handlers\<close>

datatype hexn = AuthError | BadRegistration | SecretNotFound | NotWritable | BackendError

record sps_config =
  sp_secret :: string
  sp_grants :: "(string \<times> string list) list"
  sp_max_value_bytes :: nat
  sp_boot_id :: string
  sp_pid :: int

record 'b plugin =
  pl_get :: "'b \<Rightarrow> string \<Rightarrow> string \<Rightarrow> exn + string"
  pl_write :: "'b \<Rightarrow> string \<Rightarrow> string \<Rightarrow> string \<Rightarrow> (exn + unit) \<times> 'b"

record 'b sps =
  ss_store :: tool_store
  ss_backend :: 'b

definition h_field :: "json \<Rightarrow> string \<Rightarrow> hexn + string" where
  "h_field msg key = (case jget key msg of Some (JStr s) \<Rightarrow> if s = [] then Inl BadRegistration else Inr s | _ \<Rightarrow> Inl BadRegistration)"

definition auth_field :: "json \<Rightarrow> string \<Rightarrow> hexn + string" where
  "auth_field msg key = (case jget key msg of Some (JStr s) \<Rightarrow> if s = [] then Inl AuthError else Inr s | _ \<Rightarrow> Inl AuthError)"

definition check_sp :: "sps_config \<Rightarrow> json \<Rightarrow> hexn + unit" where
  "check_sp cfg msg = andthen (auth_field msg ''spsecret'') (\<lambda>v. ensure (constant_time_eq v (sp_secret cfg)) AuthError)"

definition check_es :: "tool_store \<Rightarrow> string \<Rightarrow> json \<Rightarrow> hexn + registration" where
  "check_es st tool_id msg =
     andthen (auth_field msg ''esecret'') (\<lambda>v.
     let rec = store_get tool_id st;
         matched = constant_time_eq v (case rec of Some r \<Rightarrow> rg_esecret r | None \<Rightarrow> replicate 64 (CHR ''0''))
     in case rec of None \<Rightarrow> Inl AuthError | Some r \<Rightarrow> if matched then Inr r else Inl AuthError)"

definition parse_cs_tuple :: "cs_tuple list \<Rightarrow> json \<Rightarrow> hexn + cs_tuple list" where
  "parse_cs_tuple out e =
     andthen (ensure (is_obj e) BadRegistration) (\<lambda>_.
     andthen (h_field e ''name'') (\<lambda>name.
     andthen (ensure (name \<notin> set (map cs_name out)) BadRegistration) (\<lambda>_.
     andthen (h_field e ''field'') (\<lambda>fld.
     andthen (case jget0 ''item'' e of
                JNull \<Rightarrow> Inr None
              | JStr i \<Rightarrow> if i = [] then Inl BadRegistration else Inr (Some i)
              | _ \<Rightarrow> Inl BadRegistration) (\<lambda>item.
     andthen (case jget_or (JBool False) ''writable'' e of JBool b \<Rightarrow> Inr b | _ \<Rightarrow> Inl BadRegistration) (\<lambda>w.
       Inr (out @ [\<lparr>cs_name = name, cs_field = fld, cs_item = item, cs_writable = w\<rparr>])))))))"

definition parse_cs_tuples :: "json \<Rightarrow> hexn + cs_tuple list" where
  "parse_cs_tuples v = (case v of JList es \<Rightarrow> fold_res parse_cs_tuple [] es | _ \<Rightarrow> Inl BadRegistration)"

text \<open>\<^verbatim>\<open>entry.get("item") or tool_id\<close>.\<close>

definition item_of :: "string \<Rightarrow> cs_tuple \<Rightarrow> string" where
  "item_of tool_id e = (case cs_item e of Some i \<Rightarrow> if i = [] then tool_id else i | None \<Rightarrow> tool_id)"

definition ok_reply :: "(string \<times> json) list \<Rightarrow> json" where
  "ok_reply fs = JObj ((''status'', JStr ''ok'') # fs)"

definition handle_ping :: "sps_config \<Rightarrow> json" where
  "handle_ping cfg = ok_reply [(''boot_id'', JStr (sp_boot_id cfg)), (''pid'', JInt (sp_pid cfg))]"

text \<open>\<^verbatim>\<open>ctx.config.grants.get(tool_id, ())\<close>.\<close>

definition granted :: "sps_config \<Rightarrow> string \<Rightarrow> string list" where
  "granted cfg tool_id = (case map_of (sp_grants cfg) tool_id of Some g \<Rightarrow> g | None \<Rightarrow> [])"

definition handle_register :: "sps_config \<Rightarrow> json \<Rightarrow> tool_store \<Rightarrow> hexn + tool_store" where
  "handle_register cfg msg st =
     andthen (check_sp cfg msg) (\<lambda>_.
     andthen (h_field msg ''toolid'') (\<lambda>tool_id.
     andthen (case jget ''esecret'' msg of
                Some (JStr s) \<Rightarrow> if list_all is_hex s \<and> length s \<ge> 32 then Inr s else Inl BadRegistration
              | _ \<Rightarrow> Inl BadRegistration) (\<lambda>esecret.
     andthen (parse_cs_tuples (jget0 ''secrets'' msg)) (\<lambda>entries.
     andthen (ensure (list_all (\<lambda>e. item_of tool_id e = tool_id \<or> item_of tool_id e \<in> set (granted cfg tool_id)) entries) AuthError) (\<lambda>_.
       Inr (store_register tool_id \<lparr>rg_esecret = esecret, rg_entries = entries\<rparr> st))))))"

definition handle_unregister :: "sps_config \<Rightarrow> json \<Rightarrow> tool_store \<Rightarrow> hexn + tool_store" where
  "handle_unregister cfg msg st =
     andthen (check_sp cfg msg) (\<lambda>_. andthen (h_field msg ''toolid'') (\<lambda>tool_id. Inr (store_unregister tool_id st)))"

definition read_backend :: "'b plugin \<Rightarrow> 'b \<Rightarrow> string \<Rightarrow> cs_tuple \<Rightarrow> hexn + string" where
  "read_backend pl b tool_id e =
     (case pl_get pl b (cs_field e) (item_of tool_id e) of Inl _ \<Rightarrow> Inl BackendError | Inr v \<Rightarrow> Inr v)"

fun read_entries :: "'b plugin \<Rightarrow> 'b \<Rightarrow> string \<Rightarrow> (string \<times> json) list \<Rightarrow> cs_tuple list \<Rightarrow> hexn + (string \<times> json) list" where
  "read_entries pl b tool_id body [] = Inr body"
| "read_entries pl b tool_id body (e # es) =
     andthen (read_backend pl b tool_id e) (\<lambda>v. read_entries pl b tool_id (AList.update (cs_name e) (JStr v) body) es)"

definition handle_get_secrets :: "'b plugin \<Rightarrow> json \<Rightarrow> 'b sps \<Rightarrow> hexn + json" where
  "handle_get_secrets pl msg s =
     andthen (h_field msg ''toolid'') (\<lambda>tool_id.
     andthen (check_es (ss_store s) tool_id msg) (\<lambda>rec.
     andthen (read_entries pl (ss_backend s) tool_id [] (rg_entries rec)) (\<lambda>body.
       Inr (ok_reply [(''secrets'', JObj body)]))))"

definition find_entry :: "string \<Rightarrow> registration \<Rightarrow> hexn + cs_tuple" where
  "find_entry name rec = (case find (\<lambda>e. cs_name e = name) (rg_entries rec) of None \<Rightarrow> Inl SecretNotFound | Some e \<Rightarrow> Inr e)"

definition handle_get_secret :: "'b plugin \<Rightarrow> json \<Rightarrow> 'b sps \<Rightarrow> hexn + json" where
  "handle_get_secret pl msg s =
     andthen (h_field msg ''toolid'') (\<lambda>tool_id.
     andthen (h_field msg ''name'') (\<lambda>name.
     andthen (check_es (ss_store s) tool_id msg) (\<lambda>rec.
     andthen (find_entry name rec) (\<lambda>e.
     andthen (read_backend pl (ss_backend s) tool_id e) (\<lambda>v.
       Inr (ok_reply [(''secrets'', JObj [(name, JStr v)])]))))))"

text \<open>\<^verbatim>\<open>handle_write_secret\<close> up to the call of the plugin: the backend field, item and value.\<close>

definition write_target :: "sps_config \<Rightarrow> json \<Rightarrow> tool_store \<Rightarrow> hexn + (string \<times> string \<times> string \<times> string)" where
  "write_target cfg msg st =
     andthen (h_field msg ''toolid'') (\<lambda>tool_id.
     andthen (h_field msg ''name'') (\<lambda>name.
     andthen (check_es st tool_id msg) (\<lambda>rec.
     andthen (find_entry name rec) (\<lambda>e.
     andthen (ensure (cs_writable e) NotWritable) (\<lambda>_.
     case jget ''value'' msg of
       Some (JStr v) \<Rightarrow>
         if length (utf8_encode v) > sp_max_value_bytes cfg then Inl BadRegistration
         else Inr (name, cs_field e, item_of tool_id e, v)
     | _ \<Rightarrow> Inl BadRegistration)))))"

definition handle_write_secret :: "sps_config \<Rightarrow> 'b plugin \<Rightarrow> json \<Rightarrow> 'b sps \<Rightarrow> (hexn + json) \<times> 'b sps" where
  "handle_write_secret cfg pl msg s =
     (case write_target cfg msg (ss_store s) of
        Inl e \<Rightarrow> (Inl e, s)
      | Inr (name, fld, item, v) \<Rightarrow>
          (case pl_write pl (ss_backend s) fld item v of
             (Inl _, b) \<Rightarrow> (Inl BackendError, s\<lparr>ss_backend := b\<rparr>)
           | (Inr _, b) \<Rightarrow> (Inr (ok_reply [(''name'', JStr name)]), s\<lparr>ss_backend := b\<rparr>)))"

section \<open>Dispatch\<close>

definition sps_ops :: "string list" where
  "sps_ops = [''ping'', ''register'', ''unregister'', ''get_secrets'', ''get_secret'', ''write_secret'']"

definition on_store :: "'b sps \<Rightarrow> hexn + tool_store \<Rightarrow> (hexn + json) \<times> 'b sps" where
  "on_store s r = (case r of Inl e \<Rightarrow> (Inl e, s) | Inr st \<Rightarrow> (Inr (ok_reply []), s\<lparr>ss_store := st\<rparr>))"

definition sps_dispatch :: "sps_config \<Rightarrow> 'b plugin \<Rightarrow> string \<Rightarrow> json \<Rightarrow> 'b sps \<Rightarrow> (hexn + json) \<times> 'b sps" where
  "sps_dispatch cfg pl op msg s =
     (if op = ''ping'' then (Inr (handle_ping cfg), s)
      else if op = ''register'' then on_store s (handle_register cfg msg (ss_store s))
      else if op = ''unregister'' then on_store s (handle_unregister cfg msg (ss_store s))
      else if op = ''get_secrets'' then (handle_get_secrets pl msg s, s)
      else if op = ''get_secret'' then (handle_get_secret pl msg s, s)
      else if op = ''write_secret'' then handle_write_secret cfg pl msg s
      else (Inl BadRegistration, s))"

definition hexn_message :: "hexn \<Rightarrow> string" where
  "hexn_message e = (case e of AuthError \<Rightarrow> ''Unauthorized'' | BadRegistration \<Rightarrow> ''Bad request''
     | SecretNotFound \<Rightarrow> ''Not found'' | NotWritable \<Rightarrow> ''Not writable'' | BackendError \<Rightarrow> ''Backend error'')"

text \<open>The operation that is audited, the reply before auditing and the state after the handler.\<close>

definition sps_answer ::
  "sps_config \<Rightarrow> 'b plugin \<Rightarrow> wire_exn + json \<Rightarrow> 'b sps \<Rightarrow> string \<times> json \<times> 'b sps" where
  "sps_answer cfg pl inp s =
     (case inp of
        Inr (JObj d) \<Rightarrow>
          (case map_of d ''op'' of
             Some (JStr op) \<Rightarrow>
               if op \<in> set sps_ops
               then (case sps_dispatch cfg pl op (JObj d) s of
                       (Inr r, s') \<Rightarrow> (op, r, s')
                     | (Inl e, s') \<Rightarrow> (op, err_envelope (hexn_message e), s'))
               else (''invalid'', err_envelope ''Bad request'', s)
           | _ \<Rightarrow> (''invalid'', err_envelope ''Bad request'', s))
      | _ \<Rightarrow> (''invalid'', err_envelope ''Bad request'', s))"

section \<open>Audit\<close>

text \<open>\<^verbatim>\<open>AuditLogger.event\<close>: the record that is written, or the \<^verbatim>\<open>ValueError\<close> of an event
  whose entries are not digests or that is too long.\<close>

definition digest_ok :: "string \<Rightarrow> bool" where
  "digest_ok s \<longleftrightarrow> starts_with ''sha256:'' s \<and> length (drop 7 s) = 64 \<and> list_all is_hex_lower (drop 7 s)"

record audit_extra =
  ax_entries :: "(string \<times> string) list"
  ax_writable_count :: int

definition audit_record ::
  "int \<Rightarrow> string \<Rightarrow> string \<Rightarrow> string \<Rightarrow> string \<Rightarrow> int option \<Rightarrow> audit_extra option \<Rightarrow> json" where
  "audit_record ts action outcome tool_id secret_name cnt extra = JObj (
     [(''ts'', JInt ts), (''action'', JStr (take 64 action)), (''outcome'', JStr (take 64 outcome))]
     @ (if tool_id \<noteq> [] then [(''tool_id'', JStr (take 128 tool_id))] else [])
     @ (if secret_name \<noteq> [] then [(''secret_name'', JStr (take 128 secret_name))] else [])
     @ (case cnt of None \<Rightarrow> [] | Some n \<Rightarrow> [(''count'', JInt (max 0 (min n (2 ^ 31 - 1))))])
     @ (case extra of None \<Rightarrow> []
        | Some x \<Rightarrow> [(''entries'', JList (map (\<lambda>(f, i). JObj [(''field'', JStr f), (''item'', JStr i)]) (ax_entries x))),
            (''entry_count'', JInt (int (length (ax_entries x)))), (''writable_count'', JInt (ax_writable_count x))]))"

definition audit_event ::
  "nat \<Rightarrow> int \<Rightarrow> string \<Rightarrow> string \<Rightarrow> string \<Rightarrow> string \<Rightarrow> int option \<Rightarrow> audit_extra option \<Rightarrow> exn + json" where
  "audit_event max_bytes ts action outcome tool_id secret_name cnt extra =
     andthen (ensure (case extra of None \<Rightarrow> True
        | Some x \<Rightarrow> list_all (\<lambda>(f, i). digest_ok f \<and> digest_ok i) (ax_entries x)) ValueError) (\<lambda>_.
     let rec = audit_record ts action outcome tool_id secret_name cnt extra in
     if length (dumps '', '' '': '' rec) + 1 > max_bytes then Inl ValueError else Inr rec)"

section \<open>The connection handler\<close>

record rejects =
  rj_admission :: int
  rj_transport :: int
  rj_ping :: int
  rj_invalid :: int

definition reject_cap :: int where
  "reject_cap = 2 ^ 31 - 1"

definition record_reject :: "string \<Rightarrow> rejects \<Rightarrow> rejects" where
  "record_reject k rj =
     (if k = ''admission'' then rj\<lparr>rj_admission := min (rj_admission rj + 1) reject_cap\<rparr>
      else if k = ''transport'' then rj\<lparr>rj_transport := min (rj_transport rj + 1) reject_cap\<rparr>
      else if k = ''ping'' then rj\<lparr>rj_ping := min (rj_ping rj + 1) reject_cap\<rparr>
      else rj\<lparr>rj_invalid := min (rj_invalid rj + 1) reject_cap\<rparr>)"

record 'b sps_server =
  sv_sps :: "'b sps"
  sv_audit :: "json list"
  sv_rejects :: rejects

definition digest :: "(string \<Rightarrow> string) \<Rightarrow> string \<Rightarrow> string" where
  "digest sha s = ''sha256:'' @ sha (utf8_encode s)"

definition audit_identity :: "(string \<Rightarrow> string) \<Rightarrow> wire_exn + json \<Rightarrow> string \<Rightarrow> string" where
  "audit_identity sha inp key =
     (case inp of Inr m \<Rightarrow> (case jget key m of Some (JStr s) \<Rightarrow> if s = [] then [] else digest sha s | _ \<Rightarrow> []) | Inl _ \<Rightarrow> [])"

definition reply_outcome :: "json \<Rightarrow> string" where
  "reply_outcome r =
     (if jget ''status'' r = Some (JStr ''ok'') then ''ok''
      else case jget ''message'' r of
             Some (JStr m) \<Rightarrow> if m \<in> set message_set then m else ''Backend error''
           | _ \<Rightarrow> ''Backend error'')"

text \<open>The extra fields of a successful registration, read from the message.\<close>

definition register_extra :: "(string \<Rightarrow> string) \<Rightarrow> json \<Rightarrow> audit_extra" where
  "register_extra sha msg =
     (case jget0 ''secrets'' msg of
        JList es \<Rightarrow>
          \<lparr>ax_entries = map (\<lambda>e. (case jget0 ''field'' e of JStr f \<Rightarrow> digest sha f | _ \<Rightarrow> [],
             digest sha (case jget0 ''item'' e of JStr i \<Rightarrow> if i = [] then (case jget0 ''toolid'' msg of JStr t \<Rightarrow> t | _ \<Rightarrow> []) else i
                         | _ \<Rightarrow> (case jget0 ''toolid'' msg of JStr t \<Rightarrow> t | _ \<Rightarrow> [])))) es,
           ax_writable_count = int (length (filter (\<lambda>e. jget ''writable'' e = Some (JBool True)) es))\<rparr>
      | _ \<Rightarrow> \<lparr>ax_entries = [], ax_writable_count = 0\<rparr>)"

text \<open>\<^verbatim>\<open>_StreamHandler.handle\<close>: \<open>written\<close> says whether the audit file takes the record.\<close>

definition sps_handle ::
  "(string \<Rightarrow> string) \<Rightarrow> nat \<Rightarrow> sps_config \<Rightarrow> 'b plugin \<Rightarrow> int \<Rightarrow> bool \<Rightarrow> wire_exn + json \<Rightarrow> 'b sps_server
     \<Rightarrow> json \<times> 'b sps_server" where
  "sps_handle sha max_bytes cfg pl ts written inp sv =
     (case sps_answer cfg pl inp (sv_sps sv) of
        (op, response, s') \<Rightarrow>
          let outcome = reply_outcome response; sv' = sv\<lparr>sv_sps := s'\<rparr> in
          if op \<in> {''ping'', ''invalid''} \<or> outcome \<in> {''Bad request'', ''Unauthorized''}
          then (response, sv'\<lparr>sv_rejects := record_reject (if op = ''ping'' then ''ping'' else ''invalid'') (sv_rejects sv)\<rparr>)
          else case audit_event max_bytes ts op outcome (audit_identity sha inp ''toolid'') (audit_identity sha inp ''name'') None
                     (if op = ''register'' \<and> outcome = ''ok''
                      then Some (register_extra sha (case inp of Inr m \<Rightarrow> m | Inl _ \<Rightarrow> JNull)) else None) of
                 Inl _ \<Rightarrow> (err_envelope ''Backend error'', sv')
               | Inr rec \<Rightarrow>
                   if written then (response, sv'\<lparr>sv_audit := sv_audit sv @ [rec]\<rparr>)
                   else (err_envelope ''Backend error'', sv'))"

text \<open>\<^verbatim>\<open>_flush_rejects\<close>: at most once a second, one record per counter that is not zero; a record
  that cannot be written is dropped.\<close>

definition reject_counts :: "rejects \<Rightarrow> (string \<times> int) list" where
  "reject_counts rj = [(''admission'', rj_admission rj), (''transport'', rj_transport rj), (''ping'', rj_ping rj), (''invalid'', rj_invalid rj)]"

definition no_rejects :: rejects where
  "no_rejects = \<lparr>rj_admission = 0, rj_transport = 0, rj_ping = 0, rj_invalid = 0\<rparr>"

definition flush_rejects ::
  "nat \<Rightarrow> int \<Rightarrow> (string \<Rightarrow> bool) \<Rightarrow> rat \<Rightarrow> rat option \<Rightarrow> 'b sps_server \<Rightarrow> rat option \<times> 'b sps_server" where
  "flush_rejects max_bytes ts written now last_audit sv =
     (if (case last_audit of None \<Rightarrow> False | Some t \<Rightarrow> now - t < 1) \<or> list_all (\<lambda>kc. snd kc = 0) (reject_counts (sv_rejects sv))
      then (last_audit, sv)
      else (Some now, sv\<lparr>sv_rejects := no_rejects,
              sv_audit := sv_audit sv @ concat (map (\<lambda>(k, n).
                if n = 0 then []
                else case audit_event max_bytes ts k ''rejected'' [] [] (Some n) None of
                       Inl _ \<Rightarrow> [] | Inr rec \<Rightarrow> if written k then [rec] else []) (reject_counts (sv_rejects sv)))\<rparr>))"

end
