(* ===== verification/SpsProps.thy ===== *)
theory SpsProps
  imports Sps
begin

text \<open>What the secrets provider guarantees: who gets a secret, what a registration may name, what
  an unauthenticated peer learns, and what is audited before a reply.\<close>

section \<open>Helpers\<close>

lemma utf8_char_inject:
  assumes "(if code c < 128 then [c] else [char_of (192 + code c div 64), char_of (128 + code c mod 64)]) @ s
     = (if code d < 128 then [d] else [char_of (192 + code d div 64), char_of (128 + code d mod 64)]) @ t"
  shows "c = d \<and> s = t"
proof -
  have bnd: "code x div 64 < 4" for x using code_less_256 [of x] by (simp add: div_less_iff_less_mult)
  have ne: "char_of (192 + code x div 64) \<noteq> y" if "code y < 128" for x y
    using that bnd [of x] by (auto dest!: arg_cong [of _ _ code])
  have hi: "code x = code y" if "char_of (192 + code x div 64) = (char_of (192 + code y div 64) :: char)"
    "char_of (128 + code x mod 64) = (char_of (128 + code y mod 64) :: char)" for x y
  proof -
    from that(1) bnd [of x] bnd [of y] have "code x div 64 = code y div 64" by (auto dest!: arg_cong [of _ _ code])
    moreover have "code x mod 64 = code y mod 64" using that(2) by (auto dest!: arg_cong [of _ _ code])
    ultimately show ?thesis by (metis div_mult_mod_eq)
  qed
  from assms show ?thesis
    using ne [of c d] ne [of d c] hi [of c d] by (cases "code c < 128"; cases "code d < 128") (auto simp: code_inject)
qed

lemma utf8_Cons: "utf8_encode (c # a) =
    (if code c < 128 then [c] else [char_of (192 + code c div 64), char_of (128 + code c mod 64)]) @ utf8_encode a"
  by (simp add: utf8_encode_def)

lemma utf8_Nil: "utf8_encode a = [] \<longleftrightarrow> a = []"
proof (cases a)
  case (Cons c cs)
  then show ?thesis by (cases "code c < 128") (simp_all add: utf8_Cons)
qed (simp add: utf8_encode_def)

lemma utf8_inject: "utf8_encode a = utf8_encode b \<longleftrightarrow> a = b"
proof
  show "utf8_encode a = utf8_encode b \<Longrightarrow> a = b"
  proof (induction a arbitrary: b)
    case Nil
    then show ?case by (metis utf8_Nil)
  next
    case (Cons c a)
    then obtain d b' where b: "b = d # b'" by (metis utf8_Nil neq_Nil_conv)
    from utf8_char_inject [OF Cons.prems [unfolded b utf8_Cons]] Cons.IH b show ?case by simp
  qed
qed simp

lemma constant_time_eq_iff [simp]: "constant_time_eq a b \<longleftrightarrow> a = b"
  by (simp add: constant_time_eq_def utf8_inject)

lemma auth_field_Inr: "auth_field msg k = Inr s \<longleftrightarrow> jget k msg = Some (JStr s) \<and> s \<noteq> []"
  by (auto simp: auth_field_def split: option.splits json.splits)

lemma h_field_Inr: "h_field msg k = Inr s \<longleftrightarrow> jget k msg = Some (JStr s) \<and> s \<noteq> []"
  by (auto simp: h_field_def split: option.splits json.splits)

lemma auth_field_Inl: "auth_field msg k = Inl e \<Longrightarrow> e = AuthError"
  by (auto simp: auth_field_def split: option.splits json.splits if_splits)

lemma check_es_Inr:
  "check_es st t msg = Inr rec \<longleftrightarrow>
     jget ''esecret'' msg = Some (JStr (rg_esecret rec)) \<and> rg_esecret rec \<noteq> [] \<and> map_of st t = Some rec"
  by (auto simp: check_es_def auth_field_Inr store_get_def Let_def split: option.splits if_splits)

lemma check_es_Inl: "check_es st t msg = Inl e \<Longrightarrow> e = AuthError"
  by (auto simp: check_es_def andthen_Inl Let_def dest: auth_field_Inl split: option.splits if_splits)

lemma find_entry_Inr: "find_entry n rec = Inr e \<Longrightarrow> e \<in> set (rg_entries rec) \<and> cs_name e = n"
  by (auto simp: find_entry_def dest: find_SomeD split: option.splits)

section \<open>The invariant of the registrations\<close>

definition entry_granted :: "sps_config \<Rightarrow> string \<Rightarrow> cs_tuple \<Rightarrow> bool" where
  "entry_granted cfg t e \<longleftrightarrow> item_of t e = t \<or> item_of t e \<in> set (granted cfg t)"

definition registration_ok :: "sps_config \<Rightarrow> string \<Rightarrow> registration \<Rightarrow> bool" where
  "registration_ok cfg t r \<longleftrightarrow> t \<noteq> [] \<and> list_all is_hex (rg_esecret r) \<and> 32 \<le> length (rg_esecret r)
     \<and> distinct (map cs_name (rg_entries r)) \<and> list_all (entry_granted cfg t) (rg_entries r)"

definition store_ok :: "sps_config \<Rightarrow> tool_store \<Rightarrow> bool" where
  "store_ok cfg st \<longleftrightarrow> (\<forall>(t, r) \<in> set st. registration_ok cfg t r)"

lemma parse_cs_tuples_distinct:
  assumes "parse_cs_tuples v = Inr entries"
  shows "distinct (map cs_name entries)"
proof -
  from assms obtain es where "fold_res parse_cs_tuple [] es = Inr entries"
    by (auto simp: parse_cs_tuples_def split: json.splits)
  then show ?thesis by (rule fold_res_inv) (auto simp: parse_cs_tuple_def)
qed

lemma handle_register_ok:
  assumes "handle_register cfg msg st = Inr st'" "store_ok cfg st"
  shows "store_ok cfg st'"
proof -
  from assms(1) obtain t es entries where t: "t \<noteq> []" and es: "list_all is_hex es" "32 \<le> length es"
    and parse: "parse_cs_tuples (jget0 ''secrets'' msg) = Inr entries"
    and granted: "list_all (entry_granted cfg t) entries"
    and st': "st' = AList.update t \<lparr>rg_esecret = es, rg_entries = entries\<rparr> st"
    by (auto simp: handle_register_def h_field_Inr store_register_def entry_granted_def list_all_iff
        split: option.splits json.splits if_splits)
  from parse have "distinct (map cs_name entries)" by (rule parse_cs_tuples_distinct)
  with t es granted have ok: "registration_ok cfg t \<lparr>rg_esecret = es, rg_entries = entries\<rparr>"
    by (simp add: registration_ok_def)
  with assms(2) show ?thesis unfolding store_ok_def st' by (rule update_all)
qed

lemma unregister_ok: "store_ok cfg st \<Longrightarrow> store_ok cfg (store_unregister t st)"
  by (auto simp: store_ok_def store_unregister_def AList.delete_eq)

lemma dispatch_store_ok:
  assumes "store_ok cfg (ss_store s)"
  shows "store_ok cfg (ss_store (snd (sps_dispatch cfg pl op msg s)))"
proof -
  have "store_ok cfg (ss_store (snd (on_store s (handle_register cfg msg (ss_store s)))))"
    using assms by (auto simp: on_store_def intro: handle_register_ok split: sum.splits)
  moreover have "store_ok cfg (ss_store (snd (on_store s (handle_unregister cfg msg (ss_store s)))))"
    using assms by (auto simp: on_store_def handle_unregister_def intro: unregister_ok split: sum.splits)
  moreover have "store_ok cfg (ss_store (snd (handle_write_secret cfg pl msg s)))"
    using assms by (auto simp: handle_write_secret_def split: sum.splits prod.splits)
  ultimately show ?thesis using assms by (simp add: sps_dispatch_def)
qed

lemma answer_cases:
  assumes "sps_answer cfg pl inp s = (op, r, s')"
  obtains (invalid) "op = ''invalid''" "r = err_envelope ''Bad request''" "s' = s"
  | (failed) d e where "inp = Inr (JObj d)" "op \<in> set sps_ops" "map_of d ''op'' = Some (JStr op)" "sps_dispatch cfg pl op (JObj d) s = (Inl e, s')"
      "r = err_envelope (hexn_message e)"
  | (answered) d where "inp = Inr (JObj d)" "op \<in> set sps_ops" "map_of d ''op'' = Some (JStr op)" "sps_dispatch cfg pl op (JObj d) s = (Inr r, s')"
proof (cases "\<exists>d o'. inp = Inr (JObj d) \<and> map_of d ''op'' = Some (JStr o') \<and> o' \<in> set sps_ops")
  case True
  then obtain d o' where d: "inp = Inr (JObj d)" "map_of d ''op'' = Some (JStr o')" "o' \<in> set sps_ops" by blast
  with assms have "(case sps_dispatch cfg pl o' (JObj d) s of (Inr r, s') \<Rightarrow> (o', r, s')
      | (Inl e, s') \<Rightarrow> (o', err_envelope (hexn_message e), s')) = (op, r, s')" by (simp add: sps_answer_def)
  with d failed answered show thesis by (auto split: prod.splits sum.splits)
next
  case False
  with assms have "op = ''invalid'' \<and> r = err_envelope ''Bad request'' \<and> s' = s"
    by (auto simp: sps_answer_def split: sum.splits json.splits option.splits if_splits)
  with invalid show thesis by blast
qed

lemma answer_store_ok:
  "sps_answer cfg pl inp s = (op, r, s') \<Longrightarrow> store_ok cfg (ss_store s) \<Longrightarrow> store_ok cfg (ss_store s')"
  using dispatch_store_ok [of cfg s pl] by (elim answer_cases) (metis snd_conv)+

lemma handle_sps: "sv_sps (snd (sps_handle sha mb cfg pl ts w inp sv)) = snd (snd (sps_answer cfg pl inp (sv_sps sv)))"
  by (auto simp: sps_handle_def Let_def split: prod.splits sum.splits)

text \<open>The states a server reaches from its start, whatever it receives.\<close>

inductive sps_reach :: "(string \<Rightarrow> string) \<Rightarrow> nat \<Rightarrow> sps_config \<Rightarrow> 'b plugin \<Rightarrow> 'b \<Rightarrow> 'b sps_server \<Rightarrow> bool"
  for sha mb cfg pl b0 where
  start: "sps_reach sha mb cfg pl b0 \<lparr>sv_sps = \<lparr>ss_store = [], ss_backend = b0\<rparr>, sv_audit = [], sv_rejects = no_rejects\<rparr>"
| handled: "sps_reach sha mb cfg pl b0 sv \<Longrightarrow> sps_reach sha mb cfg pl b0 (snd (sps_handle sha mb cfg pl ts w inp sv))"
| flushed: "sps_reach sha mb cfg pl b0 sv \<Longrightarrow> sps_reach sha mb cfg pl b0 (snd (flush_rejects mb ts ws now lst sv))"
| rejected: "sps_reach sha mb cfg pl b0 sv \<Longrightarrow> sps_reach sha mb cfg pl b0 (sv\<lparr>sv_rejects := record_reject k (sv_rejects sv)\<rparr>)"

lemma reach_store_ok: "sps_reach sha mb cfg pl b0 sv \<Longrightarrow> store_ok cfg (ss_store (sv_sps sv))"
proof (induction rule: sps_reach.induct)
  case start
  then show ?case by (simp add: store_ok_def)
next
  case (handled sv ts w inp)
  obtain op r s' where "sps_answer cfg pl inp (sv_sps sv) = (op, r, s')" by (metis prod_cases3)
  with handled.IH show ?case by (simp add: handle_sps answer_store_ok)
next
  case (flushed sv ts ws now lst)
  then show ?case by (simp add: flush_rejects_def)
qed simp

section \<open>Replies\<close>

lemma read_entries_ok:
  "read_entries pl b t body es = Inr out \<Longrightarrow> (n, v) \<in> set out \<Longrightarrow>
     (n, v) \<in> set body \<or> (\<exists>e \<in> set es. cs_name e = n \<and> (\<exists>x. v = JStr x \<and> pl_get pl b (cs_field e) (item_of t e) = Inr x))"
proof (induction es arbitrary: body)
  case (Cons e es)
  from Cons.prems(1) obtain x where x: "read_backend pl b t e = Inr x"
    and rest: "read_entries pl b t (AList.update (cs_name e) (JStr x) body) es = Inr out" by auto
  from x have "pl_get pl b (cs_field e) (item_of t e) = Inr x" by (auto simp: read_backend_def split: sum.splits)
  with Cons.IH [OF rest Cons.prems(2)] show ?case by (fastforce dest: update_mem)
qed simp

text \<open>The tool a message speaks for, and its registration.\<close>

definition speaks_for :: "(string \<times> json) list \<Rightarrow> tool_store \<Rightarrow> string \<Rightarrow> registration \<Rightarrow> bool" where
  "speaks_for d st t rec \<longleftrightarrow> map_of d ''toolid'' = Some (JStr t) \<and> map_of st t = Some rec
     \<and> map_of d ''esecret'' = Some (JStr (rg_esecret rec))"

definition reveals :: "'b plugin \<Rightarrow> 'b \<Rightarrow> string \<Rightarrow> registration \<Rightarrow> string \<times> json \<Rightarrow> bool" where
  "reveals pl b t rec nv \<longleftrightarrow> (\<exists>e \<in> set (rg_entries rec). cs_name e = fst nv
     \<and> (\<exists>x. snd nv = JStr x \<and> pl_get pl b (cs_field e) (item_of t e) = Inr x))"

lemma dispatch_secrets:
  assumes "sps_dispatch cfg pl op (JObj d) s = (Inr r, s')" "jget ''secrets'' r = Some body"
  shows "op \<noteq> ''ping'' \<and> s' = s \<and> jget ''status'' r = Some (JStr ''ok'')
    \<and> (\<exists>t rec fs. speaks_for d (ss_store s) t rec \<and> body = JObj fs \<and> list_all (reveals pl (ss_backend s) t rec) fs)"
proof -
  have no: "jget ''secrets'' (handle_ping cfg) = None" "jget ''secrets'' (ok_reply []) = None"
    "jget ''secrets'' (ok_reply [(''name'', n)]) = None" for n
    by (simp_all add: handle_ping_def ok_reply_def)
  have store: "fst (on_store s x) = Inr r \<Longrightarrow> False" for x
    using assms(2) no by (auto simp: on_store_def split: sum.splits)
  have wr: "fst (handle_write_secret cfg pl (JObj d) s) = Inr r \<Longrightarrow> False"
    using assms(2) no by (auto simp: handle_write_secret_def split: sum.splits prod.splits)
  from assms(1) store wr no(1) assms(2) have
    "op = ''get_secrets'' \<and> handle_get_secrets pl (JObj d) s = Inr r \<and> s' = s
      \<or> op = ''get_secret'' \<and> handle_get_secret pl (JObj d) s = Inr r \<and> s' = s"
    by (simp add: sps_dispatch_def split: if_split_asm) (metis fst_conv)+
  then show ?thesis
  proof
    assume g: "op = ''get_secrets'' \<and> handle_get_secrets pl (JObj d) s = Inr r \<and> s' = s"
    then obtain t rec fs where h: "speaks_for d (ss_store s) t rec" "read_entries pl (ss_backend s) t [] (rg_entries rec) = Inr fs"
      "r = ok_reply [(''secrets'', JObj fs)]"
      by (auto simp: handle_get_secrets_def h_field_Inr check_es_Inr speaks_for_def)
    have "list_all (reveals pl (ss_backend s) t rec) fs"
      using read_entries_ok [OF h(2)] by (fastforce simp: list_all_iff reveals_def)
    with g h assms(2) show ?thesis by (auto simp: ok_reply_def)
  next
    assume g: "op = ''get_secret'' \<and> handle_get_secret pl (JObj d) s = Inr r \<and> s' = s"
    then obtain t rec e n x where h: "speaks_for d (ss_store s) t rec" "find_entry n rec = Inr e"
      "read_backend pl (ss_backend s) t e = Inr x" "r = ok_reply [(''secrets'', JObj [(n, JStr x)])]"
      by (auto simp: handle_get_secret_def h_field_Inr check_es_Inr speaks_for_def)
    from h(3) have "pl_get pl (ss_backend s) (cs_field e) (item_of t e) = Inr x"
      by (auto simp: read_backend_def split: sum.splits)
    with find_entry_Inr [OF h(2)] have "list_all (reveals pl (ss_backend s) t rec) [(n, JStr x)]" by (auto simp: reveals_def)
    moreover have "body = JObj [(n, JStr x)]" using h(4) assms(2) by (simp add: ok_reply_def)
    ultimately have "\<exists>t rec fs. speaks_for d (ss_store s) t rec \<and> body = JObj fs \<and> list_all (reveals pl (ss_backend s) t rec) fs"
      using h(1) by blast
    with g h(4) show ?thesis by (simp add: ok_reply_def)
  qed
qed

text \<open>What auditing makes of a reply.\<close>

lemma handle_reply:
  assumes "sps_handle sha mb cfg pl ts w inp sv = (r, sv')" "jget ''status'' r = Some (JStr ''ok'')"
    and "sps_answer cfg pl inp (sv_sps sv) = (op, r0, s')"
  shows "r = r0 \<and> (op \<noteq> ''ping'' \<and> op \<noteq> ''invalid'' \<longrightarrow> w \<and> (\<exists>x. sv_audit sv' = sv_audit sv @
      [audit_record ts op ''ok'' (audit_identity sha inp ''toolid'') (audit_identity sha inp ''name'') None x]))"
proof -
  have "jget ''status'' (err_envelope m) \<noteq> Some (JStr ''ok'')" for m by (simp add: err_envelope_def)
  with assms show ?thesis
    by (auto simp: sps_handle_def audit_event_def reply_outcome_def Let_def split: if_splits sum.splits)
qed

lemma handle_not_ok:
  assumes "sps_handle sha mb cfg pl ts w inp sv = (r, sv')" "sps_answer cfg pl inp (sv_sps sv) = (op, r0, s')"
  shows "r = r0 \<or> r = err_envelope ''Backend error''"
  using assms by (auto simp: sps_handle_def Let_def split: if_splits sum.splits)

text \<open>C29: In every state the secrets provider reaches, a reply that carries secrets answers a message
  that names a registered tool and presents that tool's own E_SECRET, which is at least 32
  characters long. Every value in it is what the backend holds for an entry of that registration,
  under the tool's own item or an item granted to it, and the reply was audited first.\<close>

theorem secrets_only_to_holder:
  assumes "sps_reach sha mb cfg pl b0 sv" "sps_handle sha mb cfg pl ts w inp sv = (r, sv')"
    and "jget ''secrets'' r = Some body"
  shows "\<exists>d t rec fs. inp = Inr (JObj d) \<and> speaks_for d (ss_store (sv_sps sv)) t rec \<and> 32 \<le> length (rg_esecret rec)
    \<and> body = JObj fs \<and> list_all (reveals pl (ss_backend (sv_sps sv)) t rec) fs \<and> list_all (entry_granted cfg t) (rg_entries rec)
    \<and> length (sv_audit sv') = Suc (length (sv_audit sv))"
proof -
  obtain op r0 s' where ans: "sps_answer cfg pl inp (sv_sps sv) = (op, r0, s')" by (metis prod_cases3)
  have none: "jget ''secrets'' (err_envelope m) = None" for m by (simp add: err_envelope_def)
  with handle_not_ok [OF assms(2) ans] assms(3) have r: "r = r0" by auto
  from ans show ?thesis
  proof (cases rule: answer_cases)
    case (answered d)
    from dispatch_secrets [OF answered(4), of body] assms(3) r obtain t rec fs where
      op: "op \<noteq> ''ping''" "jget ''status'' r = Some (JStr ''ok'')"
      and sp: "speaks_for d (ss_store (sv_sps sv)) t rec" "body = JObj fs" "list_all (reveals pl (ss_backend (sv_sps sv)) t rec) fs"
      by auto
    have "op \<noteq> ''invalid''" using answered(2) by (auto simp: sps_ops_def)
    with handle_reply [OF assms(2) op(2) ans] op(1) have "length (sv_audit sv') = Suc (length (sv_audit sv))" by auto
    moreover have "registration_ok cfg t rec"
      using reach_store_ok [OF assms(1)] sp(1) by (auto simp: store_ok_def speaks_for_def dest: map_of_SomeD)
    ultimately show ?thesis using answered(1) sp by (auto simp: registration_ok_def)
  qed (use r assms(3) none in auto)
qed

text \<open>A message for a tool that is not registered and one with the wrong E_SECRET are answered
  alike: on any two servers that do not accept the message, the reply of a read or a write is the
  same, and neither the registrations nor the backend nor the audit log changes.\<close>

theorem stranger_learns_nothing:
  assumes "map_of d ''op'' = Some (JStr op)" "op \<in> {''get_secrets'', ''get_secret'', ''write_secret''}"
    and "\<And>t rec. \<not> speaks_for d (ss_store (sv_sps sv)) t rec" "\<And>t rec. \<not> speaks_for d (ss_store (sv_sps sv2)) t rec"
  shows "fst (sps_handle sha mb cfg pl ts w (Inr (JObj d)) sv) = fst (sps_handle sha mb cfg pl ts w (Inr (JObj d)) sv2)
    \<and> sv_sps (snd (sps_handle sha mb cfg pl ts w (Inr (JObj d)) sv)) = sv_sps sv
    \<and> sv_audit (snd (sps_handle sha mb cfg pl ts w (Inr (JObj d)) sv)) = sv_audit sv"
proof -
  define refusal where "refusal = (if op = ''get_secrets'' then andthen (h_field (JObj d) ''toolid'') (\<lambda>_. Inl AuthError)
    else andthen (h_field (JObj d) ''toolid'') (\<lambda>_. andthen (h_field (JObj d) ''name'') (\<lambda>_. Inl AuthError :: hexn + json)))"
  have neg: "check_es st t (JObj d) = Inl AuthError" if "\<And>t rec. \<not> speaks_for d st t rec" "h_field (JObj d) ''toolid'' = Inr t" for st t
  proof (cases "check_es st t (JObj d)")
    case (Inl e)
    then show ?thesis using check_es_Inl by blast
  next
    case (Inr rec)
    with that show ?thesis by (auto simp: check_es_Inr h_field_Inr speaks_for_def)
  qed
  have disp: "sps_dispatch cfg pl op (JObj d) s = (refusal, s)" if n: "\<And>t rec. \<not> speaks_for d (ss_store s) t rec" for s
  proof (cases "h_field (JObj d) ''toolid''")
    case (Inr t)
    note c = neg [OF n Inr]
    show ?thesis using assms(2) Inr c
      by (cases "h_field (JObj d) ''name''")
         (auto simp: sps_dispatch_def refusal_def handle_get_secrets_def handle_get_secret_def handle_write_secret_def write_target_def)
  qed (use assms(2) in \<open>auto simp: sps_dispatch_def refusal_def handle_get_secrets_def handle_get_secret_def handle_write_secret_def write_target_def\<close>)
  have bad: "h_field m k = Inl e \<Longrightarrow> e = BadRegistration" for m k e
    by (auto simp: h_field_def split: option.splits json.splits if_splits)
  have "\<exists>e. refusal = Inl e \<and> (e = AuthError \<or> e = BadRegistration)"
    using bad [of "JObj d" "''toolid''"] bad [of "JObj d" "''name''"]
    by (cases "h_field (JObj d) ''toolid''"; cases "h_field (JObj d) ''name''") (simp_all add: refusal_def)
  then obtain e where e: "refusal = Inl e" "e = AuthError \<or> e = BadRegistration" by blast
  have ans: "sps_answer cfg pl (Inr (JObj d)) s = (op, err_envelope (hexn_message e), s)"
    if "\<And>t rec. \<not> speaks_for d (ss_store s) t rec" for s
    using assms(1,2) disp [OF that] e(1) by (auto simp: sps_answer_def sps_ops_def)
  have out: "reply_outcome (err_envelope (hexn_message e)) \<in> {''Bad request'', ''Unauthorized''}"
    using e(2) by (auto simp: reply_outcome_def err_envelope_def hexn_message_def message_set_def)
  show ?thesis using ans [OF assms(3)] ans [OF assms(4)] out by (simp add: sps_handle_def Let_def)
qed

lemma write_target_steps:
  assumes "write_target cfg (JObj d) st = Inr (n, f, i, v)"
  obtains t rec e where "h_field (JObj d) ''toolid'' = Inr t" "h_field (JObj d) ''name'' = Inr n"
    "check_es st t (JObj d) = Inr rec" "find_entry n rec = Inr e" "cs_writable e" "cs_field e = f" "item_of t e = i"
    "map_of d ''value'' = Some (JStr v)" "length (utf8_encode v) \<le> sp_max_value_bytes cfg"
proof -
  have last: "(case map_of d ''value'' of Some (JStr v) \<Rightarrow>
         if length (utf8_encode v) > sp_max_value_bytes cfg then Inl BadRegistration else Inr (nm, f0, i0, v)
     | _ \<Rightarrow> Inl BadRegistration) = Inr (n, f, i, v) \<Longrightarrow> map_of d ''value'' = Some (JStr v)
       \<and> length (utf8_encode v) \<le> sp_max_value_bytes cfg \<and> nm = n \<and> f0 = f \<and> i0 = i" for nm f0 i0
    by (auto split: option.splits json.splits if_splits)
  from assms obtain t nm rec e where h: "h_field (JObj d) ''toolid'' = Inr t" "h_field (JObj d) ''name'' = Inr nm"
    "check_es st t (JObj d) = Inr rec" "find_entry nm rec = Inr e" "cs_writable e"
    and v: "map_of d ''value'' = Some (JStr v) \<and> length (utf8_encode v) \<le> sp_max_value_bytes cfg \<and> nm = n
       \<and> cs_field e = f \<and> item_of t e = i"
    unfolding write_target_def andthen_Inr ensure_Inr jget.simps by (elim exE conjE) (drule last, blast)
  with that [of t rec e] show thesis by simp
qed

lemma write_target_Inr:
  assumes "write_target cfg (JObj d) st = Inr (n, f, i, v)"
  obtains t rec e where "speaks_for d st t rec" "e \<in> set (rg_entries rec)" "cs_writable e" "cs_name e = n"
    "f = cs_field e" "i = item_of t e" "map_of d ''name'' = Some (JStr n)" "map_of d ''value'' = Some (JStr v)"
    "length (utf8_encode v) \<le> sp_max_value_bytes cfg"
proof -
  from assms show thesis
  proof (rule write_target_steps)
    fix t rec e
    assume h: "h_field (JObj d) ''toolid'' = Inr t" "h_field (JObj d) ''name'' = Inr n"
      "check_es st t (JObj d) = Inr rec" "find_entry n rec = Inr e" "cs_writable e" "cs_field e = f" "item_of t e = i"
      "map_of d ''value'' = Some (JStr v)" "length (utf8_encode v) \<le> sp_max_value_bytes cfg"
    then have "speaks_for d st t rec" "map_of d ''name'' = Some (JStr n)"
      by (simp_all add: h_field_Inr check_es_Inr speaks_for_def)
    with h find_entry_Inr [OF h(4)] that [of t rec e] show thesis by simp
  qed
qed

lemma dispatch_backend:
  assumes "ss_backend (snd (sps_dispatch cfg pl op msg s)) \<noteq> ss_backend s"
  shows "op = ''write_secret'' \<and> (\<exists>n f i v. write_target cfg msg (ss_store s) = Inr (n, f, i, v)
    \<and> ss_backend (snd (sps_dispatch cfg pl op msg s)) = snd (pl_write pl (ss_backend s) f i v))"
proof -
  have st: "ss_backend (snd (on_store s x)) = ss_backend s" for x by (simp add: on_store_def split: sum.splits)
  from assms have op: "op = ''write_secret''" by (auto simp: sps_dispatch_def st split: if_splits)
  with assms have "ss_backend (snd (handle_write_secret cfg pl msg s)) \<noteq> ss_backend s" by (simp add: sps_dispatch_def)
  then obtain n f i v where "write_target cfg msg (ss_store s) = Inr (n, f, i, v)"
    "ss_backend (snd (handle_write_secret cfg pl msg s)) = snd (pl_write pl (ss_backend s) f i v)"
    by (auto simp: handle_write_secret_def split: sum.splits prod.splits)
  with op show ?thesis by (auto simp: sps_dispatch_def)
qed

text \<open>C30: The backend changes only through a write by the holder of a tool's E_SECRET to an entry of
  its registration that is declared writable, with a value within the size limit, under the tool's
  own item or one granted to it; the new backend is what the plugin makes of exactly that write.\<close>

theorem backend_written_only_if_writable:
  assumes "sps_reach sha mb cfg pl b0 sv" "sps_handle sha mb cfg pl ts w inp sv = (r, sv')"
    and "ss_backend (sv_sps sv') \<noteq> ss_backend (sv_sps sv)"
  shows "\<exists>d t rec e v. inp = Inr (JObj d) \<and> map_of d ''op'' = Some (JStr ''write_secret'')
    \<and> speaks_for d (ss_store (sv_sps sv)) t rec \<and> e \<in> set (rg_entries rec) \<and> cs_writable e \<and> entry_granted cfg t e
    \<and> map_of d ''name'' = Some (JStr (cs_name e)) \<and> map_of d ''value'' = Some (JStr v)
    \<and> length (utf8_encode v) \<le> sp_max_value_bytes cfg
    \<and> ss_backend (sv_sps sv') = snd (pl_write pl (ss_backend (sv_sps sv)) (cs_field e) (item_of t e) v)"
proof -
  obtain op r0 s' where ans: "sps_answer cfg pl inp (sv_sps sv) = (op, r0, s')" by (metis prod_cases3)
  with assms(2) handle_sps [of sha mb cfg pl ts w inp sv] have s': "sv_sps sv' = s'" by simp
  from ans obtain d where d: "inp = Inr (JObj d)" "map_of d ''op'' = Some (JStr op)" "snd (sps_dispatch cfg pl op (JObj d) (sv_sps sv)) = s'"
    using assms(3) s' by (elim answer_cases) (auto intro: that)
  from dispatch_backend [of cfg pl op "JObj d" "sv_sps sv"] assms(3) s' d(3) obtain n f i v where
    op: "op = ''write_secret''" and wt: "write_target cfg (JObj d) (ss_store (sv_sps sv)) = Inr (n, f, i, v)"
    and b: "ss_backend (sv_sps sv') = snd (pl_write pl (ss_backend (sv_sps sv)) f i v)" by auto
  from wt show ?thesis
  proof (rule write_target_Inr)
    fix t rec e
    assume e: "speaks_for d (ss_store (sv_sps sv)) t rec" "e \<in> set (rg_entries rec)" "cs_writable e" "cs_name e = n"
      "f = cs_field e" "i = item_of t e" "map_of d ''name'' = Some (JStr n)" "map_of d ''value'' = Some (JStr v)"
      "length (utf8_encode v) \<le> sp_max_value_bytes cfg"
    have "registration_ok cfg t rec"
      using reach_store_ok [OF assms(1)] e(1) by (auto simp: store_ok_def speaks_for_def dest: map_of_SomeD)
    with e(2) have "entry_granted cfg t e" by (auto simp: registration_ok_def list_all_iff)
    with d op b e show ?thesis by blast
  qed
qed

text \<open>Auditing fails closed: an operation other than the liveness probe is answered with success
  only when its record, with the operation's name, the outcome and the digests of the tool and
  secret names, has been written to the audit log.\<close>

theorem success_is_audited:
  assumes "sps_handle sha mb cfg pl ts w (Inr (JObj d)) sv = (r, sv')" "jget ''status'' r = Some (JStr ''ok'')"
    and "map_of d ''op'' = Some (JStr op)" "op \<noteq> ''ping''"
  shows "w \<and> (\<exists>x. sv_audit sv' = sv_audit sv @ [audit_record ts op ''ok'' (audit_identity sha (Inr (JObj d)) ''toolid'')
    (audit_identity sha (Inr (JObj d)) ''name'') None x])"
proof -
  obtain op' r0 s' where ans: "sps_answer cfg pl (Inr (JObj d)) (sv_sps sv) = (op', r0, s')" by (metis prod_cases3)
  note h = handle_reply [OF assms(1,2) ans]
  from ans have "op' = op \<and> op \<noteq> ''invalid'' \<or> r0 = err_envelope ''Bad request''"
    using assms(3) by (elim answer_cases) (auto simp: sps_ops_def)
  with h assms(2,4) show ?thesis by (auto simp: err_envelope_def)
qed

section \<open>Framing\<close>

abbreviation line_of :: "string \<Rightarrow> string" where
  "line_of s \<equiv> takeWhile (\<lambda>c. c \<noteq> CHR 0x0A) s"

lemma partition_line:
  "partition_at (CHR 0x0A) s = (a, sep, b) \<Longrightarrow> (sep \<longleftrightarrow> CHR 0x0A \<in> set s) \<and> a = line_of s
     \<and> length a + (if sep then 1 else 0) \<le> length s"
proof (cases "CHR 0x0A \<in> set s")
  case True
  then obtain x y where xy: "s = x @ CHR 0x0A # y" "\<forall>c \<in> set x. c \<noteq> CHR 0x0A" by (metis split_list_first)
  then have "line_of s = x" by (simp add: takeWhile_stop)
  with True xy(1) show "partition_at (CHR 0x0A) s = (a, sep, b) \<Longrightarrow> ?thesis" by (auto simp: partition_at_def)
qed (auto simp: partition_at_def length_takeWhile_le)

lemma collect_line_bound:
  "collect_line raw rs = Inr out \<Longrightarrow> length raw \<le> MAX_BODY_BYTES + 1 \<Longrightarrow> length out \<le> MAX_BODY_BYTES + 1"
proof (induction rs arbitrary: raw)
  case (Cons x rs)
  show ?case
  proof (cases x)
    case (Chunk s)
    define chunk where "chunk = take (recv_size raw) s"
    obtain a sep b where part: "partition_at (CHR 0x0A) chunk = (a, sep, b)" by (metis prod_cases3)
    note pl = partition_line [OF part]
    show ?thesis
    proof (cases "length raw > MAX_BODY_BYTES \<or> chunk = []")
      case True
      with Cons.prems Chunk show ?thesis by (auto simp: chunk_def Let_def split: if_splits)
    next
      case False
      then have len: "length raw + length chunk \<le> MAX_BODY_BYTES + 1" by (auto simp: chunk_def recv_size_def)
      from False Cons.prems(1) part Chunk have "if sep then out = raw @ a @ [CHR 0x0A] else collect_line (raw @ a) rs = Inr out"
        by (simp add: chunk_def Let_def split: if_splits)
      with Cons.IH [of "raw @ a"] len pl show ?thesis by (auto split: if_splits)
    qed
  qed (use Cons.prems in \<open>auto split: if_splits\<close>)
qed (auto split: if_splits)

text \<open>Reading a request keeps at most one byte more than the limit of one mebibyte, whatever the
  peer sends, and a line that is parsed as a message is within the limit.\<close>

theorem request_line_bounded:
  "(\<forall>raw. collect_line [] rs = Inr raw \<longrightarrow> length raw \<le> MAX_BODY_BYTES + 1)
   \<and> (read_socket_json loads rs = Inr msg \<longrightarrow>
        (\<exists>raw. collect_line [] rs = Inr raw \<and> length raw \<le> MAX_BODY_BYTES \<and> read_one_json loads raw = Inr msg))"
  using collect_line_bound [of "[]" rs] by (auto simp: read_socket_json_def split: if_splits)

lemma collect_line_chunks:
  assumes "\<forall>c \<in> set cs. c \<noteq> [] \<and> length c \<le> 65536" "length raw + length (concat cs) \<le> MAX_BODY_BYTES"
    and "CHR 0x0A \<in> set (concat cs)"
  shows "collect_line raw (map Chunk cs @ rs) = Inr (raw @ line_of (concat cs) @ [CHR 0x0A])"
  using assms
proof (induction cs arbitrary: raw)
  case (Cons c cs)
  have tk: "take (recv_size raw) c = c" using Cons.prems by (auto simp: recv_size_def)
  obtain a sep b where part: "partition_at (CHR 0x0A) c = (a, sep, b)" by (metis prod_cases3)
  note pl = partition_line [OF part]
  show ?case
  proof (cases "CHR 0x0A \<in> set c")
    case True
    then have "line_of (c @ concat cs) = line_of c" by (simp add: takeWhile_append1)
    with True tk part pl Cons.prems show ?thesis by simp
  next
    case False
    then have "\<And>x. x \<in> set c \<Longrightarrow> x \<noteq> CHR 0x0A" by auto
    from takeWhile_append2 [OF this] this have eq: "line_of (c @ concat cs) = c @ line_of (concat cs)" "line_of c = c"
      by (auto simp: takeWhile_eq_all_conv)
    from Cons.IH [of "raw @ c"] Cons.prems False have
      "collect_line (raw @ c) (map Chunk cs @ rs) = Inr ((raw @ c) @ line_of (concat cs) @ [CHR 0x0A])" by simp
    with False tk part pl eq Cons.prems show ?thesis by simp
  qed
qed simp

text \<open>How a request is cut into segments does not matter: when the peer sends at most one mebibyte
  with a line feed in it, in pieces of at most 64 KiB, the message is what \<^verbatim>\<open>read_one_json\<close> reads
  from the first line of all the bytes together, and nothing after that line is looked at.\<close>

theorem segmentation_irrelevant:
  assumes "\<forall>c \<in> set cs. c \<noteq> [] \<and> length c \<le> 65536" "length (concat cs) \<le> MAX_BODY_BYTES"
    and "CHR 0x0A \<in> set (concat cs)"
  shows "read_socket_json loads (map Chunk cs @ rs) = read_one_json loads (line_of (concat cs) @ [CHR 0x0A])"
proof -
  have "collect_line [] (map Chunk cs @ rs) = Inr (line_of (concat cs) @ [CHR 0x0A])"
    using collect_line_chunks [of cs "[]" rs] assms by simp
  moreover obtain a sep b where part: "partition_at (CHR 0x0A) (concat cs) = (a, sep, b)" by (metis prod_cases3)
  from partition_line [OF part] assms(2,3) have "length (line_of (concat cs) @ [CHR 0x0A]) \<le> MAX_BODY_BYTES"
    by (auto split: if_splits)
  ultimately show ?thesis by (simp add: read_socket_json_def)
qed

end
