(* ===== verification/SpsVault.thy ===== *)
theory SpsVault
  imports SpsProps
begin

text \<open>
  The encrypted local vault (\<^verbatim>\<open>sps/plugins/localfile.py\<close>) behind the plugin interface
  (\<^verbatim>\<open>sps/plugins/base.py\<close>). The interface is a locale with the laws the handlers rely on;
  the vault provides them. Key derivation, Fernet and the JSON text of the contents are functions
  of the installed library, kept in the state: \<open>lf_encrypt\<close> takes a counter in place of the random
  initialisation vector, and \<open>'c\<close> is the type of its tokens. \<open>lf_io\<close> says which writes of the file succeed.
\<close>

section \<open>The plugin interface\<close>

locale secret_backend =
  fixes ok :: "'b \<Rightarrow> bool"
    and get :: "'b \<Rightarrow> string \<Rightarrow> string \<Rightarrow> exn + string"
    and wr :: "'b \<Rightarrow> string \<Rightarrow> string \<Rightarrow> string \<Rightarrow> (exn + unit) \<times> 'b"
  assumes write_keeps: "ok b \<Longrightarrow> ok (snd (wr b f i v))"
    and get_written: "ok b \<Longrightarrow> fst (wr b f i v) = Inr () \<Longrightarrow> get (snd (wr b f i v)) f i = Inr v"
    and get_other: "ok b \<Longrightarrow> (f', i') \<noteq> (f, i) \<Longrightarrow> get (snd (wr b f i v)) f' i' = get b f' i'"
    and get_failed: "ok b \<Longrightarrow> fst (wr b f i v) = Inl e \<Longrightarrow> get (snd (wr b f i v)) f' i' = get b f' i'"
begin

text \<open>What the handlers promise on any backend of this kind: the value written through a
  registration is the value read through it, by the same entry or by one for the same place.\<close>

lemma write_then_read:
  assumes "handle_write_secret cfg \<lparr>pl_get = get, pl_write = wr\<rparr> (JObj d) s = (Inr r, s')" "ok (ss_backend s)"
    and "map_of d ''name'' = Some (JStr n)" "map_of d ''value'' = Some (JStr v)"
    and "map_of d' ''toolid'' = map_of d ''toolid''" "map_of d' ''esecret'' = map_of d ''esecret''"
    and "map_of d' ''name'' = Some (JStr n)"
  shows "handle_get_secret \<lparr>pl_get = get, pl_write = wr\<rparr> (JObj d') s' = Inr (ok_reply [(''secrets'', JObj [(n, JStr v)])])"
proof -
  let ?pl = "\<lparr>pl_get = get, pl_write = wr\<rparr>"
  from assms(1) obtain n' f i v' where wt: "write_target cfg (JObj d) (ss_store s) = Inr (n', f, i, v')"
    and w: "fst (wr (ss_backend s) f i v') = Inr ()" and s': "s' = s\<lparr>ss_backend := snd (wr (ss_backend s) f i v')\<rparr>"
    by (auto simp: handle_write_secret_def split: sum.splits prod.splits)
  from wt show ?thesis
  proof (rule write_target_steps)
    fix t rec e
    assume c: "h_field (JObj d) ''toolid'' = Inr t" "h_field (JObj d) ''name'' = Inr n'"
      "check_es (ss_store s) t (JObj d) = Inr rec" "find_entry n' rec = Inr e" "cs_field e = f" "item_of t e = i"
      "map_of d ''value'' = Some (JStr v')"
    have n: "n' = n" "v' = v" using c(2,7) assms(3,4) by (simp_all add: h_field_Inr)
    have "h_field (JObj d') ''toolid'' = Inr t" "h_field (JObj d') ''name'' = Inr n" "check_es (ss_store s) t (JObj d') = Inr rec"
      using c(1-3) assms(5-7) n by (simp_all add: h_field_Inr check_es_Inr)
    moreover have "read_backend ?pl (ss_backend s') t e = Inr v"
      using get_written [OF assms(2) w] c(5,6) n by (simp add: read_backend_def s')
    ultimately show ?thesis using c(4) n by (simp add: handle_get_secret_def s')
  qed
qed

lemma write_then_read_other:
  assumes "handle_write_secret cfg \<lparr>pl_get = get, pl_write = wr\<rparr> (JObj d) s = (res, s')" "ok (ss_backend s)"
    and "write_target cfg (JObj d) (ss_store s) = Inr (n, f, i, v)" "(cs_field e, item_of t e) \<noteq> (f, i)"
  shows "read_backend \<lparr>pl_get = get, pl_write = wr\<rparr> (ss_backend s') t e
    = read_backend \<lparr>pl_get = get, pl_write = wr\<rparr> (ss_backend s) t e"
proof -
  have "ss_backend s' = snd (wr (ss_backend s) f i v)"
    using assms(1,3) by (auto simp: handle_write_secret_def split: sum.splits prod.splits)
  with get_other [OF assms(2,4)] show ?thesis by (simp add: read_backend_def)
qed

lemma reach_ok:
  assumes "sps_reach sha mb cfg \<lparr>pl_get = get, pl_write = wr\<rparr> b0 sv" "ok b0"
  shows "ok (ss_backend (sv_sps sv))"
  using assms(1)
proof (induction rule: sps_reach.induct)
  case (handled sv ts w inp)
  let ?pl = "\<lparr>pl_get = get, pl_write = wr\<rparr>"
  obtain op r s' where ans: "sps_answer cfg ?pl inp (sv_sps sv) = (op, r, s')" by (metis prod_cases3)
  have disp: "ok (ss_backend (snd (sps_dispatch cfg ?pl op msg (sv_sps sv))))" for op msg
    using dispatch_backend [of cfg ?pl op msg "sv_sps sv"] handled.IH write_keeps [OF handled.IH]
    by (cases "ss_backend (snd (sps_dispatch cfg ?pl op msg (sv_sps sv))) = ss_backend (sv_sps sv)") auto
  from ans have "ok (ss_backend s')"
  proof (cases rule: answer_cases)
    case (failed d e)
    with disp [of op "JObj d"] show ?thesis by simp
  next
    case (answered d)
    with disp [of op "JObj d"] show ?thesis by simp
  qed (use handled.IH in simp)
  then show ?case by (simp add: handle_sps ans)
qed (use assms(2) in \<open>simp_all add: flush_rejects_def\<close>)

end

section \<open>The vault\<close>

type_synonym vault_data = "(string \<times> (string \<times> string) list) list"

record 'c envelope =
  ev_version :: int
  ev_salt :: string
  ev_n :: int
  ev_r :: int
  ev_p :: int
  ev_ciphertext :: 'c

definition VAULT_VERSION :: int where
  "VAULT_VERSION = 1"

definition default_params :: "int \<times> int \<times> int" where
  "default_params = (2 ^ 16, 8, 1)"

definition ev_params :: "'c envelope \<Rightarrow> int \<times> int \<times> int" where
  "ev_params ev = (ev_n ev, ev_r ev, ev_p ev)"

record 'k vault =
  vl_salt :: string
  vl_params :: "int \<times> int \<times> int"
  vl_key :: 'k
  vl_data :: vault_data

record ('k, 'c) local =
  lf_file :: "'c envelope option"
  lf_vault :: "'k vault"
  lf_kdf :: "string \<Rightarrow> string \<Rightarrow> int \<times> int \<times> int \<Rightarrow> 'k option"
  lf_encrypt :: "nat \<Rightarrow> 'k \<Rightarrow> vault_data \<Rightarrow> 'c"
  lf_decrypt :: "'k \<Rightarrow> 'c \<Rightarrow> vault_data option"
  lf_io :: "nat \<Rightarrow> bool"
  lf_writes :: nat

definition vault_passphrase :: "(string \<Rightarrow> string option) \<Rightarrow> (string \<Rightarrow> exn + string) \<Rightarrow> exn + string" where
  "vault_passphrase environ read_private =
     (case environ ''SP_VAULT_PASSPHRASE'' of
        Some (c # cs) \<Rightarrow> Inr (c # cs)
      | _ \<Rightarrow>
          (case environ ''SP_VAULT_PASSPHRASE_FILE'' of
             Some (c # cs) \<Rightarrow>
               andthen (read_private (c # cs)) (\<lambda>t. if py_strip t = [] then Inl ValueError else Inr (py_strip t))
           | _ \<Rightarrow> Inl ValueError))"

text \<open>\<^verbatim>\<open>_write_vault\<close>: the file is replaced as a whole or not at all.\<close>

definition write_vault :: "string \<Rightarrow> 'k \<Rightarrow> vault_data \<Rightarrow> int \<times> int \<times> int \<Rightarrow> ('k, 'c) local \<Rightarrow> (exn + unit) \<times> ('k, 'c) local" where
  "write_vault salt key data params b =
     (let b' = b\<lparr>lf_writes := Suc (lf_writes b)\<rparr> in
      if lf_io b (lf_writes b)
      then (Inr (), b'\<lparr>lf_file := Some \<lparr>ev_version = VAULT_VERSION, ev_salt = salt, ev_n = fst params,
              ev_r = fst (snd params), ev_p = snd (snd params), ev_ciphertext = lf_encrypt b (lf_writes b) key data\<rparr>\<rparr>)
      else (Inl OSError, b'))"

definition vault_decrypt :: "('k, 'c) local \<Rightarrow> 'k \<Rightarrow> 'c \<Rightarrow> exn + vault_data" where
  "vault_decrypt b key token = (case lf_decrypt b key token of None \<Rightarrow> Inl RuntimeError | Some d \<Rightarrow> Inr d)"

text \<open>\<^verbatim>\<open>_Vault.__init__\<close> and \<^verbatim>\<open>_Vault.init\<close>.\<close>

definition vault_open :: "string \<Rightarrow> ('k, 'c) local \<Rightarrow> exn + 'k vault" where
  "vault_open passphrase b =
     (case lf_file b of
        None \<Rightarrow> Inl OSError
      | Some ev \<Rightarrow>
          andthen (ensure (ev_version ev = VAULT_VERSION) RuntimeError) (\<lambda>_.
          case lf_kdf b passphrase (ev_salt ev) (ev_params ev) of
            None \<Rightarrow> Inl RuntimeError
          | Some key \<Rightarrow>
              andthen (vault_decrypt b key (ev_ciphertext ev)) (\<lambda>data.
                Inr \<lparr>vl_salt = ev_salt ev, vl_params = ev_params ev, vl_key = key, vl_data = data\<rparr>)))"

definition vault_init :: "string \<Rightarrow> string \<Rightarrow> ('k, 'c) local \<Rightarrow> (exn + 'k vault) \<times> ('k, 'c) local" where
  "vault_init passphrase salt b =
     (if passphrase = [] then (Inl ValueError, b)
      else if lf_file b \<noteq> None then (Inl OSError, b)
      else case lf_kdf b passphrase salt default_params of
             None \<Rightarrow> (Inl RuntimeError, b)
           | Some key \<Rightarrow>
               (case write_vault salt key [] default_params b of
                  (Inl e, b') \<Rightarrow> (Inl e, b')
                | (Inr _, b') \<Rightarrow> (vault_open passphrase b', b')))"

definition vault_reload :: "('k, 'c) local \<Rightarrow> exn + ('k, 'c) local" where
  "vault_reload b =
     (case lf_file b of
        None \<Rightarrow> Inl OSError
      | Some ev \<Rightarrow>
          andthen (ensure (ev_salt ev = vl_salt (lf_vault b) \<and> ev_version ev = VAULT_VERSION
              \<and> ev_params ev = vl_params (lf_vault b)) RuntimeError) (\<lambda>_.
          andthen (vault_decrypt b (vl_key (lf_vault b)) (ev_ciphertext ev)) (\<lambda>data.
            Inr (b\<lparr>lf_vault := (lf_vault b)\<lparr>vl_data := data\<rparr>\<rparr>))))"

definition fields_of :: "vault_data \<Rightarrow> string \<Rightarrow> (string \<times> string) list" where
  "fields_of data tool_id = (case map_of data tool_id of None \<Rightarrow> [] | Some fs \<Rightarrow> fs)"

definition vault_get :: "string \<Rightarrow> string \<Rightarrow> ('k, 'c) local \<Rightarrow> exn + string option" where
  "vault_get tool_id fld b =
     andthen (vault_reload b) (\<lambda>b'. Inr (map_of (fields_of (vl_data (lf_vault b')) tool_id) fld))"

definition vault_list_fields :: "string \<Rightarrow> ('k, 'c) local \<Rightarrow> exn + string list" where
  "vault_list_fields tool_id b =
     andthen (vault_reload b) (\<lambda>b'. Inr (map fst (fields_of (vl_data (lf_vault b')) tool_id)))"

definition vault_has :: "string \<Rightarrow> string \<Rightarrow> ('k, 'c) local \<Rightarrow> exn + bool" where
  "vault_has tool_id fld b = andthen (vault_list_fields tool_id b) (\<lambda>fs. Inr (fld \<in> set fs))"

text \<open>\<^verbatim>\<open>_Vault.set\<close>: when the file cannot be written the contents are put back.\<close>

definition vault_set :: "string \<Rightarrow> string \<Rightarrow> string \<Rightarrow> ('k, 'c) local \<Rightarrow> (exn + unit) \<times> ('k, 'c) local" where
  "vault_set tool_id fld value b =
     (case vault_reload b of
        Inl e \<Rightarrow> (Inl e, b)
      | Inr b1 \<Rightarrow>
          let previous = vl_data (lf_vault b1);
              candidate = AList.update tool_id (AList.update fld value (fields_of previous tool_id)) previous;
              b2 = b1\<lparr>lf_vault := (lf_vault b1)\<lparr>vl_data := candidate\<rparr>\<rparr>
          in case write_vault (vl_salt (lf_vault b2)) (vl_key (lf_vault b2)) candidate (vl_params (lf_vault b2)) b2 of
               (Inr _, b3) \<Rightarrow> (Inr (), b3)
             | (Inl e, b3) \<Rightarrow> (Inl e, b3\<lparr>lf_vault := (lf_vault b3)\<lparr>vl_data := previous\<rparr>\<rparr>))"

text \<open>\<^verbatim>\<open>LocalFilePlugin\<close>.\<close>

definition localfile_get :: "('k, 'c) local \<Rightarrow> string \<Rightarrow> string \<Rightarrow> exn + string" where
  "localfile_get b fld item =
     andthen (vault_get item fld b) (\<lambda>v. case v of None \<Rightarrow> Inl KeyError | Some s \<Rightarrow> Inr s)"

definition localfile_write :: "('k, 'c) local \<Rightarrow> string \<Rightarrow> string \<Rightarrow> string \<Rightarrow> (exn + unit) \<times> ('k, 'c) local" where
  "localfile_write b fld item value = vault_set item fld value b"

definition localfile_plugin :: "('k, 'c) local plugin" where
  "localfile_plugin = \<lparr>pl_get = localfile_get, pl_write = localfile_write\<rparr>"

section \<open>The vault keeps the interface's laws\<close>

text \<open>The library inverts its own encryption.\<close>

definition crypto_ok :: "('k, 'c) local \<Rightarrow> bool" where
  "crypto_ok b \<longleftrightarrow> (\<forall>n key data. lf_decrypt b key (lf_encrypt b n key data) = Some data)"

text \<open>What the plugin sees of the file: its contents, if the open vault can read it.\<close>

definition vault_contents :: "('k, 'c) local \<Rightarrow> vault_data option" where
  "vault_contents b = (case vault_reload b of Inl _ \<Rightarrow> None | Inr b' \<Rightarrow> Some (vl_data (lf_vault b')))"

lemma reload_frame:
  "vault_reload b = Inr b' \<Longrightarrow> lf_file b' = lf_file b \<and> lf_decrypt b' = lf_decrypt b \<and> lf_encrypt b' = lf_encrypt b
     \<and> lf_io b' = lf_io b \<and> lf_writes b' = lf_writes b \<and> vl_salt (lf_vault b') = vl_salt (lf_vault b)
     \<and> vl_key (lf_vault b') = vl_key (lf_vault b) \<and> vl_params (lf_vault b') = vl_params (lf_vault b)"
  by (auto simp: vault_reload_def split: option.splits)

lemma reload_cong:
  assumes "lf_file b' = lf_file b" "lf_decrypt b' = lf_decrypt b" "vl_salt (lf_vault b') = vl_salt (lf_vault b)"
    "vl_key (lf_vault b') = vl_key (lf_vault b)" "vl_params (lf_vault b') = vl_params (lf_vault b)"
  shows "vault_contents b' = vault_contents b \<and> (\<forall>e. vault_reload b' = Inl e \<longleftrightarrow> vault_reload b = Inl e)"
  using assms by (auto simp: vault_contents_def vault_reload_def vault_decrypt_def andthen_def ensure_def split: option.splits)

lemma localfile_get_contents:
  "vault_contents b = Some d \<Longrightarrow> localfile_get b f i = (case map_of (fields_of d i) f of None \<Rightarrow> Inl KeyError | Some s \<Rightarrow> Inr s)"
  by (auto simp: vault_contents_def localfile_get_def vault_get_def split: sum.splits)

lemma localfile_get_cong:
  assumes "lf_file b' = lf_file b" "lf_decrypt b' = lf_decrypt b" "vl_salt (lf_vault b') = vl_salt (lf_vault b)"
    "vl_key (lf_vault b') = vl_key (lf_vault b)" "vl_params (lf_vault b') = vl_params (lf_vault b)"
  shows "localfile_get b' f i = localfile_get b f i"
  using reload_cong [OF assms]
  by (auto simp: localfile_get_def vault_get_def vault_contents_def andthen_def split: sum.splits)

lemma vault_set_cases:
  assumes "crypto_ok b"
  obtains (unreadable) e where "vault_set t f v b = (Inl e, b)"
  | (unwritten) b' e where "vault_set t f v b = (Inl e, b')" "crypto_ok b'" "lf_file b' = lf_file b" "lf_decrypt b' = lf_decrypt b"
      "vl_salt (lf_vault b') = vl_salt (lf_vault b)" "vl_key (lf_vault b') = vl_key (lf_vault b)"
      "vl_params (lf_vault b') = vl_params (lf_vault b)"
  | (written) b' d where "vault_set t f v b = (Inr (), b')" "crypto_ok b'" "vault_contents b = Some d"
      "vault_contents b' = Some (AList.update t (AList.update f v (fields_of d t)) d)"
proof (cases "vault_reload b")
  case (Inl e)
  then show ?thesis using unreadable by (simp add: vault_set_def)
next
  case (Inr b1)
  note fr = reload_frame [OF Inr]
  define d where "d = vl_data (lf_vault b1)"
  define cand where "cand = AList.update t (AList.update f v (fields_of d t)) d"
  have c1: "crypto_ok b1" using assms fr by (simp add: crypto_ok_def)
  show ?thesis
  proof (cases "lf_io b1 (lf_writes b1)")
    case True
    define b' where "b' = snd (vault_set t f v b)"
    have "vault_set t f v b = (Inr (), b')"
      using Inr True by (simp add: b'_def vault_set_def write_vault_def Let_def)
    moreover have "crypto_ok b'" using Inr True c1 by (simp add: b'_def vault_set_def write_vault_def Let_def crypto_ok_def)
    moreover have "vault_contents b' = Some cand"
      using Inr True c1 by (simp add: b'_def vault_set_def write_vault_def Let_def vault_contents_def vault_reload_def
          vault_decrypt_def crypto_ok_def cand_def d_def ev_params_def VAULT_VERSION_def ensure_def)
    moreover have "vault_contents b = Some d" by (simp add: vault_contents_def Inr d_def)
    ultimately show ?thesis using written cand_def by blast
  next
    case False
    define b' where "b' = snd (vault_set t f v b)"
    have "vault_set t f v b = (Inl OSError, b')" using Inr False by (simp add: b'_def vault_set_def write_vault_def Let_def)
    moreover have "crypto_ok b'" using Inr False c1 by (simp add: b'_def vault_set_def write_vault_def Let_def crypto_ok_def)
    moreover have "lf_file b' = lf_file b" "lf_decrypt b' = lf_decrypt b"
      "vl_salt (lf_vault b') = vl_salt (lf_vault b)" "vl_key (lf_vault b') = vl_key (lf_vault b)"
      "vl_params (lf_vault b') = vl_params (lf_vault b)"
      using Inr False fr by (simp_all add: b'_def vault_set_def write_vault_def Let_def)
    ultimately show ?thesis using unwritten by blast
  qed
qed

interpretation lf: secret_backend crypto_ok localfile_get localfile_write
proof
  fix b :: "('a, 'c) local" and f i v f' i' :: string and e
  assume ok: "crypto_ok b"
  show "crypto_ok (snd (localfile_write b f i v))"
    using ok by (rule vault_set_cases [where t = i and f = f and v = v]) (simp_all add: localfile_write_def ok)
  show "localfile_get (snd (localfile_write b f i v)) f i = Inr v" if "fst (localfile_write b f i v) = Inr ()"
    using ok by (rule vault_set_cases [where t = i and f = f and v = v])
      (use that in \<open>simp_all add: localfile_write_def localfile_get_contents update_conv' fields_of_def split: option.splits\<close>)
  show "localfile_get (snd (localfile_write b f i v)) f' i' = localfile_get b f' i'" if "(f', i') \<noteq> (f, i)"
    using ok
  proof (rule vault_set_cases [where t = i and f = f and v = v])
    fix b' d
    assume "vault_set i f v b = (Inr (), b')" "vault_contents b = Some d"
      "vault_contents b' = Some (AList.update i (AList.update f v (fields_of d i)) d)"
    with that show ?thesis
      by (auto simp: localfile_write_def localfile_get_contents update_conv' fields_of_def split: option.splits)
  next
    fix b' e
    assume "vault_set i f v b = (Inl e, b')" and c: "lf_file b' = lf_file b" "lf_decrypt b' = lf_decrypt b"
      "vl_salt (lf_vault b') = vl_salt (lf_vault b)" "vl_key (lf_vault b') = vl_key (lf_vault b)"
      "vl_params (lf_vault b') = vl_params (lf_vault b)"
    then show ?thesis using localfile_get_cong [OF c] by (simp add: localfile_write_def)
  qed (simp add: localfile_write_def)
  show "localfile_get (snd (localfile_write b f i v)) f' i' = localfile_get b f' i'" if "fst (localfile_write b f i v) = Inl e"
    using ok
  proof (rule vault_set_cases [where t = i and f = f and v = v])
    fix b' e
    assume "vault_set i f v b = (Inl e, b')" and c: "lf_file b' = lf_file b" "lf_decrypt b' = lf_decrypt b"
      "vl_salt (lf_vault b') = vl_salt (lf_vault b)" "vl_key (lf_vault b') = vl_key (lf_vault b)"
      "vl_params (lf_vault b') = vl_params (lf_vault b)"
    then show ?thesis using localfile_get_cong [OF c] by (simp add: localfile_write_def)
  qed (use that in \<open>simp_all add: localfile_write_def\<close>)
qed

end
