(* ===== verification/SpsClient.thy ===== *)
theory SpsClient
  imports SpsVault
begin

text \<open>
  The client side of the secrets provider: \<^verbatim>\<open>sps/client.py\<close> and the tool SDK
  \<^verbatim>\<open>sps/tool_sdk.py\<close>. \<open>send\<close> is one connection: it delivers a message and gives the parsed
  reply line, or the exception a socket, TLS or framing failure is turned into; \<open>'w\<close> is whatever
  is at the other end.
\<close>

section \<open>Booleans from the environment\<close>

definition strict_bool :: "string \<Rightarrow> bool result" where
  "strict_bool v =
     (let t = py_lower (py_strip v)
      in if t \<in> {''1'', ''true'', ''yes'', ''on''} then Inr True
         else if t \<in> {''0'', ''false'', ''no'', ''off''} then Inr False else Inl ValueError)"

section \<open>The client\<close>

datatype client_exn = SPSErr | AuthErr | NotFoundErr | NotWritableErr | BackendErr | BadResponseErr | TransportErr

definition error_map :: "(string \<times> client_exn) list" where
  "error_map = [(''Unauthorized'', AuthErr), (''Not found'', NotFoundErr), (''Not writable'', NotWritableErr),
     (''Backend error'', BackendErr), (''Bad request'', BadResponseErr)]"

text \<open>The end of \<^verbatim>\<open>_call\<close>: what the reply means.\<close>

definition decode_reply :: "json \<Rightarrow> client_exn + json" where
  "decode_reply resp =
     (case resp of
        JObj _ \<Rightarrow>
          if jget ''status'' resp = Some (JStr ''ok'') then Inr resp
          else if jget ''status'' resp = Some (JStr ''error'')
          then (case jget ''message'' resp of
                  Some (JStr m) \<Rightarrow> (case map_of error_map m of Some e \<Rightarrow> Inl e | None \<Rightarrow> Inl BadResponseErr)
                | _ \<Rightarrow> Inl BadResponseErr)
          else Inl BadResponseErr
      | _ \<Rightarrow> Inl BadResponseErr)"

type_synonym 'w transport = "'w \<Rightarrow> json \<Rightarrow> (client_exn + json) \<times> 'w"

definition sps_call :: "'w transport \<Rightarrow> (string \<times> json) list \<Rightarrow> 'w \<Rightarrow> (client_exn + json) \<times> 'w" where
  "sps_call send msg w = (case send w (JObj msg) of (r, w') \<Rightarrow> (andthen r decode_reply, w'))"

definition require :: "string option \<Rightarrow> client_exn + string" where
  "require v = (case v of None \<Rightarrow> Inl SPSErr | Some s \<Rightarrow> Inr s)"

text \<open>The messages; a missing credential is found before anything is sent.\<close>

definition with_secret ::
  "string option \<Rightarrow> (string \<Rightarrow> (client_exn + 'a) \<times> 'w) \<Rightarrow> 'w \<Rightarrow> (client_exn + 'a) \<times> 'w" where
  "with_secret sec f w = (case require sec of Inl e \<Rightarrow> (Inl e, w) | Inr s \<Rightarrow> f s)"

definition client_register :: "'w transport \<Rightarrow> string option \<Rightarrow> string \<Rightarrow> string \<Rightarrow> json list \<Rightarrow> 'w \<Rightarrow> (client_exn + json) \<times> 'w" where
  "client_register send spsecret tool_id esecret cs w =
     with_secret spsecret (\<lambda>s. sps_call send [(''op'', JStr ''register''), (''spsecret'', JStr s), (''toolid'', JStr tool_id),
       (''esecret'', JStr esecret), (''secrets'', JList cs)] w) w"

definition client_unregister :: "'w transport \<Rightarrow> string option \<Rightarrow> string \<Rightarrow> 'w \<Rightarrow> (client_exn + json) \<times> 'w" where
  "client_unregister send spsecret tool_id w =
     with_secret spsecret (\<lambda>s. sps_call send [(''op'', JStr ''unregister''), (''spsecret'', JStr s), (''toolid'', JStr tool_id)] w) w"

definition validate_secrets :: "json \<Rightarrow> client_exn + (string \<times> string) list" where
  "validate_secrets body =
     (if jget ''status'' body = Some (JStr ''ok'')
      then (case jget ''secrets'' body of
              Some (JObj d) \<Rightarrow>
                if list_all (\<lambda>kv. is_str (snd kv)) d
                then Inr (map_vals (\<lambda>v. case v of JStr s \<Rightarrow> s | _ \<Rightarrow> []) d) else Inl BadResponseErr
            | _ \<Rightarrow> Inl BadResponseErr)
      else Inl BadResponseErr)"

definition client_get_secrets :: "'w transport \<Rightarrow> string option \<Rightarrow> string \<Rightarrow> 'w \<Rightarrow> (client_exn + (string \<times> string) list) \<times> 'w" where
  "client_get_secrets send es tool_id w =
     with_secret es (\<lambda>s. case sps_call send [(''op'', JStr ''get_secrets''), (''toolid'', JStr tool_id), (''esecret'', JStr s)] w of
       (r, w') \<Rightarrow> (andthen r validate_secrets, w')) w"

definition client_get_secret :: "'w transport \<Rightarrow> string option \<Rightarrow> string \<Rightarrow> string \<Rightarrow> 'w \<Rightarrow> (client_exn + string) \<times> 'w" where
  "client_get_secret send es tool_id name w =
     with_secret es (\<lambda>s. case sps_call send [(''op'', JStr ''get_secret''), (''toolid'', JStr tool_id), (''name'', JStr name),
         (''esecret'', JStr s)] w of
       (r, w') \<Rightarrow> (andthen (andthen r validate_secrets) (\<lambda>d. case map_of d name of None \<Rightarrow> Inl BadResponseErr | Some v \<Rightarrow> Inr v), w')) w"

definition client_write_secret :: "'w transport \<Rightarrow> string option \<Rightarrow> string \<Rightarrow> string \<Rightarrow> string \<Rightarrow> 'w \<Rightarrow> (client_exn + json) \<times> 'w" where
  "client_write_secret send es tool_id name value w =
     with_secret es (\<lambda>s. sps_call send [(''op'', JStr ''write_secret''), (''toolid'', JStr tool_id), (''name'', JStr name),
         (''value'', JStr value), (''esecret'', JStr s)] w) w"

definition client_ping :: "'w transport \<Rightarrow> 'w \<Rightarrow> (client_exn + json) \<times> 'w" where
  "client_ping send w = sps_call send [(''op'', JStr ''ping'')] w"

section \<open>The tool SDK\<close>

record secret_client =
  cl_tool_id :: string
  cl_esecret :: string
  cl_cache :: "(string \<times> string) list"

definition sdk_new :: "'w transport \<Rightarrow> string \<Rightarrow> string \<Rightarrow> 'w \<Rightarrow> (client_exn + secret_client) \<times> 'w" where
  "sdk_new send tool_id esecret w =
     (case client_get_secrets send (Some esecret) tool_id w of
        (r, w') \<Rightarrow> (andthen r (\<lambda>d. Inr \<lparr>cl_tool_id = tool_id, cl_esecret = esecret, cl_cache = d\<rparr>), w'))"

definition sdk_get :: "secret_client \<Rightarrow> string \<Rightarrow> string result" where
  "sdk_get c name = (case map_of (cl_cache c) name of None \<Rightarrow> Inl KeyError | Some v \<Rightarrow> Inr v)"

definition sdk_cache_get :: "secret_client \<Rightarrow> string \<Rightarrow> string option" where
  "sdk_cache_get c name = map_of (cl_cache c) name"

definition sdk_refresh :: "'w transport \<Rightarrow> string \<Rightarrow> secret_client \<Rightarrow> 'w \<Rightarrow> (client_exn + string) \<times> secret_client \<times> 'w" where
  "sdk_refresh send name c w =
     (case client_get_secret send (Some (cl_esecret c)) (cl_tool_id c) name w of
        (Inl e, w') \<Rightarrow> (Inl e, c, w')
      | (Inr v, w') \<Rightarrow> (Inr v, c\<lparr>cl_cache := AList.update name v (cl_cache c)\<rparr>, w'))"

definition sdk_refresh_all :: "'w transport \<Rightarrow> secret_client \<Rightarrow> 'w \<Rightarrow> (client_exn + unit) \<times> secret_client \<times> 'w" where
  "sdk_refresh_all send c w =
     (case client_get_secrets send (Some (cl_esecret c)) (cl_tool_id c) w of
        (Inl e, w') \<Rightarrow> (Inl e, c, w')
      | (Inr d, w') \<Rightarrow> (Inr (), c\<lparr>cl_cache := d\<rparr>, w'))"

definition sdk_writeback :: "'w transport \<Rightarrow> string \<Rightarrow> string \<Rightarrow> secret_client \<Rightarrow> 'w \<Rightarrow> (client_exn + unit) \<times> secret_client \<times> 'w" where
  "sdk_writeback send name value c w =
     (case client_write_secret send (Some (cl_esecret c)) (cl_tool_id c) name value w of
        (Inl e, w') \<Rightarrow> (Inl e, c, w')
      | (Inr _, w') \<Rightarrow> (Inr (), c\<lparr>cl_cache := AList.update name value (cl_cache c)\<rparr>, w'))"

definition sdk_names :: "secret_client \<Rightarrow> string list" where
  "sdk_names c = map fst (cl_cache c)"

text \<open>\<^verbatim>\<open>SecretClient.from_env\<close> up to the construction of the client.\<close>

datatype sdk_source = FakeSps | RealSps string int string "string option" bool

definition env_or :: "(string \<Rightarrow> string option) \<Rightarrow> string \<Rightarrow> string \<Rightarrow> string" where
  "env_or environ k dflt = (case environ k of None \<Rightarrow> dflt | Some v \<Rightarrow> v)"

definition sdk_from_env :: "(string \<Rightarrow> string option) \<Rightarrow> sdk_source result" where
  "sdk_from_env environ =
     (if environ ''TOOLSTACK_SPS_FAKE'' = Some ''1''
      then (if environ ''TOOLSTACK_E_SECRET'' \<noteq> None then Inl RuntimeError else Inr FakeSps)
      else case environ ''TOOLSTACK_E_SECRET'' of
             None \<Rightarrow> Inl RuntimeError
           | Some esecret \<Rightarrow>
               if esecret = [] then Inl RuntimeError
               else andthen (py_int (env_or environ ''TOOLSTACK_SPS_PORT'' ''8743'')) (\<lambda>port.
                    andthen (strict_bool (env_or environ ''TOOLSTACK_SPS_VERIFY'' ''1'')) (\<lambda>verify.
                      Inr (RealSps (env_or environ ''TOOLSTACK_SPS_HOST'' ''127.0.0.1'') port esecret (environ ''TOOLSTACK_SPS_CA'') verify))))"

section \<open>Client and server together\<close>

text \<open>A connection to the server: the line that is sent parses to the message, and the reply line to
  the reply.\<close>

definition sps_send ::
  "(string \<Rightarrow> string) \<Rightarrow> nat \<Rightarrow> sps_config \<Rightarrow> 'b plugin \<Rightarrow> int \<Rightarrow> bool \<Rightarrow> 'b sps_server transport" where
  "sps_send sha mb cfg pl ts written sv msg =
     (case sps_handle sha mb cfg pl ts written (Inr msg) sv of (r, sv') \<Rightarrow> (Inr r, sv'))"

lemma decode_ok: "decode_reply r = Inr r' \<Longrightarrow> r' = r \<and> jget ''status'' r = Some (JStr ''ok'')"
  by (auto simp: decode_reply_def split: json.splits if_splits option.splits)

lemma dispatch_of_reply:
  assumes "sps_handle sha mb cfg pl ts w (Inr (JObj d)) sv = (r, sv')" "jget ''status'' r = Some (JStr ''ok'')"
    and "map_of d ''op'' = Some (JStr op)"
  shows "sps_dispatch cfg pl op (JObj d) (sv_sps sv) = (Inr r, sv_sps sv')"
proof -
  obtain op' r0 s' where ans: "sps_answer cfg pl (Inr (JObj d)) (sv_sps sv) = (op', r0, s')" by (metis prod_cases3)
  have r: "r = r0" using handle_reply [OF assms(1,2) ans] by blast
  have s': "sv_sps sv' = s'" using handle_sps [of sha mb cfg pl ts w "Inr (JObj d)" sv] assms(1) ans by simp
  have err: "jget ''status'' (err_envelope m) \<noteq> Some (JStr ''ok'')" for m by (simp add: err_envelope_def)
  from ans show ?thesis
  proof (cases rule: answer_cases)
    case (answered d')
    with assms(3) r s' show ?thesis by simp
  qed (use assms(2) r err in auto)
qed

text \<open>C31: A value that a tool writes back through the secrets provider into the encrypted vault is
  the value that every client of that tool gets next: when \<^verbatim>\<open>writeback\<close> returns, a
  \<^verbatim>\<open>refresh\<close> of that name that the audit log takes returns the value written and caches it.\<close>

theorem writeback_visible:
  assumes "crypto_ok b0" "sps_reach sha mb cfg localfile_plugin b0 sv"
    and "sdk_writeback (sps_send sha mb cfg localfile_plugin ts w) name val c sv = (Inr (), c', sv')"
    and "cl_tool_id c2 = cl_tool_id c" "cl_esecret c2 = cl_esecret c"
    and "audit_event mb ts2 ''get_secret'' ''ok'' (digest sha (cl_tool_id c)) (digest sha name) None None = Inr rec"
  shows "\<exists>c2' sv2. sdk_refresh (sps_send sha mb cfg localfile_plugin ts2 True) name c2 sv' = (Inr val, c2', sv2)
    \<and> sdk_get c2' name = Inr val"
proof -
  have bok: "crypto_ok (ss_backend (sv_sps sv))" using lf.reach_ok [OF assms(2) [unfolded localfile_plugin_def] assms(1)] .
  let ?d = "[(''op'', JStr ''write_secret''), (''toolid'', JStr (cl_tool_id c)), (''name'', JStr name),
    (''value'', JStr val), (''esecret'', JStr (cl_esecret c))]"
  let ?g = "[(''op'', JStr ''get_secret''), (''toolid'', JStr (cl_tool_id c)), (''name'', JStr name), (''esecret'', JStr (cl_esecret c))]"
  obtain r sv1 where h: "sps_handle sha mb cfg localfile_plugin ts w (Inr (JObj ?d)) sv = (r, sv1)" by force
  with assms(3) have ok: "jget ''status'' r = Some (JStr ''ok'')" and sv1: "sv1 = sv'"
    by (auto simp: sdk_writeback_def client_write_secret_def with_secret_def require_def sps_call_def sps_send_def
        split: sum.splits dest: decode_ok)
  from dispatch_of_reply [OF h ok, of "''write_secret''"]
  have wr: "handle_write_secret cfg localfile_plugin (JObj ?d) (sv_sps sv) = (Inr r, sv_sps sv')"
    by (simp add: sps_dispatch_def sv1)
  have got: "handle_get_secret localfile_plugin (JObj ?g) (sv_sps sv') = Inr (ok_reply [(''secrets'', JObj [(name, JStr val)])])"
    using lf.write_then_read [of cfg ?d "sv_sps sv" r "sv_sps sv'" "name" "val" ?g] wr bok
    by (simp add: localfile_plugin_def)
  then have names: "name \<noteq> []" "cl_tool_id c \<noteq> []" by (auto simp: handle_get_secret_def h_field_Inr)
  have ans: "sps_answer cfg localfile_plugin (Inr (JObj ?g)) (sv_sps sv')
      = (''get_secret'', ok_reply [(''secrets'', JObj [(name, JStr val)])], sv_sps sv')"
    using got by (simp add: sps_answer_def sps_ops_def sps_dispatch_def)
  have "fst (sps_handle sha mb cfg localfile_plugin ts2 True (Inr (JObj ?g)) sv') = ok_reply [(''secrets'', JObj [(name, JStr val)])]"
    using ans assms(6) names by (simp add: sps_handle_def reply_outcome_def ok_reply_def audit_identity_def Let_def)
  then obtain sv2 where "sps_handle sha mb cfg localfile_plugin ts2 True (Inr (JObj ?g)) sv' = (ok_reply [(''secrets'', JObj [(name, JStr val)])], sv2)"
    by (metis prod.collapse)
  then show ?thesis using assms(4,5)
    by (simp add: sdk_refresh_def client_get_secret_def with_secret_def require_def sps_call_def sps_send_def
        ok_reply_def decode_reply_def validate_secrets_def is_str_def map_vals_def sdk_get_def update_conv')
qed

end
