(* ===== verification/AdminAuth.thy ===== *)
theory AdminAuth
  imports SpsClient
begin

text \<open>
  \<^verbatim>\<open>admin/auth.py\<close> and \<^verbatim>\<open>admin/loginguard.py\<close>: password hashes, signed sessions with their
  revocation list, CSRF tokens, and the throttle of the login form. The HMAC, scrypt, the random source and the
  strict UTF-8 decoder are parameters; base64 is modelled as \<^verbatim>\<open>binascii\<close> implements it, so a decoded
  token may have many spellings. Bytes are character lists.
\<close>

section \<open>URL-safe base64\<close>

definition b64_alphabet :: string where
  "b64_alphabet = ''ABCDEFGHIJKLMNOPQRSTUVWXYZabcdefghijklmnopqrstuvwxyz0123456789-_''"

definition b64_char :: "nat \<Rightarrow> char" where
  "b64_char i = b64_alphabet ! i"

fun b64_encode :: "string \<Rightarrow> string" where
  "b64_encode (a # b # c # r) =
     b64_char (code a div 4) # b64_char ((code a mod 4) * 16 + code b div 16)
     # b64_char ((code b mod 16) * 4 + code c div 64) # b64_char (code c mod 64) # b64_encode r"
| "b64_encode [a, b] =
     [b64_char (code a div 4), b64_char ((code a mod 4) * 16 + code b div 16), b64_char ((code b mod 16) * 4), CHR ''='']"
| "b64_encode [a] = [b64_char (code a div 4), b64_char ((code a mod 4) * 16), CHR ''='', CHR ''='']"
| "b64_encode [] = []"

text \<open>\<^verbatim>\<open>urlsafe_b64decode\<close> first translates \<^verbatim>\<open>-_\<close> to \<^verbatim>\<open>+/\<close>, so both spellings are digits.\<close>

definition b64_value :: "char \<Rightarrow> nat option" where
  "b64_value c =
     (if c = CHR ''+'' then Some 62 else if c = CHR ''/'' then Some 63
      else map_option fst (find (\<lambda>(i, d). d = c) (zip [0..<64] b64_alphabet)))"

text \<open>The loop of \<^verbatim>\<open>binascii.a2b_base64\<close>: \<open>q\<close> is the position in the group of four, \<open>l\<close> the bits left
  over and \<open>pads\<close> the padding characters seen since the last digit. Characters outside the alphabet are
  skipped, a complete group of padding ends the input.\<close>

fun b64_loop :: "nat \<Rightarrow> nat \<Rightarrow> nat \<Rightarrow> string \<Rightarrow> string option" where
  "b64_loop q l pads [] = (if q = 0 then Some [] else None)"
| "b64_loop q l pads (c # cs) =
     (if c = CHR ''='' then
        (if q \<ge> 2 then (if q + pads + 1 \<ge> 4 then Some [] else b64_loop q l (pads + 1) cs)
         else b64_loop q l pads cs)
      else case b64_value c of
        None \<Rightarrow> b64_loop q l pads cs
      | Some v \<Rightarrow>
          if q = 0 then b64_loop 1 v 0 cs
          else if q = 1 then map_option ((#) (char_of (l * 4 + v div 16))) (b64_loop 2 (v mod 16) 0 cs)
          else if q = 2 then map_option ((#) (char_of (l * 16 + v div 4))) (b64_loop 3 (v mod 4) 0 cs)
          else map_option ((#) (char_of (l * 64 + v))) (b64_loop 0 0 0 cs))"

text \<open>\<^verbatim>\<open>urlsafe_b64decode(s.encode("ascii"))\<close>: \<open>None\<close> for the exceptions of either step.\<close>

definition is_ascii :: "string \<Rightarrow> bool" where
  "is_ascii s \<longleftrightarrow> list_all (\<lambda>c. code c < 128) s"

definition b64_decode :: "string \<Rightarrow> string option" where
  "b64_decode s = (if is_ascii s then b64_loop 0 0 0 s else None)"

lemma b64_char_facts: "\<forall>i < 64. b64_value (b64_char i) = Some i \<and> b64_char i \<noteq> CHR ''='' \<and> code (b64_char i) < 128"
proof -
  have "list_all (\<lambda>i. b64_value (b64_char i) = Some i \<and> b64_char i \<noteq> CHR ''='' \<and> code (b64_char i) < 128) [0..<64]"
    by code_simp
  then show ?thesis by (simp add: list_all_iff)
qed

lemma b64_digit:
  "i < 64 \<Longrightarrow> b64_value (b64_char i) = Some i" "i < 64 \<Longrightarrow> b64_char i \<noteq> CHR ''=''" "i < 64 \<Longrightarrow> code (b64_char i) < 128"
  using b64_char_facts by blast+

lemma b64_bits: "code a div 4 < 64" "code b div 16 < 16" "code c div 64 < 4"
  using code_less_256 [of a] code_less_256 [of b] code_less_256 [of c] by (simp_all add: less_mult_imp_div_less)

lemma b64_bytes:
  "(code a mod 4) * 16 + code b div 16 < 64" "(code b mod 16) * 4 + code c div 64 < 64" "code c mod 64 < 64"
  "(code a mod 4) * 16 < 64" "(code b mod 16) * 4 < 64"
  using b64_bits(2) [of b] b64_bits(3) [of c] mod_less_divisor [of 4 "code a"]
    mod_less_divisor [of 16 "code b"] mod_less_divisor [of 64 "code c"] by linarith+

lemma b64_join:
  "code b div 16 div 16 = 0" "code b div 16 mod 16 = code b div 16"
  "code c div 64 div 4 = 0" "code c div 64 mod 4 = code c div 64"
  using b64_bits(2) [of b] b64_bits(3) [of c] by simp_all

lemma char_of_code [simp]: "char_of (code c) = c"
  by (simp add: code_def)

lemma b64_loop_encode: "b64_loop 0 0 0 (b64_encode s) = Some s"
  by (induction s rule: b64_encode.induct)
    (simp_all add: b64_digit b64_bits b64_bytes b64_join)

lemma b64_encode_ascii: "is_ascii (b64_encode s)"
  by (induction s rule: b64_encode.induct) (simp_all add: is_ascii_def b64_digit b64_bits b64_bytes code_def [of "CHR ''=''"])

lemma b64_roundtrip: "b64_decode (b64_encode s) = Some s"
  by (simp add: b64_decode_def b64_encode_ascii b64_loop_encode)

section \<open>Passwords\<close>

text \<open>\<open>sc password salt n r p\<close> is \<^verbatim>\<open>hashlib.scrypt\<close>, \<open>None\<close> where it raises; \<open>salt\<close> is drawn by
  \<^verbatim>\<open>token_bytes(16)\<close>.\<close>

type_synonym scrypt = "string \<Rightarrow> string \<Rightarrow> int \<Rightarrow> int \<Rightarrow> int \<Rightarrow> string option"

definition hash_password :: "scrypt \<Rightarrow> string \<Rightarrow> string \<Rightarrow> string option" where
  "hash_password sc salt password =
     map_option (\<lambda>digest. join_with ''$''
       [''scrypt'', show_int 16384, show_int 8, show_int 1, b64_encode salt, b64_encode digest])
       (sc (utf8_encode password) salt 16384 8 1)"

text \<open>\<^verbatim>\<open>split("$", 5)\<close> into six names; whatever raises makes the answer \<^verbatim>\<open>False\<close>.\<close>

definition verify_password :: "scrypt \<Rightarrow> string \<Rightarrow> string \<Rightarrow> bool" where
  "verify_password sc password encoded =
     (case split_on (CHR ''$'') encoded of
        algo # raw_n # raw_r # raw_p # raw_salt # dg # rest \<Rightarrow>
          algo = ''scrypt'' \<and>
          (case (b64_decode raw_salt, b64_decode (join_with ''$'' (dg # rest)), py_int raw_n, py_int raw_r, py_int raw_p) of
             (Some salt, Some expected, Inr n, Inr r, Inr p) \<Rightarrow>
               sc (utf8_encode password) salt n r p = Some expected
           | _ \<Rightarrow> False)
      | _ \<Rightarrow> False)"

section \<open>Sessions\<close>

text \<open>\<open>hm key message\<close> is the hexadecimal HMAC-SHA256, \<open>ud\<close> the strict UTF-8 decoder.\<close>

type_synonym hmac = "string \<Rightarrow> string \<Rightarrow> string"
type_synonym decoder = "string \<Rightarrow> string option"

definition session_message :: "string \<Rightarrow> int \<Rightarrow> string \<Rightarrow> string" where
  "session_message username expires_at sid = username @ ''|'' @ show_int expires_at @ ''|'' @ sid"

definition session_signature :: "hmac \<Rightarrow> string \<Rightarrow> string \<Rightarrow> string" where
  "session_signature hm secret message = hm (utf8_encode secret) (utf8_encode (''session|'' @ message))"

text \<open>\<open>sid\<close> is \<^verbatim>\<open>secrets.token_hex(16)\<close> and \<open>now\<close> is \<^verbatim>\<open>int(time.time())\<close>.\<close>

definition sign_session :: "hmac \<Rightarrow> string \<Rightarrow> string \<Rightarrow> string \<Rightarrow> int \<Rightarrow> int \<Rightarrow> string" where
  "sign_session hm username secret sid ttl_seconds now =
     (let message = session_message username (now + ttl_seconds) sid
      in b64_encode (utf8_encode (message @ ''|'' @ session_signature hm secret message)))"

text \<open>The first block of \<^verbatim>\<open>verify_session\<close>: the user, the expiry, the identifier and the signature.\<close>

definition session_fields :: "decoder \<Rightarrow> string \<Rightarrow> (string \<times> int \<times> string \<times> string) option" where
  "session_fields ud cookie =
     (case Option.bind (b64_decode cookie) ud of
        None \<Rightarrow> None
      | Some decoded \<Rightarrow>
          (case split_on (CHR ''|'') decoded of
             [username, raw_expires, sid, signature] \<Rightarrow>
               (case py_int raw_expires of
                  Inl _ \<Rightarrow> None
                | Inr expires_at \<Rightarrow>
                    if length sid \<noteq> 32 \<or> \<not> list_all is_hex_lower sid then None
                    else Some (username, expires_at, sid, signature))
           | _ \<Rightarrow> None))"

text \<open>The file of revoked sessions: missing, unreadable (or not JSON), or a JSON value. A Boolean is an
  \<^verbatim>\<open>int\<close> to \<^verbatim>\<open>isinstance\<close>.\<close>

type_synonym json_file = "json result option"

fun json_int :: "json \<Rightarrow> int option" where
  "json_int (JInt i) = Some i"
| "json_int (JBool b) = Some (if b then 1 else 0)"
| "json_int _ = None"

definition revoked_sessions :: "json_file \<Rightarrow> (string \<times> json) list result" where
  "revoked_sessions file =
     (case file of
        None \<Rightarrow> Inr []
      | Some (Inl e) \<Rightarrow> Inl e
      | Some (Inr (JObj d)) \<Rightarrow> if list_ex (\<lambda>kv. json_int (snd kv) = None) d then Inl ValueError else Inr d
      | Some (Inr _) \<Rightarrow> Inl ValueError)"

definition verify_session :: "hmac \<Rightarrow> decoder \<Rightarrow> string option \<Rightarrow> string \<Rightarrow> json_file \<Rightarrow> int \<Rightarrow> string option" where
  "verify_session hm ud cookie secret file now =
     (case (case cookie of None \<Rightarrow> None | Some c \<Rightarrow> if c = [] then None else session_fields ud c) of
        None \<Rightarrow> None
      | Some (username, expires_at, sid, signature) \<Rightarrow>
          if expires_at < now then None
          else if \<not> is_ascii signature
               \<or> signature \<noteq> session_signature hm secret (session_message username expires_at sid) then None
          else (case revoked_sessions file of
                  Inl _ \<Rightarrow> None
                | Inr d \<Rightarrow> if sid \<in> set (map fst d) then None else Some username))"

text \<open>The private state of the admin application, with the clock; \<open>an_past\<close> records the secrets that
  were replaced, for the statements below.\<close>

record admin_state =
  an_secret :: string
  an_file :: json_file
  an_now :: int
  an_past :: "string list"

definition rotate_session_secret :: "string \<Rightarrow> admin_state \<Rightarrow> admin_state" where
  "rotate_session_secret drawn st = st\<lparr>an_secret := drawn, an_past := an_secret st # an_past st\<rparr>"

text \<open>\<^verbatim>\<open>revoke_session\<close> under its lock; \<open>secret\<close> is the key the request read, \<open>later\<close> the second
  reading of the clock and \<open>drawn\<close> the secret a rotation would draw.\<close>

definition revoke_session :: "hmac \<Rightarrow> decoder \<Rightarrow> string \<Rightarrow> string \<Rightarrow> int \<Rightarrow> string \<Rightarrow> admin_state \<Rightarrow> unit result \<times> admin_state" where
  "revoke_session hm ud token secret later drawn st =
     (if verify_session hm ud (Some token) secret (an_file st) (an_now st) = None then (Inr (), st)
      else case (session_fields ud token, revoked_sessions (an_file st)) of
        (Some (_, expiry, sid, _), Inr d) \<Rightarrow>
          let revoked = filter (\<lambda>kv. case json_int (snd kv) of Some v \<Rightarrow> v \<ge> later | None \<Rightarrow> False) d
          in if length revoked \<ge> 4096
             then (Inr (), (rotate_session_secret drawn st)\<lparr>an_file := Some (Inr (JObj [])), an_now := later\<rparr>)
             else (Inr (), st\<lparr>an_file := Some (Inr (JObj (AList.update sid (JInt expiry) revoked))), an_now := later\<rparr>)
      | (_, Inl e) \<Rightarrow> (Inl e, st)
      | (None, _) \<Rightarrow> (Inl ValueError, st))"

section \<open>CSRF tokens\<close>

definition csrf_token :: "hmac \<Rightarrow> string \<Rightarrow> string \<Rightarrow> string" where
  "csrf_token hm session_value secret = hm (utf8_encode secret) (utf8_encode (''csrf-v1|'' @ session_value))"

definition verify_csrf :: "hmac \<Rightarrow> string option \<Rightarrow> string option \<Rightarrow> string \<Rightarrow> bool" where
  "verify_csrf hm token session_value secret =
     (case (token, session_value) of
        (Some t, Some v) \<Rightarrow> t \<noteq> [] \<and> is_ascii t \<and> v \<noteq> [] \<and> t = csrf_token hm v secret
      | _ \<Rightarrow> False)"

section \<open>The login throttle\<close>

record login_guard =
  lg_max_per_ip :: nat
  lg_lockout :: rat
  lg_global_max :: nat
  lg_global_window :: rat
  lg_ip_fails :: "(string \<times> rat list) list"
  lg_global_fails :: "rat list"

definition lg_prune :: "rat \<Rightarrow> login_guard \<Rightarrow> login_guard" where
  "lg_prune now g =
     g\<lparr>lg_ip_fails := filter (\<lambda>kv. snd kv \<noteq> []) (map_vals (filter (\<lambda>t. t \<ge> now - lg_lockout g)) (lg_ip_fails g)),
       lg_global_fails := filter (\<lambda>t. t \<ge> now - lg_global_window g) (lg_global_fails g)\<rparr>"

definition lg_fails :: "login_guard \<Rightarrow> string \<Rightarrow> rat list" where
  "lg_fails g ip = (case map_of (lg_ip_fails g) ip of None \<Rightarrow> [] | Some ts \<Rightarrow> ts)"

definition min_list_rat :: "rat list \<Rightarrow> rat" where
  "min_list_rat ts = fold min (tl ts) (hd ts)"

definition retry_after :: "string \<Rightarrow> rat \<Rightarrow> login_guard \<Rightarrow> rat \<times> login_guard" where
  "retry_after ip now g =
     (let g = lg_prune now g; recent = lg_fails g ip in
      if length recent \<ge> lg_max_per_ip g
      then (max 0 (lg_lockout g - (now - min_list_rat recent)), g)
      else if length (lg_global_fails g) \<ge> lg_global_max g
      then (max 0 (lg_global_window g - (now - min_list_rat (lg_global_fails g))), g)
      else (0, g))"

definition record_failure :: "string \<Rightarrow> rat \<Rightarrow> login_guard \<Rightarrow> login_guard" where
  "record_failure ip now g =
     g\<lparr>lg_ip_fails := AList.update ip (lg_fails g ip @ [now]) (lg_ip_fails g),
       lg_global_fails := lg_global_fails g @ [now]\<rparr>"

definition record_success :: "string \<Rightarrow> login_guard \<Rightarrow> login_guard" where
  "record_success ip g = g\<lparr>lg_ip_fails := AList.delete ip (lg_ip_fails g)\<rparr>"

text \<open>A login whose password is checked before another login begins: the check at one reading of the
  clock, the record at a later one. The result says whether the password was checked.\<close>

record login =
  li_ip :: string
  li_check :: rat
  li_done :: rat
  li_ok :: bool

definition login_step :: "login \<Rightarrow> login_guard \<Rightarrow> bool \<times> login_guard" where
  "login_step a g =
     (case retry_after (li_ip a) (li_check a) g of
        (wait, g1) \<Rightarrow>
          if wait > 0 then (False, g1)
          else if li_ok a then (True, record_success (li_ip a) g1)
          else (True, record_failure (li_ip a) (li_done a) g1))"

end
