(* ===== verification/AdminProps.thy ===== *)
theory AdminProps
  imports AdminAuth
begin

text \<open>
  What the sessions and the throttle of the admin application promise: a signed session verifies until
  it expires, only a signed one does, a revoked session never verifies again (through the bounded list's
  rotation of the secret too), and the failures one address is allowed within the lockout window are bounded.
\<close>

section \<open>Integers in text\<close>

lemma show_int_no_bar: "CHR ''|'' \<notin> set (show_int n)"
  using show_int_chars dec_not_space by fastforce

section \<open>Passwords\<close>

lemma b64_no_dollar: "CHR ''$'' \<notin> set (b64_encode s)"
proof -
  have "list_all (\<lambda>i. b64_char i \<noteq> CHR ''$'') [0..<64]" by code_simp
  then have "\<forall>i < 64. CHR ''$'' \<noteq> b64_char i" unfolding list_all_iff set_upt by auto
  then show ?thesis by (induction s rule: b64_encode.induct) (simp_all add: b64_bits b64_bytes)
qed

text \<open>A stored password hash accepts exactly the passwords for which scrypt gives the stored digest
  with its salt and parameters; in particular the password it was made of.\<close>

theorem password_hash_verifies:
  assumes "hash_password sc salt password = Some encoded"
  shows "verify_password sc attempt encoded \<longleftrightarrow> sc (utf8_encode attempt) salt 16384 8 1 = sc (utf8_encode password) salt 16384 8 1"
proof -
  obtain digest where d: "sc (utf8_encode password) salt 16384 8 1 = Some digest"
    and e: "encoded = join_with ''$'' [''scrypt'', show_int 16384, show_int 8, show_int 1, b64_encode salt, b64_encode digest]"
    using assms by (auto simp: hash_password_def)
  have ns: "CHR ''$'' \<notin> set (show_int n)" for n using show_int_chars [of "CHR ''$''" n] by (auto simp: is_dec_def code_def)
  have sp: "split_on (CHR ''$'') encoded = [''scrypt'', show_int 16384, show_int 8, show_int 1, b64_encode salt, b64_encode digest]"
    unfolding e using ns b64_no_dollar by (simp add: split_on_append_sep split_on_fresh)
  have n: "py_int (show_int 16384) = Inr 16384" "py_int (show_int 8) = Inr 8" "py_int (show_int 1) = Inr 1"
    by (rule py_int_show, simp add: show_int_def show_nat.simps)+
  show ?thesis unfolding verify_password_def sp by (auto simp: n b64_roundtrip d)
qed

section \<open>Sessions\<close>

text \<open>The documented behaviour of the HMAC and of the decoder that the statements use.\<close>

definition hex_hmac :: "hmac \<Rightarrow> bool" where
  "hex_hmac hm \<longleftrightarrow> (\<forall>k m. list_all is_hex_lower (hm k m))"

definition decodes_utf8 :: "decoder \<Rightarrow> bool" where
  "decodes_utf8 ud \<longleftrightarrow> (\<forall>s. ud (utf8_encode s) = Some s)"

definition session_id :: "string \<Rightarrow> bool" where
  "session_id sid \<longleftrightarrow> length sid = 32 \<and> list_all is_hex_lower sid"

lemma hex_plain: "list_all is_hex_lower s \<Longrightarrow> is_ascii s \<and> CHR ''|'' \<notin> set s"
  by (auto simp: is_ascii_def list_all_iff is_hex_lower_def is_dec_def code_def)

lemma signed_fields:
  assumes "hex_hmac hm" "decodes_utf8 ud" "session_id sid" "CHR ''|'' \<notin> set username" "length (show_int (now + ttl)) \<le> 4300"
  shows "session_fields ud (sign_session hm username secret sid ttl now) =
    Some (username, now + ttl, sid, session_signature hm secret (session_message username (now + ttl) sid))"
proof -
  let ?sig = "session_signature hm secret (session_message username (now + ttl) sid)"
  have plain: "CHR ''|'' \<notin> set sid" "CHR ''|'' \<notin> set ?sig"
    using assms(1,3) hex_plain by (auto simp: session_id_def hex_hmac_def session_signature_def)
  have "split_on (CHR ''|'') (session_message username (now + ttl) sid @ ''|'' @ ?sig) = [username, show_int (now + ttl), sid, ?sig]"
    using assms(4) show_int_no_bar plain by (simp add: session_message_def split_on_append_sep split_on_fresh)
  then show ?thesis
    using assms(2,3,5) by (simp add: session_fields_def sign_session_def Let_def b64_roundtrip decodes_utf8_def session_id_def py_int_show)
qed

lemma sign_not_Nil: "sign_session hm username secret sid ttl now \<noteq> []"
proof -
  have "b64_encode s \<noteq> []" if "s \<noteq> []" for s using that by (cases s rule: b64_encode.cases) auto
  then show ?thesis by (simp add: sign_session_def Let_def utf8_Nil session_message_def)
qed

text \<open>What a verified session is.\<close>

lemma verify_Some:
  "verify_session hm ud (Some t) secret file now = Some u \<longleftrightarrow>
     t \<noteq> [] \<and> (\<exists>e sid sig d. session_fields ud t = Some (u, e, sid, sig) \<and> now \<le> e \<and> is_ascii sig
       \<and> sig = session_signature hm secret (session_message u e sid)
       \<and> revoked_sessions file = Inr d \<and> sid \<notin> set (map fst d))"
  by (auto simp: verify_session_def split: if_splits option.splits sum.splits prod.splits)

text \<open>A session the panel signs verifies as its user until it expires, unless its identifier is
  revoked; the user name must not contain the separator.\<close>

theorem signed_session_verifies:
  assumes "hex_hmac hm" "decodes_utf8 ud" "session_id sid" "CHR ''|'' \<notin> set username" "length (show_int (now + ttl)) \<le> 4300"
    and "revoked_sessions file = Inr d"
  shows "verify_session hm ud (Some (sign_session hm username secret sid ttl now)) secret file later =
    (if later \<le> now + ttl \<and> sid \<notin> set (map fst d) then Some username else None)"
proof -
  let ?m = "session_message username (now + ttl) sid"
  have "is_ascii (session_signature hm secret ?m)"
    using assms(1) hex_plain by (auto simp: hex_hmac_def session_signature_def)
  then show ?thesis
    using signed_fields [OF assms(1-5), of secret] sign_not_Nil assms(6)
    by (auto simp: verify_session_def)
qed

text \<open>A user name with the separator in it can sign in and never has a session.\<close>

lemma separator_in_name_locks_out:
  assumes "hex_hmac hm" "decodes_utf8 ud" "session_id sid"
  shows "verify_session hm ud (Some (sign_session hm ''a|b'' secret sid ttl now)) secret file later = None"
proof -
  let ?sig = "session_signature hm secret (session_message ''a|b'' (now + ttl) sid)"
  have plain: "CHR ''|'' \<notin> set sid" "CHR ''|'' \<notin> set ?sig"
    using assms(1,3) hex_plain by (auto simp: session_id_def hex_hmac_def session_signature_def)
  have "split_on (CHR ''|'') (session_message ''a|b'' (now + ttl) sid @ ''|'' @ ?sig) = [''a'', ''b'', show_int (now + ttl), sid, ?sig]"
    using show_int_no_bar plain by (simp add: session_message_def split_on_append_sep split_on_fresh)
  then have "session_fields ud (sign_session hm ''a|b'' secret sid ttl now) = None"
    using assms(2) by (simp add: session_fields_def sign_session_def Let_def b64_roundtrip decodes_utf8_def)
  then show ?thesis by (simp add: verify_session_def)
qed

section \<open>Revocation\<close>

text \<open>What may happen to the private state: time passes, the password is changed, and sessions are
  revoked. Secrets are drawn at random, so none is drawn twice, and neither is a session identifier: a
  session with the identifier \<open>sid\<close> expires at \<open>e\<close>.\<close>

inductive admin_step :: "hmac \<Rightarrow> decoder \<Rightarrow> string \<Rightarrow> int \<Rightarrow> admin_state \<Rightarrow> admin_state \<Rightarrow> bool" for hm ud sid e where
  pass: "an_now st \<le> later \<Longrightarrow> admin_step hm ud sid e st (st\<lparr>an_now := later\<rparr>)"
| change: "drawn \<notin> set (an_secret st # an_past st) \<Longrightarrow> admin_step hm ud sid e st (rotate_session_secret drawn st)"
| revoke: "drawn \<notin> set (an_secret st # an_past st) \<Longrightarrow> an_now st \<le> later \<Longrightarrow>
    (\<forall>u e' sig. session_fields ud token = Some (u, e', sid, sig) \<longrightarrow> e' = e) \<Longrightarrow>
    admin_step hm ud sid e st (snd (revoke_session hm ud token (an_secret st) later drawn st))"

text \<open>Why a session signed with \<open>key\<close> is dead.\<close>

definition session_dead :: "string \<Rightarrow> string \<Rightarrow> int \<Rightarrow> admin_state \<Rightarrow> bool" where
  "session_dead key sid e st \<longleftrightarrow> key \<in> set (an_secret st # an_past st) \<and>
     (an_secret st \<noteq> key \<or> e < an_now st \<or> (\<exists>d. an_file st = Some (Inr (JObj d)) \<and> map_of d sid = Some (JInt e)))"

lemma map_of_filter_first: "map_of d k = Some v \<Longrightarrow> P (k, v) \<Longrightarrow> map_of (filter P d) k = Some v"
  by (induction d) (auto split: if_splits)

text \<open>The two ways a revocation that happens can leave the state.\<close>

lemma revoke_session_cases:
  assumes "verify_session hm ud (Some token) key (an_file st) (an_now st) = Some u"
  obtains (rotated) e s sig where "session_fields ud token = Some (u, e, s, sig)"
      "revoke_session hm ud token key later drawn st =
        (Inr (), (rotate_session_secret drawn st)\<lparr>an_file := Some (Inr (JObj [])), an_now := later\<rparr>)"
    | (listed) e s sig d where "session_fields ud token = Some (u, e, s, sig)" "revoked_sessions (an_file st) = Inr d"
      "revoke_session hm ud token key later drawn st = (Inr (), st\<lparr>an_file := Some (Inr (JObj (AList.update s (JInt e)
          (filter (\<lambda>kv. case json_int (snd kv) of Some v \<Rightarrow> v \<ge> later | None \<Rightarrow> False) d)))), an_now := later\<rparr>)"
proof -
  obtain e s sig d where f: "session_fields ud token = Some (u, e, s, sig)" "revoked_sessions (an_file st) = Inr d"
    using assms by (auto simp: verify_Some)
  show thesis
    using that(1) [OF f(1)] that(2) [OF f]
    by (cases "length (filter (\<lambda>kv. case json_int (snd kv) of Some v \<Rightarrow> v \<ge> later | None \<Rightarrow> False) d) \<ge> 4096")
      (simp_all add: revoke_session_def assms f Let_def)
qed

lemma session_dead_step:
  assumes "admin_step hm ud sid e st st'" "session_dead key sid e st"
  shows "session_dead key sid e st'"
  using assms
proof (induction rule: admin_step.induct)
  case (revoke drawn st later token)
  show ?case
  proof (cases "verify_session hm ud (Some token) (an_secret st) (an_file st) (an_now st)")
    case None
    with revoke.prems show ?thesis by (simp add: revoke_session_def)
  next
    case (Some u)
    from Some show ?thesis
    proof (cases rule: revoke_session_cases [where later = later and drawn = drawn])
      case (rotated e' s' sig)
      with revoke show ?thesis by (auto simp: session_dead_def rotate_session_secret_def)
    next
      case (listed e' s' sig d)
      let ?P = "\<lambda>kv. case json_int (snd kv) of Some v \<Rightarrow> v \<ge> later | None \<Rightarrow> False"
      have same: "s' = sid \<Longrightarrow> e' = e" using revoke.hyps(3) listed(1) by blast
      have kept: "map_of (AList.update s' (JInt e') (filter ?P d)) sid = Some (JInt e)"
        if "map_of d sid = Some (JInt e)" "later \<le> e"
        using map_of_filter_first [OF that(1), of ?P] that(2) same by (simp add: update_conv)
      have d: "d = x" if "an_file st = Some (Inr (JObj x))" for x
        using listed(2) that by (simp add: revoked_sessions_def split: if_splits)
      show ?thesis
        using revoke.prems revoke.hyps(2) kept d unfolding listed(3)
        by (cases "e < later") (auto simp: session_dead_def)
    qed
  qed
qed (auto simp: session_dead_def rotate_session_secret_def)

lemma dead_not_verified:
  assumes inj: "\<And>k k' m. hm k m = hm k' m \<Longrightarrow> k = k'"
    and dead: "session_dead key sid e st"
    and f: "session_fields ud t = Some (u, e, sid, session_signature hm key (session_message u e sid))"
  shows "verify_session hm ud (Some t) (an_secret st) (an_file st) (an_now st) = None"
proof (rule ccontr)
  assume "\<not> ?thesis"
  then obtain v where v: "verify_session hm ud (Some t) (an_secret st) (an_file st) (an_now st) = Some v" by blast
  then obtain d where d: "an_now st \<le> e" "session_signature hm key (session_message u e sid) = session_signature hm (an_secret st) (session_message u e sid)"
    "revoked_sessions (an_file st) = Inr d" "sid \<notin> set (map fst d)"
    using f by (auto simp: verify_Some)
  have "an_secret st = key" using inj d(2) by (metis session_signature_def utf8_inject)
  moreover have "map_of d sid = None" using d(4) by (simp add: map_of_eq_None_iff)
  ultimately show False using dead d(1,3)
    by (auto simp: session_dead_def revoked_sessions_def split: if_splits)
qed

text \<open>Once a session is revoked, neither its token nor any other spelling of it verifies again,
  whatever the panel does later: the entry stays until the session has expired, or the secret that signed
  it is gone. Different HMAC keys are taken to give different codes.\<close>

theorem revocation_final:
  assumes "\<And>k k' m. hm k m = hm k' m \<Longrightarrow> k = k'"
    and "verify_session hm ud (Some t) (an_secret st) (an_file st) (an_now st) = Some u"
    and "session_fields ud t = Some (u, e, sid, sig)" "session_fields ud t' = session_fields ud t"
    and "an_now st \<le> later" "drawn \<notin> set (an_secret st # an_past st)"
    and "(admin_step hm ud sid e)\<^sup>*\<^sup>* (snd (revoke_session hm ud t (an_secret st) later drawn st)) st'"
  shows "fst (revoke_session hm ud t (an_secret st) later drawn st) = Inr ()
    \<and> verify_session hm ud (Some t') (an_secret st') (an_file st') (an_now st') = None"
proof -
  have sig: "sig = session_signature hm (an_secret st) (session_message u e sid)"
    using assms(2,3) by (auto simp: verify_Some)
  have one: "fst (revoke_session hm ud t (an_secret st) later drawn st) = Inr ()
    \<and> session_dead (an_secret st) sid e (snd (revoke_session hm ud t (an_secret st) later drawn st))"
    using assms(2)
  proof (cases rule: revoke_session_cases [where later = later and drawn = drawn])
    case rotated
    with assms(6) show ?thesis by (auto simp: session_dead_def rotate_session_secret_def)
  next
    case listed
    with assms(3) show ?thesis by (simp add: session_dead_def update_conv)
  qed
  have "session_dead (an_secret st) sid e st'"
    using assms(7)
  proof (induction rule: rtranclp_induct)
    case base
    show ?case using one by blast
  next
    case (step y z)
    then show ?case by (blast intro: session_dead_step)
  qed
  from dead_not_verified [OF assms(1) this, where ud = ud and t = t' and u = u] assms(3,4) sig one show ?thesis by simp
qed

section \<open>The throttle\<close>

text \<open>Logins one after the other, and the times at which a checked password was wrong.\<close>

fun login_run :: "login list \<Rightarrow> login_guard \<times> (string \<times> rat) list \<Rightarrow> login_guard \<times> (string \<times> rat) list" where
  "login_run [] s = s"
| "login_run (a # as) (g, wrong) =
     (case login_step a g of
        (checked, g') \<Rightarrow> login_run as (g', if checked \<and> \<not> li_ok a then wrong @ [(li_ip a, li_done a)] else wrong))"

fun login_ordered :: "rat \<Rightarrow> login list \<Rightarrow> bool" where
  "login_ordered now [] \<longleftrightarrow> True"
| "login_ordered now (a # as) \<longleftrightarrow> now \<le> li_check a \<and> li_check a \<le> li_done a \<and> login_ordered (li_done a) as"

definition fail_times :: "string \<Rightarrow> (string \<times> rat) list \<Rightarrow> rat list" where
  "fail_times ip wrong = map snd (filter (\<lambda>e. fst e = ip) wrong)"

lemma fail_times_snoc [simp]:
  "fail_times ip (wrong @ [(i, t)]) = fail_times ip wrong @ (if i = ip then [t] else [])" "fail_times ip [] = []"
  by (simp_all add: fail_times_def)

text \<open>The table after a check at \<open>q\<close>.\<close>

definition guard_inv :: "login_guard \<Rightarrow> string \<Rightarrow> (string \<times> rat) list \<Rightarrow> rat \<Rightarrow> bool" where
  "guard_inv g ip wrong q \<longleftrightarrow> distinct (map fst (lg_ip_fails g))
     \<and> lg_fails g ip = filter (\<lambda>t. t \<ge> q - lg_lockout g) (fail_times ip wrong)"

lemma map_of_pruned:
  assumes "distinct (map fst d)"
  shows "map_of (filter (\<lambda>kv. snd kv \<noteq> []) (map_vals f d)) k =
    (case map_of d k of None \<Rightarrow> None | Some ts \<Rightarrow> if f ts = [] then None else Some (f ts))"
  using assms
proof (induction d)
  case (Cons kv d)
  obtain a b where kv: "kv = (a, b)" by (cases kv)
  show ?case
  proof (cases "a = k")
    case True
    with Cons.prems have "map_of d k = None" by (simp add: kv map_of_eq_None_iff)
    with Cons True show ?thesis by (simp add: kv map_vals_def)
  next
    case False
    with Cons show ?thesis by (simp add: kv map_vals_def)
  qed
qed (simp add: map_vals_def)

lemma lg_fails_prune:
  assumes "distinct (map fst (lg_ip_fails g))"
  shows "lg_fails (lg_prune c g) ip = filter (\<lambda>t. t \<ge> c - lg_lockout g) (lg_fails g ip)"
  using map_of_pruned [OF assms, of "filter (\<lambda>t. t \<ge> c - lg_lockout g)" ip]
  by (auto simp: lg_prune_def lg_fails_def split: option.splits)

lemma prune_inv:
  assumes "guard_inv g ip wrong q" "q \<le> c"
  shows "guard_inv (lg_prune c g) ip wrong c"
proof -
  have keys: "distinct (map fst (filter P (map_vals f d)))" if "distinct (map fst d)" for P and f :: "rat list \<Rightarrow> rat list" and d :: "(string \<times> rat list) list"
    using that by (simp add: distinct_map_filter keys_map_vals)
  have same: "filter (\<lambda>t. t \<ge> c - l) (filter (\<lambda>t. t \<ge> q - l) ts) = filter (\<lambda>t. t \<ge> c - l) ts" for l ts
    using assms(2) by (induction ts) auto
  have d: "distinct (map fst (lg_ip_fails g))" using assms(1) by (simp add: guard_inv_def)
  then have "distinct (map fst (lg_ip_fails (lg_prune c g)))" by (simp add: lg_prune_def keys)
  then show ?thesis
    using assms(1) same by (simp add: guard_inv_def lg_fails_prune [OF d]) (simp add: lg_prune_def)
qed

lemma record_failure_inv:
  assumes "guard_inv g ip wrong c" "c \<le> d" "0 \<le> lg_lockout g"
  shows "guard_inv (record_failure i d g) ip (wrong @ [(i, d)]) c"
  using assms by (auto simp: guard_inv_def record_failure_def lg_fails_def update_conv distinct_update split: option.splits)

lemma record_success_inv:
  assumes "guard_inv g ip wrong c" "i \<noteq> ip"
  shows "guard_inv (record_success i g) ip wrong c"
  using assms by (simp add: guard_inv_def record_success_def lg_fails_def delete_conv' distinct_delete)

lemma min_list_rat_mem: "ts \<noteq> [] \<Longrightarrow> min_list_rat ts \<in> set ts"
proof (induction ts rule: rev_induct)
  case (snoc t ts)
  then show ?case
    by (cases ts) (auto simp: min_list_rat_def min_def)
qed simp

text \<open>One login against the record of one address.\<close>

definition window_bound :: "login_guard \<Rightarrow> string \<Rightarrow> (string \<times> rat) list \<Rightarrow> bool" where
  "window_bound g ip wrong \<longleftrightarrow>
     (\<forall>x. length (filter (\<lambda>t. x \<le> t \<and> t < x + lg_lockout g) (fail_times ip wrong)) \<le> lg_max_per_ip g)"

lemma retry_after_blocks:
  assumes "guard_inv g ip wrong q" "q \<le> c" "0 < lg_max_per_ip g"
    and "\<forall>t \<in> set (fail_times ip wrong). c \<noteq> t + lg_lockout g"
    and "retry_after ip c g = (0, g1)"
  shows "length (filter (\<lambda>t. t \<ge> c - lg_lockout g) (fail_times ip wrong)) < lg_max_per_ip g"
proof (rule ccontr)
  assume full: "\<not> ?thesis"
  let ?ts = "filter (\<lambda>t. t \<ge> c - lg_lockout g) (fail_times ip wrong)"
  have ts: "lg_fails (lg_prune c g) ip = ?ts" using prune_inv [OF assms(1,2)] by (simp add: guard_inv_def lg_prune_def)
  have "?ts \<noteq> []" using full assms(3) by auto
  then have m: "min_list_rat ?ts \<in> set ?ts" by (rule min_list_rat_mem)
  then have "min_list_rat ?ts > c - lg_lockout g" using assms(4) by force
  then have "0 < lg_lockout g - (c - min_list_rat ?ts)" by simp
  with full ts assms(5) show False by (simp add: retry_after_def Let_def lg_prune_def max_def split: if_splits)
qed

lemma lg_params [simp]:
  "lg_lockout (lg_prune c g) = lg_lockout g" "lg_max_per_ip (lg_prune c g) = lg_max_per_ip g"
  "lg_lockout (record_failure i c g) = lg_lockout g" "lg_max_per_ip (record_failure i c g) = lg_max_per_ip g"
  "lg_lockout (record_success i g) = lg_lockout g" "lg_max_per_ip (record_success i g) = lg_max_per_ip g"
  by (simp_all add: lg_prune_def record_failure_def record_success_def)

lemma window_bound_same [simp]:
  "window_bound (lg_prune c g) = window_bound g" "window_bound (record_failure i c g) = window_bound g"
  "window_bound (record_success i g) = window_bound g"
  by (simp_all add: fun_eq_iff window_bound_def)

lemma retry_after_state: "snd (retry_after ip c g) = lg_prune c g"
  by (simp add: retry_after_def Let_def)

lemma retry_after_nonneg: "0 \<le> fst (retry_after ip c g)"
  by (simp add: retry_after_def Let_def)

lemma window_snoc:
  assumes "window_bound g ip wrong" "c \<le> d"
    and "length (filter (\<lambda>t. t \<ge> c - lg_lockout g) (fail_times ip wrong)) < lg_max_per_ip g"
  shows "window_bound g ip (wrong @ [(ip, d)])"
  unfolding window_bound_def
proof
  fix x
  let ?in = "\<lambda>t. x \<le> t \<and> t < x + lg_lockout g"
  show "length (filter ?in (fail_times ip (wrong @ [(ip, d)]))) \<le> lg_max_per_ip g"
  proof (cases "?in d")
    case True
    then have "length (filter ?in ts) \<le> length (filter (\<lambda>t. t \<ge> c - lg_lockout g) ts)" for ts
      using assms(2) by (induction ts) auto
    from this [of "fail_times ip wrong"] assms(3) show ?thesis by simp
  next
    case False
    with assms(1) show ?thesis by (auto simp: window_bound_def)
  qed
qed

lemma login_step_inv:
  assumes inv: "guard_inv g ip wrong q" "window_bound g ip wrong"
    and t: "q \<le> li_check a" "li_check a \<le> li_done a" "0 \<le> lg_lockout g" "0 < lg_max_per_ip g"
    and exact: "\<forall>t \<in> set (fail_times ip wrong). li_check a \<noteq> t + lg_lockout g"
    and ok: "li_ip a = ip \<longrightarrow> \<not> li_ok a"
    and step: "login_step a g = (checked, g')"
    and wrong': "wrong' = (if checked \<and> \<not> li_ok a then wrong @ [(li_ip a, li_done a)] else wrong)"
  shows "guard_inv g' ip wrong' (li_check a) \<and> window_bound g' ip wrong'
    \<and> lg_lockout g' = lg_lockout g \<and> lg_max_per_ip g' = lg_max_per_ip g"
proof -
  let ?c = "li_check a" and ?g1 = "lg_prune (li_check a) g"
  obtain wait where r: "retry_after (li_ip a) ?c g = (wait, ?g1)"
    using retry_after_state by (metis prod.collapse)
  have inv1: "guard_inv ?g1 ip wrong ?c" by (rule prune_inv [OF inv(1) t(1)])
  have bound1: "window_bound ?g1 ip wrong" using inv(2) by simp
  show ?thesis
  proof (cases "wait > 0")
    case True
    with step wrong' r inv1 bound1 show ?thesis by (auto simp: login_step_def)
  next
    case False
    then have wait: "wait = 0" using retry_after_nonneg [of "li_ip a" ?c g] r by simp
    show ?thesis
    proof (cases "li_ok a")
      case True
      with step wrong' r wait ok record_success_inv [OF inv1] bound1 show ?thesis
        by (auto simp: login_step_def)
    next
      case False
      have "guard_inv (record_failure (li_ip a) (li_done a) ?g1) ip (wrong @ [(li_ip a, li_done a)]) ?c"
        using record_failure_inv [OF inv1 t(2)] t(3) by simp
      moreover have "window_bound ?g1 ip (wrong @ [(li_ip a, li_done a)])"
      proof (cases "li_ip a = ip")
        case True
        from retry_after_blocks [OF inv(1) t(1,4) exact] r wait True
        have "length (filter (\<lambda>t. t \<ge> ?c - lg_lockout ?g1) (fail_times ip wrong)) < lg_max_per_ip ?g1" by simp
        from window_snoc [OF bound1 t(2) this] True show ?thesis by simp
      next
        case False
        with bound1 show ?thesis by (simp add: window_bound_def)
      qed
      ultimately show ?thesis using step wrong' r wait False by (auto simp: login_step_def simp del: fail_times_snoc)
    qed
  qed
qed

lemma login_run_bound:
  assumes "guard_inv g ip wrong q" "window_bound g ip wrong" "login_ordered q as"
    and "0 \<le> lg_lockout g" "0 < lg_max_per_ip g"
    and "\<forall>a \<in> set as. \<forall>t \<in> set (fail_times ip wrong) \<union> li_done ` set as. li_check a \<noteq> t + lg_lockout g"
    and "\<forall>a \<in> set as. li_ip a = ip \<longrightarrow> \<not> li_ok a"
    and "login_run as (g, wrong) = (g', wrong')"
  shows "window_bound g' ip wrong' \<and> lg_lockout g' = lg_lockout g \<and> lg_max_per_ip g' = lg_max_per_ip g"
  using assms
proof (induction as arbitrary: g wrong q)
  case (Cons a as)
  obtain checked g1 where step: "login_step a g = (checked, g1)" by (cases "login_step a g")
  let ?w = "if checked \<and> \<not> li_ok a then wrong @ [(li_ip a, li_done a)] else wrong"
  have t: "q \<le> li_check a" "li_check a \<le> li_done a" "login_ordered (li_done a) as" using Cons.prems(3) by simp_all
  have inv: "guard_inv g1 ip ?w (li_check a)" "window_bound g1 ip ?w" "lg_lockout g1 = lg_lockout g" "lg_max_per_ip g1 = lg_max_per_ip g"
    using login_step_inv [OF Cons.prems(1,2) t(1,2) Cons.prems(4,5) _ _ step refl] Cons.prems(6,7) by simp_all
  have times: "set (fail_times ip ?w) \<subseteq> set (fail_times ip wrong) \<union> li_done ` set (a # as)" by auto
  have ord: "login_ordered (li_check a) as" using t(2,3) by (cases as) auto
  have exact': "\<forall>b \<in> set as. \<forall>t \<in> set (fail_times ip ?w) \<union> li_done ` set as. li_check b \<noteq> t + lg_lockout g1"
  proof (intro ballI)
    fix b u
    assume b: "b \<in> set as" and u: "u \<in> set (fail_times ip ?w) \<union> li_done ` set as"
    from u times have "u \<in> set (fail_times ip wrong) \<union> li_done ` set (a # as)" by auto
    from bspec [OF bspec [OF Cons.prems(6)] this] b have "li_check b \<noteq> u + lg_lockout g" by (meson list.set_intros(2))
    with inv(3) show "li_check b \<noteq> u + lg_lockout g1" by simp
  qed
  show ?case
    using Cons.IH [OF inv(1,2) ord _ _ exact'] Cons.prems(4,5,7,8) inv(3,4) step by simp
qed (simp add: window_bound_def)


section \<open>Boundaries the throttle leaves open\<close>

definition demo_guard :: login_guard where
  "demo_guard = \<lparr>lg_max_per_ip = 5, lg_lockout = 300, lg_global_max = 50, lg_global_window = 300,
     lg_ip_fails = [], lg_global_fails = []\<rparr>"

definition demo_login :: "rat \<Rightarrow> login" where
  "demo_login t = \<lparr>li_ip = ''a'', li_check = t, li_done = t, li_ok = False\<rparr>"

text \<open>At the very instant the oldest failure is the lockout old, every attempt is let through.\<close>

lemma throttle_open_at_boundary:
  "length (snd (login_run (map demo_login ([0, 1, 2, 3, 4] @ replicate 6 300)) (demo_guard, []))) = 11"
  by code_simp

text \<open>The check comes before the body of the request is awaited: attempts that are checked together
  are all let through, whatever is recorded afterwards.\<close>

lemma concurrent_checks_pass:
  "fst (retry_after ip now (fold (\<lambda>c g. snd (retry_after (fst c) (snd c) g)) checks demo_guard)) = 0"
proof -
  have "fold (\<lambda>c g. snd (retry_after (fst c) (snd c) g)) checks demo_guard = demo_guard"
    by (induction checks) (simp_all add: retry_after_state lg_prune_def demo_guard_def map_vals_def)
  then show ?thesis by (simp add: retry_after_def demo_guard_def lg_prune_def lg_fails_def map_vals_def)
qed


section \<open>Examples\<close>

text \<open>A decoder for the texts of the model and a keyed code that spells out its key.\<close>

fun latin_decode :: decoder where
  "latin_decode [] = Some []"
| "latin_decode [c] = (if code c < 128 then Some [c] else None)"
| "latin_decode (c # d # r) =
     (if code c < 128 then map_option ((#) c) (latin_decode (d # r))
      else map_option ((#) (char_of ((code c - 192) * 64 + (code d - 128)))) (latin_decode r))"

lemma latin_decodes: "decodes_utf8 latin_decode"
  unfolding decodes_utf8_def
proof
  fix s
  show "latin_decode (utf8_encode s) = Some s"
  proof (induction s)
    case (Cons c s)
    have "latin_decode (c # b) = map_option ((#) c) (latin_decode b)" if "code c < 128" for b
      using that by (cases b) auto
    moreover have "code c div 64 < 4" by (rule b64_bits)
    ultimately show ?case using Cons by (simp add: utf8_Cons)
  qed (simp add: utf8_encode_def)
qed

definition spell_key :: hmac where
  "spell_key k m = concat (map (\<lambda>c. [hex_digit (code c div 16), hex_digit (code c mod 16)]) k)"

lemma hex_digit_facts:
  "\<forall>i < 16. is_hex_lower (hex_digit i)" "\<forall>i < 16. unhex (hex_digit i) = i"
proof -
  show "\<forall>i < 16. is_hex_lower (hex_digit i)" by (auto simp: hex_digit_def is_hex_lower_def is_dec_def code_def)
  show "\<forall>i < 16. unhex (hex_digit i) = i" by (simp add: unhex_hex_digit)
qed

lemma spell_key_hex: "hex_hmac spell_key"
proof -
  have "list_all is_hex_lower (spell_key k m)" for k m
    using hex_digit_facts(1) by (induction k) (simp_all add: spell_key_def less_mult_imp_div_less)
  then show ?thesis by (simp add: hex_hmac_def)
qed

lemma spell_key_inject: "spell_key k m = spell_key k' m \<Longrightarrow> k = k'"
proof (induction k arbitrary: k')
  case Nil
  then show ?case by (cases k') (auto simp: spell_key_def)
next
  case (Cons c k)
  then obtain d k2 where k': "k' = d # k2" by (cases k') (auto simp: spell_key_def)
  have h: "hex_digit (code c div 16) = hex_digit (code d div 16)" "hex_digit (code c mod 16) = hex_digit (code d mod 16)"
    "spell_key k m = spell_key k2 m" using Cons.prems by (simp_all add: k' spell_key_def)
  have b: "code x div 16 < 16" for x by (rule b64_bits)
  have "code c div 16 = code d div 16" "code c mod 16 = code d mod 16"
    using h(1,2) b hex_digit_facts(2) by (metis, metis mod_less_divisor zero_less_numeral)
  then have "code c = code d" by (metis div_mult_mod_eq)
  with Cons.IH [OF h(3)] k' show ?case by (simp add: code_inject)
qed

definition demo_admin :: admin_state where
  "demo_admin = \<lparr>an_secret = ''k1'', an_file = None, an_now = 100, an_past = []\<rparr>"

definition demo_sid :: string where
  "demo_sid = replicate 32 (CHR ''0'')"

definition demo_session :: string where
  "demo_session = sign_session spell_key ''admin'' ''k1'' demo_sid 60 100"

lemma demo_sid_ok: "session_id demo_sid"
  by (simp add: session_id_def demo_sid_def list_all_iff is_hex_lower_def is_dec_def code_def)

lemma demo_expiry: "length (show_int (100 + 60)) \<le> 4300"
  by code_simp

lemma demo_session_verifies: "verify_session spell_key latin_decode (Some demo_session) ''k1'' None 100 = Some ''admin''"
  unfolding demo_session_def by code_simp

theorem password_hash_verifies_witness:
  "verify_password (\<lambda>p s n r q. Some (p @ s)) ''pw'' (the (hash_password (\<lambda>p s n r q. Some (p @ s)) ''salt'' ''pw''))"
  using password_hash_verifies [of "\<lambda>p s n r q. Some (p @ s)" "''salt''" "''pw''"] by (simp add: hash_password_def)

theorem signed_session_verifies_witness:
  "verify_session spell_key latin_decode (Some (sign_session spell_key ''admin'' ''k1'' demo_sid 60 100)) ''k1'' None 160 = Some ''admin''"
  using signed_session_verifies [OF spell_key_hex latin_decodes demo_sid_ok _ demo_expiry, of "''admin''" None "[]" "''k1''" 160]
  by (simp add: revoked_sessions_def)

theorem revocation_final_witness:
  "verify_session spell_key latin_decode (Some demo_session) ''k1''
     (an_file (snd (revoke_session spell_key latin_decode demo_session ''k1'' 101 ''k2'' demo_admin))) 101 = None"
proof -
  have f: "session_fields latin_decode demo_session = Some (''admin'', 160, demo_sid, spell_key ''k1'' [])"
    unfolding demo_session_def by code_simp
  have v: "verify_session spell_key latin_decode (Some demo_session) (an_secret demo_admin) (an_file demo_admin) (an_now demo_admin) = Some ''admin''"
    using demo_session_verifies by (simp add: demo_admin_def)
  have "snd (revoke_session spell_key latin_decode demo_session ''k1'' 101 ''k2'' demo_admin)
      = demo_admin\<lparr>an_file := Some (Inr (JObj [(demo_sid, JInt 160)])), an_now := 101\<rparr>"
    using v f by (simp add: revoke_session_def demo_admin_def revoked_sessions_def)
  moreover have "fst (revoke_session spell_key latin_decode demo_session (an_secret demo_admin) 101 ''k2'' demo_admin) = Inr () \<and>
      verify_session spell_key latin_decode (Some demo_session)
        (an_secret (snd (revoke_session spell_key latin_decode demo_session (an_secret demo_admin) 101 ''k2'' demo_admin)))
        (an_file (snd (revoke_session spell_key latin_decode demo_session (an_secret demo_admin) 101 ''k2'' demo_admin)))
        (an_now (snd (revoke_session spell_key latin_decode demo_session (an_secret demo_admin) 101 ''k2'' demo_admin))) = None"
    by (rule revocation_final [OF _ v f refl _ _ rtranclp.rtrancl_refl])
      (auto intro: spell_key_inject simp: demo_admin_def)
  ultimately show ?thesis by (simp add: demo_admin_def)
qed

end
