(* ===== verification/Policy.thy ===== *)
theory Policy
  imports PyJson
begin

text \<open>
  \<^verbatim>\<open>broker/policy.py\<close> and the pure parts of \<^verbatim>\<open>broker/operations.py\<close> that build and
  read a caller policy. A policy is the dictionary the writers store, with its three optional
  keys \<^verbatim>\<open>tools\<close>, \<^verbatim>\<open>enabled\<close> and \<^verbatim>\<open>disabled_functions\<close>; \<^const>\<open>None\<close> is an
  absent key. Effects stay strings in the stored rules, because \<^verbatim>\<open>_norm\<close> must map an
  unrecognised one to a denial.
\<close>

section \<open>Decisions\<close>

datatype effect = DENY | REVIEW | ALLOW

text \<open>Effects are ordered by the authority they give.\<close>

instantiation effect :: linorder
begin

definition rank_effect :: "effect \<Rightarrow> nat" where
  "rank_effect e = (case e of DENY \<Rightarrow> 0 | REVIEW \<Rightarrow> 1 | ALLOW \<Rightarrow> 2)"

definition less_eq_effect :: "effect \<Rightarrow> effect \<Rightarrow> bool" where
  "less_eq_effect a b \<longleftrightarrow> rank_effect a \<le> rank_effect b"

definition less_effect :: "effect \<Rightarrow> effect \<Rightarrow> bool" where
  "less_effect a b \<longleftrightarrow> rank_effect a < rank_effect b"

instance
  by standard (auto simp: less_eq_effect_def less_effect_def rank_effect_def split: effect.splits)

end

lemma DENY_least [simp]: "DENY \<le> e"
  by (simp add: less_eq_effect_def rank_effect_def)

definition effect_str :: "effect \<Rightarrow> string" where
  "effect_str e = (case e of ALLOW \<Rightarrow> ''allow'' | REVIEW \<Rightarrow> ''review'' | DENY \<Rightarrow> ''deny'')"

type_synonym rules = "(string \<times> string) list"

record policy =
  pol_tools :: "(string \<times> rules) list option"
  pol_enabled :: "string list option"
  pol_disabled :: "(string \<times> string list) list option"

definition empty_policy :: policy where
  "empty_policy = \<lparr>pol_tools = None, pol_enabled = None, pol_disabled = None\<rparr>"

definition norm_effect :: "string option \<Rightarrow> effect" where
  "norm_effect e =
     (if e = Some ''allow'' then ALLOW else if e = Some ''review'' then REVIEW
      else if e = Some ''deny'' then DENY else DENY)"

definition dict_get :: "'v \<Rightarrow> (string \<times> 'v) list option \<Rightarrow> string \<Rightarrow> 'v" where
  "dict_get dflt d k =
     (case d of None \<Rightarrow> dflt | Some kvs \<Rightarrow> (case map_of kvs k of None \<Rightarrow> dflt | Some v \<Rightarrow> v))"

definition decide :: "policy \<Rightarrow> string \<Rightarrow> string \<Rightarrow> effect" where
  "decide p tool op =
     (if pol_disabled p \<noteq> None \<and> (case pol_enabled p of None \<Rightarrow> False | Some en \<Rightarrow> tool \<notin> set en)
      then DENY
      else if op \<in> set (dict_get [] (pol_disabled p) tool) then DENY
      else norm_effect (map_of (dict_get [] (pol_tools p) tool) op))"

section \<open>Building and reading policies\<close>

text \<open>\<^verbatim>\<open>tools.setdefault(tool, {})[op] = effect\<close>.\<close>

definition set_rule :: "(string \<times> rules) list \<Rightarrow> string \<Rightarrow> string \<Rightarrow> string \<Rightarrow> (string \<times> rules) list" where
  "set_rule tools tool op eff =
     AList.update tool (AList.update op eff (case map_of tools tool of None \<Rightarrow> [] | Some r \<Rightarrow> r)) tools"

definition apply_specs :: "string \<Rightarrow> string list \<Rightarrow> (string \<times> rules) list \<Rightarrow> (string \<times> rules) list" where
  "apply_specs eff specs tools =
     fold (\<lambda>spec ts. (case partition_at (CHR ''.'') spec of (tool, _, op) \<Rightarrow> set_rule ts tool op eff))
       specs tools"

text \<open>\<^verbatim>\<open>build_policy\<close>; a list the caller leaves out is empty.\<close>

definition build_policy :: "string list \<Rightarrow> string list \<Rightarrow> string list \<Rightarrow> policy" where
  "build_policy allow review deny =
     empty_policy\<lparr>pol_tools :=
       Some (apply_specs ''deny'' deny (apply_specs ''allow'' allow (apply_specs ''review'' review [])))\<rparr>"

definition enabled_tools :: "policy \<Rightarrow> string list" where
  "enabled_tools p =
     (case (pol_disabled p, pol_enabled p) of
        (Some _, Some en) \<Rightarrow> sort (remdups en)
      | _ \<Rightarrow> sort (remdups ((case pol_enabled p of None \<Rightarrow> [] | Some en \<Rightarrow> en)
                             @ (case pol_tools p of None \<Rightarrow> [] | Some ts \<Rightarrow> map fst ts))))"

text \<open>The stored JSON text of a policy and the text its requests are bound to
  (\<^verbatim>\<open>json.dumps(policy, sort_keys=True)\<close>).\<close>

definition policy_json :: "policy \<Rightarrow> json" where
  "policy_json p = JObj
     ((case pol_tools p of None \<Rightarrow> []
       | Some ts \<Rightarrow> [(''tools'', JObj (map_vals (\<lambda>r. JObj (map_vals JStr r)) ts))])
      @ (case pol_enabled p of None \<Rightarrow> [] | Some en \<Rightarrow> [(''enabled'', JList (map JStr en))])
      @ (case pol_disabled p of None \<Rightarrow> []
         | Some ds \<Rightarrow> [(''disabled_functions'', JObj (map_vals (\<lambda>ops. JList (map JStr ops)) ds))]))"

definition policy_text :: "policy \<Rightarrow> string" where
  "policy_text p = dumps_sorted (policy_json p)"

text \<open>Python's \<^verbatim>\<open>==\<close> on two policies: dictionaries compare without regard to order.\<close>

definition dict_eq :: "('v \<Rightarrow> 'v \<Rightarrow> bool) \<Rightarrow> (string \<times> 'v) list \<Rightarrow> (string \<times> 'v) list \<Rightarrow> bool" where
  "dict_eq veq a b \<longleftrightarrow> length a = length b \<and>
     list_all (\<lambda>kv. case map_of b (fst kv) of None \<Rightarrow> False | Some w \<Rightarrow> veq (snd kv) w) a"

definition opt_eq :: "('v \<Rightarrow> 'v \<Rightarrow> bool) \<Rightarrow> 'v option \<Rightarrow> 'v option \<Rightarrow> bool" where
  "opt_eq veq a b = (case (a, b) of (None, None) \<Rightarrow> True | (Some x, Some y) \<Rightarrow> veq x y | _ \<Rightarrow> False)"

definition policy_eq :: "policy \<Rightarrow> policy \<Rightarrow> bool" where
  "policy_eq p q \<longleftrightarrow> opt_eq (dict_eq (dict_eq (=))) (pol_tools p) (pol_tools q)
     \<and> opt_eq (=) (pol_enabled p) (pol_enabled q)
     \<and> opt_eq (dict_eq (=)) (pol_disabled p) (pol_disabled q)"

text \<open>Keys of a dictionary occur once.\<close>

definition wf_policy :: "policy \<Rightarrow> bool" where
  "wf_policy p \<longleftrightarrow>
     (case pol_tools p of None \<Rightarrow> True
      | Some ts \<Rightarrow> distinct (map fst ts) \<and> list_all (\<lambda>tr. distinct (map fst (snd tr))) ts)
     \<and> (case pol_disabled p of None \<Rightarrow> True | Some ds \<Rightarrow> distinct (map fst ds))"

section \<open>What a policy means\<close>

lemma decide_ALLOW:
  "decide p tool op = ALLOW \<Longrightarrow>
     map_of (dict_get [] (pol_tools p) tool) op = Some ''allow'' \<and>
     op \<notin> set (dict_get [] (pol_disabled p) tool)"
  by (auto simp: decide_def norm_effect_def split: if_splits)

lemma decide_empty [simp]: "decide empty_policy tool op = DENY"
  by (simp add: decide_def empty_policy_def dict_get_def norm_effect_def)

lemma dict_eq_map_of:
  assumes "dict_eq veq a b" "distinct (map fst a)" "distinct (map fst b)"
  shows "rel_option veq (map_of a k) (map_of b k)"
proof -
  have sub: "fst ` set a \<subseteq> fst ` set b"
    using assms(1) by (force simp: dict_eq_def list_all_iff split: option.splits dest: map_of_SomeD)
  have "card (fst ` set a) = length a" "card (fst ` set b) = length b"
    using assms(2,3) by (metis card_set distinct_remdups_id length_map list.set_map)+
  with assms(1) have "card (fst ` set a) = card (fst ` set b)"
    by (simp add: dict_eq_def)
  with sub have keys: "fst ` set a = fst ` set b"
    by (simp add: card_subset_eq)
  show ?thesis
  proof (cases "map_of a k")
    case None
    with keys show ?thesis by (metis map_of_eq_None_iff option.rel_intros(1))
  next
    case (Some v)
    then have "(k, v) \<in> set a" by (rule map_of_SomeD)
    with assms(1) Some show ?thesis
      by (fastforce simp: dict_eq_def list_all_iff split: option.splits)
  qed
qed

lemma set_rule_map_of:
  "map_of (dict_get [] (Some (set_rule ts tool op eff)) t) o' =
     (if t = tool \<and> o' = op then Some eff else map_of (dict_get [] (Some ts) t) o')"
  by (auto simp: set_rule_def dict_get_def update_conv split: option.splits)

definition spec_matches :: "string \<Rightarrow> string \<Rightarrow> string \<Rightarrow> bool" where
  "spec_matches tool op spec \<longleftrightarrow>
     (case partition_at (CHR ''.'') spec of (t, _, o') \<Rightarrow> t = tool \<and> o' = op)"

lemma apply_specs_map_of:
  "map_of (dict_get [] (Some (apply_specs eff specs ts)) tool) op =
     (if list_ex (spec_matches tool op) specs then Some eff
      else map_of (dict_get [] (Some ts) tool) op)"
proof (induction specs arbitrary: ts)
  case (Cons spec specs)
  obtain t b o' where s: "partition_at (CHR ''.'') spec = (t, b, o')" by (cases "partition_at (CHR ''.'') spec")
  have "apply_specs eff (spec # specs) ts = apply_specs eff specs (set_rule ts t o' eff)"
    by (simp add: apply_specs_def s)
  then show ?case
    by (auto simp: Cons.IH set_rule_map_of spec_matches_def s)
qed (simp add: apply_specs_def)

lemma partition_at_dotted:
  "CHR ''.'' \<notin> set tool \<Longrightarrow> partition_at (CHR ''.'') (tool @ ''.'' @ op) = (tool, True, op)"
  by (simp add: partition_at_def takeWhile_append dropWhile_append)

lemma spec_matches_dotted [simp]:
  "CHR ''.'' \<notin> set tool \<Longrightarrow> spec_matches t o' (tool @ ''.'' @ op) \<longleftrightarrow> tool = t \<and> op = o'"
  using partition_at_dotted [of tool op] by (simp add: spec_matches_def)

section \<open>The text of a policy determines its decisions\<close>

lemma finite_policy_json [simp]: "all_finite (policy_json p)"
  by (auto simp: policy_json_def list_all_iff set_map_vals split: option.splits)

lemma wf_policy_json: "wf_policy p \<Longrightarrow> wf_json (policy_json p)"
  by (auto simp: policy_json_def wf_policy_def list_all_iff set_map_vals split: option.splits)

text \<open>Reading a rule out of the stored JSON.\<close>

definition json_rule :: "json \<Rightarrow> string \<Rightarrow> string \<Rightarrow> json option" where
  "json_rule v tool op =
     Option.bind (jget ''tools'' v) (\<lambda>ts. Option.bind (jget tool ts) (jget op))"

lemma json_rule_policy:
  "json_rule (policy_json p) tool op = map_option JStr (map_of (dict_get [] (pol_tools p) tool) op)"
  by (auto simp: json_rule_def policy_json_def dict_get_def split: option.splits)

lemma json_enabled_policy:
  "jget ''enabled'' (policy_json p) = map_option (\<lambda>en. JList (map JStr en)) (pol_enabled p)"
  by (auto simp: policy_json_def split: option.splits)

lemma json_disabled_policy:
  "jget ''disabled_functions'' (policy_json p) =
     map_option (\<lambda>ds. JObj (map_vals (\<lambda>ops. JList (map JStr ops)) ds)) (pol_disabled p)"
  by (auto simp: policy_json_def split: option.splits)

lemma map_JStr_inject [simp]: "map JStr a = map JStr b \<longleftrightarrow> a = b"
  by (simp add: inj_map_eq_map inj_def)

lemma sort_json_strs [simp]: "sort_json (JList (map JStr xs)) = JList (map JStr xs)"
  by simp

lemma sorted_json_eqs:
  assumes "wf_policy p" "wf_policy q" "policy_text p = policy_text q"
  shows "map_option sort_json (jget k (policy_json p)) = map_option sort_json (jget k (policy_json q))"
proof -
  have "sort_json (policy_json p) = sort_json (policy_json q)"
    using assms by (intro dumps_sorted_eq) (simp_all add: wf_policy_json policy_text_def)
  then show ?thesis
    using assms jget_sort_json [of "policy_json p" k] jget_sort_json [of "policy_json q" k]
    by (simp add: wf_policy_json)
qed

lemma wf_jget: "wf_json v \<Longrightarrow> jget k v = Some w \<Longrightarrow> wf_json w"
  by (cases v) (auto simp: list_all_iff dest!: map_of_SomeD)

lemma jget_cong:
  assumes "wf_json v" "wf_json w" "sort_json v = sort_json w"
  shows "map_option sort_json (jget k v) = map_option sort_json (jget k w)"
  using assms jget_sort_json [of v k] jget_sort_json [of w k] by simp

lemma json_rule_cong:
  assumes "wf_json v" "wf_json w" "sort_json v = sort_json w"
  shows "map_option sort_json (json_rule v tool op) = map_option sort_json (json_rule w tool op)"
proof -
  have step: "rel_option (\<lambda>x y. wf_json x \<and> wf_json y \<and> sort_json x = sort_json y) (jget k a) (jget k b)"
    if "wf_json a" "wf_json b" "sort_json a = sort_json b" for a b k
    using jget_cong [OF that, of k] wf_jget [OF that(1), of k] wf_jget [OF that(2), of k]
    by (cases "jget k a"; cases "jget k b") auto
  from step [OF assms, of "''tools''"] show ?thesis
  proof (cases rule: option.rel_cases)
    case (Some a b)
    then have "wf_json a" "wf_json b" "sort_json a = sort_json b" by auto
    from step [OF this, of tool] Some show ?thesis
      by (cases rule: option.rel_cases) (auto simp: json_rule_def intro!: jget_cong)
  qed (simp add: json_rule_def)
qed

lemma policy_text_rules:
  assumes "wf_policy p" "wf_policy q" "policy_text p = policy_text q"
  shows "map_of (dict_get [] (pol_tools p) tool) op = map_of (dict_get [] (pol_tools q) tool) op"
proof -
  have "sort_json (policy_json p) = sort_json (policy_json q)"
    using assms by (intro dumps_sorted_eq) (simp_all add: wf_policy_json policy_text_def)
  then have "map_option sort_json (json_rule (policy_json p) tool op)
      = map_option sort_json (json_rule (policy_json q) tool op)"
    using assms by (intro json_rule_cong) (simp_all add: wf_policy_json)
  then show ?thesis
    by (cases "map_of (dict_get [] (pol_tools p) tool) op";
        cases "map_of (dict_get [] (pol_tools q) tool) op") (simp_all add: json_rule_policy)
qed

lemma policy_text_enabled:
  assumes "wf_policy p" "wf_policy q" "policy_text p = policy_text q"
  shows "pol_enabled p = pol_enabled q"
  using sorted_json_eqs [OF assms, of "''enabled''"]
  by (cases "pol_enabled p"; cases "pol_enabled q") (simp_all add: json_enabled_policy comp_def)

lemma policy_text_disabled:
  assumes "wf_policy p" "wf_policy q" "policy_text p = policy_text q"
  shows "(pol_disabled p = None \<longleftrightarrow> pol_disabled q = None) \<and>
    dict_get [] (pol_disabled p) tool = dict_get [] (pol_disabled q) tool"
proof (cases "pol_disabled p")
  case None
  with sorted_json_eqs [OF assms, of "''disabled_functions''"] have "pol_disabled q = None"
    by (simp add: json_disabled_policy)
  with None show ?thesis by (simp add: dict_get_def)
next
  case (Some ds)
  with sorted_json_eqs [OF assms, of "''disabled_functions''"] obtain es
    where q: "pol_disabled q = Some es"
      and eq: "sort_json (JObj (map_vals (\<lambda>ops. JList (map JStr ops)) ds))
             = sort_json (JObj (map_vals (\<lambda>ops. JList (map JStr ops)) es))"
    by (cases "pol_disabled q") (auto simp: json_disabled_policy simp del: sort_json.simps)
  have wf: "wf_json (JObj (map_vals (\<lambda>ops. JList (map JStr ops)) xs))"
    if "distinct (map fst xs)" for xs :: "(string \<times> string list) list"
    using that by (simp add: list_all_iff set_map_vals)
  from assms(1,2) Some q have d: "distinct (map fst ds)" "distinct (map fst es)"
    by (simp_all add: wf_policy_def)
  from jget_cong [OF wf [OF d(1)] wf [OF d(2)] eq, of tool]
  have "map_of ds tool = map_of es tool"
    by (cases "map_of ds tool"; cases "map_of es tool") (simp_all add: comp_def)
  with Some q show ?thesis by (simp add: dict_get_def)
qed

lemma policy_of_specs:
  "decide (build_policy allow review deny) tool op =
     (if list_ex (spec_matches tool op) deny then DENY
      else if list_ex (spec_matches tool op) allow then ALLOW
      else if list_ex (spec_matches tool op) review then REVIEW
      else DENY)"
  by (simp add: decide_def build_policy_def empty_policy_def apply_specs_map_of norm_effect_def)
    (simp add: dict_get_def)

section \<open>Properties\<close>

text \<open>What a policy built from operation specs decides: a denied spec wins over an allowed one,
  an allowed one over a reviewed one, and an operation that no spec names is denied.\<close>

theorem build_policy_decides:
  "decide (build_policy allow review deny) tool op =
     (if list_ex (spec_matches tool op) deny then DENY
      else if list_ex (spec_matches tool op) allow then ALLOW
      else if list_ex (spec_matches tool op) review then REVIEW
      else DENY)"
  by (rule policy_of_specs)

text \<open>The sorted text a request is bound to determines every decision of the policy, so a claim
  that finds the same text finds the same authority, whatever the order of the stored keys.\<close>

theorem policy_text_decides:
  assumes "wf_policy p" "wf_policy q" "policy_text p = policy_text q"
  shows "decide p tool op = decide q tool op"
  using policy_text_rules [OF assms] policy_text_enabled [OF assms] policy_text_disabled [OF assms]
  by (simp add: decide_def)

theorem policy_text_decides_witness:
  "decide (build_policy [''a.x'', ''b.y''] [] []) ''b'' ''y'' = decide (build_policy [''b.y'', ''a.x''] [] []) ''b'' ''y''"
  by (rule policy_text_decides; code_simp)

end
