(* ===== verification/Store.thy ===== *)
theory Store
  imports Policy ApprovalSummary
begin

text \<open>
  \<^verbatim>\<open>broker/store.py\<close>: the SQLite tables behind the broker and every transaction on them.
  A table is the list of its rows in row-id order; a transaction is a function on the whole
  store, since each of them commits or rolls back as one. A clock reading (\<^verbatim>\<open>time.time()\<close>),
  a random nonce and a fresh UUID are arguments, in the order the code takes them.

  A column that holds JSON text holds the value the text parses to: a canonical text of
  \<open>v\<close> parses to \<^term>\<open>sort_json v\<close>. The policy binding and the digests, which the code compares
  as text, stay text. \<^verbatim>\<open>caller.token_hash\<close> and the other nullable columns are options.
\<close>

section \<open>Tables\<close>

datatype rstatus =
    Received | PendingApproval | Executing | Running
  | Completed | Denied | Expired | Failed | Unknown | ResultExpired | NotFound | Invalid

datatype astatus = APending | AApproved | ARejected | AExpired | ACancelled

record caller =
  cl_id :: int
  cl_name :: string
  cl_token_hash :: "string option"

record caller_row =
  cr_id :: int
  cr_name :: string
  cr_created_at :: rat
  cr_revoked_at :: "rat option"

record token_row =
  tk_hash :: string
  tk_caller_id :: int
  tk_created_at :: rat
  tk_revoked_at :: "rat option"

record policy_row =
  pr_caller_id :: int
  pr_policy :: policy
  pr_updated_at :: rat

record request_row =
  rq_id :: int
  rq_correlation_id :: string
  rq_caller_id :: int
  rq_tool :: string
  rq_op :: string
  rq_status :: rstatus
  rq_arguments :: "json option"
  rq_result :: "json option"
  rq_error :: "string option"
  rq_created_at :: rat
  rq_updated_at :: rat
  rq_generation :: "string option"
  rq_policy_binding :: "string option"
  rq_action :: "json option"
  rq_digest :: "string option"
  rq_key :: "string option"
  rq_payload_digest :: "string option"
  rq_pruned_at :: "rat option"

record approval_row =
  ap_id :: int
  ap_request_id :: int
  ap_surface_ref :: string
  ap_status :: astatus
  ap_expires_at :: rat
  ap_approver :: "string option"
  ap_note :: "string option"
  ap_decided_at :: "string option"
  ap_created_at :: rat
  ap_digest :: "string option"

record audit_row =
  au_id :: int
  au_at :: rat
  au_component :: string
  au_event_type :: string
  au_outcome :: string
  au_correlation_id :: "string option"
  au_request_id :: "int option"
  au_details :: json

record store =
  st_installation :: string
  st_catalog_receipt :: "json option"
  st_callers :: "caller_row list"
  st_tokens :: "token_row list"
  st_policies :: "policy_row list"
  st_requests :: "request_row list"
  st_approvals :: "approval_row list"
  st_audit :: "audit_row list"

text \<open>A new database: \<^verbatim>\<open>Store.__init__\<close> creates the empty tables and the installation id.\<close>

definition init_store :: "string \<Rightarrow> store" where
  "init_store installation =
     \<lparr>st_installation = installation, st_catalog_receipt = None, st_callers = [], st_tokens = [],
      st_policies = [], st_requests = [], st_approvals = [], st_audit = []\<rparr>"

section \<open>Metadata\<close>

definition set_catalog_receipt :: "json \<Rightarrow> store \<Rightarrow> store" where
  "set_catalog_receipt receipt db = db\<lparr>st_catalog_receipt := Some receipt\<rparr>"

definition catalog_receipt :: "store \<Rightarrow> json" where
  "catalog_receipt db = (case st_catalog_receipt db of None \<Rightarrow> JNull | Some v \<Rightarrow> v)"

section \<open>Callers and tokens\<close>

definition caller_row_by_id :: "store \<Rightarrow> int \<Rightarrow> caller_row option" where
  "caller_row_by_id db cid = find (\<lambda>c. cr_id c = cid) (st_callers db)"

definition add_caller :: "string \<Rightarrow> rat \<Rightarrow> store \<Rightarrow> int result \<times> store" where
  "add_caller name now db =
     (if list_ex (\<lambda>c. cr_name c = name) (st_callers db) then (Inl IntegrityError, db)
      else let i = next_rowid cr_id (st_callers db)
           in (Inr i, db\<lparr>st_callers := st_callers db
                 @ [\<lparr>cr_id = i, cr_name = name, cr_created_at = now, cr_revoked_at = None\<rparr>]\<rparr>))"

definition revoke_caller :: "string \<Rightarrow> rat \<Rightarrow> store \<Rightarrow> store" where
  "revoke_caller name now db =
     db\<lparr>st_callers := sql_update (\<lambda>c. cr_name c = name \<and> cr_revoked_at c = None)
          (\<lambda>c. c\<lparr>cr_revoked_at := Some now\<rparr>) (st_callers db)\<rparr>"

text \<open>\<^verbatim>\<open>foreign_keys = ON\<close>: a token for a caller that does not exist is refused.\<close>

definition add_token :: "int \<Rightarrow> string \<Rightarrow> rat \<Rightarrow> store \<Rightarrow> unit result \<times> store" where
  "add_token caller_id token_hash now db =
     (if list_ex (\<lambda>t. tk_hash t = token_hash) (st_tokens db) \<or> caller_row_by_id db caller_id = None
      then (Inl IntegrityError, db)
      else (Inr (), db\<lparr>st_tokens := st_tokens db
              @ [\<lparr>tk_hash = token_hash, tk_caller_id = caller_id, tk_created_at = now,
                  tk_revoked_at = None\<rparr>]\<rparr>))"

definition revoke_tokens_where :: "(token_row \<Rightarrow> bool) \<Rightarrow> rat \<Rightarrow> store \<Rightarrow> nat \<times> store" where
  "revoke_tokens_where p now db =
     (let q = (\<lambda>t. p t \<and> tk_revoked_at t = None)
      in (sql_count q (st_tokens db),
          db\<lparr>st_tokens := sql_update q (\<lambda>t. t\<lparr>tk_revoked_at := Some now\<rparr>) (st_tokens db)\<rparr>))"

definition revoke_token :: "string \<Rightarrow> rat \<Rightarrow> store \<Rightarrow> store" where
  "revoke_token token_hash now db = snd (revoke_tokens_where (\<lambda>t. tk_hash t = token_hash) now db)"

definition revoke_tokens_for_caller :: "int \<Rightarrow> string option \<Rightarrow> rat \<Rightarrow> store \<Rightarrow> nat \<times> store" where
  "revoke_tokens_for_caller caller_id except_hash now db =
     revoke_tokens_where (\<lambda>t. tk_caller_id t = caller_id \<and>
        (case except_hash of None \<Rightarrow> True | Some h \<Rightarrow> tk_hash t \<noteq> h)) now db"

definition active_token_count :: "store \<Rightarrow> int \<Rightarrow> nat" where
  "active_token_count db caller_id =
     sql_count (\<lambda>t. tk_caller_id t = caller_id \<and> tk_revoked_at t = None) (st_tokens db)"

definition caller_by_token_hash :: "store \<Rightarrow> string \<Rightarrow> caller option" where
  "caller_by_token_hash db token_hash =
     (case find (\<lambda>t. tk_hash t = token_hash \<and> tk_revoked_at t = None) (st_tokens db) of
        None \<Rightarrow> None
      | Some t \<Rightarrow>
          (case find (\<lambda>c. cr_id c = tk_caller_id t \<and> cr_revoked_at c = None) (st_callers db) of
             None \<Rightarrow> None
           | Some c \<Rightarrow> Some \<lparr>cl_id = cr_id c, cl_name = cr_name c, cl_token_hash = Some token_hash\<rparr>))"

definition caller_name :: "store \<Rightarrow> int \<Rightarrow> string option" where
  "caller_name db caller_id = map_option cr_name (caller_row_by_id db caller_id)"

definition caller_by_name :: "store \<Rightarrow> string \<Rightarrow> caller_row option" where
  "caller_by_name db name = find (\<lambda>c. cr_name c = name) (st_callers db)"

definition list_callers :: "bool \<Rightarrow> store \<Rightarrow> caller_row list" where
  "list_callers include_revoked db =
     sort_key cr_id (filter (\<lambda>c. include_revoked \<or> cr_revoked_at c = None) (st_callers db))"

text \<open>\<^verbatim>\<open>list_tokens\<close>: a row is the hash, the caller's name and the two times.\<close>

definition list_tokens :: "bool \<Rightarrow> store \<Rightarrow> (string \<times> string \<times> rat \<times> rat option) list" where
  "list_tokens include_revoked db =
     concat (map (\<lambda>t. case caller_row_by_id db (tk_caller_id t) of None \<Rightarrow> []
                      | Some c \<Rightarrow> [(tk_hash t, cr_name c, tk_created_at t, tk_revoked_at t)])
       (sort_key tk_created_at
          (filter (\<lambda>t. include_revoked \<or> tk_revoked_at t = None) (st_tokens db))))"

definition validate_token_prefix :: "string \<Rightarrow> unit result" where
  "validate_token_prefix pfx =
     (if 12 \<le> length pfx \<and> length pfx \<le> 64 \<and> list_all is_hex_lower pfx
      then Inr () else Inl ValueError)"

text \<open>\<^verbatim>\<open>token_hash LIKE prefix || '%'\<close>. LIKE ignores the case of ASCII letters; the prefix
  holds no wildcard.\<close>

definition ascii_lower :: "string \<Rightarrow> string" where
  "ascii_lower s = map (\<lambda>c. if is_upper c then char_of (code c + 32) else c) s"

definition like_prefix :: "string \<Rightarrow> string \<Rightarrow> bool" where
  "like_prefix pfx s \<longleftrightarrow> starts_with (ascii_lower pfx) (ascii_lower s)"

definition revoke_token_by_prefix :: "string \<Rightarrow> rat \<Rightarrow> store \<Rightarrow> nat result \<times> store" where
  "revoke_token_by_prefix pfx now db =
     (case validate_token_prefix pfx of
        Inl e \<Rightarrow> (Inl e, db)
      | Inr _ \<Rightarrow> apfst Inr (revoke_tokens_where (\<lambda>t. like_prefix pfx (tk_hash t)) now db))"

definition caller_ids_for_token_prefix :: "string \<Rightarrow> store \<Rightarrow> int list result" where
  "caller_ids_for_token_prefix pfx db =
     (case validate_token_prefix pfx of
        Inl e \<Rightarrow> Inl e
      | Inr _ \<Rightarrow> Inr (remdups (map tk_caller_id
                   (filter (\<lambda>t. like_prefix pfx (tk_hash t)) (st_tokens db)))))"

section \<open>Policies\<close>

definition policy_for :: "store \<Rightarrow> int \<Rightarrow> policy" where
  "policy_for db caller_id =
     (case find (\<lambda>p. pr_caller_id p = caller_id) (st_policies db) of
        None \<Rightarrow> empty_policy
      | Some p \<Rightarrow> pr_policy p)"

definition request :: "store \<Rightarrow> int \<Rightarrow> request_row option" where
  "request db request_id = find (\<lambda>r. rq_id r = request_id) (st_requests db)"

definition approval_for_request :: "store \<Rightarrow> int \<Rightarrow> approval_row option" where
  "approval_for_request db request_id = find (\<lambda>a. ap_request_id a = request_id) (st_approvals db)"

definition upd_requests :: "(request_row \<Rightarrow> bool) \<Rightarrow> (request_row \<Rightarrow> request_row) \<Rightarrow> store \<Rightarrow> store" where
  "upd_requests p f db = db\<lparr>st_requests := sql_update p f (st_requests db)\<rparr>"

definition upd_approvals :: "(approval_row \<Rightarrow> bool) \<Rightarrow> (approval_row \<Rightarrow> approval_row) \<Rightarrow> store \<Rightarrow> store" where
  "upd_approvals p f db = db\<lparr>st_approvals := sql_update p f (st_approvals db)\<rparr>"

text \<open>\<^verbatim>\<open>SET status=?, error=?, arguments_json=NULL, action_json=NULL, updated_at=?\<close>: the
  assignment every statement that ends a request makes.\<close>

definition close_row :: "rstatus \<Rightarrow> string option \<Rightarrow> rat \<Rightarrow> request_row \<Rightarrow> request_row" where
  "close_row status error now r =
     r\<lparr>rq_status := status, rq_error := error, rq_arguments := None, rq_action := None,
       rq_updated_at := now\<rparr>"

definition pending_of :: "int \<Rightarrow> request_row \<Rightarrow> bool" where
  "pending_of caller_id r \<longleftrightarrow> rq_caller_id r = caller_id \<and> rq_status r = PendingApproval"

text \<open>\<^verbatim>\<open>_write_policy\<close>: upsert the row, cancel the caller's pending approvals and deny the
  requests that wait for them. \<open>t1\<close> and \<open>t2\<close> are its two clock readings.\<close>

definition write_policy :: "int \<Rightarrow> policy \<Rightarrow> rat \<Rightarrow> rat \<Rightarrow> store \<Rightarrow> unit result \<times> store" where
  "write_policy caller_id p t1 t2 db =
     (if caller_row_by_id db caller_id = None then (Inl IntegrityError, db)
      else
        let row = \<lparr>pr_caller_id = caller_id, pr_policy = p, pr_updated_at = t1\<rparr>;
            db1 = db\<lparr>st_policies :=
                (if list_ex (\<lambda>r. pr_caller_id r = caller_id) (st_policies db)
                 then sql_update (\<lambda>r. pr_caller_id r = caller_id) (\<lambda>_. row) (st_policies db)
                 else st_policies db @ [row])\<rparr>;
            waiting = map rq_id (filter (pending_of caller_id) (st_requests db1));
            db2 = upd_approvals (\<lambda>a. ap_status a = APending \<and> ap_request_id a \<in> set waiting)
                    (\<lambda>a. a\<lparr>ap_status := ACancelled\<rparr>) db1;
            db3 = upd_requests (pending_of caller_id) (close_row Denied (Some ''approval_invalidated'') t2) db2
        in (Inr (), db3))"

definition set_policy :: "int \<Rightarrow> policy \<Rightarrow> rat \<Rightarrow> rat \<Rightarrow> store \<Rightarrow> unit result \<times> store" where
  "set_policy = write_policy"

definition append_audit ::
  "rat \<Rightarrow> string \<Rightarrow> string \<Rightarrow> string \<Rightarrow> string option \<Rightarrow> int option \<Rightarrow> json \<Rightarrow> store \<Rightarrow> int \<times> store" where
  "append_audit at_time component event_type outcome correlation_id request_id details db =
     (let i = next_rowid au_id (st_audit db)
      in (i, db\<lparr>st_audit := st_audit db
            @ [\<lparr>au_id = i, au_at = at_time, au_component = component, au_event_type = event_type,
                au_outcome = outcome, au_correlation_id = correlation_id,
                au_request_id = request_id, au_details = details\<rparr>]\<rparr>))"

text \<open>\<^verbatim>\<open>compare_and_set_policy\<close>: \<open>t3\<close> and \<open>correlation\<close> are the audit row's clock reading
  and UUID.\<close>

definition compare_and_set_policy ::
  "int \<Rightarrow> policy \<Rightarrow> policy \<Rightarrow> string \<Rightarrow> rat \<Rightarrow> rat \<Rightarrow> rat \<Rightarrow> string \<Rightarrow> store \<Rightarrow> bool result \<times> store" where
  "compare_and_set_policy caller_id before after operator t1 t2 t3 correlation db =
     (case caller_row_by_id db caller_id of
        None \<Rightarrow> (Inr False, db)
      | Some c \<Rightarrow>
          if cr_revoked_at c \<noteq> None \<or> \<not> policy_eq (policy_for db caller_id) before then (Inr False, db)
          else (case write_policy caller_id after t1 t2 db of
                  (Inl e, _) \<Rightarrow> (Inl e, db)
                | (Inr _, db1) \<Rightarrow>
                    (Inr True, snd (append_audit t3 ''admin'' ''settings_changed'' ''ok''
                       (Some correlation) None
                       (JObj [(''operator'', JStr operator), (''name'', JStr (cr_name c))]) db1))))"

section \<open>Requests\<close>

definition create_request ::
  "string \<Rightarrow> int \<Rightarrow> string \<Rightarrow> string \<Rightarrow> rstatus \<Rightarrow> rat \<Rightarrow> store \<Rightarrow> int result \<times> store" where
  "create_request correlation_id caller_id tool op status now db =
     (if caller_row_by_id db caller_id = None then (Inl IntegrityError, db)
      else
        let i = next_rowid rq_id (st_requests db)
        in (Inr i, db\<lparr>st_requests := st_requests db
              @ [\<lparr>rq_id = i, rq_correlation_id = correlation_id, rq_caller_id = caller_id, rq_tool = tool,
                  rq_op = op, rq_status = status, rq_arguments = None, rq_result = None,
                  rq_error = None, rq_created_at = now, rq_updated_at = now, rq_generation = None,
                  rq_policy_binding = None, rq_action = None, rq_digest = None, rq_key = None,
                  rq_payload_digest = None, rq_pruned_at = None\<rparr>]\<rparr>))"

definition terminal :: "rstatus \<Rightarrow> bool" where
  "terminal s \<longleftrightarrow> s \<in> {Completed, Denied, Expired, Failed, Unknown, ResultExpired, NotFound, Invalid}"

text \<open>The keyword arguments of \<^verbatim>\<open>update_request\<close>: \<^const>\<open>None\<close> is a keyword left out.\<close>

record req_fields =
  up_status :: "rstatus option"
  up_arguments :: "json option option"
  up_result :: "json option option"
  up_error :: "string option option"
  up_generation :: "string option option"
  up_policy_binding :: "string option option"
  up_action :: "json option option"
  up_digest :: "string option option"

definition no_fields :: req_fields where
  "no_fields = \<lparr>up_status = None, up_arguments = None, up_result = None, up_error = None,
     up_generation = None, up_policy_binding = None, up_action = None, up_digest = None\<rparr>"

definition the_or :: "'a \<Rightarrow> 'a option \<Rightarrow> 'a" where
  "the_or d x = (case x of None \<Rightarrow> d | Some v \<Rightarrow> v)"

definition apply_fields :: "req_fields \<Rightarrow> request_row \<Rightarrow> request_row" where
  "apply_fields u r = r\<lparr>
     rq_status := the_or (rq_status r) (up_status u),
     rq_arguments := the_or (rq_arguments r) (up_arguments u),
     rq_result := the_or (rq_result r) (up_result u),
     rq_error := the_or (rq_error r) (up_error u),
     rq_generation := the_or (rq_generation r) (up_generation u),
     rq_policy_binding := the_or (rq_policy_binding r) (up_policy_binding u),
     rq_action := the_or (rq_action r) (up_action u),
     rq_digest := the_or (rq_digest r) (up_digest u)\<rparr>"

definition update_request :: "int \<Rightarrow> req_fields \<Rightarrow> rat \<Rightarrow> store \<Rightarrow> store" where
  "update_request request_id given now db =
     (let u = (case up_status given of
                 Some s \<Rightarrow> if terminal s then given\<lparr>up_action := Some None, up_arguments := Some None\<rparr> else given
               | None \<Rightarrow> given)
      in if u = no_fields then db
         else upd_requests (\<lambda>r. rq_id r = request_id)
                (\<lambda>r. (apply_fields u r)\<lparr>rq_updated_at := now\<rparr>) db)"

definition live :: "store \<Rightarrow> int \<Rightarrow> caller option \<Rightarrow> bool" where
  "live db caller_id cl =
     (case caller_row_by_id db caller_id of
        None \<Rightarrow> False
      | Some row \<Rightarrow>
          if cr_revoked_at row \<noteq> None \<or> (case cl of None \<Rightarrow> False | Some c \<Rightarrow> cl_id c \<noteq> caller_id)
          then False
          else (case cl of
                  Some c \<Rightarrow>
                    (case cl_token_hash c of
                       Some h \<Rightarrow> list_ex (\<lambda>t. tk_caller_id t = caller_id \<and> tk_hash t = h \<and> tk_revoked_at t = None)
                                   (st_tokens db)
                     | None \<Rightarrow> active_token_count db caller_id > 0)
                | None \<Rightarrow> active_token_count db caller_id > 0))"

text \<open>\<^verbatim>\<open>_bound\<close>: \<open>fresh\<close> is the nonce \<^verbatim>\<open>bound_request\<close> draws when the action has none.\<close>

definition bound :: "(string \<Rightarrow> string) \<Rightarrow> request_row \<Rightarrow> string \<Rightarrow> string \<Rightarrow> bool" where
  "bound sha req generation fresh =
     (let action = the_or JNull (rq_action req)
      in is_obj action \<and>
         (case bound_request sha (rq_caller_id req) (rq_tool req) (rq_op req) generation
                 (jget0 ''arguments'' action) (jget0 ''reason'' action) (jget0 ''nonce'' action) fresh of
            Inl _ \<Rightarrow> False
          | Inr (expected, digest) \<Rightarrow>
              canonical action = Inr expected \<and> rq_digest req = Some digest
              \<and> (case (canonical (jget0 ''arguments'' action), canonical (the_or JNull (rq_arguments req))) of
                    (Inr a, Inr b) \<Rightarrow> a = b
                  | _ \<Rightarrow> False)))"

definition authorized_request :: "store \<Rightarrow> caller \<Rightarrow> int \<Rightarrow> request_row option" where
  "authorized_request db cl request_id =
     (case request db request_id of
        None \<Rightarrow> None
      | Some req \<Rightarrow>
          if rq_caller_id req = cl_id cl \<and> live db (cl_id cl) (Some cl)
             \<and> decide (policy_for db (cl_id cl)) (rq_tool req) (rq_op req) \<noteq> DENY
          then Some req else None)"

definition validate_idempotency_key :: "string option \<Rightarrow> unit result" where
  "validate_idempotency_key key =
     (case key of
        None \<Rightarrow> Inr ()
      | Some k \<Rightarrow> if 1 \<le> length k \<and> length k \<le> 128 \<and> list_all is_word k then Inr () else Inl ValueError)"

definition payload_value :: "string \<Rightarrow> string \<Rightarrow> json \<Rightarrow> string option \<Rightarrow> json" where
  "payload_value tool op arguments reason =
     JObj [(''tool'', JStr tool), (''op'', JStr op), (''arguments'', arguments), (''reason'', opt_str reason)]"

definition reserved_row ::
  "int \<Rightarrow> caller \<Rightarrow> string \<Rightarrow> string \<Rightarrow> string \<Rightarrow> json \<Rightarrow> string option \<Rightarrow> string \<Rightarrow> string option
     \<Rightarrow> policy \<Rightarrow> string \<Rightarrow> string \<Rightarrow> string \<Rightarrow> rat \<Rightarrow> request_row" where
  "reserved_row i cl correlation_id tool op arguments reason generation key pol digest binding fresh now =
     \<lparr>rq_id = i, rq_correlation_id = correlation_id, rq_caller_id = cl_id cl, rq_tool = tool,
      rq_op = op, rq_status = Received, rq_arguments = Some (sort_json arguments), rq_result = None,
      rq_error = None, rq_created_at = now, rq_updated_at = now, rq_generation = Some generation,
      rq_policy_binding = Some (policy_text pol),
      rq_action = Some (sort_json (action_value (cl_id cl) tool op generation arguments (opt_str reason) (JStr fresh))),
      rq_digest = Some binding, rq_key = key, rq_payload_digest = Some digest, rq_pruned_at = None\<rparr>"

text \<open>The prior request of a caller under an idempotency key.\<close>

definition prior_request :: "store \<Rightarrow> int \<Rightarrow> string option \<Rightarrow> request_row option" where
  "prior_request db caller_id key =
     (case key of None \<Rightarrow> None
      | Some k \<Rightarrow> find (\<lambda>r. rq_caller_id r = caller_id \<and> rq_key r = Some k) (st_requests db))"

definition reserve_action ::
  "(string \<Rightarrow> string) \<Rightarrow> caller \<Rightarrow> string \<Rightarrow> string \<Rightarrow> string \<Rightarrow> json \<Rightarrow> string option \<Rightarrow> string
     \<Rightarrow> string option \<Rightarrow> string \<Rightarrow> rat \<Rightarrow> store \<Rightarrow> (request_row \<times> bool \<times> bool) result \<times> store" where
  "reserve_action sha cl correlation_id tool op arguments reason generation key fresh now db =
     (case validate_idempotency_key key of Inl e \<Rightarrow> (Inl e, db) | Inr _ \<Rightarrow>
     (case canonical (payload_value tool op arguments reason) of Inl e \<Rightarrow> (Inl e, db) | Inr payload \<Rightarrow>
      let digest = sha payload in
     (case bound_request sha (cl_id cl) tool op generation arguments (opt_str reason) JNull fresh of
        Inl e \<Rightarrow> (Inl e, db)
      | Inr (_, binding) \<Rightarrow>
          if \<not> live db (cl_id cl) (Some cl) then (Inl PermissionError, db)
          else
            let pol = policy_for db (cl_id cl) in
            (case prior_request db (cl_id cl) key of
               Some prior \<Rightarrow>
                 if decide pol (rq_tool prior) (rq_op prior) = DENY then (Inl PermissionError, db)
                 else (Inr (prior, False, rq_payload_digest prior \<noteq> Some digest), db)
             | None \<Rightarrow>
                 let row = reserved_row (next_rowid rq_id (st_requests db)) cl correlation_id tool op
                             arguments reason generation key pol digest binding fresh now
                 in (Inr (row, True, False), db\<lparr>st_requests := st_requests db @ [row]\<rparr>)))))"

text \<open>The conditions under which \<^verbatim>\<open>claim_received\<close> claims the row it reads.\<close>

definition received_valid ::
  "(string \<Rightarrow> string) \<Rightarrow> store \<Rightarrow> request_row \<Rightarrow> string option \<Rightarrow> caller \<Rightarrow> string option \<Rightarrow> string \<Rightarrow> bool" where
  "received_valid sha db req generation cl expected_digest fresh \<longleftrightarrow>
     rq_status req = Received \<and> live db (rq_caller_id req) (Some cl)
     \<and> (case generation of None \<Rightarrow> False | Some g \<Rightarrow>
          g \<noteq> [] \<and> rq_generation req = generation \<and> rq_digest req = expected_digest \<and> bound sha req g fresh)
     \<and> Some (policy_text (policy_for db (rq_caller_id req))) = rq_policy_binding req
     \<and> decide (policy_for db (rq_caller_id req)) (rq_tool req) (rq_op req) = ALLOW"

definition claim_received ::
  "(string \<Rightarrow> string) \<Rightarrow> int \<Rightarrow> string option \<Rightarrow> caller \<Rightarrow> string option \<Rightarrow> string \<Rightarrow> rat \<Rightarrow> store \<Rightarrow> bool \<times> store" where
  "claim_received sha request_id generation cl expected_digest fresh now db =
     (case request db request_id of
        None \<Rightarrow> (False, db)
      | Some req \<Rightarrow>
          if received_valid sha db req generation cl expected_digest fresh
          then (True, upd_requests (\<lambda>r. rq_id r = request_id \<and> rq_status r = Received)
                        (\<lambda>r. r\<lparr>rq_status := Executing, rq_updated_at := now\<rparr>) db)
          else if rq_status req = Received
          then (False, upd_requests (\<lambda>r. rq_id r = request_id)
                         (close_row Denied (Some ''authority_changed'') now) db)
          else (False, db))"

text \<open>The conditions under which \<^verbatim>\<open>claim_approval\<close> claims the two rows it reads.\<close>

definition approval_valid ::
  "(string \<Rightarrow> string) \<Rightarrow> store \<Rightarrow> request_row \<Rightarrow> approval_row \<Rightarrow> string option \<Rightarrow> rat \<Rightarrow> caller option
     \<Rightarrow> string \<Rightarrow> bool" where
  "approval_valid sha db req app generation now cl fresh \<longleftrightarrow>
     rq_status req = PendingApproval \<and> ap_status app = APending \<and> ap_expires_at app > now
     \<and> live db (rq_caller_id req) cl
     \<and> (case generation of None \<Rightarrow> False | Some g \<Rightarrow>
          g \<noteq> [] \<and> rq_generation req = generation \<and>
          rq_digest req \<noteq> None \<and> rq_digest req \<noteq> Some [] \<and> rq_digest req = ap_digest app \<and>
          bound sha req g fresh)
     \<and> rq_policy_binding req = Some (policy_text (policy_for db (rq_caller_id req)))
     \<and> decide (policy_for db (rq_caller_id req)) (rq_tool req) (rq_op req) = REVIEW"

definition claim_approval ::
  "(string \<Rightarrow> string) \<Rightarrow> int \<Rightarrow> string option \<Rightarrow> surface_state \<Rightarrow> rat \<Rightarrow> caller option \<Rightarrow> string \<Rightarrow> store
     \<Rightarrow> bool \<times> store" where
  "claim_approval sha request_id generation state now cl fresh db =
     (let req = request db request_id; app = approval_for_request db request_id in
      case (req, app) of
        (None, _) \<Rightarrow> (False, db)
      | (Some r, a) \<Rightarrow>
          if (case a of None \<Rightarrow> False | Some a \<Rightarrow> approval_valid sha db r a generation now cl fresh)
          then (True,
             upd_approvals (\<lambda>x. map_option ap_id a = Some (ap_id x))
               (\<lambda>x. x\<lparr>ap_status := AApproved, ap_approver := ss_approver state, ap_note := ss_note state,
                      ap_decided_at := ss_decided_at state\<rparr>)
              (upd_requests (\<lambda>x. rq_id x = request_id)
                 (\<lambda>x. x\<lparr>rq_status := Executing, rq_updated_at := now\<rparr>) db))
          else if rq_status r = PendingApproval
          then
            let expired = (case a of None \<Rightarrow> False | Some a \<Rightarrow> ap_status a = APending \<and> ap_expires_at a \<le> now)
            in (False,
             upd_approvals (\<lambda>x. ap_request_id x = request_id \<and> ap_status x = APending)
               (\<lambda>x. x\<lparr>ap_status := if expired then AExpired else ACancelled\<rparr>)
              (upd_requests (\<lambda>x. rq_id x = request_id)
                 (close_row (if expired then Expired else Denied)
                    (if expired then None else Some ''approval_invalidated'') now) db))
          else (False, db))"

text \<open>\<^verbatim>\<open>finish_pending\<close>. The caller row exists by the foreign key; were it missing the code
  would raise a \<^const>\<open>TypeError\<close> and roll back.\<close>

definition finish_pending ::
  "int \<Rightarrow> rstatus \<Rightarrow> astatus \<Rightarrow> string option \<Rightarrow> surface_state option \<Rightarrow> rat \<Rightarrow> bool \<Rightarrow> store
     \<Rightarrow> bool result \<times> store" where
  "finish_pending request_id status approval_status error state now deadline_only db =
     (case (request db request_id, approval_for_request db request_id) of
        (Some req, Some app) \<Rightarrow>
          if rq_status req \<noteq> PendingApproval \<or> ap_status app \<noteq> APending
             \<or> (deadline_only \<and> ap_expires_at app > now)
          then (Inr False, db)
          else
            (case (if now \<ge> ap_expires_at app then Inr (Expired, AExpired, None)
                   else (case caller_row_by_id db (rq_caller_id req) of
                           None \<Rightarrow> Inl TypeError
                         | Some c \<Rightarrow>
                             if cr_revoked_at c \<noteq> None \<or> active_token_count db (rq_caller_id req) = 0
                             then Inr (Expired, ACancelled, None)
                             else Inr (status, approval_status, error))) of
               Inl e \<Rightarrow> (Inl e, db)
             | Inr (s, a, e) \<Rightarrow>
                 (Inr True,
                  upd_approvals (\<lambda>x. ap_id x = ap_id app)
                    (\<lambda>x. x\<lparr>ap_status := a, ap_approver := Option.bind state ss_approver,
                           ap_note := Option.bind state ss_note,
                           ap_decided_at := Option.bind state ss_decided_at\<rparr>)
                   (upd_requests (\<lambda>x. rq_id x = request_id) (close_row s e now) db)))
      | _ \<Rightarrow> (Inr False, db))"

section \<open>Maintenance\<close>

definition in_flight :: "rstatus \<Rightarrow> bool" where
  "in_flight s \<longleftrightarrow> s \<in> {Received, Executing, Running}"

definition reconcile_offline :: "bool \<Rightarrow> rat \<Rightarrow> store \<Rightarrow> nat result \<times> store" where
  "reconcile_offline confirmed_offline now db =
     (if \<not> confirmed_offline then (Inl ValueError, db)
      else (Inr (sql_count (\<lambda>r. in_flight (rq_status r)) (st_requests db)),
            upd_requests (\<lambda>r. in_flight (rq_status r))
              (\<lambda>r. (close_row Unknown (Some ''offline_reconciled'') now r)\<lparr>rq_result := None\<rparr>) db))"

definition prunable :: "rat \<Rightarrow> request_row \<Rightarrow> bool" where
  "prunable now r \<longleftrightarrow> rq_updated_at r < now - 7 * 86400 \<and> rq_pruned_at r = None \<and> terminal (rq_status r)"

definition prune_payloads :: "rat \<Rightarrow> store \<Rightarrow> nat \<times> store" where
  "prune_payloads now db =
     (let old = map rq_id (filter (prunable now) (st_requests db));
          db1 = upd_approvals (\<lambda>a. ap_request_id a \<in> set old) (\<lambda>a. a\<lparr>ap_note := None\<rparr>) db
      in (sql_count (prunable now) (st_requests db1),
          upd_requests (prunable now)
            (\<lambda>r. r\<lparr>rq_status := (if rq_status r = Completed then ResultExpired else rq_status r),
                   rq_arguments := None, rq_action := None, rq_result := None,
                   rq_pruned_at := Some now\<rparr>) db1))"

text \<open>\<^verbatim>\<open>restore_new\<close>: what its \<^verbatim>\<open>sanitize\<close> does to the copied database, with
  \<open>installation\<close> the new UUID.\<close>

definition sanitize :: "string \<Rightarrow> rat \<Rightarrow> store \<Rightarrow> store" where
  "sanitize installation now db =
     (let db1 = upd_approvals (\<lambda>a. ap_status a = APending)
                  (\<lambda>a. a\<lparr>ap_status := ACancelled, ap_note := None\<rparr>) db;
          db2 = upd_requests (\<lambda>r. rq_status r = PendingApproval)
                  (\<lambda>r. (close_row Expired (Some ''restore_cancelled'') now r)\<lparr>rq_result := None\<rparr>) db1;
          db3 = upd_requests (\<lambda>r. in_flight (rq_status r))
                  (\<lambda>r. (close_row Unknown (Some ''restore_unknown'') now r)\<lparr>rq_result := None\<rparr>) db2;
          db4 = snd (revoke_tokens_where (\<lambda>_. True) now db3);
          db5 = db4\<lparr>st_policies := map (\<lambda>p. p\<lparr>pr_policy := empty_policy, pr_updated_at := now\<rparr>) (st_policies db4),
                    st_installation := installation\<rparr>
      in snd (append_audit now ''admin'' ''restored_offline'' ''ok'' None None
                (JObj [(''tokens_invalidated'', JBool True), (''policies_cleared'', JBool True),
                       (''replayed'', JInt 0)]) db5))"

section \<open>Approvals\<close>

definition create_approval ::
  "int \<Rightarrow> string \<Rightarrow> rat \<Rightarrow> string option \<Rightarrow> rat \<Rightarrow> store \<Rightarrow> int result \<times> store" where
  "create_approval request_id surface_ref expires_at digest now db =
     (if request db request_id = None then (Inl IntegrityError, db)
      else
        let i = next_rowid ap_id (st_approvals db)
        in (Inr i, db\<lparr>st_approvals := st_approvals db
              @ [\<lparr>ap_id = i, ap_request_id = request_id, ap_surface_ref = surface_ref,
                  ap_status = APending, ap_expires_at = expires_at, ap_approver = None, ap_note = None,
                  ap_decided_at = None, ap_created_at = now, ap_digest = digest\<rparr>]\<rparr>))"

text \<open>A row of the two worklists: an approval with the request it belongs to.\<close>

definition join_request :: "store \<Rightarrow> approval_row list \<Rightarrow> (approval_row \<times> request_row) list" where
  "join_request db rows =
     concat (map (\<lambda>a. case request db (ap_request_id a) of None \<Rightarrow> [] | Some r \<Rightarrow> [(a, r)]) rows)"

definition pending_approvals_for_caller :: "int \<Rightarrow> store \<Rightarrow> (approval_row \<times> request_row) list" where
  "pending_approvals_for_caller caller_id db =
     filter (\<lambda>(a, r). rq_caller_id r = caller_id)
       (join_request db (filter (\<lambda>a. ap_status a = APending) (st_approvals db)))"

definition expired_pending_approvals :: "rat \<Rightarrow> store \<Rightarrow> (approval_row \<times> request_row) list" where
  "expired_pending_approvals now db =
     join_request db (filter (\<lambda>a. ap_status a = APending \<and> ap_expires_at a \<le> now) (st_approvals db))"

record app_fields =
  ua_status :: "astatus option"
  ua_approver :: "string option option"
  ua_note :: "string option option"
  ua_decided_at :: "string option option"

definition update_approval :: "int \<Rightarrow> app_fields \<Rightarrow> store \<Rightarrow> store" where
  "update_approval approval_id u db =
     upd_approvals (\<lambda>a. ap_id a = approval_id)
       (\<lambda>a. a\<lparr>ap_status := the_or (ap_status a) (ua_status u),
              ap_approver := the_or (ap_approver a) (ua_approver u),
              ap_note := the_or (ap_note a) (ua_note u),
              ap_decided_at := the_or (ap_decided_at a) (ua_decided_at u)\<rparr>) db"

section \<open>Audit and listings\<close>

definition audit_events :: "int option \<Rightarrow> string option \<Rightarrow> store \<Rightarrow> audit_row list" where
  "audit_events request_id correlation_id db =
     filter (\<lambda>e. (request_id = None \<or> au_request_id e = request_id)
               \<and> (correlation_id = None \<or> au_correlation_id e = correlation_id)) (st_audit db)"

definition recent_audit :: "nat \<Rightarrow> store \<Rightarrow> audit_row list" where
  "recent_audit limit db = rev (take limit (rev (st_audit db)))"

definition clear_audit :: "store \<Rightarrow> store" where
  "clear_audit db = db\<lparr>st_audit := []\<rparr>"

definition list_requests :: "rstatus option \<Rightarrow> nat \<Rightarrow> store \<Rightarrow> request_row list" where
  "list_requests status limit db =
     take limit (rev (filter (\<lambda>r. status = None \<or> Some (rq_status r) = status) (st_requests db)))"

end
