(* ===== verification/Transition.thy ===== *)
theory Transition
  imports Prelude
begin

text \<open>
  Interfaces the components share. \<open>invariant_system\<close> is a step relation with an invariant;
  \<open>claim_register\<close> is a store in which a key can be claimed, and a claimed key never becomes
  claimable again. Both are interpreted on the models of the stores in their own theories.
\<close>

inductive reach :: "('s \<Rightarrow> bool) \<Rightarrow> ('s \<Rightarrow> 's \<Rightarrow> bool) \<Rightarrow> 's \<Rightarrow> bool" for init step where
  reach_init: "init s \<Longrightarrow> reach init step s"
| reach_step: "reach init step s \<Longrightarrow> step s s' \<Longrightarrow> reach init step s'"

locale invariant_system =
  fixes init :: "'s \<Rightarrow> bool" and step :: "'s \<Rightarrow> 's \<Rightarrow> bool" and inv :: "'s \<Rightarrow> bool"
  assumes init_inv: "init s \<Longrightarrow> inv s"
    and step_inv: "inv s \<Longrightarrow> step s s' \<Longrightarrow> inv s'"
begin

lemma reach_inv: "reach init step s \<Longrightarrow> inv s"
  by (induction rule: reach.induct) (auto intro: init_inv step_inv)

lemma steps_inv: "step\<^sup>*\<^sup>* s s' \<Longrightarrow> inv s \<Longrightarrow> inv s'"
  by (induction rule: rtranclp_induct) (auto intro: step_inv)

lemma steps_mono:
  assumes refl: "\<And>s. R s s" and trans: "\<And>a b c. R a b \<Longrightarrow> R b c \<Longrightarrow> R a c"
    and one: "\<And>a b. inv a \<Longrightarrow> step a b \<Longrightarrow> R a b"
  shows "step\<^sup>*\<^sup>* s s' \<Longrightarrow> inv s \<Longrightarrow> R s s'"
proof (induction rule: rtranclp_induct)
  case base
  show ?case by (rule refl)
next
  case (step a b)
  then have "inv a" by (blast intro: steps_inv)
  with step show ?case by (blast intro: trans one)
qed

end

text \<open>A labelled run: the labels of its steps in order.\<close>

inductive run :: "('s \<Rightarrow> 'l \<Rightarrow> 's \<Rightarrow> bool) \<Rightarrow> 's \<Rightarrow> 'l list \<Rightarrow> 's \<Rightarrow> bool" for step where
  run_Nil: "run step s [] s"
| run_snoc: "run step s ls s' \<Longrightarrow> step s' l s'' \<Longrightarrow> run step s (ls @ [l]) s''"

text \<open>The keys a run claims.\<close>

definition claimed :: "'k option list \<Rightarrow> 'k list" where
  "claimed ls = map the (filter (\<lambda>l. l \<noteq> None) ls)"

lemma claimed_simps [simp]:
  "claimed [] = []" "claimed (ls @ [None]) = claimed ls" "claimed (ls @ [Some k]) = claimed ls @ [k]"
  by (simp_all add: claimed_def)

locale claim_register =
  fixes step :: "'s \<Rightarrow> 'k option \<Rightarrow> 's \<Rightarrow> bool"
    and valid :: "'s \<Rightarrow> bool"
    and claimable :: "'s \<Rightarrow> 'k \<Rightarrow> bool"
    and known :: "'s \<Rightarrow> 'k \<Rightarrow> bool"
  assumes valid_step: "valid s \<Longrightarrow> step s l s' \<Longrightarrow> valid s'"
    and claim_open: "valid s \<Longrightarrow> step s (Some k) s' \<Longrightarrow> known s k \<and> claimable s k"
    and claim_closes: "valid s \<Longrightarrow> step s (Some k) s' \<Longrightarrow> \<not> claimable s' k"
    and known_step: "valid s \<Longrightarrow> step s l s' \<Longrightarrow> known s k \<Longrightarrow> known s' k"
    and stays_closed:
      "valid s \<Longrightarrow> step s l s' \<Longrightarrow> known s k \<Longrightarrow> \<not> claimable s k \<Longrightarrow> \<not> claimable s' k"
begin

lemma run_valid: "run step s ls s' \<Longrightarrow> valid s \<Longrightarrow> valid s'"
  by (induction rule: run.induct) (auto intro: valid_step)

lemma run_stays_closed:
  "run step s ls s' \<Longrightarrow> valid s \<Longrightarrow> known s k \<Longrightarrow> \<not> claimable s k \<Longrightarrow> known s' k \<and> \<not> claimable s' k"
proof (induction rule: run.induct)
  case (run_snoc s ls s' l s'')
  then have v: "valid s'" by (blast intro: run_valid)
  have "known s' k \<and> \<not> claimable s' k" using run_snoc by simp
  with known_step [OF v run_snoc.hyps(2)] stays_closed [OF v run_snoc.hyps(2)] show ?case by simp
qed simp

lemma run_claims_closed:
  "run step s ls s' \<Longrightarrow> valid s \<Longrightarrow> k \<in> set (claimed ls) \<Longrightarrow> known s' k \<and> \<not> claimable s' k"
proof (induction arbitrary: k rule: run.induct)
  case (run_snoc s ls s' l s'')
  then have v: "valid s'" by (blast intro: run_valid)
  show ?case
  proof (cases "l = Some k")
    case True
    with run_snoc.hyps(2) have st: "step s' (Some k) s''" by simp
    with claim_open [OF v st] known_step [OF v st] claim_closes [OF v st] show ?thesis by simp
  next
    case False
    with run_snoc.prems have "k \<in> set (claimed ls)" by (cases l) auto
    with run_snoc have "known s' k \<and> \<not> claimable s' k" by simp
    with known_step [OF v run_snoc.hyps(2)] stays_closed [OF v run_snoc.hyps(2)] show ?thesis by simp
  qed
qed simp

theorem claims_distinct: "run step s ls s' \<Longrightarrow> valid s \<Longrightarrow> distinct (claimed ls)"
proof (induction rule: run.induct)
  case (run_snoc s ls s' l s'')
  show ?case
  proof (cases l)
    case None
    with run_snoc show ?thesis by simp
  next
    case (Some k)
    have "valid s'" using run_snoc by (blast intro: run_valid)
    then have "claimable s' k" using run_snoc.hyps(2) claim_open [of s' k s''] Some by simp
    then have "k \<notin> set (claimed ls)" using run_claims_closed [OF run_snoc.hyps(1) run_snoc.prems] by blast
    with run_snoc Some show ?thesis by simp
  qed
qed simp

end

end
