(* ===== verification/StoreInv.thy ===== *)
theory StoreInv
  imports Store Transition
begin

text \<open>
  The broker store as a state machine. \<open>store_step\<close> has one rule for each transaction the
  program runs, labelled with the request it claims for execution, if any; the guards of the
  two updates without a condition of their own are the states in which
  \<^verbatim>\<open>request_lifecycle.py\<close> makes them, which the theory Lifecycle proves. What holds of
  every step is stated once (\<open>rows_step\<close>) and the invariants follow from it.
\<close>

section \<open>Transactions of the other processes\<close>

text \<open>What \<^verbatim>\<open>brokerctl\<close> and the admin application commit while the gateway runs.\<close>

datatype admin_txn =
    AddCaller string rat
  | RevokeCaller string rat
  | AddToken int string rat
  | RevokeToken string rat
  | RevokeTokensFor int "string option" rat
  | RevokePrefix string rat
  | SetPolicy int policy rat rat
  | CasPolicy int policy policy string rat rat rat string
  | FinishPending int astatus bool rat
  | Prune rat
  | AppendAudit rat string string string "string option" "int option" json
  | ClearAudit
  | SetReceipt json

definition run_admin :: "admin_txn \<Rightarrow> store \<Rightarrow> store" where
  "run_admin t db =
     (case t of
        AddCaller name now \<Rightarrow> snd (add_caller name now db)
      | RevokeCaller name now \<Rightarrow> revoke_caller name now db
      | AddToken cid h now \<Rightarrow> snd (add_token cid h now db)
      | RevokeToken h now \<Rightarrow> revoke_token h now db
      | RevokeTokensFor cid ex now \<Rightarrow> snd (revoke_tokens_for_caller cid ex now db)
      | RevokePrefix pfx now \<Rightarrow> snd (revoke_token_by_prefix pfx now db)
      | SetPolicy cid p t1 t2 \<Rightarrow> snd (set_policy cid p t1 t2 db)
      | CasPolicy cid before after opr t1 t2 t3 corr \<Rightarrow>
          snd (compare_and_set_policy cid before after opr t1 t2 t3 corr db)
      | FinishPending rid a deadline_only now \<Rightarrow>
          if a = APending then db else snd (finish_pending rid Expired a None None now deadline_only db)
      | Prune now \<Rightarrow> snd (prune_payloads now db)
      | AppendAudit t0 c e outcome corr rid details \<Rightarrow> snd (append_audit t0 c e outcome corr rid details db)
      | ClearAudit \<Rightarrow> clear_audit db
      | SetReceipt v \<Rightarrow> set_catalog_receipt v db)"

section \<open>Steps\<close>

text \<open>How the status of a request may change.\<close>

definition status_step :: "rstatus \<Rightarrow> rstatus \<Rightarrow> bool" where
  "status_step s s' \<longleftrightarrow> s' = s \<or>
     (case s of
        Received \<Rightarrow> s' \<in> {PendingApproval, Executing, Denied, NotFound, Invalid, Failed, Unknown}
      | PendingApproval \<Rightarrow> s' \<in> {Executing, Denied, Expired}
      | Executing \<Rightarrow> s' \<in> {Completed, Failed, Unknown}
      | Running \<Rightarrow> s' = Unknown
      | Completed \<Rightarrow> s' = ResultExpired
      | _ \<Rightarrow> False)"

definition closing_fields :: "req_fields \<Rightarrow> rstatus \<Rightarrow> bool" where
  "closing_fields u s \<longleftrightarrow> up_status u = Some s \<and> terminal s
     \<and> (up_result u \<noteq> None \<longrightarrow> s = Completed)
     \<and> up_arguments u \<in> {None, Some None} \<and> up_action u = None \<and> up_generation u = None
     \<and> up_policy_binding u = None \<and> up_digest u = None"

inductive store_step :: "(string \<Rightarrow> string) \<Rightarrow> store \<Rightarrow> int option \<Rightarrow> store \<Rightarrow> bool" for sha where
  admin: "store_step sha db None (run_admin t db)"
| reserve: "store_step sha db None
     (snd (reserve_action sha cl corr tool op arguments reason g key fresh now db))"
| claim_rec: "claim_received sha rid g cl d fresh now db = (ok, db') \<Longrightarrow>
     store_step sha db (if ok then Some rid else None) db'"
| claim_app: "claim_approval sha rid g state now clo fresh db = (ok, db') \<Longrightarrow>
     store_step sha db (if ok then Some rid else None) db'"
| finish: "s \<in> {Denied, Expired} \<Longrightarrow> a \<noteq> APending \<Longrightarrow>
     store_step sha db None (snd (finish_pending rid s a err state' now dl db))"
| open_approval: "store_step sha db None (snd (create_approval rid ref exp' d' now db))"
| park: "request db rid = Some r \<Longrightarrow> rq_status r = Received \<Longrightarrow>
     store_step sha db None (update_request rid (no_fields\<lparr>up_status := Some PendingApproval\<rparr>) now db)"
| close: "request db rid = Some r \<Longrightarrow> rq_status r \<in> {Received, Executing} \<Longrightarrow>
     status_step (rq_status r) s \<Longrightarrow> closing_fields u s \<Longrightarrow>
     store_step sha db None (update_request rid u now db)"
| reconcile: "store_step sha db None (snd (reconcile_offline confirmed now db))"
| restore: "store_step sha db None (sanitize installation now db)"

text \<open>How one request row changes in a step that claims \<open>l\<close>.\<close>

definition same_row :: "request_row \<Rightarrow> request_row \<Rightarrow> bool" where
  "same_row r r' \<longleftrightarrow> rq_id r' = rq_id r \<and> rq_correlation_id r' = rq_correlation_id r
     \<and> rq_caller_id r' = rq_caller_id r \<and> rq_tool r' = rq_tool r \<and> rq_op r' = rq_op r
     \<and> rq_created_at r' = rq_created_at r \<and> rq_generation r' = rq_generation r
     \<and> rq_policy_binding r' = rq_policy_binding r \<and> rq_digest r' = rq_digest r
     \<and> rq_key r' = rq_key r \<and> rq_payload_digest r' = rq_payload_digest r"

definition row_step :: "int option \<Rightarrow> request_row \<Rightarrow> request_row \<Rightarrow> bool" where
  "row_step l r r' \<longleftrightarrow> same_row r r' \<and> status_step (rq_status r) (rq_status r')
     \<and> (rq_arguments r' = rq_arguments r \<or> rq_arguments r' = None)
     \<and> (rq_action r' = rq_action r \<or> rq_action r' = None)
     \<and> (rq_result r' = rq_result r \<or> rq_result r' = None \<or> rq_status r' = Completed)
     \<and> (\<not> terminal (rq_status r') \<longrightarrow> rq_arguments r' = rq_arguments r \<and> rq_action r' = rq_action r)
     \<and> (terminal (rq_status r') \<longrightarrow> rq_status r' = rq_status r \<or> (rq_arguments r' = None \<and> rq_action r' = None))
     \<and> (rq_status r' = Executing \<longrightarrow> rq_status r = Executing \<or> l = Some (rq_id r))
     \<and> (l = Some (rq_id r) \<longrightarrow> rq_status r \<in> {Received, PendingApproval} \<and> rq_status r' = Executing)"

definition fresh_row :: "store \<Rightarrow> request_row \<Rightarrow> bool" where
  "fresh_row db row \<longleftrightarrow> rq_id row = next_rowid rq_id (st_requests db) \<and> rq_status row = Received
     \<and> rq_arguments row \<noteq> None \<and> caller_row_by_id db (rq_caller_id row) \<noteq> None
     \<and> (rq_key row \<noteq> None \<longrightarrow>
         (\<forall>r \<in> set (st_requests db). rq_caller_id r = rq_caller_id row \<longrightarrow> rq_key r \<noteq> rq_key row))"

definition rows_step :: "int option \<Rightarrow> store \<Rightarrow> store \<Rightarrow> bool" where
  "rows_step l db db' \<longleftrightarrow>
     (\<exists>f new. st_requests db' = map f (st_requests db) @ new
        \<and> (\<forall>r \<in> set (st_requests db). row_step l r (f r))
        \<and> (new = [] \<or> (\<exists>row. new = [row] \<and> fresh_row db row)))
     \<and> (\<forall>k. l = Some k \<longrightarrow> request db k \<noteq> None)"

section \<open>The invariant\<close>

definition keys_ok :: "store \<Rightarrow> bool" where
  "keys_ok db \<longleftrightarrow> distinct (map cr_id (st_callers db)) \<and> distinct (map cr_name (st_callers db))
     \<and> distinct (map tk_hash (st_tokens db)) \<and> distinct (map pr_caller_id (st_policies db))
     \<and> distinct (map rq_id (st_requests db)) \<and> distinct (map ap_id (st_approvals db))"

definition refs_ok :: "store \<Rightarrow> bool" where
  "refs_ok db \<longleftrightarrow> tk_caller_id ` set (st_tokens db) \<subseteq> cr_id ` set (st_callers db)
     \<and> pr_caller_id ` set (st_policies db) \<subseteq> cr_id ` set (st_callers db)
     \<and> rq_caller_id ` set (st_requests db) \<subseteq> cr_id ` set (st_callers db)
     \<and> ap_request_id ` set (st_approvals db) \<subseteq> rq_id ` set (st_requests db)"

text \<open>The unique index on caller and idempotency key.\<close>

definition idem_ok :: "store \<Rightarrow> bool" where
  "idem_ok db \<longleftrightarrow> (\<forall>r \<in> set (st_requests db). \<forall>r' \<in> set (st_requests db).
     rq_caller_id r = rq_caller_id r' \<and> rq_key r = rq_key r' \<and> rq_key r \<noteq> None \<longrightarrow> rq_id r = rq_id r')"

text \<open>A request that has ended holds neither its arguments nor its private action; until then
  it holds its arguments.\<close>

definition row_cleared :: "request_row \<Rightarrow> bool" where
  "row_cleared r \<longleftrightarrow>
     (if terminal (rq_status r) then rq_arguments r = None \<and> rq_action r = None else rq_arguments r \<noteq> None)"

definition cleared_ok :: "store \<Rightarrow> bool" where
  "cleared_ok db \<longleftrightarrow> (\<forall>r \<in> set (st_requests db). row_cleared r)"

definition store_ok :: "store \<Rightarrow> bool" where
  "store_ok db \<longleftrightarrow> keys_ok db \<and> refs_ok db \<and> idem_ok db \<and> cleared_ok db"

section \<open>Row lemmas\<close>

lemma terminal_simps [simp]:
  "terminal Completed" "terminal Denied" "terminal Expired" "terminal Failed" "terminal Unknown"
  "terminal ResultExpired" "terminal NotFound" "terminal Invalid"
  "\<not> terminal Received" "\<not> terminal PendingApproval" "\<not> terminal Executing" "\<not> terminal Running"
  by (simp_all add: terminal_def)

lemma status_step_refl [simp]: "status_step s s"
  by (simp add: status_step_def)

lemma status_step_terminal: "status_step s s' \<Longrightarrow> terminal s \<Longrightarrow> terminal s'"
  by (cases s) (auto simp: status_step_def)

lemma same_row_refl [simp]: "same_row r r"
  by (simp add: same_row_def)

lemma row_step_refl [simp]: "row_step None r r"
  by (simp add: row_step_def)

lemma row_step_close:
  "status_step (rq_status r) s \<Longrightarrow> terminal s \<Longrightarrow> row_step None r (close_row s e now r)"
  by (auto simp: row_step_def close_row_def same_row_def)

lemma rows_step_same: "st_requests db' = st_requests db \<Longrightarrow> rows_step None db db'"
  unfolding rows_step_def by (auto intro!: exI [of _ id])

lemma rows_step_update:
  assumes "st_requests db' = sql_update p f (st_requests db)"
    and "\<And>r. r \<in> set (st_requests db) \<Longrightarrow> p r \<Longrightarrow> row_step None r (f r)"
  shows "rows_step None db db'"
  unfolding rows_step_def
  by (rule conjI, rule exI [of _ "\<lambda>r. if p r then f r else r"], rule exI [of _ "[]"])
    (use assms in \<open>auto simp: sql_update_def\<close>)

lemma rows_step_cong:
  "rows_step l db db1 \<Longrightarrow> st_requests db2 = st_requests db1 \<Longrightarrow> rows_step l db db2"
  by (simp add: rows_step_def)

lemma st_upd [simp]:
  "st_requests (upd_requests p f db) = sql_update p f (st_requests db)"
  "st_approvals (upd_requests p f db) = st_approvals db"
  "st_callers (upd_requests p f db) = st_callers db"
  "st_tokens (upd_requests p f db) = st_tokens db"
  "st_policies (upd_requests p f db) = st_policies db"
  "st_requests (upd_approvals q g db) = st_requests db"
  "st_approvals (upd_approvals q g db) = sql_update q g (st_approvals db)"
  "st_callers (upd_approvals q g db) = st_callers db"
  "st_tokens (upd_approvals q g db) = st_tokens db"
  "st_policies (upd_approvals q g db) = st_policies db"
  by (simp_all add: upd_requests_def upd_approvals_def)

lemma st_append_audit [simp]:
  "st_requests (snd (append_audit t c e oc co rid d db)) = st_requests db"
  "st_approvals (snd (append_audit t c e oc co rid d db)) = st_approvals db"
  "st_callers (snd (append_audit t c e oc co rid d db)) = st_callers db"
  "st_tokens (snd (append_audit t c e oc co rid d db)) = st_tokens db"
  "st_policies (snd (append_audit t c e oc co rid d db)) = st_policies db"
  by (simp_all add: append_audit_def Let_def)

lemma st_revoke_tokens_where [simp]:
  "st_requests (snd (revoke_tokens_where p now db)) = st_requests db"
  "st_approvals (snd (revoke_tokens_where p now db)) = st_approvals db"
  "st_callers (snd (revoke_tokens_where p now db)) = st_callers db"
  "st_policies (snd (revoke_tokens_where p now db)) = st_policies db"
  "map tk_hash (st_tokens (snd (revoke_tokens_where p now db))) = map tk_hash (st_tokens db)"
  "tk_caller_id ` set (st_tokens (snd (revoke_tokens_where p now db))) = tk_caller_id ` set (st_tokens db)"
  by (simp_all add: revoke_tokens_where_def Let_def map_sql_update image_sql_update)

lemma request_SomeD: "request db k = Some r \<Longrightarrow> r \<in> set (st_requests db) \<and> rq_id r = k"
  by (auto simp: request_def dest: find_SomeD)

lemma request_unique:
  "store_ok db \<Longrightarrow> request db k = Some r \<Longrightarrow> x \<in> set (st_requests db) \<Longrightarrow> rq_id x = k \<Longrightarrow> x = r"
  by (auto simp: request_def store_ok_def keys_ok_def intro: find_key_unique)


section \<open>Each transaction steps the rows\<close>

lemma write_policy_rows: "rows_step None db (snd (write_policy cid p t1 t2 db))"
proof (cases "caller_row_by_id db cid = None")
  case False
  then show ?thesis
    by (intro rows_step_update [where p = "pending_of cid"
          and f = "close_row Denied (Some ''approval_invalidated'') t2"])
      (auto simp: write_policy_def Let_def pending_of_def status_step_def intro: row_step_close)
qed (simp add: write_policy_def rows_step_same)

lemma cas_policy_rows: "rows_step None db (snd (compare_and_set_policy cid b a opr t1 t2 t3 corr db))"
proof -
  have eq: "st_requests (snd (compare_and_set_policy cid b a opr t1 t2 t3 corr db)) \<in>
      {st_requests db, st_requests (snd (write_policy cid a t1 t2 db))}"
    by (auto simp: compare_and_set_policy_def split: option.splits prod.splits sum.splits)
  then show ?thesis
    using write_policy_rows [of db cid a t1 t2] by (blast intro: rows_step_cong rows_step_same)
qed

lemma close_update_rows:
  assumes ok: "store_ok db" and req: "request db rid = Some req"
    and st: "status_step (rq_status req) s" "terminal s"
    and eq: "st_requests db' = sql_update (\<lambda>r. rq_id r = rid) (close_row s e now) (st_requests db)"
  shows "rows_step None db db'"
  using eq
proof (rule rows_step_update)
  fix r assume "r \<in> set (st_requests db)" "rq_id r = rid"
  with ok req have "r = req" by (blast intro: request_unique)
  with st show "row_step None r (close_row s e now r)" by (simp add: row_step_close)
qed

lemma finish_pending_rows:
  assumes "store_ok db" "s \<in> {Denied, Expired}"
  shows "rows_step None db (snd (finish_pending rid s a err st now dl db))"
proof (cases "request db rid")
  case (Some req)
  have "\<exists>s' e. st_requests (snd (finish_pending rid s a err st now dl db))
        = sql_update (\<lambda>x. rq_id x = rid) (close_row s' e now) (st_requests db)
        \<and> s' \<in> {Denied, Expired} \<and> rq_status req = PendingApproval
      \<or> st_requests (snd (finish_pending rid s a err st now dl db)) = st_requests db"
    using assms(2) Some
    by (auto simp: finish_pending_def split: option.splits sum.splits prod.splits if_splits)
  then show ?thesis
  proof (elim exE disjE conjE)
    fix s' e
    assume eq: "st_requests (snd (finish_pending rid s a err st now dl db))
        = sql_update (\<lambda>x. rq_id x = rid) (close_row s' e now) (st_requests db)"
      and s': "s' \<in> {Denied, Expired}" "rq_status req = PendingApproval"
    from close_update_rows [OF assms(1) Some _ _ eq] s' show ?thesis
      by (auto simp: status_step_def)
  qed (rule rows_step_same)
qed (simp add: finish_pending_def rows_step_same)

lemma prune_rows: "rows_step None db (snd (prune_payloads now db))"
  by (rule rows_step_update [where p = "prunable now"])
    (auto simp: prune_payloads_def Let_def prunable_def row_step_def same_row_def status_step_def
      split: if_splits)

lemma st_revoke_token_by_prefix [simp]:
  "st_requests (snd (revoke_token_by_prefix pfx now db)) = st_requests db"
  "st_approvals (snd (revoke_token_by_prefix pfx now db)) = st_approvals db"
  "st_callers (snd (revoke_token_by_prefix pfx now db)) = st_callers db"
  "st_policies (snd (revoke_token_by_prefix pfx now db)) = st_policies db"
  "map tk_hash (st_tokens (snd (revoke_token_by_prefix pfx now db))) = map tk_hash (st_tokens db)"
  "tk_caller_id ` set (st_tokens (snd (revoke_token_by_prefix pfx now db))) = tk_caller_id ` set (st_tokens db)"
  by (simp_all add: revoke_token_by_prefix_def split: sum.split)

lemma admin_rows:
  assumes "store_ok db"
  shows "rows_step None db (run_admin t db)"
  using assms write_policy_rows cas_policy_rows finish_pending_rows prune_rows
  by (cases t)
    (auto simp: run_admin_def add_caller_def revoke_caller_def add_token_def revoke_token_def
      revoke_tokens_for_caller_def set_policy_def clear_audit_def set_catalog_receipt_def Let_def
      intro!: rows_step_same)

lemma find_prior_None:
  "prior_request db cid key = None \<Longrightarrow> key \<noteq> None \<Longrightarrow>
     \<forall>r \<in> set (st_requests db). rq_caller_id r = cid \<longrightarrow> rq_key r \<noteq> key"
  by (auto simp: prior_request_def find_None_iff')

lemma reserve_cases:
  "(st_requests (snd (reserve_action sha cl corr tool op args reason g key fresh now db)) = st_requests db
      \<and> snd (reserve_action sha cl corr tool op args reason g key fresh now db) = db)
   \<or> (\<exists>digest binding. let row = reserved_row (next_rowid rq_id (st_requests db)) cl corr tool op args reason g key
             (policy_for db (cl_id cl)) digest binding fresh now
       in reserve_action sha cl corr tool op args reason g key fresh now db
            = (Inr (row, True, False), db\<lparr>st_requests := st_requests db @ [row]\<rparr>)
          \<and> prior_request db (cl_id cl) key = None \<and> live db (cl_id cl) (Some cl))"
  by (auto simp: reserve_action_def Let_def split: sum.splits prod.splits option.splits)

lemma live_caller: "live db cid clo \<Longrightarrow> caller_row_by_id db cid \<noteq> None"
  by (auto simp: live_def split: option.splits)

lemma reserve_rows:
  "rows_step None db (snd (reserve_action sha cl corr tool op args reason g key fresh now db))"
  using reserve_cases [of sha cl corr tool op args reason g key fresh now db]
proof (elim disjE conjE exE)
  fix digest binding
  assume "let row = reserved_row (next_rowid rq_id (st_requests db)) cl corr tool op args reason g key
             (policy_for db (cl_id cl)) digest binding fresh now
       in reserve_action sha cl corr tool op args reason g key fresh now db
            = (Inr (row, True, False), db\<lparr>st_requests := st_requests db @ [row]\<rparr>)
          \<and> prior_request db (cl_id cl) key = None \<and> live db (cl_id cl) (Some cl)"
  then show ?thesis
    using find_prior_None [of db "cl_id cl" key] live_caller [of db "cl_id cl"]
    by (auto simp: rows_step_def fresh_row_def reserved_row_def Let_def intro!: exI [of _ id])
qed (simp add: rows_step_same)

lemma claim_update_rows:
  assumes ok: "store_ok db" and req: "request db rid = Some req"
    and st: "rq_status req \<in> {Received, PendingApproval}"
    and eq: "st_requests db' = sql_update (\<lambda>r. rq_id r = rid)
        (\<lambda>r. r\<lparr>rq_status := Executing, rq_updated_at := now\<rparr>) (st_requests db)"
  shows "rows_step (Some rid) db db'"
proof -
  have "row_step (Some rid) r (if rq_id r = rid then r\<lparr>rq_status := Executing, rq_updated_at := now\<rparr> else r)"
    if "r \<in> set (st_requests db)" for r
    using request_unique [OF ok req that] st
    by (auto simp: row_step_def same_row_def status_step_def)
  then show ?thesis
    using req eq unfolding rows_step_def
    by (intro conjI exI [of _ "\<lambda>r. if rq_id r = rid then r\<lparr>rq_status := Executing, rq_updated_at := now\<rparr> else r"]
        exI [of _ "[]"]) (auto simp: sql_update_def)
qed

lemma claim_received_rows:
  assumes ok: "store_ok db" and cl: "claim_received sha rid g cl d fresh now db = (res, db')"
  shows "rows_step (if res then Some rid else None) db db'"
proof (cases "request db rid")
  case (Some req)
  show ?thesis
  proof (cases "received_valid sha db req g cl d fresh")
    case True
    then have rec: "rq_status req = Received" by (simp add: received_valid_def)
    from cl Some True have "res" and db': "st_requests db' = sql_update (\<lambda>r. rq_id r = rid \<and> rq_status r = Received)
        (\<lambda>r. r\<lparr>rq_status := Executing, rq_updated_at := now\<rparr>) (st_requests db)"
      by (auto simp: claim_received_def)
    have "r \<in> set (st_requests db) \<Longrightarrow> (rq_id r = rid \<and> rq_status r = Received) = (rq_id r = rid)" for r
      using request_unique [OF ok Some, of r] rec by auto
    then have "st_requests db' = sql_update (\<lambda>r. rq_id r = rid)
        (\<lambda>r. r\<lparr>rq_status := Executing, rq_updated_at := now\<rparr>) (st_requests db)"
      unfolding db' sql_update_def by (intro map_cong) auto
    with claim_update_rows [OF ok Some] rec \<open>res\<close> show ?thesis by simp
  next
    case False
    with cl Some have res: "\<not> res" by (auto simp: claim_received_def split: if_splits)
    show ?thesis
    proof (cases "rq_status req = Received")
      case True
      with cl Some False have "st_requests db' = sql_update (\<lambda>r. rq_id r = rid)
          (close_row Denied (Some ''authority_changed'') now) (st_requests db)"
        by (auto simp: claim_received_def)
      from close_update_rows [OF ok Some _ _ this] True res show ?thesis by (simp add: status_step_def)
    next
      case not_rec: False
      with cl Some False res show ?thesis by (auto simp: claim_received_def rows_step_same)
    qed
  qed
qed (use cl in \<open>auto simp: claim_received_def rows_step_same\<close>)

lemma claim_approval_rows:
  assumes ok: "store_ok db" and cl: "claim_approval sha rid g state now clo fresh db = (res, db')"
  shows "rows_step (if res then Some rid else None) db db'"
proof (cases "request db rid")
  case (Some req)
  let ?valid = "case approval_for_request db rid of None \<Rightarrow> False
     | Some a \<Rightarrow> approval_valid sha db req a g now clo fresh"
  show ?thesis
  proof (cases ?valid)
    case True
    then have pend: "rq_status req = PendingApproval"
      by (auto simp: approval_valid_def split: option.splits)
    from cl Some True have "res" "st_requests db' = sql_update (\<lambda>r. rq_id r = rid)
        (\<lambda>r. r\<lparr>rq_status := Executing, rq_updated_at := now\<rparr>) (st_requests db)"
      by (auto simp: claim_approval_def Let_def split: option.splits)
    with claim_update_rows [OF ok Some] pend show ?thesis by simp
  next
    case False
    show ?thesis
    proof (cases "rq_status req = PendingApproval")
      case True
      let ?exp = "case approval_for_request db rid of None \<Rightarrow> False
         | Some a \<Rightarrow> ap_status a = APending \<and> ap_expires_at a \<le> now"
      from cl Some False True have res: "\<not> res" and
        eq: "st_requests db' = sql_update (\<lambda>r. rq_id r = rid)
          (close_row (if ?exp then Expired else Denied) (if ?exp then None else Some ''approval_invalidated'') now)
          (st_requests db)"
        by (auto simp: claim_approval_def Let_def)
      from close_update_rows [OF ok Some _ _ eq] True res show ?thesis
        by (cases ?exp) (auto simp: status_step_def)
    next
      case not_pend: False
      with cl Some False show ?thesis
        by (auto simp: claim_approval_def rows_step_same Let_def)
    qed
  qed
qed (use cl in \<open>auto simp: claim_approval_def rows_step_same Let_def split: option.splits\<close>)

lemma update_request_rows:
  assumes ok: "store_ok db" and req: "request db rid = Some req"
    and st: "status_step (rq_status req) s"
    and u: "closing_fields u s"
  shows "rows_step None db (update_request rid u now db)"
proof -
  let ?u = "u\<lparr>up_action := Some None, up_arguments := Some None\<rparr>"
  from u have "?u \<noteq> no_fields"
    by (auto simp: no_fields_def closing_fields_def dest!: arg_cong [where f = up_status])
  with u have "st_requests (update_request rid u now db) = sql_update (\<lambda>r. rq_id r = rid)
      (\<lambda>r. (apply_fields ?u r)\<lparr>rq_updated_at := now\<rparr>) (st_requests db)"
    by (simp add: update_request_def closing_fields_def)
  then show ?thesis
  proof (rule rows_step_update)
    fix r assume "r \<in> set (st_requests db)" "rq_id r = rid"
    with ok req have "r = req" by (blast intro: request_unique)
    with st u show "row_step None r ((apply_fields ?u r)\<lparr>rq_updated_at := now\<rparr>)"
      by (auto simp: row_step_def same_row_def apply_fields_def the_or_def closing_fields_def terminal_def
          split: option.splits)
  qed
qed

lemma park_rows:
  assumes ok: "store_ok db" and req: "request db rid = Some req" and st: "rq_status req = Received"
  shows "rows_step None db (update_request rid (no_fields\<lparr>up_status := Some PendingApproval\<rparr>) now db)"
  (is "rows_step None db ?db'")
proof -
  have "st_requests ?db' = sql_update (\<lambda>r. rq_id r = rid)
      (\<lambda>r. r\<lparr>rq_status := PendingApproval, rq_updated_at := now\<rparr>) (st_requests db)"
    by (simp add: update_request_def apply_fields_def the_or_def no_fields_def)
  then show ?thesis
  proof (rule rows_step_update)
    fix r assume "r \<in> set (st_requests db)" "rq_id r = rid"
    with ok req have "r = req" by (blast intro: request_unique)
    with st show "row_step None r (r\<lparr>rq_status := PendingApproval, rq_updated_at := now\<rparr>)"
      by (auto simp: row_step_def same_row_def status_step_def)
  qed
qed

lemma reconcile_rows: "rows_step None db (snd (reconcile_offline confirmed now db))"
proof (cases confirmed)
  case True
  then show ?thesis
    by (intro rows_step_update [where p = "\<lambda>r. in_flight (rq_status r)"])
      (auto simp: reconcile_offline_def in_flight_def row_step_def same_row_def status_step_def close_row_def)
qed (simp add: reconcile_offline_def rows_step_same)

definition restored_row :: "rat \<Rightarrow> request_row \<Rightarrow> request_row" where
  "restored_row now r =
     (if rq_status r = PendingApproval
      then (close_row Expired (Some ''restore_cancelled'') now r)\<lparr>rq_result := None\<rparr>
      else if in_flight (rq_status r)
      then (close_row Unknown (Some ''restore_unknown'') now r)\<lparr>rq_result := None\<rparr> else r)"

lemma sanitize_requests: "st_requests (sanitize inst now db) = map (restored_row now) (st_requests db)"
  by (auto simp: sanitize_def Let_def sql_update_def restored_row_def close_row_def in_flight_def)

lemma sanitize_rows: "rows_step None db (sanitize inst now db)"
  unfolding rows_step_def
  by (intro conjI exI [of _ "restored_row now"] exI [of _ "[]"])
    (auto simp: sanitize_requests restored_row_def in_flight_def row_step_def same_row_def
      status_step_def close_row_def)

lemma step_rows: "store_step sha db l db' \<Longrightarrow> store_ok db \<Longrightarrow> rows_step l db db'"
proof (induction rule: store_step.induct)
  case (open_approval db rid ref exp' d' now)
  show ?case by (rule rows_step_same) (simp add: create_approval_def Let_def)
qed (blast intro: admin_rows reserve_rows claim_received_rows claim_approval_rows finish_pending_rows
      park_rows update_request_rows reconcile_rows sanitize_rows)+

section \<open>What follows for the requests\<close>

lemma row_stepD:
  assumes "row_step l r r'"
  shows "rq_id r' = rq_id r" "rq_caller_id r' = rq_caller_id r" "rq_key r' = rq_key r"
    "status_step (rq_status r) (rq_status r')"
  using assms by (simp_all add: row_step_def same_row_def)

lemma rows_stepE:
  assumes "rows_step l db db'"
  obtains f new where "st_requests db' = map f (st_requests db) @ new"
    "\<And>r. r \<in> set (st_requests db) \<Longrightarrow> row_step l r (f r)"
    "\<And>row. row \<in> set new \<Longrightarrow> fresh_row db row" "new = [] \<or> (\<exists>row. new = [row])"
  using assms unfolding rows_step_def by (metis empty_iff empty_set set_ConsD)

lemma find_map_key:
  "(\<And>r. r \<in> set rows \<Longrightarrow> key (f r) = key r) \<Longrightarrow>
     find (\<lambda>x. key x = k) (map f rows) = map_option f (find (\<lambda>x. key x = k) rows)"
  by (induction rows) auto

text \<open>A request is never deleted; its row steps.\<close>

lemma rows_step_request:
  assumes "rows_step l db db'" and "request db k = Some r"
  shows "\<exists>r'. request db' k = Some r' \<and> row_step l r r'"
proof -
  from assms(1) obtain f new where eq: "st_requests db' = map f (st_requests db) @ new"
    and st: "\<And>r. r \<in> set (st_requests db) \<Longrightarrow> row_step l r (f r)" by (rule rows_stepE) blast
  have "find (\<lambda>x. rq_id x = k) (map f (st_requests db)) = Some (f r)"
    using assms(2) by (subst find_map_key) (auto simp: request_def dest: st row_stepD)
  then have "request db' k = Some (f r)" by (simp add: request_def eq find_append)
  with st request_SomeD [OF assms(2)] show ?thesis by blast
qed

text \<open>A new request is received, under an id no request had.\<close>

lemma rows_step_new:
  assumes "rows_step l db db'" and "request db k = None" and "request db' k = Some r'"
  shows "rq_status r' = Received \<and> k = next_rowid rq_id (st_requests db)"
proof -
  from assms(1) obtain f new where eq: "st_requests db' = map f (st_requests db) @ new"
    and st: "\<And>r. r \<in> set (st_requests db) \<Longrightarrow> row_step l r (f r)"
    and fr: "\<And>row. row \<in> set new \<Longrightarrow> fresh_row db row" by (rule rows_stepE) blast
  have "find (\<lambda>x. rq_id x = k) (map f (st_requests db)) = None"
    using assms(2) by (subst find_map_key) (auto simp: request_def dest: st row_stepD)
  with assms(3) have "find (\<lambda>x. rq_id x = k) new = Some r'" by (simp add: request_def eq find_append)
  then show ?thesis using fr [of r'] by (auto simp: fresh_row_def dest!: find_SomeD)
qed

lemma rows_step_keys:
  assumes "rows_step l db db'" "distinct (map rq_id (st_requests db))"
  shows "distinct (map rq_id (st_requests db'))"
proof -
  from assms(1) obtain f new where eq: "st_requests db' = map f (st_requests db) @ new"
    and st: "\<And>r. r \<in> set (st_requests db) \<Longrightarrow> row_step l r (f r)"
    and fr: "\<And>row. row \<in> set new \<Longrightarrow> fresh_row db row" and one: "new = [] \<or> (\<exists>row. new = [row])"
    by (rule rows_stepE) blast
  have "map rq_id (map f (st_requests db)) = map rq_id (st_requests db)"
    by (auto dest: st row_stepD)
  with assms(2) one fr show ?thesis
    using next_rowid_notin [of rq_id "st_requests db"]
    by (auto simp: eq fresh_row_def image_iff simp del: map_map)
qed

lemma rows_step_idem:
  assumes "rows_step l db db'" "idem_ok db"
  shows "idem_ok db'"
proof -
  from assms(1) obtain f new where eq: "st_requests db' = map f (st_requests db) @ new"
    and st: "\<And>r. r \<in> set (st_requests db) \<Longrightarrow> row_step l r (f r)"
    and fr: "\<And>row. row \<in> set new \<Longrightarrow> fresh_row db row" and one: "new = [] \<or> (\<exists>row. new = [row])"
    by (rule rows_stepE) blast
  have old: "\<exists>r0 \<in> set (st_requests db). rq_id r = rq_id r0 \<and> rq_caller_id r = rq_caller_id r0 \<and> rq_key r = rq_key r0"
    if "r \<in> set (map f (st_requests db))" for r
    using that by (auto dest: st row_stepD)
  have new_key: "rq_key r \<noteq> rq_key row \<or> rq_caller_id r \<noteq> rq_caller_id row \<or> rq_key row = None"
    if "r \<in> set (map f (st_requests db))" "row \<in> set new" for r row
    using old [OF that(1)] fr [OF that(2)] by (auto simp: fresh_row_def)
  show ?thesis
    unfolding idem_ok_def
  proof (intro ballI impI, elim conjE)
    fix r r'
    assume r: "r \<in> set (st_requests db')" "r' \<in> set (st_requests db')"
      and same: "rq_caller_id r = rq_caller_id r'" "rq_key r = rq_key r'" "rq_key r \<noteq> None"
    from r consider "r \<in> set (map f (st_requests db))" "r' \<in> set (map f (st_requests db))"
      | "r \<in> set new" "r' \<in> set new"
      | "r \<in> set (map f (st_requests db))" "r' \<in> set new"
      | "r \<in> set new" "r' \<in> set (map f (st_requests db))"
      unfolding eq by fastforce
    then show "rq_id r = rq_id r'"
    proof cases
      case 1
      from old [OF 1(1)] obtain r0 where r0: "r0 \<in> set (st_requests db)"
        "rq_id r = rq_id r0" "rq_caller_id r = rq_caller_id r0" "rq_key r = rq_key r0" by blast
      from old [OF 1(2)] obtain r0' where r0': "r0' \<in> set (st_requests db)"
        "rq_id r' = rq_id r0'" "rq_caller_id r' = rq_caller_id r0'" "rq_key r' = rq_key r0'" by blast
      have "rq_id r0 = rq_id r0'"
        using assms(2) r0(1) r0'(1) same unfolding idem_ok_def r0 r0' by blast
      with r0 r0' show ?thesis by simp
    next
      case 2
      then show ?thesis using one by auto
    next
      case 3
      then show ?thesis using new_key [OF 3] same by simp
    next
      case 4
      then show ?thesis using new_key [OF 4(2,1)] same by simp
    qed
  qed
qed

lemma rows_step_cleared:
  assumes "rows_step l db db'" "cleared_ok db"
  shows "cleared_ok db'"
proof -
  from assms(1) obtain f new where eq: "st_requests db' = map f (st_requests db) @ new"
    and st: "\<And>r. r \<in> set (st_requests db) \<Longrightarrow> row_step l r (f r)"
    and fr: "\<And>row. row \<in> set new \<Longrightarrow> fresh_row db row" by (rule rows_stepE) blast
  have "row_cleared (f r)" if "r \<in> set (st_requests db)" for r
  proof -
    from st [OF that] have row: "status_step (rq_status r) (rq_status (f r))"
      "terminal (rq_status (f r)) \<longrightarrow> rq_status (f r) = rq_status r \<or> (rq_arguments (f r) = None \<and> rq_action (f r) = None)"
      "rq_arguments (f r) = rq_arguments r \<or> rq_arguments (f r) = None" "rq_action (f r) = rq_action r \<or> rq_action (f r) = None"
      "\<not> terminal (rq_status (f r)) \<longrightarrow> rq_arguments (f r) = rq_arguments r \<and> rq_action (f r) = rq_action r"
      by (simp_all add: row_step_def)
    from assms(2) that have old: "row_cleared r" by (simp add: cleared_ok_def)
    show ?thesis
    proof (cases "terminal (rq_status (f r))")
      case True
      with row old show ?thesis by (auto simp: row_cleared_def)
    next
      case False
      then have "\<not> terminal (rq_status r)" using status_step_terminal [OF row(1)] by blast
      with row(5) old False show ?thesis by (simp add: row_cleared_def)
    qed
  qed
  moreover have "row_cleared row" if "row \<in> set new" for row
    using fr [OF that] by (simp add: fresh_row_def row_cleared_def)
  ultimately show ?thesis by (auto simp: cleared_ok_def eq)
qed

section \<open>The other tables\<close>

definition table_keys :: "store \<Rightarrow> _" where
  "table_keys db = (map cr_id (st_callers db), map cr_name (st_callers db), map tk_hash (st_tokens db),
     map tk_caller_id (st_tokens db), map pr_caller_id (st_policies db), map ap_id (st_approvals db),
     map ap_request_id (st_approvals db))"

definition tables_ok :: "store \<Rightarrow> bool" where
  "tables_ok db \<longleftrightarrow> distinct (map cr_id (st_callers db)) \<and> distinct (map cr_name (st_callers db))
     \<and> distinct (map tk_hash (st_tokens db)) \<and> distinct (map pr_caller_id (st_policies db))
     \<and> distinct (map ap_id (st_approvals db))
     \<and> set (map tk_caller_id (st_tokens db)) \<subseteq> set (map cr_id (st_callers db))
     \<and> set (map pr_caller_id (st_policies db)) \<subseteq> set (map cr_id (st_callers db))"

text \<open>No caller is deleted and an approval is added only for a request of the table.\<close>

definition tables_step :: "store \<Rightarrow> store \<Rightarrow> bool" where
  "tables_step db db' \<longleftrightarrow> (tables_ok db \<longrightarrow> tables_ok db')
     \<and> set (map cr_id (st_callers db)) \<subseteq> set (map cr_id (st_callers db'))
     \<and> set (map ap_request_id (st_approvals db')) \<subseteq>
         set (map ap_request_id (st_approvals db)) \<union> set (map rq_id (st_requests db))"

lemma tables_step_same: "table_keys db' = table_keys db \<Longrightarrow> tables_step db db'"
  unfolding table_keys_def tables_step_def tables_ok_def prod.inject by (elim conjE) (simp only: Un_upper1, simp)

lemma tables_step_trans:
  "tables_step db db1 \<Longrightarrow> st_requests db1 = st_requests db \<Longrightarrow> tables_step db1 db2 \<Longrightarrow> tables_step db db2"
  unfolding tables_step_def by (elim conjE, intro conjI) (blast, blast, (simp only:, blast))

lemma caller_row_ids: "caller_row_by_id db cid \<noteq> None \<longleftrightarrow> cid \<in> set (map cr_id (st_callers db))"
  by (auto simp: caller_row_by_id_def find_None_iff')

lemma request_ids: "request db k \<noteq> None \<longleftrightarrow> k \<in> set (map rq_id (st_requests db))"
  by (auto simp: request_def find_None_iff')

lemma tables_upd [simp]:
  "table_keys (upd_requests p f db) = table_keys db"
  "(\<And>a. ap_id (g a) = ap_id a) \<Longrightarrow> (\<And>a. ap_request_id (g a) = ap_request_id a) \<Longrightarrow>
     table_keys (upd_approvals q g db) = table_keys db"
  "table_keys (snd (append_audit t c e oc co rid d db)) = table_keys db"
  "table_keys (snd (revoke_tokens_where pt now db)) = table_keys db"
  "table_keys (snd (revoke_token_by_prefix pfx now db)) = table_keys db"
  by (simp_all add: table_keys_def map_sql_update append_audit_def Let_def revoke_tokens_where_def
      revoke_token_by_prefix_def split: sum.split)

lemma add_caller_tables: "tables_step db (snd (add_caller name now db))"
  using next_rowid_notin [of cr_id "st_callers db"]
  by (auto simp: tables_step_def tables_ok_def add_caller_def Let_def list_ex_iff)

lemma add_token_tables: "tables_step db (snd (add_token cid h now db))"
  using caller_row_ids [of db cid]
  by (auto simp: tables_step_def tables_ok_def add_token_def list_ex_iff)

lemma create_approval_tables: "tables_step db (snd (create_approval rid ref ex d now db))"
  using next_rowid_notin [of ap_id "st_approvals db"] request_ids [of db rid]
  by (auto simp: tables_step_def tables_ok_def create_approval_def Let_def)

lemma put_policy_tables:
  assumes "caller_row_by_id db cid \<noteq> None" and that: "pr_caller_id row = cid"
  shows "tables_step db (db\<lparr>st_policies :=
      (if list_ex (\<lambda>r. pr_caller_id r = cid) (st_policies db)
       then sql_update (\<lambda>r. pr_caller_id r = cid) (\<lambda>_. row) (st_policies db)
       else st_policies db @ [row])\<rparr>)"
proof -
  have upd: "map pr_caller_id (sql_update (\<lambda>r. pr_caller_id r = cid) (\<lambda>_. row) rows) = map pr_caller_id rows"
    for rows using that by (induction rows) auto
  then show ?thesis
    using assms that caller_row_ids [of db cid]
    by (auto simp: tables_step_def tables_ok_def list_ex_iff simp del: set_map)
      (auto simp: image_iff)
qed

lemma write_policy_tables: "tables_step db (snd (write_policy cid p t1 t2 db))"
proof (cases "caller_row_by_id db cid = None")
  case False
  let ?row = "\<lparr>pr_caller_id = cid, pr_policy = p, pr_updated_at = t1\<rparr>"
  let ?db1 = "db\<lparr>st_policies :=
      (if list_ex (\<lambda>r. pr_caller_id r = cid) (st_policies db)
       then sql_update (\<lambda>r. pr_caller_id r = cid) (\<lambda>_. ?row) (st_policies db)
       else st_policies db @ [?row])\<rparr>"
  have one: "tables_step db ?db1" using put_policy_tables [OF False, of ?row] by simp
  have two: "tables_step ?db1 (snd (write_policy cid p t1 t2 db))"
    by (rule tables_step_same) (use False in \<open>auto simp: write_policy_def Let_def\<close>)
  from tables_step_trans [OF one _ two] show ?thesis by simp
qed (simp add: write_policy_def tables_step_same)

lemma finish_pending_tables [simp]:
  "table_keys (snd (finish_pending rid s a err st now dl db)) = table_keys db"
  by (auto simp: finish_pending_def split: option.splits sum.splits prod.splits)

lemma cas_policy_tables: "tables_step db (snd (compare_and_set_policy cid b a opr t1 t2 t3 corr db))"
proof -
  have "table_keys (snd (compare_and_set_policy cid b a opr t1 t2 t3 corr db)) \<in>
      {table_keys db, table_keys (snd (write_policy cid a t1 t2 db))}"
    by (auto simp: compare_and_set_policy_def split: option.splits prod.splits sum.splits)
  then show ?thesis
    using write_policy_tables [of db cid a t1 t2]
    by (auto simp: tables_step_def tables_ok_def table_keys_def simp del: set_map)
qed

lemma admin_tables: "tables_step db (run_admin t db)"
  using add_caller_tables add_token_tables write_policy_tables cas_policy_tables
  by (cases t)
    (auto simp: run_admin_def revoke_caller_def revoke_token_def revoke_tokens_for_caller_def
      set_policy_def clear_audit_def set_catalog_receipt_def Let_def prune_payloads_def
      intro!: tables_step_same, auto simp: table_keys_def map_sql_update)

lemma step_tables: "store_step sha db l db' \<Longrightarrow> tables_step db db'"
proof (induction rule: store_step.induct)
  case (reserve db cl corr tool op arguments reason g key fresh now)
  show ?case
    using reserve_cases [of sha cl corr tool op arguments reason g key fresh now db]
    by (intro tables_step_same) (auto simp: Let_def table_keys_def)
next
  case (claim_rec rid g cl d fresh now db ok db')
  then show ?case
    by (intro tables_step_same) (auto simp: claim_received_def split: option.splits if_splits)
next
  case (claim_app rid g state now clo fresh db ok db')
  then show ?case
    by (intro tables_step_same) (auto simp: claim_approval_def Let_def split: option.splits if_splits)
next
  case (reconcile db confirmed now)
  show ?case by (rule tables_step_same) (simp add: reconcile_offline_def)
next
  case (restore db installation now)
  show ?case
    by (rule tables_step_same)
      (simp add: sanitize_def Let_def table_keys_def map_sql_update append_audit_def revoke_tokens_where_def comp_def)
qed (auto intro: admin_tables create_approval_tables tables_step_same simp: update_request_def Let_def)

section \<open>The invariant is kept\<close>

lemma store_ok_split:
  "store_ok db \<longleftrightarrow> tables_ok db \<and> distinct (map rq_id (st_requests db)) \<and> idem_ok db \<and> cleared_ok db
     \<and> set (map rq_caller_id (st_requests db)) \<subseteq> set (map cr_id (st_callers db))
     \<and> set (map ap_request_id (st_approvals db)) \<subseteq> set (map rq_id (st_requests db))"
  by (auto simp: store_ok_def keys_ok_def refs_ok_def tables_ok_def)

lemma rows_step_refs:
  assumes "rows_step l db db'"
    and "set (map rq_caller_id (st_requests db)) \<subseteq> set (map cr_id (st_callers db))"
  shows "set (map rq_caller_id (st_requests db')) \<subseteq> set (map cr_id (st_callers db))"
    and "set (map rq_id (st_requests db)) \<subseteq> set (map rq_id (st_requests db'))"
proof -
  from assms(1) obtain f new where eq: "st_requests db' = map f (st_requests db) @ new"
    and st: "\<And>r. r \<in> set (st_requests db) \<Longrightarrow> row_step l r (f r)"
    and fr: "\<And>row. row \<in> set new \<Longrightarrow> fresh_row db row" by (rule rows_stepE) blast
  have cid: "rq_caller_id (f r) = rq_caller_id r" "rq_id (f r) = rq_id r" if "r \<in> set (st_requests db)" for r
    using st [OF that] by (auto dest: row_stepD)
  have "rq_caller_id row \<in> set (map cr_id (st_callers db))" if "row \<in> set new" for row
    using fr [OF that] caller_row_ids [of db] by (simp add: fresh_row_def)
  with assms(2) show "set (map rq_caller_id (st_requests db')) \<subseteq> set (map cr_id (st_callers db))"
    by (auto simp: eq cid)
  show "set (map rq_id (st_requests db)) \<subseteq> set (map rq_id (st_requests db'))"
    by (auto simp: eq cid image_iff)
qed

lemma step_store_ok:
  assumes ok: "store_ok db" and step: "store_step sha db l db'"
  shows "store_ok db'"
proof -
  from ok step have rows: "rows_step l db db'" and tabs: "tables_step db db'"
    by (simp_all add: step_rows step_tables)
  from ok have refs: "set (map rq_caller_id (st_requests db)) \<subseteq> set (map cr_id (st_callers db))"
    by (simp add: store_ok_split)
  show ?thesis
    unfolding store_ok_split
  proof (intro conjI)
    show "tables_ok db'" using tabs ok by (simp add: tables_step_def store_ok_split)
    show "distinct (map rq_id (st_requests db'))" using rows_step_keys [OF rows] ok by (simp add: store_ok_split)
    show "idem_ok db'" using rows_step_idem [OF rows] ok by (simp add: store_ok_split)
    show "cleared_ok db'" using rows_step_cleared [OF rows] ok by (simp add: store_ok_split)
    show "set (map rq_caller_id (st_requests db')) \<subseteq> set (map cr_id (st_callers db'))"
      using rows_step_refs(1) [OF rows refs] tabs unfolding tables_step_def by (meson subset_trans)
    show "set (map ap_request_id (st_approvals db')) \<subseteq> set (map rq_id (st_requests db'))"
      using rows_step_refs(2) [OF rows refs] tabs ok unfolding tables_step_def store_ok_split by blast
  qed
qed

lemma init_store_ok: "store_ok (init_store inst)"
  by (simp add: init_store_def store_ok_def keys_ok_def refs_ok_def idem_ok_def cleared_ok_def)

definition initial :: "store \<Rightarrow> bool" where
  "initial db \<longleftrightarrow> (\<exists>inst. db = init_store inst)"

text \<open>A request that may still be claimed.\<close>

definition claimable :: "store \<Rightarrow> int \<Rightarrow> bool" where
  "claimable db k \<longleftrightarrow>
     (case request db k of None \<Rightarrow> False | Some r \<Rightarrow> rq_status r \<in> {Received, PendingApproval})"

interpretation db: invariant_system initial "\<lambda>s s'. \<exists>l. store_step sha s l s'" store_ok for sha
  by unfold_locales (auto simp: initial_def init_store_ok intro: step_store_ok)

lemma status_step_claimable:
  "status_step s s' \<Longrightarrow> s' \<in> {Received, PendingApproval} \<Longrightarrow> s \<in> {Received, PendingApproval}"
  by (auto simp: status_step_def split: rstatus.splits)

interpretation claims: claim_register "store_step sha" store_ok claimable "\<lambda>db k. request db k \<noteq> None" for sha
proof (unfold_locales, goal_cases)
  case (1 s l s')
  then show ?case by (rule step_store_ok)
next
  case (2 s k s')
  then have rows: "rows_step (Some k) s s'" by (simp add: step_rows)
  then obtain r where r: "request s k = Some r" by (auto simp: rows_step_def)
  from rows_step_request [OF rows r] request_SomeD [OF r] show ?case
    by (auto simp: claimable_def r row_step_def)
next
  case (3 s k s')
  then have rows: "rows_step (Some k) s s'" by (simp add: step_rows)
  then obtain r where r: "request s k = Some r" by (auto simp: rows_step_def)
  from rows_step_request [OF rows r] request_SomeD [OF r] show ?case
    by (auto simp: claimable_def row_step_def)
next
  case (4 s l s' k)
  then show ?case using rows_step_request [of l s s' k] by (auto dest!: step_rows)
next
  case (5 s l s' k)
  then obtain r where r: "request s k = Some r" by auto
  with 5 rows_step_request [of l s s' k r] show ?case
    by (auto simp: claimable_def row_step_def dest!: step_rows status_step_claimable)
qed

end
