(* ===== verification/Redaction.thy ===== *)
theory Redaction
  imports Prelude
begin

text \<open>
  \<^verbatim>\<open>broker/redaction.py\<close>: the mask for free text that reaches an audit row, an approval
  card or a caller. The expression \<^verbatim>\<open>_SECRETISH\<close> has three alternatives, tried in order at
  each position; each of them is greedy and none needs backtracking, because the class after a
  repetition never meets the class before it.
\<close>

text \<open>The length of a repetition of a class at the head of the text.\<close>

definition span_len :: "(char \<Rightarrow> bool) \<Rightarrow> string \<Rightarrow> nat" where
  "span_len p s = length (takeWhile p s)"

text \<open>\<^verbatim>\<open>(?i)bearer\s+\S+\<close>: how many characters it matches.\<close>

definition match_bearer :: "string \<Rightarrow> nat option" where
  "match_bearer s =
     (if py_lower (take 6 s) = ''bearer'' then
        let ws = span_len is_space (drop 6 s); rest = drop (6 + ws) s;
            tok = span_len (\<lambda>c. \<not> is_space c) rest
        in if ws = 0 \<or> tok = 0 then None else Some (6 + ws + tok)
      else None)"

text \<open>\<^verbatim>\<open>[A-Za-z0-9_\-]+\.[A-Za-z0-9_\-]+\.[A-Za-z0-9_\-]+\<close>.\<close>

definition match_jwt :: "string \<Rightarrow> nat option" where
  "match_jwt s =
     (let a = span_len is_word s; s1 = drop a s in
      if a = 0 \<or> s1 = [] \<or> hd s1 \<noteq> CHR ''.'' then None
      else let b = span_len is_word (tl s1); s2 = drop b (tl s1) in
      if b = 0 \<or> s2 = [] \<or> hd s2 \<noteq> CHR ''.'' then None
      else let c = span_len is_word (tl s2) in
      if c = 0 then None else Some (a + 1 + b + 1 + c))"

text \<open>\<^verbatim>\<open>[A-Za-z0-9_\-]{32,}\<close>.\<close>

definition match_long :: "string \<Rightarrow> nat option" where
  "match_long s = (let n = span_len is_word s in if n \<ge> 32 then Some n else None)"

definition match_secretish :: "string \<Rightarrow> nat option" where
  "match_secretish s =
     (case match_bearer s of Some n \<Rightarrow> Some n
      | None \<Rightarrow> (case match_jwt s of Some n \<Rightarrow> Some n | None \<Rightarrow> match_long s))"

definition redacted_mark :: string where
  "redacted_mark = ''[redacted]''"

text \<open>\<^verbatim>\<open>_SECRETISH.sub("[redacted]", text)\<close>.\<close>

function sub_secretish :: "string \<Rightarrow> string" where
  "sub_secretish s =
     (case s of
        [] \<Rightarrow> []
      | c # cs \<Rightarrow>
          (case match_secretish s of
             Some n \<Rightarrow> if n = 0 then c # sub_secretish cs else redacted_mark @ sub_secretish (drop n s)
           | None \<Rightarrow> c # sub_secretish cs))"
  by pat_completeness auto
termination
  by (relation "measure length") auto

declare sub_secretish.simps [simp del]

definition redact :: "string option \<Rightarrow> nat \<Rightarrow> string option" where
  "redact text limit =
     (case text of
        None \<Rightarrow> None
      | Some t \<Rightarrow>
          let t = sub_secretish t
          in Some (if length t > limit then take limit t @ ''...'' else t))"

definition redact_max :: nat where
  "redact_max = 280"

section \<open>What is left of a secret-like run\<close>

text \<open>No run of 32 or more word characters.\<close>

definition short_runs :: "string \<Rightarrow> bool" where
  "short_runs s \<longleftrightarrow> (\<forall>n \<le> length s. span_len is_word (drop n s) < 32)"

lemma span_len_simps [simp]:
  "span_len p [] = 0"
  "span_len p (c # cs) = (if p c then Suc (span_len p cs) else 0)"
  by (simp_all add: span_len_def)

lemma short_runs_Nil [simp]: "short_runs []"
  by (simp add: short_runs_def)

lemma short_runs_Cons: "short_runs (c # cs) \<longleftrightarrow> span_len is_word (c # cs) < 32 \<and> short_runs cs"
  by (auto simp: short_runs_def All_less_Suc2 less_Suc_eq_le [symmetric] simp del: span_len_simps(2))

lemma span_len_le: "span_len p s \<le> length s"
  by (simp add: span_len_def length_takeWhile_le)

lemma span_len_append_stop:
  "\<not> p c \<Longrightarrow> span_len p (xs @ c # ys) = span_len p (xs @ [c])"
  by (induction xs) auto

lemma short_runs_append_stop:
  "\<not> is_word c \<Longrightarrow> short_runs (xs @ c # ys) \<longleftrightarrow> short_runs (xs @ [c]) \<and> short_runs ys"
proof (induction xs)
  case (Cons x xs)
  then show ?case
    using span_len_append_stop [of is_word c "x # xs" ys] by (simp add: short_runs_Cons del: span_len_simps(2))
qed (simp add: short_runs_Cons)

lemma short_runs_mark: "short_runs s \<Longrightarrow> short_runs (redacted_mark @ s) \<and> span_len is_word (redacted_mark @ s) = 0"
  by (simp add: redacted_mark_def short_runs_Cons char_simps code_def)

lemma sub_secretish_Nil [simp]: "sub_secretish [] = []"
  by (simp add: sub_secretish.simps)

lemma sub_secretish_Cons:
  "sub_secretish (c # cs) =
     (case match_secretish (c # cs) of
        Some n \<Rightarrow> if n = 0 then c # sub_secretish cs else redacted_mark @ sub_secretish (drop n (c # cs))
      | None \<Rightarrow> c # sub_secretish cs)"
  by (subst sub_secretish.simps) simp

text \<open>Substitution never joins a run to what was before it: its result starts with a run no
  longer than the one it read.\<close>

lemma sub_span_le: "span_len is_word (sub_secretish s) \<le> span_len is_word s"
proof (induction s rule: sub_secretish.induct)
  case (1 s)
  show ?case
  proof (cases s)
    case (Cons c cs)
    then show ?thesis
      using 1 by (auto simp: sub_secretish_Cons redacted_mark_def char_simps code_def split: option.splits)
  qed simp
qed

lemma no_match_short: "match_secretish s = None \<Longrightarrow> span_len is_word s < 32"
  by (auto simp: match_secretish_def match_long_def Let_def split: option.splits if_splits)

lemma match_pos: "match_secretish s = Some n \<Longrightarrow> 0 < n"
  by (auto simp: match_secretish_def match_bearer_def match_jwt_def match_long_def Let_def
      split: option.splits if_splits)

lemma sub_short_runs: "short_runs (sub_secretish s)"
proof (induction s rule: sub_secretish.induct)
  case (1 s)
  show ?case
  proof (cases s)
    case (Cons c cs)
    show ?thesis
    proof (cases "match_secretish s")
      case None
      then have "span_len is_word s < 32" by (rule no_match_short)
      from None Cons have "sub_secretish s = c # sub_secretish cs" by (simp add: sub_secretish_Cons)
      moreover have "short_runs (sub_secretish cs)" using 1 Cons None by simp
      moreover have "span_len is_word (sub_secretish s) < 32"
        using sub_span_le [of s] \<open>span_len is_word s < 32\<close> by simp
      ultimately show ?thesis by (simp add: short_runs_Cons)
    next
      case (Some n)
      then have "short_runs (sub_secretish (drop n s))" using 1 Cons match_pos by auto
      then show ?thesis
        using Some Cons match_pos [OF Some] short_runs_mark by (simp add: sub_secretish_Cons)
    qed
  qed simp
qed

lemma span_len_take: "span_len p (take n s) \<le> span_len p s"
proof (induction s arbitrary: n)
  case (Cons c cs)
  then show ?case by (cases n) auto
qed simp

lemma short_runs_take: "short_runs s \<Longrightarrow> short_runs (take n s)"
proof (induction s arbitrary: n)
  case (Cons c cs)
  show ?case
  proof (cases n)
    case (Suc m)
    have "span_len is_word (c # take m cs) \<le> span_len is_word (c # cs)"
      using span_len_take [of is_word "Suc m" "c # cs"] by simp
    with Cons Suc show ?thesis by (simp add: short_runs_Cons del: span_len_simps(2))
  qed simp
qed simp

lemma short_runs_snoc_stop: "\<not> is_word c \<Longrightarrow> short_runs s \<Longrightarrow> short_runs (s @ [c])"
proof (induction s)
  case (Cons x xs)
  have "span_len is_word ((x # xs) @ [c]) = span_len is_word (x # xs)"
    using Cons.prems(1) by (simp add: span_len_def takeWhile_tail)
  with Cons show ?case by (simp add: short_runs_Cons del: span_len_simps(2))
qed (simp add: short_runs_Cons)

section \<open>Properties\<close>

text \<open>Redacted text is at most three characters longer than its limit and contains no run of 32 or
  more letters, digits, underscores and hyphens, so no opaque token survives whole.\<close>

theorem redact_short_runs:
  assumes "redact (Some t) limit = Some u"
  shows "short_runs u \<and> length u \<le> limit + 3"
proof -
  have dots: "short_runs (take limit s @ ''...'')" if "short_runs s" for s
    using short_runs_take [OF that, of limit]
    by (subst short_runs_append_stop)
      (auto intro!: short_runs_snoc_stop simp: short_runs_Cons char_simps code_def)
  show ?thesis
    using assms dots [OF sub_short_runs [of t]] sub_short_runs [of t]
    by (auto simp: redact_def Let_def split: if_splits)
qed

theorem redact_short_runs_witness: "short_runs ''key [redacted]'' \<and> length ''key [redacted]'' \<le> redact_max + 3"
  by (rule redact_short_runs [where t = "''key '' @ replicate 40 (CHR ''a'')"]) code_simp

end
