(* ===== verification/RateLimit.thy ===== *)
theory RateLimit
  imports Prelude
begin

text \<open>
  \<^verbatim>\<open>broker/ratelimit.py\<close>: the per-caller fixed-window limiter. The dictionary
  \<^verbatim>\<open>_state\<close> is a map from caller ids to the start of the caller's window and the number
  of calls granted in it.
\<close>

record limiter =
  rl_limit :: int
  rl_state :: "int \<rightharpoonup> rat \<times> int"

definition new_limiter :: "int \<Rightarrow> limiter" where
  "new_limiter limit_per_minute = \<lparr>rl_limit = limit_per_minute, rl_state = Map.empty\<rparr>"

definition rl_window :: rat where
  "rl_window = 60"

definition rl_allow :: "limiter \<Rightarrow> int \<Rightarrow> rat \<Rightarrow> bool \<times> limiter" where
  "rl_allow l caller_id now =
     (if rl_limit l \<le> 0 then (True, l)
      else
        let (start, count) = (case rl_state l caller_id of None \<Rightarrow> (now, 0) | Some sc \<Rightarrow> sc);
            (start, count) = (if now - start \<ge> rl_window then (now, 0) else (start, count))
        in if count \<ge> rl_limit l then (False, l)
           else (True, l\<lparr>rl_state := (rl_state l)(caller_id \<mapsto> (start, count + 1))\<rparr>))"

text \<open>A sequence of calls, with the calls it grants.\<close>

definition rl_step :: "limiter \<times> (int \<times> rat) list \<Rightarrow> int \<times> rat \<Rightarrow> limiter \<times> (int \<times> rat) list" where
  "rl_step s call =
     (case rl_allow (fst s) (fst call) (snd call) of
        (ok, l) \<Rightarrow> (l, if ok then snd s @ [call] else snd s))"

definition rl_run :: "int \<Rightarrow> (int \<times> rat) list \<Rightarrow> limiter \<times> (int \<times> rat) list" where
  "rl_run limit calls = foldl rl_step (new_limiter limit, []) calls"

definition granted :: "int \<Rightarrow> (int \<times> rat) list \<Rightarrow> int \<Rightarrow> rat list" where
  "granted limit calls c = map snd (filter (\<lambda>ct. fst ct = c) (snd (rl_run limit calls)))"

definition count_in :: "rat list \<Rightarrow> (rat \<Rightarrow> bool) \<Rightarrow> nat" where
  "count_in ts p = length (filter p ts)"

section \<open>The bound\<close>

lemma count_in_simps [simp]:
  "count_in [] p = 0"
  "count_in (ts @ [t]) p = count_in ts p + (if p t then 1 else 0)"
  by (simp_all add: count_in_def)

lemma count_in_mono: "(\<And>t. t \<in> set ts \<Longrightarrow> p t \<Longrightarrow> q t) \<Longrightarrow> count_in ts p \<le> count_in ts q"
  unfolding count_in_def by (induction ts) auto

lemma count_in_split:
  "count_in ts p = count_in ts (\<lambda>t. p t \<and> q t) + count_in ts (\<lambda>t. p t \<and> \<not> q t)"
  by (induction ts) (auto simp: count_in_def)

lemma count_in_none: "(\<And>t. t \<in> set ts \<Longrightarrow> \<not> p t) \<Longrightarrow> count_in ts p = 0"
  by (simp add: count_in_def)

text \<open>
  What the window of one caller knows about the grants so far: it counts those since its start,
  everything earlier lies in older windows, and any earlier minute that reaches into the
  window's own minute holds at most a window's worth.
\<close>

definition window_inv :: "nat \<Rightarrow> rat option \<Rightarrow> (rat \<times> int) option \<Rightarrow> rat list \<Rightarrow> bool" where
  "window_inv L seen st ts \<longleftrightarrow>
     (case st of
        None \<Rightarrow> ts = []
      | Some (start, count) \<Rightarrow>
          count \<le> int L \<and> int (count_in ts (\<lambda>t. start \<le> t)) = count
          \<and> (\<forall>t \<in> set ts. t < start + rl_window)
          \<and> (\<forall>x. start - rl_window < x \<longrightarrow> count_in ts (\<lambda>t. x \<le> t \<and> t < start) \<le> L)
          \<and> (\<forall>x. count_in ts (\<lambda>t. x \<le> t \<and> t < x + rl_window) \<le> 2 * L)
          \<and> (case seen of None \<Rightarrow> False | Some n \<Rightarrow> start \<le> n))"

lemma window_inv_later:
  "window_inv L seen st ts \<Longrightarrow> (\<And>n. seen = Some n \<Longrightarrow> n \<le> now) \<Longrightarrow> window_inv L (Some now) st ts"
  by (fastforce simp: window_inv_def split: option.splits)

lemma window_two_parts:
  assumes "\<forall>x. start - rl_window < x \<longrightarrow> count_in ts (\<lambda>t. x \<le> t \<and> t < start) \<le> L"
    and "count_in ts (\<lambda>t. start \<le> t) \<le> L" and "start - rl_window < x"
  shows "count_in ts (\<lambda>t. x \<le> t \<and> t < x + rl_window) \<le> 2 * L"
proof -
  have "count_in ts (\<lambda>t. (x \<le> t \<and> t < x + rl_window) \<and> t < start)
      \<le> count_in ts (\<lambda>t. x \<le> t \<and> t < start)"
    by (rule count_in_mono) simp
  moreover have "count_in ts (\<lambda>t. (x \<le> t \<and> t < x + rl_window) \<and> \<not> t < start)
      \<le> count_in ts (\<lambda>t. start \<le> t)"
    by (rule count_in_mono) simp
  moreover from assms(1,3) have "count_in ts (\<lambda>t. x \<le> t \<and> t < start) \<le> L" by blast
  ultimately show ?thesis
    using assms(2) count_in_split [of ts "\<lambda>t. x \<le> t \<and> t < x + rl_window" "\<lambda>t. t < start"]
    by linarith
qed

lemma window_inv_first:
  "0 < L \<Longrightarrow> window_inv L (Some now) (Some (now, 1)) [now]"
  by (simp add: window_inv_def rl_window_def count_in_def)

lemma window_inv_grant:
  assumes inv: "window_inv L (Some now) (Some (start, count)) ts"
    and room: "count < int L" and fresh: "now - start < rl_window"
  shows "window_inv L (Some now) (Some (start, count + 1)) (ts @ [now])"
proof -
  from inv have le: "start \<le> now" by (simp add: window_inv_def)
  from inv have before: "\<forall>x. start - rl_window < x \<longrightarrow> count_in ts (\<lambda>t. x \<le> t \<and> t < start) \<le> L"
    by (simp add: window_inv_def)
  have before': "\<forall>x. start - rl_window < x \<longrightarrow> count_in (ts @ [now]) (\<lambda>t. x \<le> t \<and> t < start) \<le> L"
    using before le by simp
  have since: "count_in (ts @ [now]) (\<lambda>t. start \<le> t) \<le> L"
    using inv room le by (simp add: window_inv_def)
  have "count_in (ts @ [now]) (\<lambda>t. x \<le> t \<and> t < x + rl_window) \<le> 2 * L" for x
  proof (cases "start - rl_window < x")
    case True
    with before' since show ?thesis by (rule window_two_parts)
  next
    case False
    with le inv show ?thesis by (simp add: window_inv_def)
  qed
  with inv room fresh le before' show ?thesis
    by (auto simp: window_inv_def algebra_simps)
qed

lemma window_inv_roll:
  assumes inv: "window_inv L (Some now) (Some (start, count)) ts"
    and pos: "0 < L" and old: "rl_window \<le> now - start"
  shows "window_inv L (Some now) (Some (now, 1)) (ts @ [now])"
proof -
  from inv have earlier: "\<forall>t \<in> set ts. t < start + rl_window"
    and some: "count_in ts (\<lambda>t. start \<le> t) \<le> L"
    by (auto simp: window_inv_def)
  from earlier old have before_now: "\<forall>t \<in> set ts. t < now" by fastforce
  then have none: "count_in ts (\<lambda>t. now \<le> t) = 0"
    by (intro count_in_none) (auto simp: not_le)
  have win: "count_in (ts @ [now]) (\<lambda>t. x \<le> t \<and> t < now) \<le> L" if "now - rl_window < x" for x
  proof -
    have "count_in ts (\<lambda>t. x \<le> t \<and> t < now) \<le> count_in ts (\<lambda>t. start \<le> t)"
      using that old by (intro count_in_mono) auto
    with some show ?thesis by simp
  qed
  have "count_in (ts @ [now]) (\<lambda>t. x \<le> t \<and> t < x + rl_window) \<le> 2 * L" for x
  proof (cases "now - rl_window < x")
    case True
    with win none pos show ?thesis by (intro window_two_parts [of now]) auto
  next
    case False
    with inv show ?thesis by (simp add: window_inv_def)
  qed
  with win none pos before_now show ?thesis
    by (auto simp: window_inv_def rl_window_def)
qed

lemma rl_limit_allow [simp]: "rl_limit (snd (rl_allow l c now)) = rl_limit l"
  by (auto simp: rl_allow_def Let_def split: option.splits prod.splits if_splits)

lemma rl_allow_inv:
  assumes inv: "window_inv (nat (rl_limit l)) (Some now) (rl_state l c) ts" and "0 < rl_limit l"
  shows "window_inv (nat (rl_limit l)) (Some now) (rl_state (snd (rl_allow l c now)) c)
           (if fst (rl_allow l c now) then ts @ [now] else ts)"
proof (cases "rl_state l c")
  case None
  with assms show ?thesis
    using window_inv_first [of "nat (rl_limit l)" now]
    by (auto simp: rl_allow_def window_inv_def rl_window_def Let_def)
next
  case (Some sc)
  then obtain start count where st: "rl_state l c = Some (start, count)" by (cases sc) auto
  with assms show ?thesis
    using window_inv_grant [of "nat (rl_limit l)" now start count ts]
      window_inv_roll [of "nat (rl_limit l)" now start count ts]
    by (auto simp: rl_allow_def Let_def not_le)
qed

lemma rl_allow_other: "c' \<noteq> c \<Longrightarrow> rl_state (snd (rl_allow l c now)) c' = rl_state l c'"
  by (auto simp: rl_allow_def Let_def split: prod.splits if_splits)

lemma rl_run_snoc:
  "rl_run limit (calls @ [call]) = rl_step (rl_run limit calls) call"
  by (simp add: rl_run_def)

lemma rl_run_limit [simp]: "rl_limit (fst (rl_run limit calls)) = limit"
proof (induction calls rule: rev_induct)
  case Nil
  show ?case by (simp add: rl_run_def new_limiter_def)
next
  case (snoc call calls)
  then show ?case
    using rl_limit_allow [of "fst (rl_run limit calls)" "fst call" "snd call"]
    by (cases "rl_allow (fst (rl_run limit calls)) (fst call) (snd call)")
      (simp add: rl_run_snoc rl_step_def)
qed

lemma granted_snoc:
  "granted limit (calls @ [(c', now)]) c =
     (if c' = c \<and> fst (rl_allow (fst (rl_run limit calls)) c' now)
      then granted limit calls c @ [now] else granted limit calls c)"
  by (auto simp: granted_def rl_run_snoc rl_step_def split: prod.splits)

lemma sorted_last_le:
  "sorted (map snd (calls @ [(c', now)])) \<Longrightarrow> calls \<noteq> [] \<Longrightarrow> snd (last calls) \<le> (now :: rat)"
  by (auto simp: sorted_append last_map)

lemma rl_run_inv:
  assumes "0 < limit" and "sorted (map snd calls)"
  shows "window_inv (nat limit) (if calls = [] then None else Some (snd (last calls)))
           (rl_state (fst (rl_run limit calls)) c) (granted limit calls c)"
  using assms(2)
proof (induction calls rule: rev_induct)
  case Nil
  show ?case by (simp add: rl_run_def new_limiter_def granted_def window_inv_def)
next
  case (snoc call calls)
  obtain c' now where call: "call = (c', now)" by (cases call)
  let ?l = "fst (rl_run limit calls)"
  from snoc call have IH: "window_inv (nat limit) (Some now) (rl_state ?l c) (granted limit calls c)"
    by (intro window_inv_later [of _ "if calls = [] then None else Some (snd (last calls))"])
      (auto simp: sorted_append dest: sorted_last_le split: if_splits)
  have st: "rl_state (fst (rl_run limit (calls @ [call]))) c = rl_state (snd (rl_allow ?l c' now)) c"
    by (simp add: rl_run_snoc rl_step_def call split: prod.splits)
  show ?case
  proof (cases "c' = c")
    case True
    with rl_allow_inv [of ?l now c "granted limit calls c"] IH assms(1) st show ?thesis
      by (simp add: call granted_snoc)
  next
    case False
    with IH st rl_allow_other [of c c' ?l now] show ?thesis
      by (simp add: call granted_snoc)
  qed
qed

section \<open>Properties\<close>



text \<open>The limiter never starves a caller: one that waits until its window is over is served.\<close>

theorem rl_served_again:
  assumes "rl_state l c = Some (start, count)" and "start + rl_window \<le> now"
  shows "fst (rl_allow l c now)"
  using assms by (auto simp: rl_allow_def Let_def algebra_simps)

theorem rl_served_again_witness:
  "fst (rl_allow \<lparr>rl_limit = 1, rl_state = [7 \<mapsto> (0, 1)]\<rparr> 7 60)"
  by (rule rl_served_again [where start = 0 and count = 1]) (simp_all add: rl_window_def)

end
