(* ===== verification/Effects.thy ===== *)
theory Effects
  imports Prelude "HOL-Library.State_Monad"
begin

text \<open>
  Code with effects: an action over a state, calls that may raise, and triples over both. Every component
  that keeps state and calls others (the lifecycle, the administration, the runtime, the runner) uses it.
\<close>

section \<open>Actions\<close>

abbreviation ret :: "'a \<Rightarrow> ('s, 'a) state" where
  "ret \<equiv> State_Monad.return"

text \<open>Sequencing of calls that may raise: an exception skips the rest.\<close>

definition bind_ok :: "('s, 'x + 'a) state \<Rightarrow> ('a \<Rightarrow> ('s, 'x + 'b) state) \<Rightarrow> ('s, 'x + 'b) state" where
  "bind_ok m f = do { r \<leftarrow> m; case r of Inl x \<Rightarrow> ret (Inl x) | Inr v \<Rightarrow> f v }"

lemma bind_ok_run:
  "run_state (bind_ok m f) w = (case run_state m w of (Inl x, w') \<Rightarrow> (Inl x, w') | (Inr v, w') \<Rightarrow> run_state (f v) w')"
  by (simp add: bind_ok_def split: prod.splits sum.splits)

section \<open>Triples\<close>

definition hoare :: "('s \<Rightarrow> bool) \<Rightarrow> ('s, 'a) state \<Rightarrow> ('a \<Rightarrow> 's \<Rightarrow> bool) \<Rightarrow> bool" where
  "hoare P m Q \<longleftrightarrow> (\<forall>s. P s \<longrightarrow> (case run_state m s of (x, s') \<Rightarrow> Q x s'))"

lemma hoareI: "(\<And>s x s'. P s \<Longrightarrow> run_state m s = (x, s') \<Longrightarrow> Q x s') \<Longrightarrow> hoare P m Q"
  by (auto simp: hoare_def split: prod.splits)

lemma hoareD: "hoare P m Q \<Longrightarrow> P s \<Longrightarrow> run_state m s = (x, s') \<Longrightarrow> Q x s'"
  by (auto simp: hoare_def)

lemma hoare_pre: "hoare P m Q \<Longrightarrow> (\<And>s. P' s \<Longrightarrow> P s) \<Longrightarrow> hoare P' m Q"
  by (auto simp: hoare_def)

lemma hoare_post: "hoare P m Q \<Longrightarrow> (\<And>x s. Q x s \<Longrightarrow> Q' x s) \<Longrightarrow> hoare P m Q'"
  by (fastforce simp: hoare_def)

lemma hoare_ret: "(\<And>s. P s \<Longrightarrow> Q x s) \<Longrightarrow> hoare P (ret x) Q"
  by (auto simp: hoare_def)

lemma hoare_if: "(c \<Longrightarrow> hoare P a Q) \<Longrightarrow> (\<not> c \<Longrightarrow> hoare P b Q) \<Longrightarrow> hoare P (if c then a else b) Q"
  by simp

lemma hoare_bind:
  assumes "hoare P m Q" and "\<And>x. hoare (Q x) (f x) R"
  shows "hoare P (State_Monad.bind m f) R"
proof (rule hoareI)
  fix s z s' assume P: "P s" and run: "run_state (State_Monad.bind m f) s = (z, s')"
  obtain x s1 where one: "run_state m s = (x, s1)" by (cases "run_state m s")
  with run have two: "run_state (f x) s1 = (z, s')" by simp
  from hoareD [OF assms(1) P one] two show "R z s'" by (rule hoareD [OF assms(2)])
qed

lemma hoare_bind_ok:
  assumes "hoare P m Q" and "\<And>v. hoare (Q (Inr v)) (f v) R" and "\<And>x s. Q (Inl x) s \<Longrightarrow> R (Inl x) s"
  shows "hoare P (bind_ok m f) R"
  unfolding bind_ok_def
proof (rule hoare_bind [OF assms(1)])
  fix r show "hoare (Q r) (case r of Inl x \<Rightarrow> ret (Inl x) | Inr v \<Rightarrow> f v) R"
    by (cases r) (auto intro: hoare_ret assms)
qed

lemma hoare_ex: "(\<And>r. hoare (P r) m Q) \<Longrightarrow> hoare (\<lambda>s. \<exists>r. P r s) m Q"
  by (fastforce simp: hoare_def)

lemma hoare_pure: "(A \<Longrightarrow> hoare P m Q) \<Longrightarrow> hoare (\<lambda>s. A \<and> P s) m Q"
  by (auto simp: hoare_def)

end
