(* ===== verification/Lifecycle.thy ===== *)
theory Lifecycle
  imports StoreInv Registry Redaction RateLimit Effects
begin

text \<open>
  \<^verbatim>\<open>broker/request_lifecycle.py\<close>: submitting a request, the approval detour, execution and
  the sweep. The gateway process is single-threaded but shares its database with the command
  line tool and the admin application, so every access to the store is one transaction and the
  other processes may commit any of their transactions before it. The environment record holds
  what the code reads from outside, as functions of a tick that advances with every reading: the
  clock, randomness, manifest files, the transactions the other processes commit, and the
  answers of the approval surface and of the tool runtime. A theorem for every environment is a
  theorem for every interleaving and every answer.
\<close>

section \<open>The environment and the world\<close>

text \<open>What \<^verbatim>\<open>runtime.execute\<close> does: a result, \<^verbatim>\<open>NotDispatched\<close>, or another exception,
  each exception with the name of its type.\<close>

datatype exec_result = ExecOk json | ExecNotDispatched string | ExecRaised string

record env =
  ev_sha :: "string \<Rightarrow> string"
  ev_catalog :: catalog
  ev_clock :: "nat \<Rightarrow> rat"
  ev_rng :: "nat \<Rightarrow> string"
  ev_files :: "nat \<Rightarrow> string \<Rightarrow> string option"
  ev_admin :: "nat \<Rightarrow> admin_txn list"
  ev_surface :: bool
  ev_open :: "nat \<Rightarrow> operation_card \<Rightarrow> string result"
  ev_poll :: "nat \<Rightarrow> string \<Rightarrow> surface_state result"
  ev_execute :: "nat \<Rightarrow> tool_op \<Rightarrow> json \<Rightarrow> int \<Rightarrow> string option \<Rightarrow> exec_result"
  ev_ttl :: rat
  ev_rest_body_max :: int
  ev_observation :: string

text \<open>A call of the runtime, and a card opened on the surface.\<close>

record dispatch =
  dp_request_id :: int
  dp_op :: tool_op
  dp_arguments :: json
  dp_caller :: "string option"

record world =
  w_db :: store
  w_tick :: nat
  w_limiter :: "limiter option"
  w_log :: "dispatch list"
  w_cards :: "operation_card list"

type_synonym 'a act = "(world, 'a) state"

text \<open>The store as this process finds it at a tick.\<close>

definition arrive :: "env \<Rightarrow> world \<Rightarrow> store" where
  "arrive e w = fold run_admin (ev_admin e (w_tick w)) (w_db w)"

definition txn :: "env \<Rightarrow> (nat \<Rightarrow> store \<Rightarrow> 'a \<times> store) \<Rightarrow> 'a act" where
  "txn e f = State (\<lambda>w. case f (w_tick w) (arrive e w) of
     (x, db) \<Rightarrow> (x, w\<lparr>w_db := db, w_tick := w_tick w + 1\<rparr>))"

definition query :: "env \<Rightarrow> (store \<Rightarrow> 'a) \<Rightarrow> 'a act" where
  "query e f = txn e (\<lambda>_ db. (f db, db))"

definition now_time :: "env \<Rightarrow> rat act" where
  "now_time e = txn e (\<lambda>n db. (ev_clock e n, db))"

definition audit_record ::
  "env \<Rightarrow> string \<Rightarrow> string \<Rightarrow> string \<Rightarrow> string \<Rightarrow> int option \<Rightarrow> (string \<times> json) list \<Rightarrow> unit act" where
  "audit_record e component event_type outcome correlation_id request_id details =
     txn e (\<lambda>n db. ((), snd (append_audit (ev_clock e n) component event_type outcome
                          (Some correlation_id) request_id (JObj details) db)))"

definition find_op :: "env \<Rightarrow> string \<Rightarrow> string \<Rightarrow> tool_op option act" where
  "find_op e tool op = txn e (\<lambda>n db. (lookup (ev_sha e) (ev_files e n) (ev_catalog e) tool op, db))"

definition set_request :: "env \<Rightarrow> int \<Rightarrow> req_fields \<Rightarrow> unit act" where
  "set_request e request_id u = txn e (\<lambda>n db. ((), update_request request_id u (ev_clock e n) db))"

definition surface_open :: "env \<Rightarrow> operation_card \<Rightarrow> string result act" where
  "surface_open e c = State (\<lambda>w.
     (ev_open e (w_tick w) c, w\<lparr>w_tick := w_tick w + 1, w_cards := w_cards w @ [c]\<rparr>))"

text \<open>\<^verbatim>\<open>ctx.surface.poll\<close>: without a surface the attribute lookup raises.\<close>

definition surface_poll :: "env \<Rightarrow> string \<Rightarrow> surface_state result act" where
  "surface_poll e ref = State (\<lambda>w.
     (if ev_surface e then ev_poll e (w_tick w) ref else Inl AttributeError,
      w\<lparr>w_tick := w_tick w + 1\<rparr>))"

definition runtime_execute :: "env \<Rightarrow> tool_op \<Rightarrow> json \<Rightarrow> int \<Rightarrow> string option \<Rightarrow> exec_result act" where
  "runtime_execute e tool_op arguments request_id cname = State (\<lambda>w.
     (ev_execute e (w_tick w) tool_op arguments request_id cname,
      w\<lparr>w_tick := w_tick w + 1,
        w_log := w_log w @ [\<lparr>dp_request_id = request_id, dp_op = tool_op, dp_arguments = arguments,
                             dp_caller = cname\<rparr>]\<rparr>))"

section \<open>Outcomes\<close>

datatype ostatus =
    O_OK | O_PENDING | O_DENIED | O_NOT_FOUND | O_FAILED | O_EXPIRED | O_UNAVAILABLE | O_RECEIVED
  | O_EXECUTING | O_UNKNOWN | O_CONFLICT | O_INVALID | O_RESULT_EXPIRED

definition ostatus_str :: "ostatus \<Rightarrow> string" where
  "ostatus_str s = (case s of O_OK \<Rightarrow> ''ok'' | O_PENDING \<Rightarrow> ''pending_approval'' | O_DENIED \<Rightarrow> ''denied''
     | O_NOT_FOUND \<Rightarrow> ''not_found'' | O_FAILED \<Rightarrow> ''failed'' | O_EXPIRED \<Rightarrow> ''expired''
     | O_UNAVAILABLE \<Rightarrow> ''unavailable'' | O_RECEIVED \<Rightarrow> ''received'' | O_EXECUTING \<Rightarrow> ''executing''
     | O_UNKNOWN \<Rightarrow> ''unknown'' | O_CONFLICT \<Rightarrow> ''conflict'' | O_INVALID \<Rightarrow> ''invalid''
     | O_RESULT_EXPIRED \<Rightarrow> ''result_expired'')"

record outcome =
  oc_status :: ostatus
  oc_request_id :: "int option"
  oc_result :: json
  oc_reason :: "string option"
  oc_error :: "string option"
  oc_detail :: "string option"
  oc_approver :: "string option"
  oc_note :: "string option"
  oc_decided_at :: "string option"
  oc_key :: "string option"
  oc_pruned :: bool
  oc_reused :: bool

definition outcome0 :: "ostatus \<Rightarrow> outcome" where
  "outcome0 s = \<lparr>oc_status = s, oc_request_id = None, oc_result = JNull, oc_reason = None,
     oc_error = None, oc_detail = None, oc_approver = None, oc_note = None, oc_decided_at = None,
     oc_key = None, oc_pruned = False, oc_reused = False\<rparr>"

definition failure :: "ostatus \<Rightarrow> int \<Rightarrow> string \<Rightarrow> outcome" where
  "failure s request_id error = (outcome0 s)\<lparr>oc_request_id := Some request_id, oc_error := Some error\<rparr>"

definition status_outcome :: "rstatus \<Rightarrow> ostatus" where
  "status_outcome s = (case s of Completed \<Rightarrow> O_OK | Denied \<Rightarrow> O_DENIED | Expired \<Rightarrow> O_EXPIRED
     | Failed \<Rightarrow> O_FAILED | PendingApproval \<Rightarrow> O_PENDING | Running \<Rightarrow> O_EXECUTING
     | Executing \<Rightarrow> O_EXECUTING | Received \<Rightarrow> O_RECEIVED | Unknown \<Rightarrow> O_UNKNOWN
     | ResultExpired \<Rightarrow> O_RESULT_EXPIRED | NotFound \<Rightarrow> O_NOT_FOUND | Invalid \<Rightarrow> O_INVALID)"

text \<open>\<^verbatim>\<open>_outcome_from_request\<close>; subscripting a missing row raises.\<close>

definition outcome_from_request :: "request_row option \<Rightarrow> approval_row option \<Rightarrow> outcome result" where
  "outcome_from_request req app =
     (case req of
        None \<Rightarrow> Inl TypeError
      | Some r \<Rightarrow> Inr
          \<lparr>oc_status = status_outcome (rq_status r), oc_request_id = Some (rq_id r),
           oc_result = the_or JNull (rq_result r),
           oc_reason = (if rq_error r = Some ''approval_rejected'' then Some ''approval_rejected'' else None),
           oc_error = rq_error r, oc_detail = None,
           oc_approver = Option.bind app ap_approver,
           oc_note = Option.bind app (\<lambda>a. redact (ap_note a) redact_max),
           oc_decided_at = Option.bind app ap_decided_at,
           oc_key = rq_key r, oc_pruned = (rq_pruned_at r \<noteq> None), oc_reused = False\<rparr>)"

text \<open>The two rows read again, each in its own access.\<close>

definition current_outcome :: "env \<Rightarrow> int \<Rightarrow> outcome result act" where
  "current_outcome e request_id = do {
     req \<leftarrow> query e (\<lambda>db. request db request_id);
     app \<leftarrow> query e (\<lambda>db. approval_for_request db request_id);
     ret (outcome_from_request req app)
   }"

definition tool_op_details :: "string \<Rightarrow> string \<Rightarrow> (string \<times> json) list" where
  "tool_op_details tool op = [(''tool'', JStr tool), (''op'', JStr op)]"

section \<open>Execution\<close>

text \<open>The arguments every closing update passes.\<close>

definition closed_as :: "rstatus \<Rightarrow> string \<Rightarrow> req_fields" where
  "closed_as s error = no_fields\<lparr>up_status := Some s, up_error := Some (Some error), up_arguments := Some None\<rparr>"

definition rest_details :: "tool_op \<Rightarrow> json \<Rightarrow> (string \<times> json) list" where
  "rest_details t result =
     (if to_type t = ''rest''
      then [(''outbound_host'', opt_str (to_base_url_host t)), (''outbound_verb'', opt_str (to_verb t)),
            (''outbound_path_template'', opt_str (to_path_template t)),
            (''outbound_status'', jget0 ''status'' result)]
      else [])"

text \<open>\<^verbatim>\<open>execute_request\<close>. Its branch for an unregistered operation is dead: \<^verbatim>\<open>claimed_op\<close> is
  not \<^verbatim>\<open>None\<close> there.\<close>

definition execute_request ::
  "env \<Rightarrow> int \<Rightarrow> string \<Rightarrow> string \<Rightarrow> json \<Rightarrow> string \<Rightarrow> string option \<Rightarrow> tool_op option \<Rightarrow> outcome act" where
  "execute_request e request_id tool op arguments correlation_id cname claimed_op = do {
     req \<leftarrow> query e (\<lambda>db. request db request_id);
     case (if map_option rq_status req = Some Executing then claimed_op else None) of
       None \<Rightarrow> ret (failure O_FAILED request_id ''execution_not_claimed'')
     | Some t \<Rightarrow> do {
         audit_record e ''runtime'' ''execution_started'' ''accepted'' correlation_id (Some request_id)
           (tool_op_details tool op);
         res \<leftarrow> runtime_execute e t arguments request_id cname;
         case res of
           ExecNotDispatched detail \<Rightarrow> do {
             set_request e request_id (closed_as Failed ''tool_unreachable'');
             audit_record e ''runtime'' ''execution_failed'' ''failed'' correlation_id (Some request_id)
               (tool_op_details tool op @ [(''error'', JStr ''unreachable''), (''detail'', JStr detail)]);
             ret ((failure O_FAILED request_id ''tool_unreachable'')\<lparr>oc_detail := Some detail\<rparr>)
           }
         | ExecRaised detail \<Rightarrow> do {
             set_request e request_id (closed_as Unknown ''execution_outcome_unknown'');
             audit_record e ''runtime'' ''execution_unknown'' ''unknown'' correlation_id (Some request_id)
               (tool_op_details tool op @ [(''error'', JStr detail), (''detail'', JStr detail)]);
             ret ((failure O_UNKNOWN request_id ''execution_outcome_unknown'')\<lparr>oc_detail := Some detail\<rparr>)
           }
         | ExecOk result \<Rightarrow> do {
             set_request e request_id (no_fields\<lparr>up_status := Some Completed,
               up_result := Some (Some result), up_arguments := Some None\<rparr>);
             audit_record e ''runtime'' ''execution_completed'' ''ok'' correlation_id (Some request_id)
               (tool_op_details tool op @ rest_details t result);
             ret ((outcome0 O_OK)\<lparr>oc_request_id := Some request_id, oc_result := result\<rparr>)
           }
       }
   }"

section \<open>Approvals\<close>

definition rest_endpoint :: "tool_op \<Rightarrow> string option" where
  "rest_endpoint t =
     (if to_type t \<noteq> ''rest'' then None
      else let s = join_with '' '' (filter (\<lambda>b. b \<noteq> [])
                     [the_or [] (to_verb t), the_or [] (to_base_url_host t), the_or [] (to_path_template t)])
           in if s = [] then None else Some s)"

definition open_approval ::
  "env \<Rightarrow> int \<Rightarrow> string \<Rightarrow> string \<Rightarrow> string \<Rightarrow> tool_op \<Rightarrow> json \<Rightarrow> string \<Rightarrow> outcome result act" where
  "open_approval e request_id cname tool op t arguments correlation_id =
     (if \<not> ev_surface e then do {
        set_request e request_id (no_fields\<lparr>up_status := Some Failed, up_error := Some (Some ''approval_unavailable'')\<rparr>);
        audit_record e ''approval'' ''unavailable'' ''unavailable'' correlation_id (Some request_id)
          (tool_op_details tool op);
        ret (Inr (failure O_UNAVAILABLE request_id ''approval_unavailable''))
      }
      else do {
        req \<leftarrow> query e (\<lambda>db. request db request_id);
        case req of
          None \<Rightarrow> ret (Inl TypeError)
        | Some r \<Rightarrow>
            (case summarize arguments (to_approval_fields t) of
               Inl x \<Rightarrow> ret (Inl x)
             | Inr details \<Rightarrow> do {
                 installation \<leftarrow> query e st_installation;
                 opened \<leftarrow> surface_open e (build_card request_id cname tool op (to_risk t) ''policy review''
                   None (Some details) (rest_endpoint t) (Some installation) (rq_digest r) (Some (to_generation t)));
                 case opened of
                   Inl x \<Rightarrow> do {
                     set_request e request_id (closed_as Failed ''approval_unavailable'');
                     audit_record e ''approval'' ''open_failed'' ''unavailable'' correlation_id (Some request_id)
                       (tool_op_details tool op @ [(''error'', JStr (exn_name x))]);
                     ret (Inr (failure O_UNAVAILABLE request_id ''approval_unavailable''))
                   }
                 | Inr ref \<Rightarrow> do {
                     now \<leftarrow> now_time e;
                     bind_ok (txn e (\<lambda>n db. create_approval request_id ref (now + ev_ttl e) (rq_digest r) (ev_clock e n) db))
                       (\<lambda>_. do {
                         set_request e request_id (no_fields\<lparr>up_status := Some PendingApproval\<rparr>);
                         audit_record e ''approval'' ''opened'' ''pending_approval'' correlation_id (Some request_id)
                           (tool_op_details tool op @ [(''risk'', to_risk t)]);
                         ret (Inr ((outcome0 O_PENDING)\<lparr>oc_request_id := Some request_id\<rparr>))
                       })
                   }
               })
      })"

text \<open>\<^verbatim>\<open>_expire_approval\<close>. \<^verbatim>\<open>surface.cancel\<close> returns nothing and its exceptions are
  swallowed, so the call is one access of the other processes.\<close>

definition expire_approval :: "env \<Rightarrow> int \<Rightarrow> string \<Rightarrow> string \<Rightarrow> string \<Rightarrow> rat \<Rightarrow> bool result act" where
  "expire_approval e request_id tool op correlation_id now =
     bind_ok (txn e (\<lambda>_ db. finish_pending request_id Expired AExpired None None now True db))
       (\<lambda>changed.
          if \<not> changed then ret (Inr False)
          else do {
            query e (\<lambda>_. ());
            audit_record e ''approval'' ''expired'' ''expired'' correlation_id (Some request_id)
              (tool_op_details tool op);
            ret (Inr True)
          })"

fun sweep_rows :: "env \<Rightarrow> rat \<Rightarrow> (approval_row \<times> request_row) list \<Rightarrow> nat \<Rightarrow> nat result act" where
  "sweep_rows e now [] count = ret (Inr count)"
| "sweep_rows e now ((a, r) # rows) count =
     bind_ok (expire_approval e (ap_request_id a) (rq_tool r) (rq_op r) (rq_correlation_id r) now)
       (\<lambda>changed. sweep_rows e now rows (count + (if changed then 1 else 0)))"

definition sweep_expired :: "env \<Rightarrow> nat result act" where
  "sweep_expired e = do {
     now \<leftarrow> now_time e;
     rows \<leftarrow> query e (expired_pending_approvals now);
     sweep_rows e now rows 0
   }"

section \<open>Submission\<close>

definition is_b64_char :: "char \<Rightarrow> bool" where
  "is_b64_char c \<longleftrightarrow> is_alnum c \<or> c \<in> set ''+/''"

text \<open>\<^verbatim>\<open>base64.b64decode(s, validate=True)\<close>: the number of bytes, or \<^const>\<open>None\<close> if it raises.\<close>

definition b64_size :: "string \<Rightarrow> nat option" where
  "b64_size s =
     (let body = takeWhile is_b64_char s; pad = dropWhile is_b64_char s; k = length body mod 4
      in if (k = 0 \<and> pad = []) then Some (3 * (length body div 4))
         else if (k = 2 \<and> pad = ''=='') then Some (3 * (length body div 4) + 1)
         else if (k = 3 \<and> pad = ''='') then Some (3 * (length body div 4) + 2)
         else None)"

definition utf8_len :: "string \<Rightarrow> nat" where
  "utf8_len s = sum_list (map (\<lambda>c. if code c < 128 then 1 else 2) s)"

definition str_map_error :: "string \<Rightarrow> json \<Rightarrow> string option" where
  "str_map_error key arguments =
     (case jget0 key arguments of
        JNull \<Rightarrow> None
      | JObj d \<Rightarrow> if list_all (\<lambda>kv. is_str (snd kv)) d then None
                 else Some (key @ '' must contain only string keys and values'')
      | _ \<Rightarrow> Some (key @ '' must be an object''))"

text \<open>\<^verbatim>\<open>gateway._validate_rest_arguments\<close>: what is wrong with the arguments, if anything.\<close>

definition validate_rest_arguments :: "int \<Rightarrow> tool_op \<Rightarrow> json \<Rightarrow> string option" where
  "validate_rest_arguments body_max t arguments =
     (case str_map_error ''variables'' arguments of Some m \<Rightarrow> Some m | None \<Rightarrow>
     (case str_map_error ''headers'' arguments of Some m \<Rightarrow> Some m | None \<Rightarrow>
      let body_kind = (case to_body_kind t of None \<Rightarrow> ''none'' | Some k \<Rightarrow> if k = [] then ''none'' else k) in
      if body_kind = ''none'' then
        (if jget ''body'' arguments \<noteq> None then Some ''body must be absent for this operation'' else None)
      else (case jget0 ''body'' arguments of
          JStr body \<Rightarrow>
            (case (if body_kind = ''binary'' then b64_size body else Some (utf8_len body)) of
               None \<Rightarrow> Some ''binary body must be base64''
             | Some sz \<Rightarrow> if int sz > body_max then Some ''body exceeds TOOLSTACK_REST_BODY_MAX'' else None)
        | _ \<Rightarrow> Some ''body must be a string'')))"

text \<open>\<^verbatim>\<open>reason if reason and reason.strip() else None\<close>.\<close>

definition clean_reason :: "json \<Rightarrow> string option" where
  "clean_reason reason = (case reason of JStr s \<Rightarrow> if py_strip s = [] then None else Some s | _ \<Rightarrow> None)"

text \<open>The part of \<^verbatim>\<open>_submit\<close> after the row is reserved by this call.\<close>

definition advance_received ::
  "env \<Rightarrow> caller \<Rightarrow> string \<Rightarrow> string \<Rightarrow> json \<Rightarrow> string \<Rightarrow> string option \<Rightarrow> string option \<Rightarrow> request_row
     \<Rightarrow> tool_op option \<Rightarrow> outcome result act" where
  "advance_received e cl tool op arguments correlation_id reason key req tool_op =
     (let request_id = rq_id req in
      case tool_op of
        None \<Rightarrow> do {
          set_request e request_id (no_fields\<lparr>up_status := Some NotFound, up_arguments := Some None\<rparr>);
          ret (Inr ((outcome0 O_NOT_FOUND)\<lparr>oc_request_id := Some request_id\<rparr>))
        }
      | Some t \<Rightarrow> do {
          audit_record e ''request'' ''received'' ''accepted'' correlation_id (Some request_id)
            (tool_op_details tool op @ [(''risk'', to_risk t), (''has_idempotency_key'', JBool (key \<noteq> None))]
             @ (if reason \<noteq> None then [(''reason_provided'', JBool True)] else []));
          decision \<leftarrow> query e (\<lambda>db. decide (policy_for db (cl_id cl)) tool op);
          if decision = DENY then do {
            set_request e request_id (no_fields\<lparr>up_status := Some Denied, up_arguments := Some None\<rparr>);
            audit_record e ''policy'' ''decision_deny'' ''denied'' correlation_id (Some request_id)
              (tool_op_details tool op);
            ret (Inr ((outcome0 O_DENIED)\<lparr>oc_request_id := Some request_id, oc_reason := Some ''policy''\<rparr>))
          }
          else
            case (if to_type t = ''rest'' then validate_rest_arguments (ev_rest_body_max e) t arguments else None) of
              Some invalid \<Rightarrow> do {
                set_request e request_id (closed_as Invalid ''invalid_envelope'');
                ret (Inr ((failure O_INVALID request_id ''invalid_envelope'')\<lparr>oc_detail := Some invalid\<rparr>))
              }
            | None \<Rightarrow>
                if decision = REVIEW then do {
                  audit_record e ''policy'' ''decision_review_required'' ''pending_approval'' correlation_id
                    (Some request_id) (tool_op_details tool op @ [(''risk'', to_risk t)]);
                  open_approval e request_id (cl_name cl) tool op t arguments correlation_id
                }
                else do {
                  audit_record e ''policy'' ''decision_allow'' ''ok'' correlation_id (Some request_id)
                    (tool_op_details tool op);
                  current_op \<leftarrow> find_op e tool op;
                  ok \<leftarrow> txn e (\<lambda>n db. claim_received (ev_sha e) request_id (map_option to_generation current_op)
                                cl (rq_digest req) (ev_rng e n) (ev_clock e n) db);
                  if \<not> ok then do {
                    row \<leftarrow> query e (\<lambda>db. request db request_id);
                    ret (outcome_from_request row None)
                  }
                  else do {
                    out \<leftarrow> execute_request e request_id tool op arguments correlation_id (Some (cl_name cl)) current_op;
                    ret (Inr out)
                  }
                }
        })"

definition submit_inner ::
  "env \<Rightarrow> caller \<Rightarrow> string \<Rightarrow> string \<Rightarrow> json \<Rightarrow> string \<Rightarrow> json \<Rightarrow> string option \<Rightarrow> outcome result act" where
  "submit_inner e cl tool op arguments correlation_id reason key =
     bind_ok (sweep_expired e) (\<lambda>_. do {
       tool_op \<leftarrow> find_op e tool op;
       if tool_op = None \<and> key = None then do {
         audit_record e ''registry'' ''tool_lookup_failed'' ''not_found'' correlation_id None
           (tool_op_details tool op);
         ret (Inr (outcome0 O_NOT_FOUND))
       }
       else if \<not> is_obj arguments \<or> (reason \<noteq> JNull \<and> \<not> is_str reason) then
         ret (Inr ((outcome0 O_INVALID)\<lparr>oc_error := Some ''invalid_action''\<rparr>))
       else do {
         reserved \<leftarrow> txn e (\<lambda>n db. reserve_action (ev_sha e) cl correlation_id tool op arguments
           (clean_reason reason) (case tool_op of None \<Rightarrow> [] | Some t \<Rightarrow> to_generation t) key
           (ev_rng e n) (ev_clock e n) db);
         case reserved of
           Inl PermissionError \<Rightarrow> ret (Inr ((outcome0 O_DENIED)\<lparr>oc_reason := Some ''authority''\<rparr>))
         | Inl ValueError \<Rightarrow> ret (Inr ((outcome0 O_INVALID)\<lparr>oc_error := Some ''invalid_action_or_key''\<rparr>))
         | Inl TypeError \<Rightarrow> ret (Inr ((outcome0 O_INVALID)\<lparr>oc_error := Some ''invalid_action_or_key''\<rparr>))
         | Inl x \<Rightarrow> ret (Inl x)
         | Inr (req, created, conflict) \<Rightarrow>
             if conflict then ret (Inr (failure O_CONFLICT (rq_id req) ''idempotency_conflict''))
             else if \<not> created then do {
               app \<leftarrow> query e (\<lambda>db. approval_for_request db (rq_id req));
               ret (case outcome_from_request (Some req) app of
                      Inl x \<Rightarrow> Inl x | Inr out \<Rightarrow> Inr (out\<lparr>oc_reused := True\<rparr>))
             }
             else advance_received e cl tool op arguments correlation_id (clean_reason reason) key req tool_op
       }
     })"

definition submit ::
  "env \<Rightarrow> caller \<Rightarrow> string \<Rightarrow> string \<Rightarrow> json \<Rightarrow> string \<Rightarrow> json \<Rightarrow> string option \<Rightarrow> outcome result act" where
  "submit e cl tool op arguments correlation_id reason key =
     (case validate_idempotency_key key of
        Inl _ \<Rightarrow> ret (Inr ((outcome0 O_INVALID)\<lparr>oc_error := Some ''invalid_idempotency_key''\<rparr>))
      | Inr _ \<Rightarrow> bind_ok (submit_inner e cl tool op arguments correlation_id reason key)
                   (\<lambda>out. ret (Inr (out\<lparr>oc_key := key\<rparr>))))"

section \<open>Resolution\<close>

text \<open>\<^verbatim>\<open>resolve_request\<close> after the surface has answered, for each kind of answer.\<close>

definition surface_word :: "surface_outcome \<Rightarrow> string" where
  "surface_word s = (case s of SPending \<Rightarrow> ''pending'' | SApproved \<Rightarrow> ''approved'' | SRejected \<Rightarrow> ''rejected''
     | SExpired \<Rightarrow> ''expired'' | SCancelled \<Rightarrow> ''cancelled'')"

definition astatus_word :: "astatus \<Rightarrow> string" where
  "astatus_word s = (case s of APending \<Rightarrow> ''pending'' | AApproved \<Rightarrow> ''approved'' | ARejected \<Rightarrow> ''rejected''
     | AExpired \<Rightarrow> ''expired'' | ACancelled \<Rightarrow> ''cancelled'')"

definition resolve_approved ::
  "env \<Rightarrow> request_row \<Rightarrow> surface_state \<Rightarrow> rat \<Rightarrow> caller option \<Rightarrow> outcome result act" where
  "resolve_approved e req state now cl =
     (let request_id = rq_id req; tool = rq_tool req; op = rq_op req in do {
        tool_op \<leftarrow> find_op e tool op;
        t \<leftarrow> now_time e;
        ok \<leftarrow> txn e (\<lambda>n db. claim_approval (ev_sha e) request_id (map_option to_generation tool_op) state
               (max now t) cl (ev_rng e n) db);
        if \<not> ok then current_outcome e request_id
        else do {
          audit_record e ''approval'' ''approved'' ''ok'' (rq_correlation_id req) (Some request_id)
            (tool_op_details tool op @ [(''approver'', opt_str (ss_approver state))]);
          cname \<leftarrow> query e (\<lambda>db. caller_name db (rq_caller_id req));
          out \<leftarrow> execute_request e request_id tool op (the_or (JObj []) (rq_arguments req))
                 (rq_correlation_id req) cname tool_op;
          ret (Inr (out\<lparr>oc_approver := ss_approver state, oc_note := ss_note state,
                        oc_decided_at := ss_decided_at state\<rparr>))
        }
      })"

definition resolve_rejected :: "env \<Rightarrow> request_row \<Rightarrow> surface_state \<Rightarrow> rat \<Rightarrow> outcome result act" where
  "resolve_rejected e req state now =
     (let request_id = rq_id req in do {
        t \<leftarrow> now_time e;
        bind_ok (txn e (\<lambda>_ db. finish_pending request_id Denied ARejected (Some ''approval_rejected'') (Some state)
                  (max now t) False db))
          (\<lambda>changed.
             if \<not> changed then current_outcome e request_id
             else do {
               current \<leftarrow> query e (\<lambda>db. approval_for_request db request_id);
               row \<leftarrow> query e (\<lambda>db. request db request_id);
               case (outcome_from_request row current, current) of
                 (Inl x, _) \<Rightarrow> ret (Inl x)
               | (Inr out, None) \<Rightarrow> ret (Inl TypeError)
               | (Inr out, Some a) \<Rightarrow> do {
                   audit_record e ''approval'' (astatus_word (ap_status a)) (ostatus_str (oc_status out))
                     (rq_correlation_id req) (Some request_id)
                     (tool_op_details (rq_tool req) (rq_op req) @ [(''approver'', opt_str (ss_approver state))]);
                   ret (Inr out)
                 }
             })
      })"

definition resolve_withdrawn :: "env \<Rightarrow> request_row \<Rightarrow> astatus \<Rightarrow> rat \<Rightarrow> outcome result act" where
  "resolve_withdrawn e req a now =
     (let request_id = rq_id req in do {
        t \<leftarrow> now_time e;
        bind_ok (txn e (\<lambda>_ db. finish_pending request_id Expired a None None (max now t) False db))
          (\<lambda>changed.
             if \<not> changed then current_outcome e request_id
             else do {
               audit_record e ''approval'' ''expired'' ''expired'' (rq_correlation_id req) (Some request_id)
                 (tool_op_details (rq_tool req) (rq_op req));
               current_outcome e request_id
             })
      })"

text \<open>The last part of \<^verbatim>\<open>resolve_request\<close>, from the check of the deadline after the poll.\<close>

definition resolve_decided ::
  "env \<Rightarrow> request_row \<Rightarrow> surface_state \<Rightarrow> rat \<Rightarrow> caller option \<Rightarrow> outcome result act" where
  "resolve_decided e req state now cl = do {
     (if ss_outcome state \<in> {SApproved, SRejected} then
        audit_record e ''approval'' ''surface_decision_received'' ''ok'' (rq_correlation_id req) (Some (rq_id req))
          (tool_op_details (rq_tool req) (rq_op req) @ [(''outcome'', JStr (surface_word (ss_outcome state)))])
      else ret ());
     case ss_outcome state of
       SApproved \<Rightarrow> resolve_approved e req state now cl
     | SRejected \<Rightarrow> resolve_rejected e req state now
     | SExpired \<Rightarrow> resolve_withdrawn e req AExpired now
     | SCancelled \<Rightarrow> resolve_withdrawn e req ACancelled now
     | SPending \<Rightarrow> current_outcome e (rq_id req)
   }"

text \<open>The part of \<^verbatim>\<open>resolve_request\<close> after the poll: both rows are read again.\<close>

definition resolve_polled ::
  "env \<Rightarrow> int \<Rightarrow> request_row \<Rightarrow> surface_state \<Rightarrow> rat \<Rightarrow> caller option \<Rightarrow> outcome result act" where
  "resolve_polled e request_id req st now cl = do {
     t \<leftarrow> now_time e;
     cur \<leftarrow> query e (\<lambda>db. request db request_id);
     cur_app \<leftarrow> query e (\<lambda>db. approval_for_request db request_id);
     case (cur, cur_app) of
       (Some c, Some ca) \<Rightarrow>
         if rq_status c \<noteq> PendingApproval \<or> ap_status ca \<noteq> APending
         then ret (outcome_from_request cur cur_app)
         else if max now t \<ge> ap_expires_at ca then
           bind_ok (expire_approval e request_id (rq_tool req) (rq_op req) (rq_correlation_id req) (max now t))
             (\<lambda>_. current_outcome e request_id)
         else resolve_decided e req (st\<lparr>ss_note := redact (ss_note st) redact_max\<rparr>) now cl
     | (None, _) \<Rightarrow> ret (Inl TypeError)
     | (Some c, None) \<Rightarrow>
         if rq_status c \<noteq> PendingApproval then ret (outcome_from_request cur cur_app)
         else ret (Inl TypeError)
   }"

text \<open>The part for a pending request with an approval: the broker's deadline comes first.\<close>

definition resolve_pending ::
  "env \<Rightarrow> int \<Rightarrow> request_row \<Rightarrow> approval_row \<Rightarrow> rat \<Rightarrow> caller option \<Rightarrow> outcome result act" where
  "resolve_pending e request_id req a now cl =
     (if now \<ge> ap_expires_at a then
        bind_ok (expire_approval e request_id (rq_tool req) (rq_op req) (rq_correlation_id req) now)
          (\<lambda>_. current_outcome e request_id)
      else bind_ok (surface_poll e (ap_surface_ref a)) (\<lambda>st. resolve_polled e request_id req st now cl))"

definition resolve_request :: "env \<Rightarrow> int \<Rightarrow> caller option \<Rightarrow> outcome result act" where
  "resolve_request e request_id cl = do {
     now \<leftarrow> now_time e;
     row \<leftarrow> query e (\<lambda>db. request db request_id);
     case row of
       None \<Rightarrow> ret (Inr (outcome0 O_NOT_FOUND))
     | Some req \<Rightarrow> do {
         app \<leftarrow> query e (\<lambda>db. approval_for_request db request_id);
         if rq_status req \<noteq> PendingApproval then ret (outcome_from_request row app)
         else case app of
             None \<Rightarrow> ret (Inr ((outcome0 O_PENDING)\<lparr>oc_request_id := Some request_id\<rparr>))
           | Some a \<Rightarrow> resolve_pending e request_id req a now cl
       }
   }"

end
