(* ===== verification/Runtime.thy ===== *)
theory Runtime
  imports Lifecycle
begin

text \<open>
  \<^verbatim>\<open>broker/runtime.py\<close>, \<^verbatim>\<open>broker/bounds.py\<close> and \<^verbatim>\<open>broker/tool_state.py\<close>: calling a tool over loopback
  HTTP in its three dialects. The network is a function from its state and a request to what comes of it,
  a body being a list of reads; the JSON parser, \<^verbatim>\<open>str\<close> of a JSON value and the state file are parameters.
  The world logs every request that is attempted with its outcome.
\<close>

section \<open>Bounded reading\<close>

text \<open>What the socket gives in turn: bytes, nothing before the deadline or the idle limit, or an error of
  that name. The end of the list is the end of the stream.\<close>

datatype rd = Bytes string | Stalled | Broken string

datatype stop = Eof | TimedOut | TooLarge | Lost string

text \<open>\<^verbatim>\<open>chunks\<close>: the pieces it yields and why it stops; \<open>left\<close> is the budget of the execution. Bytes
  a read does not ask for stay for the next one.\<close>

function chunk_list :: "nat \<Rightarrow> rd list \<Rightarrow> string list \<times> stop" where
  "chunk_list left [] = ([], Eof)"
| "chunk_list left (Stalled # rs) = ([], TimedOut)"
| "chunk_list left (Broken name # rs) = ([], Lost name)"
| "chunk_list left (Bytes s # rs) =
     (let n = min 4096 (left + 1); chunk = take n s in
      if chunk = [] then ([], Eof)
      else if length chunk > left then ([], TooLarge)
      else apfst ((#) chunk) (chunk_list (left - length chunk) (if drop n s = [] then rs else Bytes (drop n s) # rs)))"
  by pat_completeness auto
termination
  by (relation "measure (\<lambda>(l, rs). sum_list (map (\<lambda>r. case r of Bytes s \<Rightarrow> Suc (length s) | _ \<Rightarrow> 1) rs))")
    (auto simp: min_def)

declare chunk_list.simps(4) [simp del]

section \<open>Exceptions, requests and the network\<close>

datatype rt_exn =
    NotDispatchedE
  | ToolUnreachableE string
  | RuntimeE string
  | LimitE
  | TimeoutE
  | OtherE string

definition exec_of :: "rt_exn + json \<Rightarrow> exec_result" where
  "exec_of r =
     (case r of Inr v \<Rightarrow> ExecOk v
      | Inl NotDispatchedE \<Rightarrow> ExecNotDispatched ''NotDispatched''
      | Inl (ToolUnreachableE _) \<Rightarrow> ExecRaised ''ToolUnreachable''
      | Inl (RuntimeE _) \<Rightarrow> ExecRaised ''RuntimeError''
      | Inl LimitE \<Rightarrow> ExecRaised ''LimitExceeded''
      | Inl TimeoutE \<Rightarrow> ExecRaised ''TimeoutError''
      | Inl (OtherE name) \<Rightarrow> ExecRaised name)"

record tool_request =
  tq_url :: string
  tq_headers :: "(string \<times> string) list"
  tq_body :: string

text \<open>The outcome of \<^verbatim>\<open>_OPENER.open\<close>: the budget was used up before a connection was tried, the connection
  was refused or failed otherwise (both a \<^verbatim>\<open>URLError\<close>), the response could not be read, or a response.\<close>

datatype net_result =
    TooLate
  | ConnRefused string
  | ConnFailed string
  | ReplyFailed string
  | Reply int "(string \<times> string) list" "rd list"

text \<open>\<^verbatim>\<open>json.loads\<close> of bytes: a value, a \<^verbatim>\<open>JSONDecodeError\<close>, a \<^verbatim>\<open>UnicodeDecodeError\<close> (which is a
  \<^verbatim>\<open>ValueError\<close> too), or another exception.\<close>

datatype parsed = Parsed json | NotJson | NotUtf8 | LoadRaised string

record 'h rt_env =
  re_net :: "'h \<Rightarrow> tool_request \<Rightarrow> net_result \<times> 'h"
  re_secret :: "string \<Rightarrow> string option"
  re_loads :: "string \<Rightarrow> parsed"
  re_str :: "json \<Rightarrow> string"
  re_late :: "'h \<Rightarrow> bool"

record 'h rt_world =
  rw_net :: 'h
  rw_log :: "(tool_request \<times> net_result) list"
  rw_left :: nat

type_synonym ('h, 'a) rt = "('h rt_world, rt_exn + 'a) state"

definition rt_ok :: "'a \<Rightarrow> ('h, 'a) rt" where
  "rt_ok v = State_Monad.return (Inr v)"

definition rt_raise :: "rt_exn \<Rightarrow> ('h, 'a) rt" where
  "rt_raise x = State_Monad.return (Inl x)"

text \<open>A header value \<^verbatim>\<open>http.client\<close> refuses, before it connects: a line break that is not a fold.\<close>

fun illegal_header :: "string \<Rightarrow> bool" where
  "illegal_header [] = False"
| "illegal_header (c # cs) =
     (c = CHR 0x0A \<and> (cs = [] \<or> hd cs \<notin> {CHR '' '', CHR 0x09})
      \<or> c = CHR 0x0D \<and> (cs = [] \<or> hd cs \<notin> {CHR '' '', CHR 0x09, CHR 0x0A})
      \<or> illegal_header cs)"

definition rt_open :: "'h rt_env \<Rightarrow> tool_request \<Rightarrow> ('h, net_result) rt" where
  "rt_open e req = State (\<lambda>w.
     if list_ex (\<lambda>kv. illegal_header (snd kv)) (tq_headers req) then (Inl (OtherE ''ValueError''), w)
     else (case re_net e (rw_net w) req of
       (r, h) \<Rightarrow> (if r = TooLate then Inl TimeoutE else Inr r, w\<lparr>rw_net := h, rw_log := rw_log w @ [(req, r)]\<rparr>)))"

definition stop_exn :: "stop \<Rightarrow> rt_exn option" where
  "stop_exn s = (case s of Eof \<Rightarrow> None | TimedOut \<Rightarrow> Some TimeoutE | TooLarge \<Rightarrow> Some LimitE | Lost name \<Rightarrow> Some (OtherE name))"

text \<open>\<^verbatim>\<open>read_response\<close>.\<close>

definition rt_read :: "rd list \<Rightarrow> ('h, string) rt" where
  "rt_read rs = State (\<lambda>w.
     case chunk_list (rw_left w) rs of
       (cs, st) \<Rightarrow> ((case stop_exn st of None \<Rightarrow> Inr (concat cs) | Some x \<Rightarrow> Inl x),
                   w\<lparr>rw_left := rw_left w - length (concat cs)\<rparr>))"

definition json_dumps :: "json \<Rightarrow> string" where
  "json_dumps = dumps '', '' '': ''"

section \<open>The api and rest dialects\<close>

definition tool_base :: "tool_op \<Rightarrow> string" where
  "tool_base t = ''http://127.0.0.1:'' @ show_int (to_port t)"

definition with_secret :: "string option \<Rightarrow> (string \<times> string) list \<Rightarrow> (string \<times> string) list" where
  "with_secret secret hs =
     hs @ (case secret of None \<Rightarrow> [] | Some s \<Rightarrow> if s = [] then [] else [(''X-Toolstack-Secret'', s)])"

definition caller_json :: "string option \<Rightarrow> json" where
  "caller_json cname = JObj [(''name'', opt_str cname)]"

definition api_request :: "'h rt_env \<Rightarrow> tool_op \<Rightarrow> json \<Rightarrow> int \<Rightarrow> string option \<Rightarrow> tool_request" where
  "api_request e t arguments request_id cname =
     \<lparr>tq_url = tool_base t @ ''/v1/actions/'' @ to_op t,
      tq_headers = with_secret (re_secret e (to_tool t)) [(''Content-Type'', ''application/json'')],
      tq_body = json_dumps (JObj [(''arguments'', arguments), (''broker_request_id'', JInt request_id),
                                  (''caller'', caller_json cname)])\<rparr>"

definition status_ok :: "int \<Rightarrow> bool" where
  "status_ok status \<longleftrightarrow> 200 \<le> status \<and> status < 300"

definition http_error :: "int \<Rightarrow> rt_exn" where
  "http_error status = RuntimeE (''tool returned HTTP '' @ show_int status)"

definition execute_api :: "'h rt_env \<Rightarrow> tool_op \<Rightarrow> json \<Rightarrow> int \<Rightarrow> string option \<Rightarrow> ('h, json) rt" where
  "execute_api e t arguments request_id cname =
     bind_ok (rt_open e (api_request e t arguments request_id cname)) (\<lambda>r.
       case r of
         Reply status hs rs \<Rightarrow>
           if \<not> status_ok status then rt_raise (http_error status)
           else bind_ok (rt_read rs) (\<lambda>body.
             case re_loads e body of
               Parsed v \<Rightarrow> rt_ok v
             | NotJson \<Rightarrow> rt_raise (RuntimeE ''tool returned non-JSON'')
             | NotUtf8 \<Rightarrow> rt_raise (OtherE ''UnicodeDecodeError'')
             | LoadRaised name \<Rightarrow> rt_raise (OtherE name))
       | ConnRefused _ \<Rightarrow> rt_raise NotDispatchedE
       | ConnFailed reason \<Rightarrow> rt_raise (ToolUnreachableE (''tool unreachable: '' @ reason))
       | ReplyFailed name \<Rightarrow> rt_raise (OtherE name)
       | TooLate \<Rightarrow> rt_raise TimeoutE)"

definition rest_request :: "'h rt_env \<Rightarrow> tool_op \<Rightarrow> json \<Rightarrow> int \<Rightarrow> string option \<Rightarrow> tool_request" where
  "rest_request e t arguments request_id cname =
     \<lparr>tq_url = tool_base t @ ''/sendrequest'',
      tq_headers = with_secret (re_secret e (to_tool t)) [(''Content-Type'', ''application/json'')],
      tq_body = json_dumps (JObj [(''op'', JStr (to_op t)), (''arguments'', arguments),
                                  (''broker_request_id'', JInt request_id), (''caller'', caller_json cname)])\<rparr>"

text \<open>What the envelope of the forwarder means; \<^verbatim>\<open>a or b\<close> is the first true value.\<close>

definition first_true :: "json list \<Rightarrow> json" where
  "first_true vs = (case find truthy vs of None \<Rightarrow> JStr [] | Some v \<Rightarrow> v)"

definition rest_result :: "(json \<Rightarrow> string) \<Rightarrow> parsed \<Rightarrow> rt_exn + json" where
  "rest_result str p =
     (case p of
        NotJson \<Rightarrow> Inl (RuntimeE ''tool returned non-JSON'')
      | NotUtf8 \<Rightarrow> Inl (OtherE ''UnicodeDecodeError'')
      | LoadRaised name \<Rightarrow> Inl (OtherE name)
      | Parsed v \<Rightarrow>
          if \<not> is_obj v then Inl (RuntimeE ''tool returned a non-object envelope'')
          else if jget ''status'' v \<noteq> None then Inr v
          else if jget ''error'' v = Some (JStr ''outbound_unreachable'')
          then Inl (ToolUnreachableE (''tool outbound unreachable: '' @ str (jget_or (JStr []) ''reason'' v)))
          else if jget ''error'' v \<noteq> None
          then let detail = first_true [jget0 ''detail'' v, jget0 ''reason'' v, jget0 ''name'' v]
               in Inl (RuntimeE (''tool forwarder error: '' @ str (jget0 ''error'' v)
                    @ (if truthy detail then '': '' @ str detail else [])))
          else Inl (RuntimeE ''tool returned an invalid envelope''))"

definition execute_rest :: "'h rt_env \<Rightarrow> tool_op \<Rightarrow> json \<Rightarrow> int \<Rightarrow> string option \<Rightarrow> ('h, json) rt" where
  "execute_rest e t arguments request_id cname =
     bind_ok (rt_open e (rest_request e t arguments request_id cname)) (\<lambda>r.
       case r of
         Reply status hs rs \<Rightarrow>
           bind_ok (rt_read rs) (\<lambda>body. State_Monad.return (rest_result (re_str e) (re_loads e body)))
       | ConnRefused _ \<Rightarrow> rt_raise NotDispatchedE
       | ConnFailed reason \<Rightarrow> rt_raise (ToolUnreachableE (''tool unreachable: '' @ reason))
       | ReplyFailed name \<Rightarrow> rt_raise (OtherE name)
       | TooLate \<Rightarrow> rt_raise TimeoutE)"

section \<open>The mcp dialect\<close>

definition MCP_PROTOCOL_VERSION :: string where
  "MCP_PROTOCOL_VERSION = ''2025-06-18''"

text \<open>What \<^verbatim>\<open>putheader\<close> makes of a header that came out of JSON.\<close>

definition header_text :: "json \<Rightarrow> rt_exn + string" where
  "header_text v =
     (case v of JStr s \<Rightarrow> Inr s | JInt i \<Rightarrow> Inr (show_int i) | JBool b \<Rightarrow> Inr (if b then ''True'' else ''False'')
      | _ \<Rightarrow> Inl (OtherE ''TypeError''))"

definition mcp_headers :: "string option \<Rightarrow> string option \<Rightarrow> json \<Rightarrow> rt_exn + (string \<times> string) list" where
  "mcp_headers secret session protocol =
     (let hs = with_secret secret [(''Content-Type'', ''application/json''), (''Accept'', ''application/json, text/event-stream'')]
            @ (case session of None \<Rightarrow> [] | Some s \<Rightarrow> if s = [] then [] else [(''Mcp-Session-Id'', s)])
      in if truthy protocol then andthen (header_text protocol) (\<lambda>p. Inr (hs @ [(''MCP-Protocol-Version'', p)])) else Inr hs)"

text \<open>\<^verbatim>\<open>bytes.lstrip()\<close> and \<^verbatim>\<open>rstrip(b"\r")\<close>.\<close>

definition byte_space :: "char \<Rightarrow> bool" where
  "byte_space c \<longleftrightarrow> code c \<in> {9, 10, 11, 12, 13, 32}"

definition rstrip_cr :: "string \<Rightarrow> string" where
  "rstrip_cr s = rev (dropWhile (\<lambda>c. c = CHR 0x0D) (rev s))"

text \<open>The test a message must pass to be the answer to request \<open>mid\<close>.\<close>

definition sse_match :: "int \<Rightarrow> json \<Rightarrow> bool" where
  "sse_match mid m \<longleftrightarrow> is_obj m \<and> jget ''jsonrpc'' m = Some (JStr ''2.0'') \<and> jget ''id'' m = Some (JInt mid)
     \<and> (jget ''result'' m \<noteq> None \<or> jget ''error'' m \<noteq> None)"

text \<open>One line of the stream: an answer or an exception that is not a \<^verbatim>\<open>ValueError\<close> ends the loop, otherwise
  the data lines of the event so far.\<close>

definition sse_line :: "(string \<Rightarrow> parsed) \<Rightarrow> int \<Rightarrow> string list \<Rightarrow> string \<Rightarrow> (rt_exn + json) + string list" where
  "sse_line loads mid data raw =
     (let line = rstrip_cr raw in
      if starts_with ''data:'' line then Inr (data @ [dropWhile byte_space (drop 5 line)])
      else if line \<noteq> [] then Inr data
      else if data = [] then Inr []
      else (case loads (join_with [CHR 0x0A] data) of
              Parsed m \<Rightarrow> if sse_match mid m then Inl (Inr m) else Inr []
            | LoadRaised name \<Rightarrow> Inl (Inl (OtherE name))
            | _ \<Rightarrow> Inr []))"

fun sse_lines :: "(string \<Rightarrow> parsed) \<Rightarrow> int \<Rightarrow> string list \<Rightarrow> string list \<Rightarrow> (rt_exn + json) + string list" where
  "sse_lines loads mid data [] = Inr data"
| "sse_lines loads mid data (l # ls) =
     (case sse_line loads mid data l of Inl m \<Rightarrow> Inl m | Inr data' \<Rightarrow> sse_lines loads mid data' ls)"

text \<open>The loop of \<^verbatim>\<open>_read_sse\<close> over the pieces of the stream: \<open>pending\<close> is the unfinished line. The end
  comes with the number of bytes taken off the budget.\<close>

fun sse_loop :: "(string \<Rightarrow> parsed) \<Rightarrow> int \<Rightarrow> string \<Rightarrow> string list \<Rightarrow> nat \<Rightarrow> string list \<Rightarrow> ((rt_exn + json) \<times> nat) option" where
  "sse_loop loads mid pending data used [] = None"
| "sse_loop loads mid pending data used (c # cs) =
     (let parts = split_on (CHR 0x0A) (pending @ c) in
      case sse_lines loads mid data (butlast parts) of
        Inl m \<Rightarrow> Some (m, used + length c)
      | Inr data' \<Rightarrow> sse_loop loads mid (last parts) data' (used + length c) cs)"

definition read_sse :: "(string \<Rightarrow> parsed) \<Rightarrow> int \<Rightarrow> rd list \<Rightarrow> ('h, json) rt" where
  "read_sse loads mid rs = State (\<lambda>w.
     case chunk_list (rw_left w) rs of
       (cs, st) \<Rightarrow>
         (case sse_loop loads mid [] [] 0 cs of
            Some (m, used) \<Rightarrow> (m, w\<lparr>rw_left := rw_left w - used\<rparr>)
          | None \<Rightarrow> (Inl (case stop_exn st of None \<Rightarrow> RuntimeE ''tool returned no matching JSON-RPC response'' | Some x \<Rightarrow> x),
                     w\<lparr>rw_left := rw_left w - length (concat cs)\<rparr>)))"

definition parse_jsonrpc :: "(string \<Rightarrow> parsed) \<Rightarrow> string \<Rightarrow> rt_exn + json" where
  "parse_jsonrpc loads raw =
     (case loads raw of
        Parsed v \<Rightarrow> if is_obj v then Inr v else Inl (RuntimeE ''tool returned a non-object JSON-RPC message'')
      | NotJson \<Rightarrow> Inl (RuntimeE ''tool returned non-JSON'')
      | NotUtf8 \<Rightarrow> Inl (OtherE ''UnicodeDecodeError'')
      | LoadRaised name \<Rightarrow> Inl (OtherE name))"

text \<open>The result of a JSON-RPC message, once its version and identifier are checked.\<close>

definition jsonrpc_result :: "(json \<Rightarrow> string) \<Rightarrow> int \<Rightarrow> json \<Rightarrow> rt_exn + json" where
  "jsonrpc_result str mid m =
     (if jget ''jsonrpc'' m \<noteq> Some (JStr ''2.0'') \<or> jget ''id'' m \<noteq> Some (JInt mid)
      then Inl (RuntimeE ''tool returned mismatched JSON-RPC response'')
      else case jget ''error'' m of
        None \<Rightarrow> Inr (jget0 ''result'' m)
      | Some err0 \<Rightarrow>
          let err = (if truthy err0 then err0 else JObj []) in
          if is_obj err then Inl (RuntimeE (''tool MCP error: '' @ str (jget_or err ''message'' err)))
          else Inl (OtherE ''AttributeError''))"

definition reply_header :: "string \<Rightarrow> (string \<times> string) list \<Rightarrow> string option" where
  "reply_header name hs = map_option snd (find (\<lambda>kv. py_lower (fst kv) = py_lower name) hs)"

definition mcp_body :: "int option \<Rightarrow> string \<Rightarrow> json \<Rightarrow> string" where
  "mcp_body mid meth params =
     json_dumps (JObj ([(''jsonrpc'', JStr ''2.0'')] @ (case mid of None \<Rightarrow> [] | Some i \<Rightarrow> [(''id'', JInt i)])
       @ [(''method'', JStr meth), (''params'', params)]))"

definition mcp_request ::
  "'h rt_env \<Rightarrow> string \<Rightarrow> string option \<Rightarrow> string option \<Rightarrow> json \<Rightarrow> int \<Rightarrow> string \<Rightarrow> json \<Rightarrow> ('h, json \<times> string option) rt" where
  "mcp_request e base secret session protocol mid meth params =
     bind_ok (State_Monad.return (mcp_headers secret session protocol)) (\<lambda>hs.
     bind_ok (rt_open e \<lparr>tq_url = base, tq_headers = hs, tq_body = mcp_body (Some mid) meth params\<rparr>) (\<lambda>r.
       case r of
         Reply status rhs rs \<Rightarrow>
           if \<not> status_ok status then rt_raise (http_error status)
           else
             let ctype = (case reply_header ''Content-Type'' rhs of None \<Rightarrow> [] | Some s \<Rightarrow> s);
                 new_session = reply_header ''Mcp-Session-Id'' rhs;
                 session' = (case new_session of Some s \<Rightarrow> if s \<noteq> [] then Some s else session | None \<Rightarrow> session)
             in
             bind_ok (if contains ''text/event-stream'' ctype then read_sse (re_loads e) mid rs
                      else bind_ok (rt_read rs) (\<lambda>raw. State_Monad.return (parse_jsonrpc (re_loads e) raw))) (\<lambda>m.
             bind_ok (State_Monad.return (jsonrpc_result (re_str e) mid m)) (\<lambda>v. rt_ok (v, session')))
       | ConnRefused reason \<Rightarrow> rt_raise (ToolUnreachableE (''tool unreachable: '' @ reason))
       | ConnFailed reason \<Rightarrow> rt_raise (ToolUnreachableE (''tool unreachable: '' @ reason))
       | ReplyFailed name \<Rightarrow> rt_raise (OtherE name)
       | TooLate \<Rightarrow> rt_raise TimeoutE))"

text \<open>A notification: what the server answers is dropped, a failure to connect as well.\<close>

definition mcp_notify :: "'h rt_env \<Rightarrow> string \<Rightarrow> string option \<Rightarrow> string option \<Rightarrow> json \<Rightarrow> string \<Rightarrow> json \<Rightarrow> ('h, unit) rt" where
  "mcp_notify e base secret session protocol meth params =
     bind_ok (State_Monad.return (mcp_headers secret session protocol)) (\<lambda>hs.
     bind_ok (rt_open e \<lparr>tq_url = base, tq_headers = hs, tq_body = mcp_body None meth params\<rparr>) (\<lambda>r.
       case r of
         Reply status rhs rs \<Rightarrow> if \<not> status_ok status then rt_ok () else bind_ok (rt_read rs) (\<lambda>_. rt_ok ())
       | ReplyFailed name \<Rightarrow> rt_raise (OtherE name)
       | TooLate \<Rightarrow> rt_raise TimeoutE
       | _ \<Rightarrow> rt_ok ()))"

definition initialize_params :: json where
  "initialize_params = JObj [(''protocolVersion'', JStr MCP_PROTOCOL_VERSION), (''capabilities'', JObj []),
     (''clientInfo'', JObj [(''name'', JStr ''toolstack-broker''), (''version'', JStr ''0.1.0'')])]"

definition call_params :: "tool_op \<Rightarrow> json \<Rightarrow> int \<Rightarrow> string option \<Rightarrow> json" where
  "call_params t arguments request_id cname =
     JObj [(''name'', JStr (to_op t)), (''arguments'', arguments),
       (''_meta'', JObj [(''broker_request_id'', JInt request_id), (''caller'', caller_json cname)])]"

definition execute_mcp :: "'h rt_env \<Rightarrow> tool_op \<Rightarrow> json \<Rightarrow> int \<Rightarrow> string option \<Rightarrow> ('h, json) rt" where
  "execute_mcp e t arguments request_id cname =
     (let base = tool_base t @ ''/mcp''; secret = re_secret e (to_tool t) in
      bind_ok (mcp_request e base secret None JNull 1 ''initialize'' initialize_params) (\<lambda>(init_result, session).
      if \<not> is_obj init_result then rt_raise (RuntimeE ''tool did not return an MCP initialize result'')
      else
        let protocol = (if truthy (jget0 ''protocolVersion'' init_result) then jget0 ''protocolVersion'' init_result
                        else JStr MCP_PROTOCOL_VERSION) in
        bind_ok (mcp_notify e base secret session protocol ''notifications/initialized'' (JObj [])) (\<lambda>_.
        bind_ok (mcp_request e base secret session protocol 2 ''tools/call'' (call_params t arguments request_id cname)) (\<lambda>(v, _).
        if v = JNull then rt_raise (RuntimeE ''tool returned no MCP result'') else rt_ok v))))"

section \<open>One execution\<close>

definition execute_tool :: "'h rt_env \<Rightarrow> tool_op \<Rightarrow> json \<Rightarrow> int \<Rightarrow> string option \<Rightarrow> ('h, json) rt" where
  "execute_tool e t arguments request_id cname =
     (if to_type t = ''api'' then execute_api e t arguments request_id cname
      else if to_type t = ''mcp'' then execute_mcp e t arguments request_id cname
      else if to_type t = ''rest'' then execute_rest e t arguments request_id cname
      else rt_raise (RuntimeE (''unsupported tool type '' @ [CHR 0x27] @ to_type t @ [CHR 0x27])))"

definition response_max :: nat where
  "response_max = 33554432"

text \<open>\<^verbatim>\<open>execute\<close> within \<^verbatim>\<open>operation_bounds\<close>: a fresh budget, and an execution that comes back after its
  deadline is a timeout.\<close>

definition runtime_run :: "'h rt_env \<Rightarrow> tool_op \<Rightarrow> json \<Rightarrow> int \<Rightarrow> string option \<Rightarrow> 'h \<Rightarrow> (rt_exn + json) \<times> 'h rt_world" where
  "runtime_run e t arguments request_id cname h =
     (case run_state (execute_tool e t arguments request_id cname) \<lparr>rw_net = h, rw_log = [], rw_left = response_max\<rparr> of
        (Inr v, w) \<Rightarrow> (if re_late e (rw_net w) then Inl TimeoutE else Inr v, w)
      | (Inl x, w) \<Rightarrow> (Inl x, w))"

section \<open>Channel credentials\<close>

text \<open>\<^verbatim>\<open>ToolState\<close>: the secrets read from the file, and the modification time they were read at. The file
  is missing, its \<^verbatim>\<open>stat\<close> fails otherwise, or it has a time and a content (an unreadable one is an error).\<close>

datatype state_stat = Missing | StatFails exn | Present rat "json result"

record tool_state =
  ts_mtime :: "rat option"
  ts_by_id :: "(string \<times> string) list"

definition new_tool_state :: tool_state where
  "new_tool_state = \<lparr>ts_mtime = None, ts_by_id = []\<rparr>"

definition channel_secrets :: "(string \<times> json) list \<Rightarrow> (string \<times> string) list" where
  "channel_secrets d =
     concat (map (\<lambda>(tid, rec). case jget ''channel_secret'' rec of
        Some (JStr s) \<Rightarrow> if is_obj rec \<and> py_strip s \<noteq> [] then [(tid, s)] else []
      | _ \<Rightarrow> []) d)"

definition refresh_if_stale :: "state_stat \<Rightarrow> tool_state \<Rightarrow> unit result \<times> tool_state" where
  "refresh_if_stale stat st =
     (case stat of
        Missing \<Rightarrow> (Inr (), new_tool_state)
      | StatFails x \<Rightarrow> (Inl x, st)
      | Present mtime content \<Rightarrow>
          if ts_mtime st = Some mtime then (Inr (), st)
          else (case content of
                  Inr (JObj d) \<Rightarrow> (Inr (), \<lparr>ts_mtime = Some mtime, ts_by_id = channel_secrets d\<rparr>)
                | _ \<Rightarrow> (Inr (), st\<lparr>ts_by_id := []\<rparr>)))"

definition channel_secret_for :: "state_stat \<Rightarrow> string \<Rightarrow> tool_state \<Rightarrow> string option result \<times> tool_state" where
  "channel_secret_for stat tool_id st =
     (case refresh_if_stale stat st of
        (Inl x, st') \<Rightarrow> (Inl x, st')
      | (Inr _, st') \<Rightarrow> (Inr (map_of (ts_by_id st') tool_id), st'))"

definition channel_tool_ids :: "state_stat \<Rightarrow> tool_state \<Rightarrow> string list result \<times> tool_state" where
  "channel_tool_ids stat st =
     (case refresh_if_stale stat st of
        (Inl x, st') \<Rightarrow> (Inl x, st')
      | (Inr _, st') \<Rightarrow> (Inr (map fst (ts_by_id st')), st'))"

text \<open>\<^verbatim>\<open>_env_tool_secret\<close> reads the file anew for each call.\<close>

definition env_tool_secret :: "state_stat \<Rightarrow> string \<Rightarrow> string option result" where
  "env_tool_secret stat tool_id =
     andthen (fst (channel_secret_for stat tool_id new_tool_state)) (\<lambda>v.
       Inr (case v of None \<Rightarrow> None | Some s \<Rightarrow> if s = [] then None else Some (py_strip s)))"

end
