(* ===== verification/RuntimeProps.thy ===== *)
theory RuntimeProps
  imports Runtime
begin

text \<open>
  What the tool runtime promises: it speaks to the tool's loopback port only and presents the channel
  credential, it reports that nothing was dispatched only when its one connection was refused, it sends the
  action at most once, a response is read whole or refused by its size, and the answer found in an event stream
  does not depend on how the stream was cut into pieces.
\<close>

section \<open>What an execution sends\<close>

lemma run_rt_simps [simp]:
  "run_state (rt_ok v) w = (Inr v, w)" "run_state (rt_raise x) w = (Inl x, w)"
  by (simp_all add: rt_ok_def rt_raise_def)

definition sends :: "(tool_request \<Rightarrow> bool) \<Rightarrow> ('h, 'a) rt \<Rightarrow> bool" where
  "sends P m \<longleftrightarrow> (\<forall>w. \<exists>es. rw_log (snd (run_state m w)) = rw_log w @ es \<and> (\<forall>e \<in> set es. P (fst e)))"

lemma sends_return: "sends P (State_Monad.return r)" "sends P (rt_ok v)" "sends P (rt_raise x)"
  by (simp_all add: sends_def)

lemma sends_read: "sends P (rt_read rs)" "sends P (read_sse loads mid rs)"
  by (auto simp: sends_def rt_read_def read_sse_def split: prod.splits option.splits)

lemma sends_open: "P req \<Longrightarrow> sends P (rt_open e req)"
  by (auto simp: sends_def rt_open_def split: prod.splits)

lemma sends_bind:
  assumes "sends P m" "\<And>v. sends P (f v)"
  shows "sends P (bind_ok m f)"
  unfolding sends_def
proof
  fix w
  obtain r w' where m: "run_state m w = (r, w')" by (cases "run_state m w")
  obtain es where es: "rw_log w' = rw_log w @ es" "\<forall>e \<in> set es. P (fst e)"
    using assms(1) m unfolding sends_def by (metis snd_conv)
  show "\<exists>es. rw_log (snd (run_state (bind_ok m f) w)) = rw_log w @ es \<and> (\<forall>e \<in> set es. P (fst e))"
  proof (cases r)
    case (Inl x)
    with m es show ?thesis by (simp add: bind_ok_run)
  next
    case (Inr v)
    obtain es' where es': "rw_log (snd (run_state (f v) w')) = rw_log w' @ es'" "\<forall>e \<in> set es'. P (fst e)"
      using assms(2) unfolding sends_def by blast
    have "rw_log (snd (run_state (bind_ok m f) w)) = rw_log w @ (es @ es')" using m Inr es(1) es'(1) by (simp add: bind_ok_run)
    moreover have "\<forall>e \<in> set (es @ es'). P (fst e)" using es(2) es'(2) by auto
    ultimately show ?thesis by blast
  qed
qed

text \<open>A request to the tool on its own port, with the credential of this hop.\<close>

definition to_tool_port :: "'h rt_env \<Rightarrow> tool_op \<Rightarrow> tool_request \<Rightarrow> bool" where
  "to_tool_port e t q \<longleftrightarrow>
     (\<exists>path. tq_url q = ''http://127.0.0.1:'' @ show_int (to_port t) @ ''/'' @ path)
     \<and> map_of (tq_headers q) ''X-Toolstack-Secret'' =
         (case re_secret e (to_tool t) of None \<Rightarrow> None | Some s \<Rightarrow> if s = [] then None else Some s)"

lemma mcp_headers_secret:
  assumes "mcp_headers secret session protocol = Inr hs"
  shows "map_of hs ''X-Toolstack-Secret'' = (case secret of None \<Rightarrow> None | Some s \<Rightarrow> if s = [] then None else Some s)"
  using assms
  by (auto simp: mcp_headers_def with_secret_def Let_def andthen_def split: option.splits if_splits sum.splits)

lemma sends_mcp_bind:
  assumes "\<And>hs. mcp_headers secret session protocol = Inr hs \<Longrightarrow> sends P (f hs)"
  shows "sends P (bind_ok (State_Monad.return (mcp_headers secret session protocol)) f)"
  using assms by (cases "mcp_headers secret session protocol") (simp_all add: bind_ok_def sends_return)

lemma sends_mcp_request:
  assumes "to_tool_port e t \<lparr>tq_url = base, tq_headers = with_secret (re_secret e (to_tool t)) [], tq_body = []\<rparr>"
  shows "sends (to_tool_port e t) (mcp_request e base (re_secret e (to_tool t)) session protocol mid meth params)"
    and "sends (to_tool_port e t) (mcp_notify e base (re_secret e (to_tool t)) session protocol meth params)"
proof -
  have P: "to_tool_port e t \<lparr>tq_url = base, tq_headers = hs, tq_body = b\<rparr>"
    if "mcp_headers (re_secret e (to_tool t)) session protocol = Inr hs" for hs b
    using assms mcp_headers_secret [OF that] by (simp add: to_tool_port_def)
  show "sends (to_tool_port e t) (mcp_request e base (re_secret e (to_tool t)) session protocol mid meth params)"
    unfolding mcp_request_def Let_def
    by (intro sends_mcp_bind sends_bind sends_open P)
      (auto intro!: sends_bind sends_return sends_read split: net_result.split)
  show "sends (to_tool_port e t) (mcp_notify e base (re_secret e (to_tool t)) session protocol meth params)"
    unfolding mcp_notify_def
    by (intro sends_mcp_bind sends_bind sends_open P)
      (auto intro!: sends_bind sends_return sends_read split: net_result.split)
qed

lemma sends_execute: "sends (to_tool_port e t) (execute_tool e t arguments request_id cname)"
proof -
  have base: "to_tool_port e t \<lparr>tq_url = tool_base t @ ''/mcp'', tq_headers = with_secret (re_secret e (to_tool t)) [], tq_body = []\<rparr>"
    by (auto simp: to_tool_port_def tool_base_def with_secret_def split: option.splits)
  have api: "to_tool_port e t (api_request e t arguments request_id cname)" "to_tool_port e t (rest_request e t arguments request_id cname)"
    by (auto simp: to_tool_port_def tool_base_def with_secret_def api_request_def rest_request_def split: option.splits)
  show ?thesis
    unfolding execute_tool_def execute_api_def execute_rest_def execute_mcp_def Let_def
    by (auto intro!: sends_bind sends_open sends_return sends_read sends_mcp_request [OF base] api
        split: net_result.split parsed.split prod.split)
qed

section \<open>The action is sent at most once\<close>

definition action_body :: "tool_op \<Rightarrow> json \<Rightarrow> int \<Rightarrow> string option \<Rightarrow> string" where
  "action_body t arguments request_id cname =
     (if to_type t = ''mcp'' then mcp_body (Some 2) ''tools/call'' (call_params t arguments request_id cname)
      else if to_type t = ''rest''
      then json_dumps (JObj [(''op'', JStr (to_op t)), (''arguments'', arguments),
             (''broker_request_id'', JInt request_id), (''caller'', caller_json cname)])
      else json_dumps (JObj [(''arguments'', arguments), (''broker_request_id'', JInt request_id),
             (''caller'', caller_json cname)]))"

definition adds :: "(tool_request \<Rightarrow> bool) \<Rightarrow> nat \<Rightarrow> ('h, 'a) rt \<Rightarrow> bool" where
  "adds P k m \<longleftrightarrow> (\<forall>w. length (filter (P \<circ> fst) (rw_log (snd (run_state m w)))) \<le> length (filter (P \<circ> fst) (rw_log w)) + k)"

lemma adds_none: "sends (\<lambda>q. \<not> P q) m \<Longrightarrow> adds P 0 m"
  unfolding adds_def
proof
  fix w
  assume "sends (\<lambda>q. \<not> P q) m"
  then obtain es where "rw_log (snd (run_state m w)) = rw_log w @ es" "\<forall>e \<in> set es. \<not> P (fst e)"
    unfolding sends_def by blast
  moreover from this(2) have "filter (P \<circ> fst) es = []" by (simp add: filter_empty_conv)
  ultimately show "length (filter (P \<circ> fst) (rw_log (snd (run_state m w)))) \<le> length (filter (P \<circ> fst) (rw_log w)) + 0" by simp
qed

lemma adds_open: "adds P 1 (rt_open e q)"
  by (auto simp: adds_def rt_open_def split: prod.splits)

lemma adds_mono: "adds P j m \<Longrightarrow> j \<le> k \<Longrightarrow> adds P k m"
  unfolding adds_def by (meson add_left_mono order_trans)

lemma adds_bind:
  assumes "adds P j m" "\<And>v. adds P k (f v)"
  shows "adds P (j + k) (bind_ok m f)"
  unfolding adds_def
proof
  fix w
  obtain r w' where m: "run_state m w = (r, w')" by (cases "run_state m w")
  have one: "length (filter (P \<circ> fst) (rw_log w')) \<le> length (filter (P \<circ> fst) (rw_log w)) + j"
    using assms(1) m unfolding adds_def by (metis snd_conv)
  show "length (filter (P \<circ> fst) (rw_log (snd (run_state (bind_ok m f) w)))) \<le> length (filter (P \<circ> fst) (rw_log w)) + (j + k)"
  proof (cases r)
    case (Inl x)
    with m one show ?thesis by (simp add: bind_ok_run)
  next
    case (Inr v)
    have "length (filter (P \<circ> fst) (rw_log (snd (run_state (f v) w')))) \<le> length (filter (P \<circ> fst) (rw_log w')) + k"
      using assms(2) unfolding adds_def by blast
    with m Inr one show ?thesis by (simp add: bind_ok_run)
  qed
qed

lemma adds_last: "adds P j m \<Longrightarrow> (\<And>v. adds P 0 (f v)) \<Longrightarrow> adds P j (bind_ok m f)"
  using adds_bind [of P j m 0 f] by simp

lemma mcp_bodies_differ:
  "mcp_body (Some 1) meth params \<noteq> mcp_body (Some 2) meth' params'"
  "mcp_body None meth params \<noteq> mcp_body (Some 2) meth' params'"
proof -
  have key: "quote ''id'' = [CHR 0x22, CHR ''i'', CHR ''d'', CHR 0x22]" "quote ''method'' = CHR 0x22 # ''method'' @ [CHR 0x22]"
    by code_simp+
  have num: "show_int 1 = ''1''" "show_int 2 = ''2''" by code_simp+
  show "mcp_body (Some 1) meth params \<noteq> mcp_body (Some 2) meth' params'"
    by (simp add: mcp_body_def json_dumps_def key num)
  show "mcp_body None meth params \<noteq> mcp_body (Some 2) meth' params'"
    by (simp add: mcp_body_def json_dumps_def key num)
qed

lemma mcp_other_bodies:
  assumes "\<And>m p. mcp_body mid m p \<noteq> b"
  shows "mid = Some i \<Longrightarrow> sends (\<lambda>q. tq_body q \<noteq> b) (mcp_request e base secret session protocol i meth params)"
    and "mid = None \<Longrightarrow> sends (\<lambda>q. tq_body q \<noteq> b) (mcp_notify e base secret session protocol meth params)"
proof -
  show "sends (\<lambda>q. tq_body q \<noteq> b) (mcp_request e base secret session protocol i meth params)" if "mid = Some i"
    unfolding mcp_request_def Let_def using assms that
    by (intro sends_mcp_bind sends_bind sends_open) (auto intro!: sends_bind sends_return sends_read split: net_result.split)
  show "sends (\<lambda>q. tq_body q \<noteq> b) (mcp_notify e base secret session protocol meth params)" if "mid = None"
    unfolding mcp_notify_def using assms that
    by (intro sends_mcp_bind sends_bind sends_open) (auto intro!: sends_bind sends_return sends_read split: net_result.split)
qed

lemma adds_first: "(\<And>v. adds P k (f v)) \<Longrightarrow> adds P k (bind_ok (State_Monad.return r) f)"
  using adds_bind [OF adds_none [OF sends_return(1)], of P k f r] by simp

lemma adds_mcp_request: "adds P 1 (mcp_request e base secret session protocol mid meth params)"
  unfolding mcp_request_def Let_def
  by (rule adds_first, rule adds_last [OF adds_open], rule adds_none)
    (auto intro!: sends_bind sends_return sends_read split: net_result.split)

lemma adds_execute:
  fixes e :: "'h rt_env"
  shows "adds (\<lambda>q. tq_body q = action_body t arguments request_id cname) 1 (execute_tool e t arguments request_id cname)"
proof -
  let ?P = "\<lambda>q. tq_body q = action_body t arguments request_id cname"
  have api: "adds ?P 1 (execute_api e t arguments request_id cname)"
    unfolding execute_api_def
    by (rule adds_last [OF adds_open], rule adds_none)
      (auto intro!: sends_bind sends_return sends_read split: net_result.split parsed.split)
  have rst: "adds ?P 1 (execute_rest e t arguments request_id cname)"
    unfolding execute_rest_def
    by (rule adds_last [OF adds_open], rule adds_none)
      (auto intro!: sends_bind sends_return sends_read split: net_result.split)
  have mcp: "adds ?P 1 (execute_mcp e t arguments request_id cname)" if "to_type t = ''mcp''"
  proof -
    have b: "action_body t arguments request_id cname = mcp_body (Some 2) ''tools/call'' (call_params t arguments request_id cname)"
      using that by (simp add: action_body_def)
    have i: "adds ?P 0 (mcp_request e base secret session protocol 1 meth params)" for base secret session protocol meth params
      unfolding b by (rule adds_none, rule mcp_other_bodies(1) [OF mcp_bodies_differ(1)]) simp
    have n: "adds ?P 0 (mcp_notify e base secret session protocol meth params)" for base secret session protocol meth params
      unfolding b by (rule adds_none, rule mcp_other_bodies(2) [OF mcp_bodies_differ(2)]) simp
    have call: "adds ?P 1 (bind_ok (mcp_request e base secret session protocol 2 meth params) (\<lambda>(v, _). if v = JNull then rt_raise x else rt_ok v) :: ('h, json) rt)"
      for base secret session protocol meth params x
      by (rule adds_last [OF adds_mcp_request]) (auto intro!: adds_none simp: sends_return split: prod.split)
    have tail: "adds ?P 1 (bind_ok (mcp_notify e base secret session protocol meth params)
        (\<lambda>_. bind_ok (mcp_request e base secret session protocol 2 meth' params') (\<lambda>(v, _). if v = JNull then rt_raise x else rt_ok v)) :: ('h, json) rt)"
      for base secret session protocol meth params meth' params' x
      using adds_bind [OF n call] by simp
    have bad: "adds ?P 1 (rt_raise x :: ('h, json) rt)" for x by (rule adds_mono [OF adds_none]) (simp_all add: sends_return)
    show ?thesis
      unfolding execute_mcp_def Let_def
      by (rule adds_bind [OF i, where k = 1, unfolded add_0]) (use tail bad in \<open>simp add: split_def\<close>)
  qed
  have bad: "adds ?P 1 (rt_raise x :: ('h, json) rt)" for x by (rule adds_mono [OF adds_none]) (simp_all add: sends_return)
  from api rst mcp bad show ?thesis by (simp add: execute_tool_def)
qed

section \<open>When nothing was dispatched\<close>

definition no_refusal :: "('h, 'a) rt \<Rightarrow> bool" where
  "no_refusal m \<longleftrightarrow> (\<forall>w. fst (run_state m w) \<noteq> Inl NotDispatchedE)"

lemma no_refusal_bind: "no_refusal m \<Longrightarrow> (\<And>v. no_refusal (f v)) \<Longrightarrow> no_refusal (bind_ok m f)"
  unfolding no_refusal_def by (auto simp: bind_ok_run split: prod.splits sum.splits) (metis fst_conv)

lemma no_refusal_basic:
  "no_refusal (rt_ok v)" "x \<noteq> NotDispatchedE \<Longrightarrow> no_refusal (rt_raise x)" "r \<noteq> Inl NotDispatchedE \<Longrightarrow> no_refusal (State_Monad.return r)"
  "no_refusal (rt_open e q)" "no_refusal (rt_read rs)"
  by (auto simp: no_refusal_def rt_open_def rt_read_def stop_exn_def split: prod.splits stop.splits)

lemma sse_lines_no_refusal: "sse_lines loads mid data ls \<noteq> Inl (Inl NotDispatchedE)"
  by (induction ls arbitrary: data) (auto simp: sse_line_def Let_def split: sum.splits if_splits parsed.splits)

lemma sse_loop_no_refusal: "sse_loop loads mid p data used cs = Some (r, u) \<Longrightarrow> r \<noteq> Inl NotDispatchedE"
  using sse_lines_no_refusal by (induction cs arbitrary: p data used) (auto simp: Let_def split: sum.splits)

lemma no_refusal_sse: "no_refusal (read_sse loads mid rs)"
  unfolding no_refusal_def read_sse_def
  using sse_loop_no_refusal by (fastforce simp: stop_exn_def split: prod.splits option.splits stop.splits)

lemma no_refusal_values:
  "parse_jsonrpc loads raw \<noteq> Inl NotDispatchedE" "jsonrpc_result str mid m \<noteq> Inl NotDispatchedE"
  "rest_result str p \<noteq> Inl NotDispatchedE" "mcp_headers secret session protocol \<noteq> Inl NotDispatchedE" "http_error st \<noteq> NotDispatchedE"
  by (auto simp: parse_jsonrpc_def jsonrpc_result_def rest_result_def mcp_headers_def http_error_def andthen_def header_text_def Let_def
      split: parsed.splits option.splits sum.splits json.splits if_splits)

lemmas no_refusal_intros = no_refusal_bind no_refusal_basic no_refusal_sse no_refusal_values

lemma no_refusal_mcp: "no_refusal (execute_mcp e t arguments request_id cname)"
  unfolding execute_mcp_def mcp_request_def mcp_notify_def Let_def
  by (auto intro!: no_refusal_intros split: net_result.split prod.split)

lemma refused_once:
  assumes m: "run_state (bind_ok (rt_open e q) (\<lambda>r. case r of
         Reply st hs rs \<Rightarrow> f st hs rs
       | ConnRefused _ \<Rightarrow> rt_raise NotDispatchedE
       | ConnFailed reason \<Rightarrow> rt_raise (ToolUnreachableE (g reason))
       | ReplyFailed name \<Rightarrow> rt_raise (OtherE name)
       | TooLate \<Rightarrow> rt_raise TimeoutE)) w = (Inl NotDispatchedE, w')"
    and f: "\<And>st hs rs. no_refusal (f st hs rs)"
  shows "\<exists>reason. rw_log w' = rw_log w @ [(q, ConnRefused reason)]"
proof -
  obtain r h where net: "re_net e (rw_net w) q = (r, h)" by (cases "re_net e (rw_net w) q")
  show ?thesis
    using m f unfolding no_refusal_def
    by (cases r) (auto simp: bind_ok_run rt_open_def net split: if_splits, metis fst_conv)
qed

text \<open>C21: The runtime reports that a call was not dispatched only when it tried one connection and that was
  refused; every other failure leaves open whether the tool acted.\<close>

theorem not_dispatched_honest:
  assumes "exec_of (fst (runtime_run e t arguments request_id cname h)) = ExecNotDispatched detail"
  shows "\<exists>q reason. rw_log (snd (runtime_run e t arguments request_id cname h)) = [(q, ConnRefused reason)]"
proof -
  let ?w = "\<lparr>rw_net = h, rw_log = [], rw_left = response_max\<rparr>"
  obtain w' where run: "run_state (execute_tool e t arguments request_id cname) ?w = (Inl NotDispatchedE, w')"
    and out: "snd (runtime_run e t arguments request_id cname h) = w'"
    using assms
    by (cases "run_state (execute_tool e t arguments request_id cname) ?w")
      (auto simp: runtime_run_def exec_of_def split: sum.splits if_splits rt_exn.splits)
  have "\<exists>q reason. rw_log w' = rw_log ?w @ [(q, ConnRefused reason)]"
  proof -
    consider "to_type t = ''api''" | "to_type t = ''mcp''" | "to_type t = ''rest''"
      using run by (auto simp: execute_tool_def split: if_splits)
    then show ?thesis
    proof cases
      case 1
      then have "run_state (execute_api e t arguments request_id cname) ?w = (Inl NotDispatchedE, w')"
        using run by (simp add: execute_tool_def)
      from refused_once [OF this [unfolded execute_api_def]] show ?thesis
        by (fastforce intro!: no_refusal_intros split: parsed.split)
    next
      case 2
      then have "run_state (execute_mcp e t arguments request_id cname) ?w = (Inl NotDispatchedE, w')"
        using run by (simp add: execute_tool_def)
      with no_refusal_mcp show ?thesis unfolding no_refusal_def by (metis fst_conv)
    next
      case 3
      then have "run_state (execute_rest e t arguments request_id cname) ?w = (Inl NotDispatchedE, w')"
        using run by (simp add: execute_tool_def)
      from refused_once [OF this [unfolded execute_rest_def]] show ?thesis
        by (fastforce intro!: no_refusal_intros)
    qed
  qed
  with out show ?thesis by simp
qed

section \<open>Reading a response\<close>

definition plain_reads :: "rd list \<Rightarrow> bool" where
  "plain_reads rs \<longleftrightarrow> (\<forall>r \<in> set rs. \<exists>s. r = Bytes s \<and> s \<noteq> [])"

fun read_bytes :: "rd \<Rightarrow> string" where
  "read_bytes (Bytes s) = s"
| "read_bytes _ = []"

lemma plain_reads_Bytes: "plain_reads (map Bytes ps) \<longleftrightarrow> (\<forall>p \<in> set ps. p \<noteq> [])"
  by (auto simp: plain_reads_def)

lemma concat_read_bytes: "concat (map read_bytes (map Bytes ps)) = concat ps"
  by (induction ps) auto

lemma chunk_list_plain:
  assumes "plain_reads rs"
  shows "if length (concat (map read_bytes rs)) \<le> left
         then snd (chunk_list left rs) = Eof \<and> concat (fst (chunk_list left rs)) = concat (map read_bytes rs)
         else snd (chunk_list left rs) = TooLarge"
  using assms
proof (induction left rs rule: chunk_list.induct)
  case (4 left s rs)
  define n where "n = min 4096 (left + 1)"
  define rest where "rest = (if drop n s = [] then rs else Bytes (drop n s) # rs)"
  have s: "s \<noteq> []" and rs: "plain_reads rs" using "4.prems" by (auto simp: plain_reads_def)
  have n: "take n s \<noteq> []" using s by (simp add: n_def)
  have rest: "plain_reads rest" using rs by (auto simp: rest_def plain_reads_def)
  have all: "concat (map read_bytes (Bytes s # rs)) = take n s @ concat (map read_bytes rest)"
    by (cases "drop n s = []") (simp_all add: rest_def)
  have eq: "chunk_list left (Bytes s # rs) =
      (if length (take n s) > left then ([], TooLarge)
       else apfst ((#) (take n s)) (chunk_list (left - length (take n s)) rest))"
    using n unfolding chunk_list.simps(4) Let_def n_def [symmetric] rest_def by simp
  show ?case
  proof (cases "length (take n s) > left")
    case True
    then have "\<not> length (concat (map read_bytes (Bytes s # rs))) \<le> left" unfolding all length_append by linarith
    with True show ?thesis unfolding eq by simp
  next
    case False
    have step: "chunk_list left (Bytes s # rs) = apfst ((#) (take n s)) (chunk_list (left - length (take n s)) rest)"
      using False by (simp only: eq if_False)
    have IH: "if length (concat (map read_bytes rest)) \<le> left - length (take n s)
         then snd (chunk_list (left - length (take n s)) rest) = Eof
           \<and> concat (fst (chunk_list (left - length (take n s)) rest)) = concat (map read_bytes rest)
         else snd (chunk_list (left - length (take n s)) rest) = TooLarge"
      by (rule "4.IH" [OF n_def refl n False, folded rest_def, OF rest])
    have fits: "length (concat (map read_bytes (Bytes s # rs))) \<le> left
        \<longleftrightarrow> length (concat (map read_bytes rest)) \<le> left - length (take n s)"
      unfolding all using False by (simp only: length_append) linarith
    show ?thesis unfolding fits unfolding all step using IH by (auto split: if_splits)
  qed
qed (simp_all add: plain_reads_def)

lemma split_on_append:
  "split_on c (a @ b) = butlast (split_on c a) @ split_on c (last (split_on c a) @ b)"
proof (induction a)
  case (Cons x xs)
  show ?case
  proof (cases "x = c")
    case True
    with Cons show ?thesis by simp
  next
    case False
    obtain y ys where xs: "split_on c xs = y # ys" by (cases "split_on c xs") auto
    show ?thesis
    proof (cases ys)
      case Nil
      with xs False Cons show ?thesis by simp
    next
      case (Cons z zs)
      with xs False Cons.IH show ?thesis by simp
    qed
  qed
qed simp

lemma sse_lines_append:
  "sse_lines loads mid data (xs @ ys) =
     (case sse_lines loads mid data xs of Inl m \<Rightarrow> Inl m | Inr data' \<Rightarrow> sse_lines loads mid data' ys)"
  by (induction xs arbitrary: data) (auto split: sum.splits)

lemma sse_loop_lines:
  assumes "CHR 0x0A \<notin> set p"
  shows "map_option fst (sse_loop loads mid p data used cs) =
     (case sse_lines loads mid data (butlast (split_on (CHR 0x0A) (p @ concat cs))) of Inl m \<Rightarrow> Some m | Inr _ \<Rightarrow> None)"
  using assms
proof (induction cs arbitrary: p data used)
  case (Cons c cs)
  let ?parts = "split_on (CHR 0x0A) (p @ c)"
  have all: "split_on (CHR 0x0A) (p @ concat (c # cs)) = butlast ?parts @ split_on (CHR 0x0A) (last ?parts @ concat cs)"
    using split_on_append [of "CHR 0x0A" "p @ c" "concat cs"] by simp
  have last: "CHR 0x0A \<notin> set (last ?parts)" by (meson last_in_set split_on_no_sep split_on_not_Nil)
  show ?case
    unfolding all butlast_append
    using Cons.IH [OF last]
    by (cases "sse_lines loads mid data (butlast ?parts)") (simp_all add: sse_lines_append Let_def)
qed (simp add: split_on_fresh)

section \<open>Properties\<close>

text \<open>Whatever the tool answers, every request of an execution goes to the tool's own port on the
  loopback address and carries the channel credential of that tool, or none when none is set.\<close>

theorem runtime_speaks_loopback:
  assumes "(q, r) \<in> set (rw_log (snd (runtime_run e t arguments request_id cname h)))"
  shows "(\<exists>path. tq_url q = ''http://127.0.0.1:'' @ show_int (to_port t) @ ''/'' @ path)
     \<and> map_of (tq_headers q) ''X-Toolstack-Secret'' =
         (case re_secret e (to_tool t) of None \<Rightarrow> None | Some s \<Rightarrow> if s = [] then None else Some s)"
proof -
  let ?w = "\<lparr>rw_net = h, rw_log = [], rw_left = response_max\<rparr>"
  have "rw_log (snd (runtime_run e t arguments request_id cname h))
      = rw_log (snd (run_state (execute_tool e t arguments request_id cname) ?w))"
    by (simp add: runtime_run_def split: prod.split sum.split)
  moreover obtain es where "rw_log (snd (run_state (execute_tool e t arguments request_id cname) ?w)) = rw_log ?w @ es"
    "\<forall>x \<in> set es. to_tool_port e t (fst x)"
    using sends_execute [of e t arguments request_id cname] unfolding sends_def by blast
  ultimately show ?thesis using assms by (auto simp: to_tool_port_def)
qed

text \<open>C20: An execution posts the call itself at most once, in every dialect and whatever the tool
  answers: the runtime never tries again.\<close>

theorem action_sent_at_most_once:
  "length (filter (\<lambda>(q, r). tq_body q = action_body t arguments request_id cname)
     (rw_log (snd (runtime_run e t arguments request_id cname h)))) \<le> 1"
proof -
  let ?w = "\<lparr>rw_net = h, rw_log = [], rw_left = response_max\<rparr>"
  have "rw_log (snd (runtime_run e t arguments request_id cname h))
      = rw_log (snd (run_state (execute_tool e t arguments request_id cname) ?w))"
    by (simp add: runtime_run_def split: prod.split sum.split)
  moreover have "length (filter ((\<lambda>q. tq_body q = action_body t arguments request_id cname) \<circ> fst)
      (rw_log (snd (run_state (execute_tool e t arguments request_id cname) ?w)))) \<le> 1"
    using adds_execute [of t arguments request_id cname e] unfolding adds_def by (auto dest: spec [of _ ?w])
  ultimately show ?thesis by (simp add: o_def split_def)
qed

text \<open>A response is read whole, however the socket cuts it, exactly when it fits the budget that is left;
  one byte more and the execution fails.\<close>

theorem response_read_within_budget:
  assumes "\<And>p. p \<in> set ps \<Longrightarrow> p \<noteq> []"
  shows "fst (run_state (rt_read (map Bytes ps)) w)
     = (if length (concat ps) \<le> rw_left w then Inr (concat ps) else Inl LimitE)"
proof -
  have "plain_reads (map Bytes ps)" using assms by (simp add: plain_reads_Bytes)
  from chunk_list_plain [OF this, of "rw_left w"] show ?thesis
    unfolding concat_read_bytes by (auto simp: rt_read_def stop_exn_def split: prod.split if_splits)
qed


section \<open>Witnesses\<close>

text \<open>A tool behind port 8801 that refuses connections.\<close>

definition loop_op :: tool_op where
  "loop_op = \<lparr>to_tool = ''mail'', to_op = ''send'', to_risk = JNull, to_port = 8801, to_type = ''api'',
     to_verb = None, to_path_template = None, to_base_url_host = None, to_body_kind = None, to_generation = [], to_approval_fields = []\<rparr>"

definition refusing_env :: "nat rt_env" where
  "refusing_env = \<lparr>re_net = (\<lambda>n q. (ConnRefused ''refused'', n + 1)),
     re_secret = (\<lambda>tool. if tool = ''mail'' then Some ''s3'' else None),
     re_loads = (\<lambda>s. if s = ''{}'' then Parsed (JObj [(''jsonrpc'', JStr ''2.0''), (''id'', JInt 2), (''result'', JInt 7)]) else NotJson),
     re_str = (\<lambda>_. []), re_late = (\<lambda>_. False)\<rparr>"

lemma demo_run:
  "runtime_run refusing_env loop_op (JObj []) 5 None 0 =
     (Inl NotDispatchedE, \<lparr>rw_net = 1, rw_log = [(api_request refusing_env loop_op (JObj []) 5 None, ConnRefused ''refused'')],
        rw_left = response_max\<rparr>)"
  by (simp add: runtime_run_def execute_tool_def execute_api_def bind_ok_run rt_open_def api_request_def with_secret_def
      loop_op_def refusing_env_def)

theorem runtime_speaks_loopback_witness:
  "(api_request refusing_env loop_op (JObj []) 5 None, ConnRefused ''refused'')
      \<in> set (rw_log (snd (runtime_run refusing_env loop_op (JObj []) 5 None 0)))
   \<and> map_of (tq_headers (api_request refusing_env loop_op (JObj []) 5 None)) ''X-Toolstack-Secret'' = Some ''s3''"
proof -
  have logged: "(api_request refusing_env loop_op (JObj []) 5 None, ConnRefused ''refused'')
      \<in> set (rw_log (snd (runtime_run refusing_env loop_op (JObj []) 5 None 0)))" by (simp add: demo_run)
  from runtime_speaks_loopback [OF this] logged show ?thesis by (simp add: refusing_env_def loop_op_def)
qed

theorem not_dispatched_honest_witness:
  "\<exists>q reason. rw_log (snd (runtime_run refusing_env loop_op (JObj []) 5 None 0)) = [(q, ConnRefused reason)]"
proof -
  have "exec_of (fst (runtime_run refusing_env loop_op (JObj []) 5 None 0)) = ExecNotDispatched ''NotDispatched''"
    by (simp add: demo_run exec_of_def)
  from not_dispatched_honest [OF this] show ?thesis .
qed

theorem response_read_within_budget_witness:
  "fst (run_state (rt_read (map Bytes [''ab'', ''cd''])) \<lparr>rw_net = (), rw_log = [], rw_left = 4\<rparr>) = Inr ''abcd''
   \<and> fst (run_state (rt_read (map Bytes [''ab'', ''cd''])) \<lparr>rw_net = (), rw_log = [], rw_left = 3\<rparr>) = Inl LimitE"
  using response_read_within_budget [of "[''ab'', ''cd'']" "\<lparr>rw_net = (), rw_log = [], rw_left = 4\<rparr>"]
    response_read_within_budget [of "[''ab'', ''cd'']" "\<lparr>rw_net = (), rw_log = [], rw_left = 3\<rparr>"] by auto


end
