(* ===== verification/LifecycleInv.thy ===== *)
theory LifecycleInv
  imports Lifecycle
begin

text \<open>
  What the gateway process guarantees in every environment. Triples over the state monad carry
  one invariant through the code of \<open>Lifecycle\<close>: the database is reached by steps of
  \<open>store_step\<close>, no request is dispatched twice, and each dispatched call is the one its row binds
  and its policy lets through, after an approval if the policy asks for one.
\<close>

section \<open>Triples of a transaction\<close>

lemma hoare_txn:
  assumes "\<And>w x db. P w \<Longrightarrow> f (w_tick w) (arrive e w) = (x, db) \<Longrightarrow>
      Q x (w\<lparr>w_db := db, w_tick := w_tick w + 1\<rparr>)"
  shows "hoare P (txn e f) Q"
  using assms by (auto simp: hoare_def txn_def split: prod.splits)

section \<open>What the other processes leave alone\<close>

definition ap_frozen :: "approval_row \<Rightarrow> int \<times> int \<times> string \<times> rat \<times> string option" where
  "ap_frozen a = (ap_id a, ap_request_id a, ap_surface_ref a, ap_expires_at a, ap_digest a)"

definition apps_frozen :: "store \<Rightarrow> (int \<times> int \<times> string \<times> rat \<times> string option) list" where
  "apps_frozen db = map ap_frozen (st_approvals db)"

lemma apps_frozen_upd [simp]:
  "(\<And>a. ap_frozen (g a) = ap_frozen a) \<Longrightarrow> apps_frozen (upd_approvals q g db) = apps_frozen db"
  "apps_frozen (upd_requests p f db) = apps_frozen db"
  "apps_frozen (snd (append_audit t c ev oc co rid d db)) = apps_frozen db"
  by (simp_all add: apps_frozen_def map_sql_update)

lemma apps_frozen_finish [simp]:
  "apps_frozen (snd (finish_pending rid s a err st now dl db)) = apps_frozen db"
  by (auto simp: finish_pending_def ap_frozen_def split: option.splits sum.splits prod.splits)

lemma apps_frozen_write_policy [simp]: "apps_frozen (snd (write_policy cid p t1 t2 db)) = apps_frozen db"
  by (simp add: write_policy_def Let_def ap_frozen_def) (simp add: apps_frozen_def)

lemma apps_frozen_cas [simp]:
  "apps_frozen (snd (compare_and_set_policy cid b a opr t1 t2 t3 corr db)) = apps_frozen db"
  using apps_frozen_write_policy [of cid a t1 t2 db]
  by (auto simp: compare_and_set_policy_def simp del: apps_frozen_write_policy
      split: option.splits prod.splits sum.splits)

lemma apps_frozen_admin [simp]: "apps_frozen (run_admin t db) = apps_frozen db"
proof (cases t)
  case (Prune now)
  then show ?thesis by (simp add: run_admin_def prune_payloads_def Let_def ap_frozen_def)
qed (simp_all add: run_admin_def set_policy_def,
    simp_all add: apps_frozen_def add_caller_def revoke_caller_def add_token_def revoke_token_def
      revoke_tokens_for_caller_def clear_audit_def set_catalog_receipt_def Let_def append_audit_def)

lemma find_map_frozen:
  "map_option ap_frozen (approval_for_request db rid) =
     find (\<lambda>(i, r, _). r = rid) (apps_frozen db)"
proof -
  have "map_option ap_frozen (find (\<lambda>a. ap_request_id a = rid) xs) = find (\<lambda>(i, r, _). r = rid) (map ap_frozen xs)"
    for xs by (induction xs) (auto simp: ap_frozen_def)
  then show ?thesis by (simp add: approval_for_request_def apps_frozen_def)
qed

text \<open>A request that is received or executing is not touched by another process.\<close>

lemma finish_keeps:
  assumes "request db k = Some r" "rq_status r \<noteq> PendingApproval"
  shows "request (snd (finish_pending rid s a err st now dl db)) k = Some r"
proof (cases "rid = k")
  case True
  with assms show ?thesis by (auto simp: finish_pending_def split: option.splits)
next
  case False
  with request_SomeD [OF assms(1)] have "rq_id r \<noteq> rid" by simp
  then show ?thesis using assms
    by (auto simp: finish_pending_def request_def find_sql_update close_row_def
        split: option.splits sum.splits prod.splits)
qed

lemma write_policy_keeps:
  "request db k = Some r \<Longrightarrow> rq_status r \<noteq> PendingApproval \<Longrightarrow>
     request (snd (write_policy cid p t1 t2 db)) k = Some r"
  by (simp add: write_policy_def Let_def request_def find_sql_update close_row_def pending_of_def)

lemma cas_keeps:
  "request db k = Some r \<Longrightarrow> rq_status r \<noteq> PendingApproval \<Longrightarrow>
     request (snd (compare_and_set_policy cid b a opr t1 t2 t3 corr db)) k = Some r"
  using write_policy_keeps [of db k r cid a t1 t2]
  by (auto simp: compare_and_set_policy_def request_def split: option.splits prod.splits sum.splits)

lemma prune_keeps:
  "request db k = Some r \<Longrightarrow> \<not> terminal (rq_status r) \<Longrightarrow>
     request (snd (prune_payloads now db)) k = Some r"
  by (simp add: prune_payloads_def Let_def request_def find_sql_update prunable_def)

lemma admin_keeps:
  assumes "request db k = Some r" "rq_status r \<in> {Received, Executing}"
  shows "request (run_admin t db) k = Some r"
proof -
  from assms(2) have "rq_status r \<noteq> PendingApproval" "\<not> terminal (rq_status r)" by auto
  note keeps = finish_keeps [OF assms(1) this(1)] write_policy_keeps [OF assms(1) this(1)]
    cas_keeps [OF assms(1) this(1)] prune_keeps [OF assms(1) this(2)]
  show ?thesis
    using keeps assms(1)
    by (cases t) (simp_all add: run_admin_def set_policy_def request_def add_caller_def revoke_caller_def
        add_token_def revoke_token_def revoke_tokens_for_caller_def clear_audit_def
        set_catalog_receipt_def Let_def)
qed

text \<open>All transactions committed before a tick.\<close>

abbreviation steps :: "(string \<Rightarrow> string) \<Rightarrow> store \<Rightarrow> store \<Rightarrow> bool" where
  "steps sha \<equiv> (\<lambda>s s'. \<exists>l. store_step sha s l s')\<^sup>*\<^sup>*"

lemma admins_steps: "steps sha db (fold run_admin ts db)"
proof (induction ts arbitrary: db)
  case (Cons t ts)
  have "\<exists>l. store_step sha db l (run_admin t db)" by (blast intro: store_step.admin)
  with Cons [of "run_admin t db"] show ?case by (simp add: converse_rtranclp_into_rtranclp)
qed simp

lemma admins_frozen [simp]: "apps_frozen (fold run_admin ts db) = apps_frozen db"
  by (induction ts arbitrary: db) auto

lemma admins_keep:
  "request db k = Some r \<Longrightarrow> rq_status r \<in> {Received, Executing} \<Longrightarrow>
     request (fold run_admin ts db) k = Some r"
  by (induction ts arbitrary: db) (auto intro: admin_keeps)

lemma arrive_steps: "steps sha (w_db w) (arrive e w)"
  by (simp add: arrive_def admins_steps)

lemma arrive_keeps:
  "request (w_db w) k = Some r \<Longrightarrow> rq_status r \<in> {Received, Executing} \<Longrightarrow> request (arrive e w) k = Some r"
  by (simp add: arrive_def admins_keep)

lemma arrive_frozen [simp]: "apps_frozen (arrive e w) = apps_frozen (w_db w)"
  by (simp add: arrive_def)


section \<open>What a row keeps over time\<close>

definition row_later :: "request_row \<Rightarrow> request_row \<Rightarrow> bool" where
  "row_later r r' \<longleftrightarrow> same_row r r'
     \<and> (rq_status r \<notin> {Received, PendingApproval} \<longrightarrow> rq_status r' \<notin> {Received, PendingApproval})
     \<and> (\<not> terminal (rq_status r') \<longrightarrow> \<not> terminal (rq_status r)
          \<and> rq_arguments r' = rq_arguments r \<and> rq_action r' = rq_action r)"

lemma row_later_refl [simp]: "row_later r r"
  by (simp add: row_later_def)

lemma row_later_trans: "row_later r r1 \<Longrightarrow> row_later r1 r2 \<Longrightarrow> row_later r r2"
  by (auto simp: row_later_def same_row_def)

lemma row_step_later:
  assumes "row_step l r r'"
  shows "row_later r r'"
proof -
  from assms have st: "status_step (rq_status r) (rq_status r')" and same: "same_row r r'"
    and args: "\<not> terminal (rq_status r') \<Longrightarrow> rq_arguments r' = rq_arguments r \<and> rq_action r' = rq_action r"
    by (simp_all add: row_step_def)
  from status_step_claimable [OF st] status_step_terminal [OF st] same args show ?thesis
    by (simp add: row_later_def) blast
qed

lemma step_request:
  assumes "store_ok db" "store_step sha db l db'" "request db k = Some r"
  shows "\<exists>r'. request db' k = Some r' \<and> row_later r r'"
  using rows_step_request [OF step_rows [OF assms(2,1)] assms(3)] by (blast intro: row_step_later)

lemma steps_request:
  assumes "steps sha db db'" "store_ok db" "request db k = Some r"
  shows "\<exists>r'. request db' k = Some r' \<and> row_later r r'"
  using assms
proof (induction rule: rtranclp_induct)
  case (step a b)
  then obtain r1 where r1: "request a k = Some r1" "row_later r r1" by blast
  have "store_ok a" using step by (blast intro: db.steps_inv)
  with step r1 obtain r2 where "request b k = Some r2" "row_later r1 r2"
    by (blast dest: step_request)
  with r1 show ?case by (blast intro: row_later_trans)
qed auto

section \<open>The invariant of the gateway\<close>

text \<open>The digest of a row is that of an action with these arguments.\<close>

definition binds :: "(string \<Rightarrow> string) \<Rightarrow> request_row \<Rightarrow> json \<Rightarrow> bool" where
  "binds sha r arguments \<longleftrightarrow>
     (\<exists>g bound_args reason nonce text. rq_generation r = Some g
        \<and> canonical (action_value (rq_caller_id r) (rq_tool r) (rq_op r) g bound_args reason nonce) = Inr text
        \<and> rq_digest r = Some (sha text) \<and> canonical bound_args = canonical arguments)"

text \<open>A card for a request and digest was opened and the surface said approved.\<close>

definition card_for :: "env \<Rightarrow> operation_card list \<Rightarrow> int \<Rightarrow> string option \<Rightarrow> string \<Rightarrow> bool" where
  "card_for e cards rid digest ref \<longleftrightarrow>
     (\<exists>c \<in> set cards. card_request_id c = rid \<and> card_request_digest c = digest
        \<and> (\<exists>m. ev_open e m c = Inr ref))"

definition approved :: "env \<Rightarrow> operation_card list \<Rightarrow> request_row \<Rightarrow> bool" where
  "approved e cards r \<longleftrightarrow>
     (\<exists>ref n st. card_for e cards (rq_id r) (rq_digest r) ref
        \<and> ev_poll e n ref = Inr st \<and> ss_outcome st = SApproved)"

text \<open>The policy a request is bound to lets it run.\<close>

definition authorized :: "env \<Rightarrow> operation_card list \<Rightarrow> request_row \<Rightarrow> bool" where
  "authorized e cards r \<longleftrightarrow>
     (\<exists>p. rq_policy_binding r = Some (policy_text p)
        \<and> (decide p (rq_tool r) (rq_op r) = ALLOW
           \<or> decide p (rq_tool r) (rq_op r) = REVIEW \<and> approved e cards r))"

definition dispatch_ok :: "env \<Rightarrow> operation_card list \<Rightarrow> store \<Rightarrow> dispatch \<Rightarrow> bool" where
  "dispatch_ok e cards db d \<longleftrightarrow>
     (\<exists>r. request db (dp_request_id d) = Some r \<and> rq_status r \<notin> {Received, PendingApproval}
        \<and> to_tool (dp_op d) = rq_tool r \<and> to_op (dp_op d) = rq_op r
        \<and> rq_generation r = Some (to_generation (dp_op d))
        \<and> binds (ev_sha e) r (dp_arguments d) \<and> authorized e cards r)"

definition cards_ok :: "env \<Rightarrow> operation_card list \<Rightarrow> store \<Rightarrow> bool" where
  "cards_ok e cards db \<longleftrightarrow>
     (\<forall>(i, rid, ref, ex, digest) \<in> set (apps_frozen db). card_for e cards rid digest ref)"

definition linv :: "env \<Rightarrow> store \<Rightarrow> world \<Rightarrow> bool" where
  "linv e db0 w \<longleftrightarrow> store_ok (w_db w) \<and> steps (ev_sha e) db0 (w_db w)
     \<and> distinct (map dp_request_id (w_log w))
     \<and> (\<forall>d \<in> set (w_log w). dispatch_ok e (w_cards w) (w_db w) d)
     \<and> cards_ok e (w_cards w) (w_db w)"

lemma same_row_binds: "same_row r r' \<Longrightarrow> binds sha r a \<Longrightarrow> binds sha r' a"
  unfolding binds_def same_row_def by metis

lemma same_row_authorized: "same_row r r' \<Longrightarrow> authorized e cards r \<Longrightarrow> authorized e cards r'"
  unfolding authorized_def approved_def same_row_def by metis

lemma dispatch_ok_steps:
  assumes "dispatch_ok e cards db d" "steps (ev_sha e) db db'" "store_ok db"
  shows "dispatch_ok e cards db' d"
proof -
  from assms(1) obtain r where r: "request db (dp_request_id d) = Some r" "rq_status r \<notin> {Received, PendingApproval}"
    "to_tool (dp_op d) = rq_tool r" "to_op (dp_op d) = rq_op r" "rq_generation r = Some (to_generation (dp_op d))"
    "binds (ev_sha e) r (dp_arguments d)" "authorized e cards r"
    by (auto simp: dispatch_ok_def)
  from steps_request [OF assms(2,3) r(1)] obtain r' where r': "request db' (dp_request_id d) = Some r'" "row_later r r'"
    by blast
  then have same: "same_row r r'" by (simp add: row_later_def)
  from same_row_binds [OF same r(6)] same_row_authorized [OF same r(7)] r r' same show ?thesis
    unfolding dispatch_ok_def
    by (intro exI [of _ r']) (auto simp: row_later_def same_row_def)
qed

lemma card_for_mono: "card_for e cards rid d ref \<Longrightarrow> card_for e (cards @ cs) rid d ref"
  by (auto simp: card_for_def)

lemma dispatch_ok_cards: "dispatch_ok e cards db d \<Longrightarrow> dispatch_ok e (cards @ cs) db d"
  unfolding dispatch_ok_def authorized_def approved_def by (metis card_for_mono)

lemma cards_ok_mono: "cards_ok e cards db \<Longrightarrow> cards_ok e (cards @ cs) db"
  by (auto simp: cards_ok_def dest!: bspec intro: card_for_mono)

text \<open>The invariant after any number of steps that keep the frozen columns of the approvals.\<close>

lemma linv_steps:
  assumes "linv e db0 w" "steps (ev_sha e) (w_db w) db" "apps_frozen db = apps_frozen (w_db w)"
  shows "linv e db0 (w\<lparr>w_db := db, w_tick := n\<rparr>)"
  using assms dispatch_ok_steps [OF _ assms(2)] unfolding linv_def
  by (auto simp: cards_ok_def intro: db.steps_inv)

lemma linv_tick: "linv e db0 w \<Longrightarrow> linv e db0 (w\<lparr>w_tick := n\<rparr>)"
  by (simp add: linv_def)

lemma linv_arrive: "linv e db0 w \<Longrightarrow> store_ok (arrive e w)"
  using arrive_steps [of "ev_sha e" w e] by (auto simp: linv_def intro: db.steps_inv)

text \<open>One transaction of the gateway after those of the other processes.\<close>

lemma linv_txn:
  assumes "linv e db0 w" "\<exists>l. store_step (ev_sha e) (arrive e w) l db"
    "apps_frozen db = apps_frozen (arrive e w)"
  shows "linv e db0 (w\<lparr>w_db := db, w_tick := n\<rparr>)"
  using assms arrive_steps [of "ev_sha e" w e]
  by (intro linv_steps) (auto intro: rtranclp.rtrancl_into_rtrancl)

lemma linv_read: "linv e db0 w \<Longrightarrow> linv e db0 (w\<lparr>w_db := arrive e w, w_tick := n\<rparr>)"
  using arrive_steps [of "ev_sha e" w e] by (intro linv_steps) auto

text \<open>The gateway has the row \<open>r\<close> of request \<open>k\<close> in hand; \<open>b\<close> says it has not dispatched it yet.\<close>

definition held :: "env \<Rightarrow> store \<Rightarrow> bool \<Rightarrow> int \<Rightarrow> request_row \<Rightarrow> world \<Rightarrow> bool" where
  "held e db0 b k r w \<longleftrightarrow> linv e db0 w \<and> request (w_db w) k = Some r
     \<and> (b \<longrightarrow> k \<notin> set (map dp_request_id (w_log w))
          \<and> (rq_status r = Executing \<longrightarrow> authorized e (w_cards w) r))"

lemma held_linv: "held e db0 b k r w \<Longrightarrow> linv e db0 w"
  by (simp add: held_def)

lemma hoare_read_linv: "hoare (linv e db0) (txn e (\<lambda>n db. (f n db, db))) (\<lambda>_. linv e db0)"
  by (rule hoare_txn) (auto intro: linv_read)

lemma hoare_query_linv: "hoare (linv e db0) (query e f) (\<lambda>_. linv e db0)"
  unfolding query_def by (rule hoare_read_linv)

lemma held_read:
  "held e db0 b k r w \<Longrightarrow> rq_status r \<in> {Received, Executing} \<Longrightarrow>
     held e db0 b k r (w\<lparr>w_db := arrive e w, w_tick := n\<rparr>)"
  by (auto simp: held_def intro: linv_read arrive_keeps)

lemma hoare_read_held:
  "rq_status r \<in> {Received, Executing} \<Longrightarrow>
     hoare (held e db0 b k r) (txn e (\<lambda>n db. (f n db, db))) (\<lambda>_. held e db0 b k r)"
  by (rule hoare_txn) (auto intro!: held_read)

lemma held_request:
  "held e db0 b k r w \<Longrightarrow> rq_status r \<in> {Received, Executing} \<Longrightarrow> request (arrive e w) k = Some r"
  by (simp add: held_def arrive_keeps)

lemma hoare_query_request:
  "rq_status r \<in> {Received, Executing} \<Longrightarrow>
     hoare (held e db0 b k r) (query e (\<lambda>db. request db k)) (\<lambda>x w. x = Some r \<and> held e db0 b k r w)"
  unfolding query_def by (rule hoare_txn) (auto dest: held_request [where e = e] intro!: held_read)

section \<open>Triples of the accesses\<close>

lemma append_audit_step: "\<exists>l. store_step sha db l (snd (append_audit t c ev oc co rid d db))"
  using store_step.admin [of sha db "AppendAudit t c ev oc co rid d"] by (auto simp: run_admin_def)

lemma hoare_audit_linv: "hoare (linv e db0) (audit_record e c ev oc corr rid d) (\<lambda>_. linv e db0)"
  unfolding audit_record_def by (rule hoare_txn) (auto intro!: linv_txn append_audit_step)

lemma request_append_audit [simp]: "request (snd (append_audit t c ev oc co rid d db)) k = request db k"
  by (simp add: request_def)

lemma hoare_audit_held:
  assumes "rq_status r \<in> {Received, Executing}"
  shows "hoare (held e db0 b k r) (audit_record e c ev oc corr rid d) (\<lambda>_. held e db0 b k r)"
  unfolding audit_record_def
proof (rule hoare_txn)
  fix w x db
  assume h: "held e db0 b k r w"
    and eq: "((), snd (append_audit (ev_clock e (w_tick w)) c ev oc (Some corr) rid (JObj d) (arrive e w))) = (x, db)"
  have "linv e db0 (w\<lparr>w_db := db, w_tick := w_tick w + 1\<rparr>)"
    using h eq by (auto intro!: linv_txn append_audit_step simp: held_def)
  moreover have "request db k = Some r" using eq held_request [OF h assms] by auto
  ultimately show "held e db0 b k r (w\<lparr>w_db := db, w_tick := w_tick w + 1\<rparr>)"
    using h by (simp add: held_def)
qed

lemma apps_frozen_update [simp]: "apps_frozen (update_request k u now db) = apps_frozen db"
  by (simp add: update_request_def Let_def)

lemma hoare_set_close:
  assumes "rq_status r \<in> {Received, Executing}" "status_step (rq_status r) s" "closing_fields u s"
  shows "hoare (held e db0 b k r) (set_request e k u) (\<lambda>_. linv e db0)"
  unfolding set_request_def
  by (rule hoare_txn) (auto intro!: linv_txn simp: held_linv
      dest: held_request [OF _ assms(1)] intro: store_step.close [OF _ assms])

lemma hoare_execute_call:
  assumes "rq_status r = Executing" "to_tool t = rq_tool r" "to_op t = rq_op r"
    "rq_generation r = Some (to_generation t)" "binds (ev_sha e) r args"
  shows "hoare (held e db0 True k r) (runtime_execute e t args k cname) (\<lambda>_. held e db0 False k r)"
  using assms unfolding runtime_execute_def
  by (auto simp: hoare_def held_def linv_def dispatch_ok_def)

lemma up_status_closed_as [simp]: "up_status (closed_as s err) = Some s"
  by (simp add: closed_as_def)

lemma closing_closed_as [simp]: "terminal s \<Longrightarrow> closing_fields (closed_as s err) s"
  by (simp add: closing_fields_def closed_as_def no_fields_def)

lemma closing_simps [simp]:
  "closing_fields (no_fields\<lparr>up_status := Some Completed, up_result := x, up_arguments := Some None\<rparr>) Completed"
  "terminal s \<Longrightarrow> closing_fields (no_fields\<lparr>up_status := Some s, up_error := y\<rparr>) s"
  "terminal s \<Longrightarrow> closing_fields (no_fields\<lparr>up_status := Some s, up_arguments := Some None\<rparr>) s"
  by (simp_all add: closing_fields_def no_fields_def)

lemma execute_request_linv:
  assumes r: "rq_status r = Executing" "to_tool t = rq_tool r" "to_op t = rq_op r"
    "rq_generation r = Some (to_generation t)" "binds (ev_sha e) r args"
  shows "hoare (held e db0 True k r) (execute_request e k tool op args corr cname (Some t)) (\<lambda>_. linv e db0)"
proof -
  have st: "rq_status r \<in> {Received, Executing}" using r by simp
  have close: "hoare (held e db0 False k r) (set_request e k u) (\<lambda>_. linv e db0)"
    if "closing_fields u (the (up_status u))" "the (up_status u) \<in> {Completed, Failed, Unknown}" for u
    using st r(1) that by (intro hoare_set_close [where s = "the (up_status u)"]) (auto simp: status_step_def)
  show ?thesis
    unfolding execute_request_def
    apply (rule hoare_bind [OF hoare_query_request [OF st]])
    apply (rule hoare_pure)
    apply (simp add: r(1))
    apply (rule hoare_bind [OF hoare_audit_held [OF st]])
    apply (rule hoare_bind [OF hoare_execute_call [OF r]])
    subgoal for _ res
      by (cases res)
        (auto intro!: hoare_bind [OF close] hoare_bind [OF hoare_audit_linv] hoare_ret)
    done
qed

section \<open>Claims\<close>

lemma bound_binds:
  assumes "bound sha r g fresh" "rq_generation r = Some g"
  shows "binds sha r (the_or JNull (rq_arguments r))"
proof -
  let ?a = "the_or JNull (rq_action r)"
  let ?n = "if jget0 ''nonce'' ?a \<noteq> JNull then jget0 ''nonce'' ?a else JStr fresh"
  from assms(1) obtain msg where
    msg: "canonical (action_value (rq_caller_id r) (rq_tool r) (rq_op r) g
        (jget0 ''arguments'' ?a) (jget0 ''reason'' ?a) ?n) = Inr msg"
    and digest: "rq_digest r = Some (sha msg)"
    and args: "canonical (jget0 ''arguments'' ?a) = canonical (the_or JNull (rq_arguments r))"
    unfolding bound_def bound_request_def Let_def by (auto split: sum.splits)
  with assms(2) show ?thesis unfolding binds_def by blast
qed

lemma claim_received_True:
  assumes "claim_received sha k gen cl d fresh now db = (True, db')" "request db k = Some r" "store_ok db"
  shows "received_valid sha db r gen cl d fresh
    \<and> request db' k = Some (r\<lparr>rq_status := Executing, rq_updated_at := now\<rparr>)"
proof -
  from assms have v: "received_valid sha db r gen cl d fresh"
    and db': "db' = upd_requests (\<lambda>r. rq_id r = k \<and> rq_status r = Received)
                        (\<lambda>r. r\<lparr>rq_status := Executing, rq_updated_at := now\<rparr>) db"
    by (auto simp: claim_received_def split: if_splits)
  from assms(2) v request_SomeD [OF assms(2)] show ?thesis
    by (simp add: db' request_def find_sql_update received_valid_def)
qed

lemma apps_frozen_claim_received:
  "claim_received sha k gen cl d fresh now db = (ok, db') \<Longrightarrow> apps_frozen db' = apps_frozen db"
  by (auto simp: claim_received_def split: option.splits if_splits)

text \<open>A successful claim leaves the row executing, with what it binds and why it may run.\<close>

definition ready :: "env \<Rightarrow> store \<Rightarrow> int \<Rightarrow> string option \<Rightarrow> json \<Rightarrow> request_row \<Rightarrow> request_row \<Rightarrow> world \<Rightarrow> bool" where
  "ready e db0 k gen args r r' w \<longleftrightarrow> held e db0 True k r' w \<and> rq_status r' = Executing \<and> same_row r r'
     \<and> gen \<noteq> None \<and> rq_generation r' = gen \<and> binds (ev_sha e) r' args"

lemma hoare_claim_received:
  assumes "rq_status r = Received"
  shows "hoare (held e db0 True k r)
    (txn e (\<lambda>n db. claim_received (ev_sha e) k gen cl d (ev_rng e n) (ev_clock e n) db))
    (\<lambda>ok w. if ok then \<exists>r'. ready e db0 k gen (the_or JNull (rq_arguments r)) r r' w else linv e db0 w)"
proof (rule hoare_txn)
  fix w :: world and ok db
  let ?w = "w\<lparr>w_db := db, w_tick := w_tick w + 1\<rparr>"
  assume h: "held e db0 True k r w"
    and cl: "claim_received (ev_sha e) k gen cl d (ev_rng e (w_tick w)) (ev_clock e (w_tick w)) (arrive e w) = (ok, db)"
  have req: "request (arrive e w) k = Some r" using held_request [OF h] assms by simp
  have ok: "store_ok (arrive e w)" using h by (auto simp: held_def intro: linv_arrive)
  have inv: "linv e db0 ?w"
    using h cl by (intro linv_txn) (auto simp: held_def apps_frozen_claim_received intro: store_step.claim_rec)
  show "if ok then \<exists>r'. ready e db0 k gen (the_or JNull (rq_arguments r)) r r' ?w else linv e db0 ?w"
  proof (cases ok)
    case True
    let ?r = "r\<lparr>rq_status := Executing, rq_updated_at := ev_clock e (w_tick w)\<rparr>"
    from claim_received_True [of "ev_sha e" k gen cl d "ev_rng e (w_tick w)"] cl True req ok
    have v: "received_valid (ev_sha e) (arrive e w) r gen cl d (ev_rng e (w_tick w))"
      and r': "request db k = Some ?r" by auto
    from v obtain g where g: "gen = Some g" "rq_generation r = Some g" "bound (ev_sha e) r g (ev_rng e (w_tick w))"
      by (auto simp: received_valid_def split: option.splits)
    have same: "same_row r ?r" by (simp add: same_row_def)
    have "authorized e (w_cards w) ?r"
      using v unfolding authorized_def received_valid_def
      by (intro exI [of _ "policy_for (arrive e w) (rq_caller_id r)"]) auto
    then have "ready e db0 k gen (the_or JNull (rq_arguments r)) r ?r ?w"
      using inv r' h g same same_row_binds [OF same bound_binds [OF g(3,2)]]
      by (simp add: ready_def held_def)
    with True show ?thesis by auto
  qed (use inv in simp)
qed

text \<open>The row as it was read before, and the approval the gateway polled.\<close>

definition watched :: "env \<Rightarrow> store \<Rightarrow> request_row \<Rightarrow> string \<Rightarrow> world \<Rightarrow> bool" where
  "watched e db0 req ref w \<longleftrightarrow> linv e db0 w
     \<and> (\<exists>r. request (w_db w) (rq_id req) = Some r \<and> row_later req r)
     \<and> (\<exists>a. approval_for_request (w_db w) (rq_id req) = Some a \<and> ap_surface_ref a = ref)"

lemma watched_linv: "watched e db0 req ref w \<Longrightarrow> linv e db0 w"
  by (simp add: watched_def)

lemma frozen_approval:
  assumes "apps_frozen db' = apps_frozen db" "approval_for_request db k = Some a"
  shows "\<exists>a'. approval_for_request db' k = Some a' \<and> ap_frozen a' = ap_frozen a"
  using find_map_frozen [of db k] find_map_frozen [of db' k] assms by (metis map_option_eq_Some)

lemma watched_steps:
  assumes "watched e db0 req ref w" "steps (ev_sha e) (w_db w) db" "apps_frozen db = apps_frozen (w_db w)"
  shows "watched e db0 req ref (w\<lparr>w_db := db, w_tick := n\<rparr>)"
proof -
  from assms(1) obtain r a where r: "request (w_db w) (rq_id req) = Some r" "row_later req r"
    and a: "approval_for_request (w_db w) (rq_id req) = Some a" "ap_surface_ref a = ref"
    and inv: "linv e db0 w" by (auto simp: watched_def)
  from inv have "store_ok (w_db w)" by (simp add: linv_def)
  with steps_request [OF assms(2) _ r(1)] r(2) obtain r'
    where "request db (rq_id req) = Some r'" "row_later req r'" by (blast intro: row_later_trans)
  moreover from frozen_approval [OF assms(3) a(1)] a(2) obtain a'
    where "approval_for_request db (rq_id req) = Some a'" "ap_surface_ref a' = ref"
    by (auto simp: ap_frozen_def)
  ultimately show ?thesis using linv_steps [OF inv assms(2,3)] by (auto simp: watched_def)
qed

lemma hoare_read_watched:
  "hoare (watched e db0 req ref) (txn e (\<lambda>n db. (f n db, db))) (\<lambda>_. watched e db0 req ref)"
  by (rule hoare_txn) (auto intro!: watched_steps arrive_steps)

lemma hoare_audit_watched:
  "hoare (watched e db0 req ref) (audit_record e c ev oc corr rid d) (\<lambda>_. watched e db0 req ref)"
  unfolding audit_record_def
proof (rule hoare_txn)
  fix w x db
  assume "watched e db0 req ref w"
    and "((), snd (append_audit (ev_clock e (w_tick w)) c ev oc (Some corr) rid (JObj d) (arrive e w))) = (x, db)"
  then show "watched e db0 req ref (w\<lparr>w_db := db, w_tick := w_tick w + 1\<rparr>)"
    using append_audit_step arrive_steps [of "ev_sha e" w e]
    by (intro watched_steps) (auto intro: rtranclp.rtrancl_into_rtrancl)
qed

lemma claim_approval_True:
  assumes "claim_approval sha k gen st now clo fresh db = (True, db')" "request db k = Some r"
  shows "\<exists>a. approval_for_request db k = Some a \<and> approval_valid sha db r a gen now clo fresh
    \<and> request db' k = Some (r\<lparr>rq_status := Executing, rq_updated_at := now\<rparr>)"
proof (cases "approval_for_request db k")
  case None
  with assms show ?thesis by (auto simp: claim_approval_def Let_def split: if_splits)
next
  case (Some a)
  with assms have v: "approval_valid sha db r a gen now clo fresh"
    by (auto simp: claim_approval_def Let_def split: if_splits)
  with assms Some have "st_requests db' = sql_update (\<lambda>x. rq_id x = k)
      (\<lambda>x. x\<lparr>rq_status := Executing, rq_updated_at := now\<rparr>) (st_requests db)"
    by (auto simp: claim_approval_def Let_def)
  with v Some assms(2) request_SomeD [OF assms(2)] show ?thesis
    by (simp add: request_def find_sql_update)
qed

lemma apps_frozen_claim_approval:
  "claim_approval sha k gen st now clo fresh db = (ok, db') \<Longrightarrow> apps_frozen db' = apps_frozen db"
  by (auto simp: claim_approval_def Let_def ap_frozen_def split: option.splits if_splits)

lemma claimable_not_logged:
  assumes "linv e db0 w" "request (arrive e w) k = Some r" "rq_status r \<in> {Received, PendingApproval}"
  shows "k \<notin> set (map dp_request_id (w_log w))"
proof
  assume "k \<in> set (map dp_request_id (w_log w))"
  then obtain d where d: "d \<in> set (w_log w)" "dp_request_id d = k" by auto
  from assms(1) d(1) have "dispatch_ok e (w_cards w) (w_db w) d" "store_ok (w_db w)" by (auto simp: linv_def)
  from dispatch_ok_steps [OF this(1) arrive_steps [of _ w e] this(2)] d(2) assms(2,3) show False
    by (auto simp: dispatch_ok_def)
qed

lemma approved_card:
  assumes "cards_ok e cards db" "approval_for_request db k = Some a"
  shows "card_for e cards k (ap_digest a) (ap_surface_ref a)"
proof -
  from assms(2) have "a \<in> set (st_approvals db)" "ap_request_id a = k"
    by (auto simp: approval_for_request_def dest: find_SomeD)
  then have "(ap_id a, k, ap_surface_ref a, ap_expires_at a, ap_digest a) \<in> set (apps_frozen db)"
    by (auto simp: apps_frozen_def ap_frozen_def image_iff intro!: bexI [of _ a])
  with assms(1) show ?thesis by (auto simp: cards_ok_def)
qed

lemma hoare_claim_approval:
  assumes poll: "ev_poll e n0 ref = Inr st0" "ss_outcome st0 = SApproved"
  shows "hoare (watched e db0 req ref)
    (txn e (\<lambda>n db. claim_approval (ev_sha e) (rq_id req) gen state t clo (ev_rng e n) db))
    (\<lambda>ok w. if ok then \<exists>r'. ready e db0 (rq_id req) gen (the_or (JObj []) (rq_arguments req)) req r' w
            else linv e db0 w)"
proof (rule hoare_txn)
  fix w :: world and ok db
  let ?w = "w\<lparr>w_db := db, w_tick := w_tick w + 1\<rparr>" and ?k = "rq_id req"
  let ?goal = "\<exists>r'. ready e db0 ?k gen (the_or (JObj []) (rq_arguments req)) req r' ?w"
  assume watch: "watched e db0 req ref w"
    and cl: "claim_approval (ev_sha e) ?k gen state t clo (ev_rng e (w_tick w)) (arrive e w) = (ok, db)"
  note inv = watched_linv [OF watch]
  have inv': "linv e db0 ?w"
    using inv cl by (intro linv_txn) (auto simp: apps_frozen_claim_approval intro: store_step.claim_app)
  have aok: "store_ok (arrive e w)" using inv by (rule linv_arrive)
  have "watched e db0 req ref (w\<lparr>w_db := arrive e w, w_tick := 0\<rparr>)"
    using watch by (intro watched_steps arrive_steps) auto
  then obtain r a where r: "request (arrive e w) ?k = Some r" "row_later req r"
    and a: "approval_for_request (arrive e w) ?k = Some a" "ap_surface_ref a = ref"
    by (auto simp: watched_def)
  show "if ok then ?goal else linv e db0 ?w"
  proof (cases ok)
    case True
    let ?r = "r\<lparr>rq_status := Executing, rq_updated_at := t\<rparr>"
    from claim_approval_True [of "ev_sha e" ?k gen state t clo "ev_rng e (w_tick w)" "arrive e w" db r] cl True r(1) a(1)
    have v: "approval_valid (ev_sha e) (arrive e w) r a gen t clo (ev_rng e (w_tick w))"
      and r': "request db ?k = Some ?r" by auto
    from v obtain g where g: "gen = Some g" "rq_generation r = Some g" "bound (ev_sha e) r g (ev_rng e (w_tick w))"
      by (auto simp: approval_valid_def split: option.splits)
    from v have pend: "rq_status r = PendingApproval" by (simp add: approval_valid_def)
    have same: "same_row req ?r" using r(2) by (simp add: row_later_def same_row_def)
    have "rq_arguments r = rq_arguments req" using r(2) pend by (simp add: row_later_def)
    moreover have "row_cleared r"
      using aok request_SomeD [OF r(1)] by (simp add: store_ok_def cleared_ok_def)
    ultimately have args: "the_or JNull (rq_arguments r) = the_or (JObj []) (rq_arguments req)"
      using pend by (auto simp: row_cleared_def the_or_def)
    have b: "binds (ev_sha e) ?r (the_or (JObj []) (rq_arguments req))"
      using same_row_binds [of r ?r, OF _ bound_binds [OF g(3,2)]] args by (simp add: same_row_def)
    have "cards_ok e (w_cards w) (arrive e w)" using inv by (simp add: linv_def cards_ok_def)
    from approved_card [OF this a(1)] a(2) poll v request_SomeD [OF r(1)]
    have "approved e (w_cards w) ?r"
      unfolding approved_def
      by (intro exI [of _ ref] exI [of _ n0] exI [of _ st0])
        (auto simp: approval_valid_def split: option.splits)
    then have "authorized e (w_cards w) ?r"
      using v unfolding authorized_def
      by (intro exI [of _ "policy_for (arrive e w) (rq_caller_id r)"]) (auto simp: approval_valid_def)
    then have "ready e db0 ?k gen (the_or (JObj []) (rq_arguments req)) req ?r ?w"
      using inv' r' g same b claimable_not_logged [OF inv r(1)] pend
      by (simp add: ready_def held_def)
    with True show ?thesis by auto
  qed (use inv' in simp)
qed

section \<open>Opening an approval\<close>

lemma authorized_mono: "authorized e cards r \<Longrightarrow> authorized e (cards @ cs) r"
  unfolding authorized_def approved_def by (metis card_for_mono)

definition carded :: "env \<Rightarrow> store \<Rightarrow> int \<Rightarrow> request_row \<Rightarrow> string \<Rightarrow> world \<Rightarrow> bool" where
  "carded e db0 k r ref w \<longleftrightarrow> held e db0 True k r w \<and> card_for e (w_cards w) k (rq_digest r) ref"

lemma hoare_surface_open:
  assumes "card_request_id c = k" "card_request_digest c = rq_digest r"
  shows "hoare (held e db0 True k r) (surface_open e c)
    (\<lambda>res w. case res of Inl _ \<Rightarrow> held e db0 True k r w | Inr ref \<Rightarrow> carded e db0 k r ref w)"
proof -
  have inv: "linv e db0 (w\<lparr>w_tick := n, w_cards := w_cards w @ [c]\<rparr>)" if "linv e db0 w" for w n
    using that by (auto simp: linv_def intro: dispatch_ok_cards cards_ok_mono)
  have h: "held e db0 True k r (w\<lparr>w_tick := n, w_cards := w_cards w @ [c]\<rparr>)" if "held e db0 True k r w" for w n
    using that by (auto simp: held_def inv authorized_mono)
  have "card_for e (w_cards w @ [c]) k (rq_digest r) ref" if "ev_open e n c = Inr ref" for w n ref
    using assms that by (auto simp: card_for_def)
  with h show ?thesis
    by (auto simp: hoare_def surface_open_def carded_def split: sum.splits)
qed

lemma hoare_read_carded:
  "rq_status r \<in> {Received, Executing} \<Longrightarrow>
     hoare (carded e db0 k r ref) (txn e (\<lambda>n db. (f n db, db))) (\<lambda>_. carded e db0 k r ref)"
  by (rule hoare_txn) (auto simp: carded_def intro!: held_read)

lemma hoare_create_approval:
  assumes st: "rq_status r = Received"
  shows "hoare (carded e db0 k r ref)
    (txn e (\<lambda>n db. create_approval k ref ex (rq_digest r) (ev_clock e n) db))
    (\<lambda>_. held e db0 True k r)"
proof (rule hoare_txn)
  fix w :: world and x db
  let ?w = "w\<lparr>w_db := db, w_tick := w_tick w + 1\<rparr>"
  assume c: "carded e db0 k r ref w"
    and cr: "create_approval k ref ex (rq_digest r) (ev_clock e (w_tick w)) (arrive e w) = (x, db)"
  from c have h: "held e db0 True k r w" and cf: "card_for e (w_cards w) k (rq_digest r) ref"
    by (simp_all add: carded_def)
  from h have inv: "linv e db0 w" by (rule held_linv)
  have req: "request (arrive e w) k = Some r" using held_request [OF h] st by simp
  have one: "\<exists>l. store_step (ev_sha e) (arrive e w) l db"
    using store_step.open_approval [of "ev_sha e" "arrive e w" k ref ex "rq_digest r" "ev_clock e (w_tick w)"] cr
    by auto
  then have steps: "steps (ev_sha e) (w_db w) db"
    using arrive_steps [of "ev_sha e" w e] by (auto intro: rtranclp.rtrancl_into_rtrancl)
  have frozen: "\<exists>i. apps_frozen db = apps_frozen (w_db w) @ [(i, k, ref, ex, rq_digest r)]"
  proof -
    from cr req have "\<exists>i. apps_frozen db = apps_frozen (arrive e w) @ [(i, k, ref, ex, rq_digest r)]"
      by (auto simp: create_approval_def Let_def apps_frozen_def ap_frozen_def)
    then show ?thesis by simp
  qed
  have "store_ok (w_db w)" using inv by (simp add: linv_def)
  then have "linv e db0 ?w"
    using inv steps frozen cf dispatch_ok_steps [OF _ steps] unfolding linv_def
    by (auto simp: cards_ok_def intro: db.steps_inv)
  moreover have "request db k = Some r"
    using cr req by (auto simp: create_approval_def Let_def request_def)
  ultimately show "held e db0 True k r ?w" using h by (simp add: held_def)
qed

lemma hoare_park:
  assumes "rq_status r = Received"
  shows "hoare (held e db0 b k r) (set_request e k (no_fields\<lparr>up_status := Some PendingApproval\<rparr>)) (\<lambda>_. linv e db0)"
  unfolding set_request_def
proof (rule hoare_txn)
  fix w :: world and x db
  assume h: "held e db0 b k r w"
    and eq: "((), update_request k (no_fields\<lparr>up_status := Some PendingApproval\<rparr>) (ev_clock e (w_tick w)) (arrive e w)) = (x, db)"
  have "request (arrive e w) k = Some r" using held_request [OF h] assms by simp
  with eq assms show "linv e db0 (w\<lparr>w_db := db, w_tick := w_tick w + 1\<rparr>)"
    by (auto intro!: linv_txn [OF held_linv [OF h]] exI [of _ None] store_step.park)
qed

lemma open_approval_linv:
  assumes st: "rq_status r = Received"
  shows "hoare (held e db0 True k r) (open_approval e k cname tool op t args corr) (\<lambda>_. linv e db0)"
proof -
  have rx: "rq_status r \<in> {Received, Executing}" using st by simp
  have close: "hoare (held e db0 True k r) (set_request e k u) (\<lambda>_. linv e db0)" if "closing_fields u Failed" for u
    using st that by (intro hoare_set_close [where s = Failed]) (auto simp: status_step_def)
  have opened: "hoare (carded e db0 k r ref)
     (bind_ok (txn e (\<lambda>n db. create_approval k ref ex (rq_digest r) (ev_clock e n) db)) (\<lambda>_. do {
        set_request e k (no_fields\<lparr>up_status := Some PendingApproval\<rparr>);
        audit_record e ''approval'' ''opened'' ''pending_approval'' corr (Some k) d;
        ret (Inr out)})) (\<lambda>_. linv e db0)" for ref ex d out
    by (rule hoare_bind_ok [OF hoare_create_approval [OF st]])
      (auto intro!: hoare_bind [OF hoare_park [OF st]] hoare_bind [OF hoare_audit_linv] hoare_ret intro: held_linv)
  show ?thesis
    unfolding open_approval_def query_def
    apply (split if_split, intro conjI impI)
    subgoal by (auto intro!: hoare_bind [OF close] hoare_bind [OF hoare_audit_linv] hoare_ret)
    apply (rule hoare_bind [OF hoare_query_request [OF rx, unfolded query_def]])
    apply (rule hoare_pure)
    apply (simp split: sum.split)
    apply (intro conjI allI impI)
    subgoal by (rule hoare_ret) (rule held_linv)
    apply (rule hoare_bind [OF hoare_read_held [OF rx]])
    apply (rule hoare_bind [OF hoare_surface_open])
    subgoal by (simp add: build_card_def Let_def)
    subgoal by (simp add: build_card_def Let_def)
    subgoal for _ _ _ res
      by (cases res)
        (auto intro!: hoare_bind [OF close] hoare_bind [OF hoare_audit_linv] hoare_ret
          hoare_bind [OF hoare_read_carded [OF rx]] opened simp: now_time_def)
    done
qed

section \<open>Submission\<close>

lemma binds_sorted: "binds sha r (sort_json a) \<longleftrightarrow> binds sha r a"
  by (simp add: binds_def canonical_sort_json)

text \<open>What \<^verbatim>\<open>reserve_action\<close> hands to the call that created the row.\<close>

definition new_row :: "caller \<Rightarrow> string \<Rightarrow> string \<Rightarrow> json \<Rightarrow> request_row \<Rightarrow> bool" where
  "new_row cl tool op args r \<longleftrightarrow> rq_status r = Received \<and> rq_caller_id r = cl_id cl \<and> rq_tool r = tool
     \<and> rq_op r = op \<and> rq_arguments r = Some (sort_json args)"

lemma apps_frozen_reserve [simp]:
  "apps_frozen (snd (reserve_action sha cl corr tool op args reason g key fresh now db)) = apps_frozen db"
  using reserve_cases [of sha cl corr tool op args reason g key fresh now db]
  by (auto simp: Let_def apps_frozen_def)

lemma reserve_created:
  assumes "reserve_action sha cl corr tool op args reason g key fresh now db = (Inr (row, True, c), db')"
  shows "request db (rq_id row) = None \<and> request db' (rq_id row) = Some row \<and> new_row cl tool op args row \<and> \<not> c"
proof -
  from assms reserve_cases [of sha cl corr tool op args reason g key fresh now db] obtain digest binding where
    row: "row = reserved_row (next_rowid rq_id (st_requests db)) cl corr tool op args reason g key
             (policy_for db (cl_id cl)) digest binding fresh now"
    and db': "db' = db\<lparr>st_requests := st_requests db @ [row]\<rparr>" and c: "\<not> c"
    by (auto simp: Let_def reserve_action_def split: sum.splits option.splits prod.splits if_splits)
  from row have id: "rq_id row = next_rowid rq_id (st_requests db)" by (simp add: reserved_row_def)
  have "request db (rq_id row) = None"
    using request_ids [of db "rq_id row"] next_rowid_notin [of rq_id "st_requests db"] id by auto
  with db' id c show ?thesis
    by (simp add: request_def find_append new_row_def) (simp add: row reserved_row_def)
qed

lemma unknown_not_logged:
  assumes "linv e db0 w" "request (arrive e w) k = None"
  shows "k \<notin> set (map dp_request_id (w_log w))"
proof
  assume "k \<in> set (map dp_request_id (w_log w))"
  then obtain d where d: "d \<in> set (w_log w)" "dp_request_id d = k" by auto
  from assms(1) d(1) have "dispatch_ok e (w_cards w) (w_db w) d" "store_ok (w_db w)" by (auto simp: linv_def)
  from dispatch_ok_steps [OF this(1) arrive_steps [of _ w e] this(2)] d(2) assms(2) show False
    by (auto simp: dispatch_ok_def)
qed

definition reserved_post :: "env \<Rightarrow> store \<Rightarrow> caller \<Rightarrow> string \<Rightarrow> string \<Rightarrow> json
    \<Rightarrow> (request_row \<times> bool \<times> bool) result \<Rightarrow> world \<Rightarrow> bool" where
  "reserved_post e db0 cl tool op args res w \<longleftrightarrow> linv e db0 w \<and>
     (case res of Inr (row, created, _) \<Rightarrow>
        created \<longrightarrow> new_row cl tool op args row \<and> held e db0 True (rq_id row) row w | Inl _ \<Rightarrow> True)"

lemma hoare_reserve:
  "hoare (linv e db0) (txn e (\<lambda>n db. reserve_action (ev_sha e) cl corr tool op args reason g key
      (ev_rng e n) (ev_clock e n) db)) (reserved_post e db0 cl tool op args)"
proof (rule hoare_txn)
  fix w :: world and res db
  let ?w = "w\<lparr>w_db := db, w_tick := w_tick w + 1\<rparr>"
  assume inv: "linv e db0 w"
    and rs: "reserve_action (ev_sha e) cl corr tool op args reason g key (ev_rng e (w_tick w))
               (ev_clock e (w_tick w)) (arrive e w) = (res, db)"
  have "\<exists>l. store_step (ev_sha e) (arrive e w) l db"
    using store_step.reserve [of "ev_sha e" "arrive e w" cl corr tool op args reason g key
        "ev_rng e (w_tick w)" "ev_clock e (w_tick w)"] rs by auto
  moreover have "apps_frozen db = apps_frozen (arrive e w)"
    using apps_frozen_reserve [of "ev_sha e" cl corr tool op args reason g key "ev_rng e (w_tick w)"
        "ev_clock e (w_tick w)" "arrive e w"] rs by simp
  ultimately have inv': "linv e db0 ?w" by (rule linv_txn [OF inv])
  show "reserved_post e db0 cl tool op args res ?w"
  proof (cases "\<exists>row c. res = Inr (row, True, c)")
    case True
    then obtain row c where res: "res = Inr (row, True, c)" by auto
    from reserve_created [OF rs [unfolded res]] unknown_not_logged [OF inv] inv' show ?thesis
      by (auto simp: res reserved_post_def held_def new_row_def)
  next
    case False
    with inv' show ?thesis by (auto simp: reserved_post_def split: sum.splits)
  qed
qed

lemma hoare_find_op_held:
  assumes "rq_status r \<in> {Received, Executing}"
  shows "hoare (held e db0 b k r) (find_op e tool op)
    (\<lambda>x w. (\<forall>t. x = Some t \<longrightarrow> to_tool t = tool \<and> to_op t = op) \<and> held e db0 b k r w)"
  unfolding find_op_def using assms
  by (intro hoare_txn) (auto intro: held_read elim: lookup_SomeD)

lemma ready_sorted: "ready e db0 k gen (sort_json a) r r' w \<longleftrightarrow> ready e db0 k gen a r r' w"
  by (simp add: ready_def binds_sorted)

lemma ready_execute:
  assumes "ready e db0 k (map_option to_generation topt) args r r' w"
    "\<forall>t. topt = Some t \<longrightarrow> to_tool t = rq_tool r \<and> to_op t = rq_op r"
  obtains t where "topt = Some t" "held e db0 True k r' w" "rq_status r' = Executing"
    "to_tool t = rq_tool r'" "to_op t = rq_op r'" "rq_generation r' = Some (to_generation t)"
    "binds (ev_sha e) r' args"
  using assms by (auto simp: ready_def same_row_def)

lemma hoare_claimed_execute:
  assumes "\<forall>t. topt = Some t \<longrightarrow> to_tool t = rq_tool r \<and> to_op t = rq_op r"
  shows "hoare (\<lambda>w. \<exists>r'. ready e db0 k (map_option to_generation topt) args r r' w)
    (execute_request e k tool op args corr cname topt) (\<lambda>_. linv e db0)"
proof (rule hoare_ex, rule hoareI)
  fix r' w x w'
  assume "ready e db0 k (map_option to_generation topt) args r r' w"
    and run: "run_state (execute_request e k tool op args corr cname topt) w = (x, w')"
  from this(1) obtain t where t: "topt = Some t" "held e db0 True k r' w" "rq_status r' = Executing"
    "to_tool t = rq_tool r'" "to_op t = rq_op r'" "rq_generation r' = Some (to_generation t)"
    "binds (ev_sha e) r' args"
    by (rule ready_execute [OF _ assms])
  from hoareD [OF execute_request_linv [OF t(3-7)] t(2)] run t(1) show "linv e db0 w'" by simp
qed

lemma advance_received_linv:
  assumes new: "new_row cl tool op args r"
  shows "hoare (held e db0 True (rq_id r) r)
    (advance_received e cl tool op args corr reason key r topt) (\<lambda>_. linv e db0)"
proof -
  from new have st: "rq_status r = Received" by (simp add: new_row_def)
  then have rx: "rq_status r \<in> {Received, Executing}" by simp
  have close: "hoare (held e db0 True (rq_id r) r) (set_request e (rq_id r) u) (\<lambda>_. linv e db0)"
    if "closing_fields u (the (up_status u))" "the (up_status u) \<in> {Denied, NotFound, Invalid}" for u
    using st that by (intro hoare_set_close [where s = "the (up_status u)"]) (auto simp: status_step_def)
  have args: "the_or JNull (rq_arguments r) = sort_json args"
    using new by (simp add: new_row_def the_or_def)
  have claim: "hoare (held e db0 True (rq_id r) r)
      (txn e (\<lambda>n db. claim_received (ev_sha e) (rq_id r) gen cl (rq_digest r) (ev_rng e n) (ev_clock e n) db))
      (\<lambda>ok w. if ok then \<exists>r'. ready e db0 (rq_id r) gen args r r' w else linv e db0 w)" for gen
    using hoare_claim_received [OF st, of e db0 "rq_id r" gen cl "rq_digest r"]
    by (simp only: args ready_sorted)
  have run: "hoare (held e db0 True (rq_id r) r)
     (do { current_op \<leftarrow> find_op e tool op;
           ok \<leftarrow> txn e (\<lambda>n db. claim_received (ev_sha e) (rq_id r) (map_option to_generation current_op)
                         cl (rq_digest r) (ev_rng e n) (ev_clock e n) db);
           if \<not> ok then do { row \<leftarrow> query e (\<lambda>db. request db (rq_id r)); ret (outcome_from_request row None) }
           else do { out \<leftarrow> execute_request e (rq_id r) tool op args corr (Some (cl_name cl)) current_op;
                     ret (Inr out) } }) (\<lambda>_. linv e db0)"
    apply (rule hoare_bind [OF hoare_find_op_held [OF rx]])
    apply (rule hoare_pure)
    apply (rule hoare_bind [OF claim])
    subgoal for t ok
      using new
      by (cases ok)
        (auto intro!: hoare_bind [OF hoare_claimed_execute [where r = r]] hoare_bind [OF hoare_query_linv] hoare_ret
          simp: new_row_def)
    done
  show ?thesis
  proof (cases topt)
    case None
    then show ?thesis
      by (auto simp: advance_received_def Let_def intro!: hoare_bind [OF close] hoare_ret)
  next
    case (Some t)
    show ?thesis
      unfolding advance_received_def Let_def Some option.case
      apply (rule hoare_bind [OF hoare_audit_held [OF rx]])
      unfolding query_def
      apply (rule hoare_bind [OF hoare_read_held [OF rx]])
      subgoal for _ decision
        apply (split if_split, intro conjI impI)
        subgoal by (auto intro!: hoare_bind [OF close] hoare_bind [OF hoare_audit_linv] hoare_ret)
        apply (split option.split, intro conjI allI impI)
        subgoal
          apply (split if_split, intro conjI impI)
          subgoal by (auto intro!: hoare_bind [OF hoare_audit_held [OF rx]] open_approval_linv [OF st])
          subgoal by (auto intro!: hoare_bind [OF hoare_audit_held [OF rx]] run [unfolded query_def])
          done
        subgoal by (auto intro!: hoare_bind [OF close] hoare_ret)
        done
      done
  qed
qed

lemma hoare_finish:
  assumes "s \<in> {Denied, Expired}" "a \<noteq> APending"
  shows "hoare (linv e db0) (txn e (\<lambda>n db. finish_pending k s a err st now dl db)) (\<lambda>_. linv e db0)"
proof (rule hoare_txn)
  fix w :: world and x db
  assume inv: "linv e db0 w" and f: "finish_pending k s a err st now dl (arrive e w) = (x, db)"
  from f have db: "db = snd (finish_pending k s a err st now dl (arrive e w))" by simp
  show "linv e db0 (w\<lparr>w_db := db, w_tick := w_tick w + 1\<rparr>)"
    by (rule linv_txn [OF inv]) (use assms in \<open>auto simp: db intro: store_step.finish\<close>)
qed

lemma expire_approval_linv: "hoare (linv e db0) (expire_approval e k tool op corr now) (\<lambda>_. linv e db0)"
  unfolding expire_approval_def
  by (rule hoare_bind_ok [OF hoare_finish])
    (auto intro!: hoare_bind [OF hoare_query_linv] hoare_bind [OF hoare_audit_linv] hoare_ret)

lemma sweep_rows_linv: "hoare (linv e db0) (sweep_rows e now rows n) (\<lambda>_. linv e db0)"
proof (induction e now rows n rule: sweep_rows.induct)
  case (2 e now a r rows count)
  then show ?case by (auto intro!: hoare_bind_ok [OF expire_approval_linv])
qed (auto intro: hoare_ret)

lemma sweep_expired_linv: "hoare (linv e db0) (sweep_expired e) (\<lambda>_. linv e db0)"
  unfolding sweep_expired_def now_time_def query_def
  by (auto intro!: hoare_bind [OF hoare_read_linv] sweep_rows_linv)

lemma submit_inner_linv:
  "hoare (linv e db0) (submit_inner e cl tool op args corr reason key) (\<lambda>_. linv e db0)"
proof -
  have post: "hoare (reserved_post e db0 cl tool op args res) (case res of
           Inl PermissionError \<Rightarrow> ret (Inr ((outcome0 O_DENIED)\<lparr>oc_reason := Some ''authority''\<rparr>))
         | Inl ValueError \<Rightarrow> ret (Inr ((outcome0 O_INVALID)\<lparr>oc_error := Some ''invalid_action_or_key''\<rparr>))
         | Inl TypeError \<Rightarrow> ret (Inr ((outcome0 O_INVALID)\<lparr>oc_error := Some ''invalid_action_or_key''\<rparr>))
         | Inl x \<Rightarrow> ret (Inl x)
         | Inr (req, created, conflict) \<Rightarrow>
             if conflict then ret (Inr (failure O_CONFLICT (rq_id req) ''idempotency_conflict''))
             else if \<not> created then do {
               app \<leftarrow> query e (\<lambda>db. approval_for_request db (rq_id req));
               ret (case outcome_from_request (Some req) app of
                      Inl x \<Rightarrow> Inl x | Inr out \<Rightarrow> Inr (out\<lparr>oc_reused := True\<rparr>))
             }
             else advance_received e cl tool op args corr (clean_reason reason) key req topt)
        (\<lambda>_. linv e db0)" for res topt
  proof (cases res)
    case (Inl x)
    then show ?thesis by (cases x) (auto intro!: hoare_ret simp: reserved_post_def)
  next
    case (Inr p)
    obtain req created conflict where p: "p = (req, created, conflict)" by (cases p)
    show ?thesis
    proof (cases "created \<and> \<not> conflict")
      case True
      have "hoare (\<lambda>w. new_row cl tool op args req \<and> held e db0 True (rq_id req) req w)
          (advance_received e cl tool op args corr (clean_reason reason) key req topt) (\<lambda>_. linv e db0)"
        by (rule hoare_pure) (rule advance_received_linv)
      then show ?thesis using True Inr p by (auto elim!: hoare_pre simp: reserved_post_def)
    next
      case False
      have "hoare (linv e db0) (do {
               app \<leftarrow> query e (\<lambda>db. approval_for_request db (rq_id req));
               ret (case outcome_from_request (Some req) app of
                      Inl x \<Rightarrow> Inl x | Inr out \<Rightarrow> Inr (out\<lparr>oc_reused := True\<rparr>)) }) (\<lambda>_. linv e db0)"
        by (auto intro!: hoare_bind [OF hoare_query_linv] hoare_ret)
      then show ?thesis using False Inr p
        by (auto elim!: hoare_pre intro!: hoare_ret simp: reserved_post_def)
    qed
  qed
  show ?thesis
    unfolding submit_inner_def find_op_def
    apply (rule hoare_bind_ok [OF sweep_expired_linv])
     apply (rule hoare_bind [OF hoare_read_linv])
    subgoal for _ topt
      apply (split if_split, intro conjI impI)
      subgoal by (auto intro!: hoare_bind [OF hoare_audit_linv] hoare_ret)
      apply (split if_split, intro conjI impI)
      subgoal by (auto intro: hoare_ret)
      subgoal by (rule hoare_bind [OF hoare_reserve]) (rule post)
      done
    by simp
qed

lemma submit_linv: "hoare (linv e db0) (submit e cl tool op args corr reason key) (\<lambda>_. linv e db0)"
  unfolding submit_def
  by (auto intro!: hoare_bind_ok [OF submit_inner_linv] hoare_ret split: sum.split)

section \<open>Resolution\<close>

lemma current_outcome_linv: "hoare (linv e db0) (current_outcome e k) (\<lambda>_. linv e db0)"
  unfolding current_outcome_def by (auto intro!: hoare_bind [OF hoare_query_linv] hoare_ret)

lemma resolve_withdrawn_linv: "a \<noteq> APending \<Longrightarrow> hoare (linv e db0) (resolve_withdrawn e req a now) (\<lambda>_. linv e db0)"
  unfolding resolve_withdrawn_def Let_def now_time_def
  by (auto intro!: hoare_bind [OF hoare_read_linv] hoare_bind_ok [OF hoare_finish] current_outcome_linv
      hoare_bind [OF hoare_audit_linv])

lemma resolve_rejected_linv: "hoare (linv e db0) (resolve_rejected e req state now) (\<lambda>_. linv e db0)"
  unfolding resolve_rejected_def Let_def now_time_def
  by (auto intro!: hoare_bind [OF hoare_read_linv] hoare_bind_ok [OF hoare_finish] current_outcome_linv
      hoare_bind [OF hoare_query_linv] hoare_bind [OF hoare_audit_linv] hoare_ret
      split: sum.split option.split)

lemma hoare_find_op_watched:
  "hoare (watched e db0 req ref) (find_op e tool op)
    (\<lambda>x w. (\<forall>t. x = Some t \<longrightarrow> to_tool t = tool \<and> to_op t = op) \<and> watched e db0 req ref w)"
  unfolding find_op_def
  by (rule hoare_txn) (auto intro!: watched_steps arrive_steps elim: lookup_SomeD)

lemma hoare_audit_ready:
  "hoare (\<lambda>w. \<exists>r'. ready e db0 k gen args r r' w) (audit_record e c ev oc corr rid d)
     (\<lambda>_ w. \<exists>r'. ready e db0 k gen args r r' w)"
proof (rule hoare_ex, rule hoareI)
  fix r' w x w'
  assume rd: "ready e db0 k gen args r r' w" and run: "run_state (audit_record e c ev oc corr rid d) w = (x, w')"
  then have "held e db0 True k r' w" "rq_status r' \<in> {Received, Executing}" by (simp_all add: ready_def)
  from hoareD [OF hoare_audit_held [OF this(2)] this(1) run] rd show "\<exists>r'. ready e db0 k gen args r r' w'"
    by (auto simp: ready_def)
qed

lemma hoare_query_ready:
  "hoare (\<lambda>w. \<exists>r'. ready e db0 k gen args r r' w) (query e f) (\<lambda>_ w. \<exists>r'. ready e db0 k gen args r r' w)"
  unfolding query_def
proof (rule hoare_ex, rule hoareI)
  fix r' w x w'
  assume rd: "ready e db0 k gen args r r' w" and run: "run_state (txn e (\<lambda>_ db. (f db, db))) w = (x, w')"
  then have "held e db0 True k r' w" "rq_status r' \<in> {Received, Executing}" by (simp_all add: ready_def)
  from hoareD [OF hoare_read_held [OF this(2)] this(1) run] rd show "\<exists>r'. ready e db0 k gen args r r' w'"
    by (auto simp: ready_def)
qed

lemma resolve_approved_linv:
  assumes poll: "ev_poll e n ref = Inr st0" "ss_outcome st0 = SApproved"
  shows "hoare (watched e db0 req ref) (resolve_approved e req state now cl) (\<lambda>_. linv e db0)"
  unfolding resolve_approved_def Let_def now_time_def
  apply (rule hoare_bind [OF hoare_find_op_watched])
  apply (rule hoare_pure)
  apply (rule hoare_bind [OF hoare_read_watched])
  apply (rule hoare_bind [OF hoare_claim_approval [OF poll]])
  subgoal for topt t ok
    by (cases ok)
      (auto intro!: current_outcome_linv hoare_bind [OF hoare_audit_ready] hoare_bind [OF hoare_query_ready]
        hoare_bind [OF hoare_claimed_execute [where r = req]] hoare_ret)
  done

lemma resolve_decided_linv:
  assumes poll: "ev_poll e n ref = Inr st" and st: "ss_outcome state = ss_outcome st"
  shows "hoare (watched e db0 req ref) (resolve_decided e req state now cl) (\<lambda>_. linv e db0)"
proof -
  have first: "hoare (watched e db0 req ref)
      (if ss_outcome state \<in> {SApproved, SRejected} then audit_record e c ev oc corr rid d else ret ())
      (\<lambda>_. watched e db0 req ref)" for c ev oc corr rid d
    by (auto intro: hoare_audit_watched hoare_ret)
  show ?thesis
    unfolding resolve_decided_def
    apply (rule hoare_bind [OF first])
    apply (cases "ss_outcome state")
    subgoal by (auto intro: hoare_pre [OF current_outcome_linv] watched_linv)
    subgoal using resolve_approved_linv [OF poll] st by auto
    subgoal by (auto intro: hoare_pre [OF resolve_rejected_linv] watched_linv)
    subgoal by (auto intro: hoare_pre [OF resolve_withdrawn_linv] watched_linv)
    subgoal by (auto intro: hoare_pre [OF resolve_withdrawn_linv] watched_linv)
    done
qed

text \<open>The row read first, before its approval is known.\<close>

definition seen :: "env \<Rightarrow> store \<Rightarrow> request_row \<Rightarrow> world \<Rightarrow> bool" where
  "seen e db0 req w \<longleftrightarrow> linv e db0 w \<and> (\<exists>r. request (w_db w) (rq_id req) = Some r \<and> row_later req r)"

lemma hoare_query_seen:
  "hoare (linv e db0) (query e (\<lambda>db. request db k))
     (\<lambda>x w. linv e db0 w \<and> (\<forall>r. x = Some r \<longrightarrow> rq_id r = k \<and> seen e db0 r w))"
  unfolding query_def
  by (rule hoare_txn) (auto simp: seen_def intro!: linv_read, (metis request_SomeD row_later_refl)+)

lemma hoare_query_approval:
  "hoare (seen e db0 req) (query e (\<lambda>db. approval_for_request db (rq_id req)))
     (\<lambda>x w. linv e db0 w \<and> (\<forall>a. x = Some a \<longrightarrow> watched e db0 req (ap_surface_ref a) w))"
  unfolding query_def
proof (rule hoare_txn)
  fix w :: world and x db
  assume s: "seen e db0 req w"
    and eq: "(approval_for_request (arrive e w) (rq_id req), arrive e w) = (x, db)"
  from s have inv: "linv e db0 w" and ok: "store_ok (w_db w)" by (auto simp: seen_def linv_def)
  from s obtain r where r: "request (w_db w) (rq_id req) = Some r" "row_later req r" by (auto simp: seen_def)
  from steps_request [OF arrive_steps ok r(1)] r(2) obtain r'
    where "request (arrive e w) (rq_id req) = Some r'" "row_later req r'" by (blast intro: row_later_trans)
  with eq linv_read [OF inv] show "linv e db0 (w\<lparr>w_db := db, w_tick := w_tick w + 1\<rparr>) \<and>
      (\<forall>a. x = Some a \<longrightarrow> watched e db0 req (ap_surface_ref a) (w\<lparr>w_db := db, w_tick := w_tick w + 1\<rparr>))"
    by (auto simp: watched_def)
qed

lemma hoare_poll:
  "hoare (watched e db0 req ref) (surface_poll e ref)
     (\<lambda>x w. watched e db0 req ref w \<and> (\<forall>st. x = Inr st \<longrightarrow> (\<exists>n. ev_poll e n ref = Inr st)))"
  unfolding surface_poll_def by (auto simp: hoare_def watched_def linv_tick)

lemma expire_current_linv:
  "hoare (linv e db0) (bind_ok (expire_approval e k tool op corr now) (\<lambda>_. current_outcome e k')) (\<lambda>_. linv e db0)"
  by (rule hoare_bind_ok [OF expire_approval_linv]) (auto intro: current_outcome_linv)

lemma resolve_polled_linv:
  assumes poll: "ev_poll e n ref = Inr st"
  shows "hoare (watched e db0 req ref) (resolve_polled e k req st now cl) (\<lambda>_. linv e db0)"
  unfolding resolve_polled_def now_time_def query_def
  apply (rule hoare_bind [OF hoare_read_watched])+
  subgoal for t cur cur_app
    using resolve_decided_linv [OF poll, of "st\<lparr>ss_note := redact (ss_note st) redact_max\<rparr>" db0 req now cl]
    by (cases cur; cases cur_app)
      (auto intro!: hoare_ret intro: hoare_pre [OF expire_current_linv] watched_linv)
  done

lemma resolve_pending_linv:
  "hoare (watched e db0 req (ap_surface_ref a)) (resolve_pending e k req a now cl) (\<lambda>_. linv e db0)"
proof (cases "now \<ge> ap_expires_at a")
  case True
  then show ?thesis
    by (simp add: resolve_pending_def) (rule hoare_pre [OF expire_current_linv], rule watched_linv)
next
  case False
  have after: "hoare (\<lambda>w. watched e db0 req (ap_surface_ref a) w \<and>
      (\<exists>n. ev_poll e n (ap_surface_ref a) = Inr st)) (resolve_polled e k req st now cl) (\<lambda>_. linv e db0)" for st
    using resolve_polled_linv [of e _ "ap_surface_ref a" st db0 req k now cl] by (fastforce simp: hoare_def)
  show ?thesis
    unfolding resolve_pending_def if_not_P [OF False]
    by (rule hoare_bind_ok [OF hoare_poll]) (auto intro: watched_linv after)
qed

lemma resolve_request_linv: "hoare (linv e db0) (resolve_request e k cl) (\<lambda>_. linv e db0)"
proof -
  have seen: "hoare (seen e db0 req) (do {
         app \<leftarrow> query e (\<lambda>db. approval_for_request db (rq_id req));
         if rq_status req \<noteq> PendingApproval then ret (outcome_from_request (Some req) app)
         else case app of
             None \<Rightarrow> ret (Inr ((outcome0 O_PENDING)\<lparr>oc_request_id := Some (rq_id req)\<rparr>))
           | Some a \<Rightarrow> resolve_pending e (rq_id req) req a now cl }) (\<lambda>_. linv e db0)" for req now
    apply (rule hoare_bind [OF hoare_query_approval])
    subgoal for app
      by (cases app) (auto intro: hoare_ret hoare_pre [OF resolve_pending_linv])
    done
  have row: "hoare (\<lambda>w. linv e db0 w \<and> (\<forall>r. row = Some r \<longrightarrow> rq_id r = k \<and> seen e db0 r w))
     (case row of None \<Rightarrow> ret (Inr (outcome0 O_NOT_FOUND))
      | Some req \<Rightarrow> do {
         app \<leftarrow> query e (\<lambda>db. approval_for_request db k);
         if rq_status req \<noteq> PendingApproval then ret (outcome_from_request row app)
         else case app of
             None \<Rightarrow> ret (Inr ((outcome0 O_PENDING)\<lparr>oc_request_id := Some k\<rparr>))
           | Some a \<Rightarrow> resolve_pending e k req a now cl }) (\<lambda>_. linv e db0)" for row now
  proof (cases row)
    case None
    then show ?thesis by (auto intro: hoare_ret)
  next
    case (Some req)
    show ?thesis
    proof (cases "rq_id req = k")
      case True
      with seen [of req now] Some show ?thesis by (auto elim!: hoare_pre)
    next
      case False
      with Some show ?thesis by (simp add: hoare_def)
    qed
  qed
  show ?thesis
    unfolding resolve_request_def now_time_def
    by (rule hoare_bind [OF hoare_read_linv], rule hoare_bind [OF hoare_query_seen], rule row)
qed

end
