(* ===== verification/StoreProps.thy ===== *)
theory StoreProps
  imports LifecycleInv
begin

text \<open>
  The properties of the broker store over every sequence of transactions: its invariant, the
  finality of ended requests, claims, revocation, idempotent retries and offline restore. The
  example store at the end supplies the concrete inputs at which they are applied.
\<close>


section \<open>Properties of the store\<close>

lemma final_step:
  assumes "store_ok db" "\<exists>l. store_step sha db l db'" "request db k = Some r" "terminal (rq_status r)"
  shows "\<exists>r'. request db' k = Some r' \<and> same_row r r' \<and>
    (rq_status r' = rq_status r \<or> rq_status r = Completed \<and> rq_status r' = ResultExpired)"
proof -
  from assms obtain l where l: "rows_step l db db'" by (blast dest: step_rows)
  from rows_step_request [OF l assms(3)] obtain r' where r': "request db' k = Some r'" "row_step l r r'" by blast
  then have "status_step (rq_status r) (rq_status r')" "same_row r r'" by (simp_all add: row_step_def)
  with assms(4) r' show ?thesis
    by (cases "rq_status r") (auto simp: status_step_def)
qed

lemma final_steps:
  assumes "(\<lambda>s s'. \<exists>l. store_step sha s l s')\<^sup>*\<^sup>* db db'" "store_ok db" "request db k = Some r" "terminal (rq_status r)"
  shows "\<exists>r'. request db' k = Some r' \<and> same_row r r' \<and>
    (rq_status r' = rq_status r \<or> rq_status r = Completed \<and> rq_status r' = ResultExpired)"
  using assms
proof (induction rule: rtranclp_induct)
  case (step a b)
  then obtain r1 where r1: "request a k = Some r1" "same_row r r1"
    "rq_status r1 = rq_status r \<or> rq_status r = Completed \<and> rq_status r1 = ResultExpired" by blast
  from r1(3) step.prems have "terminal (rq_status r1)" by auto
  moreover have "store_ok a" using step by (blast intro: db.steps_inv)
  ultimately obtain r2 where r2: "request b k = Some r2" "same_row r1 r2"
    "rq_status r2 = rq_status r1 \<or> rq_status r1 = Completed \<and> rq_status r2 = ResultExpired"
    using final_step [OF _ step.hyps(2) r1(1)] by blast
  from r1(2) r2(2) have "same_row r r2" by (simp add: same_row_def)
  with r1(3) r2 show ?case by auto
qed auto

text \<open>A revoked caller stays revoked.\<close>

definition revoked :: "store \<Rightarrow> int \<Rightarrow> bool" where
  "revoked db cid \<longleftrightarrow> (\<exists>c. caller_row_by_id db cid = Some c \<and> cr_revoked_at c \<noteq> None)"

lemma st_callers_cases:
  assumes "store_step sha db l db'"
  shows "st_callers db' = st_callers db \<or> (\<exists>new. st_callers db' = st_callers db @ new)
    \<or> (\<exists>p now. st_callers db' = sql_update (\<lambda>c. p c \<and> cr_revoked_at c = None) (\<lambda>c. c\<lparr>cr_revoked_at := Some now\<rparr>) (st_callers db))"
  using assms
proof (induction rule: store_step.induct)
  case (admin db t)
  have wp: "st_callers (snd (write_policy cid p t1 t2 db)) = st_callers db" for cid p t1 t2
    by (simp add: write_policy_def Let_def)
  have cas: "st_callers (snd (compare_and_set_policy cid b a opr t1 t2 t3 corr db)) = st_callers db"
    for cid b a opr t1 t2 t3 corr
    using wp [of cid a t1 t2]
    by (auto simp: compare_and_set_policy_def split: option.splits prod.splits sum.splits)
  have fp: "st_callers (snd (finish_pending rid s a err st now dl db)) = st_callers db" for rid s a err st now dl
    by (auto simp: finish_pending_def split: option.splits sum.splits prod.splits)
  show ?case
    using wp cas fp
    by (cases t) (auto simp: run_admin_def add_caller_def revoke_caller_def add_token_def revoke_token_def
        revoke_tokens_for_caller_def set_policy_def clear_audit_def set_catalog_receipt_def prune_payloads_def Let_def)
next
  case (reserve db cl corr tool op arguments reason g key fresh now)
  then show ?case using reserve_cases [of sha cl corr tool op arguments reason g key fresh now db]
    by (auto simp: Let_def)
next
  case (claim_rec rid g cl d fresh now db ok db')
  then show ?case by (auto simp: claim_received_def split: option.splits if_splits)
next
  case (claim_app rid g state now clo fresh db ok db')
  then show ?case by (auto simp: claim_approval_def Let_def split: option.splits if_splits)
next
  case (finish s a db rid err state' now dl)
  then show ?case by (auto simp: finish_pending_def split: option.splits sum.splits prod.splits)
qed (auto simp: create_approval_def update_request_def Let_def reconcile_offline_def sanitize_def)

lemma revoked_step:
  assumes "store_step sha db l db'" "revoked db cid"
  shows "revoked db' cid"
proof -
  from assms(2) obtain c where c: "caller_row_by_id db cid = Some c" "cr_revoked_at c \<noteq> None"
    by (auto simp: revoked_def)
  have upd: "find (\<lambda>c. cr_id c = cid) (sql_update (\<lambda>c. p c \<and> cr_revoked_at c = None) (\<lambda>c. c\<lparr>cr_revoked_at := Some now\<rparr>) xs)
      = map_option (\<lambda>r. if p r \<and> cr_revoked_at r = None then r\<lparr>cr_revoked_at := Some now\<rparr> else r)
          (find (\<lambda>c. cr_id c = cid) xs)" for p now xs
    by (rule find_sql_update) simp
  from st_callers_cases [OF assms(1)] c show ?thesis
    by (auto simp: revoked_def caller_row_by_id_def find_append upd)
qed

lemma claim_step_live:
  assumes "store_step sha db (Some k) db'" "request db k = Some r"
  shows "\<not> revoked db (rq_caller_id r)"
  using assms
proof (induction db "Some k" db' rule: store_step.induct)
  case (claim_rec rid g cl d fresh now db ok db')
  then show ?case
    by (auto simp: claim_received_def received_valid_def live_def revoked_def split: if_splits option.splits)
next
  case (claim_app rid g state now clo fresh db ok db')
  then show ?case
    by (auto simp: claim_approval_def approval_valid_def live_def revoked_def Let_def split: if_splits option.splits)
qed

lemma run_same_row:
  "run (store_step sha) db ls db' \<Longrightarrow> store_ok db \<Longrightarrow> request db k = Some r \<Longrightarrow>
     \<exists>r'. request db' k = Some r' \<and> same_row r r'"
proof (induction arbitrary: r rule: run.induct)
  case (run_snoc s ls s' l s'')
  then obtain r1 where r1: "request s' k = Some r1" "same_row r r1" by blast
  have "store_ok s'" using run_snoc by (blast intro: claims.run_valid)
  from rows_step_request [OF step_rows [OF run_snoc.hyps(2) this] r1(1)] r1(2) show ?case
    by (auto simp: row_step_def same_row_def)
qed auto

lemma revoked_run: "run (store_step sha) db ls db' \<Longrightarrow> revoked db cid \<Longrightarrow> revoked db' cid"
  by (induction rule: run.induct) (auto intro: revoked_step)

lemma sanitize_unclaimable: "\<not> claimable (sanitize inst now db) k"
proof
  assume "claimable (sanitize inst now db) k"
  then obtain r where r: "request (sanitize inst now db) k = Some r" "rq_status r \<in> {Received, PendingApproval}"
    by (auto simp: claimable_def split: option.splits)
  from request_SomeD [OF r(1)] r(2) show False
    by (auto simp: sanitize_requests restored_row_def close_row_def in_flight_def split: if_splits)
qed

lemma sanitize_tokens: "t \<in> set (st_tokens (sanitize inst now db)) \<Longrightarrow> tk_revoked_at t \<noteq> None"
  by (auto simp: sanitize_def Let_def append_audit_def revoke_tokens_where_def set_sql_update split: if_splits)

lemma sanitize_not_live: "\<not> live (sanitize inst now db) cid clo"
proof -
  have "active_token_count (sanitize inst now db) cid = 0"
    using sanitize_tokens [of _ inst now db] by (auto simp: active_token_count_def sql_count_def filter_empty_conv)
  moreover have "\<not> list_ex (\<lambda>t. tk_caller_id t = cid \<and> tk_hash t = h \<and> tk_revoked_at t = None)
      (st_tokens (sanitize inst now db))" for h
    using sanitize_tokens [of _ inst now db] by (auto simp: list_ex_iff)
  ultimately show ?thesis by (auto simp: live_def split: option.splits)
qed

lemma sanitize_policy: "policy_for (sanitize inst now db) cid = empty_policy"
  by (auto simp: policy_for_def sanitize_def Let_def append_audit_def revoke_tokens_where_def
      split: option.splits dest!: find_SomeD)

lemma prior_after:
  assumes "(\<lambda>s s'. \<exists>l. store_step sha s l s')\<^sup>*\<^sup>* db db'" "store_ok db"
    "row \<in> set (st_requests db)" "rq_caller_id row = cid" "rq_key row = Some k"
  shows "\<exists>p. prior_request db' cid (Some k) = Some p \<and> rq_id p = rq_id row \<and> rq_payload_digest p = rq_payload_digest row"
proof -
  have "find (\<lambda>x. rq_id x = rq_id row) (st_requests db) = Some row"
    using assms(2,3) by (intro find_key_distinct) (auto simp: store_ok_def keys_ok_def)
  then have "request db (rq_id row) = Some row" by (simp add: request_def)
  from steps_request [OF assms(1,2) this] obtain r' where r': "request db' (rq_id row) = Some r'" "row_later row r'"
    by blast
  then have same: "rq_caller_id r' = cid" "rq_key r' = Some k" "rq_payload_digest r' = rq_payload_digest row" "rq_id r' = rq_id row"
    using assms(4,5) by (simp_all add: row_later_def same_row_def)
  have in': "r' \<in> set (st_requests db')" using request_SomeD [OF r'(1)] by simp
  have ok': "store_ok db'" using assms(1,2) by (rule db.steps_inv)
  then have idem: "idem_ok db'" by (simp add: store_ok_def)
  from in' same have "prior_request db' cid (Some k) \<noteq> None"
    by (auto simp: prior_request_def find_None_iff')
  then obtain p where p: "prior_request db' cid (Some k) = Some p" by auto
  then have p': "p \<in> set (st_requests db')" "rq_caller_id p = cid" "rq_key p = Some k"
    by (auto simp: prior_request_def dest: find_SomeD)
  have "rq_id p = rq_id r'"
    using idem [unfolded idem_ok_def, rule_format, OF p'(1) in'] p' same by simp
  then have "p = r'" using request_unique [OF ok' r'(1) p'(1)] same by simp
  with p same show ?thesis by auto
qed

lemma reserve_retry:
  assumes prior: "prior_request db (cl_id cl) key = Some p"
    and r: "reserve_action sha cl corr tool op args reason g key fresh now db = (res, db')"
  shows "db' = db \<and> (\<forall>row created conflict. res = Inr (row, created, conflict) \<longrightarrow>
      row = p \<and> \<not> created \<and> (\<exists>text. canonical (payload_value tool op args reason) = Inr text
         \<and> conflict = (rq_payload_digest p \<noteq> Some (sha text))))"
  using assms by (auto simp: reserve_action_def Let_def split: sum.splits prod.splits option.splits if_splits)

section \<open>An example store\<close>

definition example_row :: "rstatus \<Rightarrow> request_row" where
  "example_row s = \<lparr>rq_id = 1, rq_correlation_id = ''c'', rq_caller_id = 1, rq_tool = ''echo'', rq_op = ''say'',
     rq_status = s, rq_arguments = (if terminal s then None else Some (JObj [])), rq_result = None, rq_error = None,
     rq_created_at = 0, rq_updated_at = 0, rq_generation = Some ''g'', rq_policy_binding = None, rq_action = None,
     rq_digest = None, rq_key = Some ''k'', rq_payload_digest = Some ''d'', rq_pruned_at = None\<rparr>"

definition example_store :: "rat option \<Rightarrow> request_row list \<Rightarrow> store" where
  "example_store rv rows = (init_store ''u'')\<lparr>
     st_callers := [\<lparr>cr_id = 1, cr_name = ''bot'', cr_created_at = 0, cr_revoked_at = rv\<rparr>],
     st_tokens := [\<lparr>tk_hash = ''t'', tk_caller_id = 1, tk_created_at = 0, tk_revoked_at = None\<rparr>],
     st_policies := [\<lparr>pr_caller_id = 1, pr_policy = build_policy [''echo.say''] [] [], pr_updated_at = 0\<rparr>],
     st_requests := rows\<rparr>"

lemmas example_defs = example_store_def example_row_def init_store_def

lemma example_ok: "store_ok (example_store rv [])" "store_ok (example_store rv [example_row s])"
  by (simp_all add: example_defs store_ok_def keys_ok_def refs_ok_def idem_ok_def cleared_ok_def row_cleared_def)

lemma example_request: "request (example_store rv [example_row s]) 1 = Some (example_row s)"
  by (simp add: example_defs request_def)

text \<open>A caller of the example store reserves an action and claims it.\<close>

definition example_caller :: caller where
  "example_caller = \<lparr>cl_id = 1, cl_name = ''bot'', cl_token_hash = Some ''t''\<rparr>"

definition example_reserve :: "string \<Rightarrow> store \<Rightarrow> (request_row \<times> bool \<times> bool) result \<times> store" where
  "example_reserve nonce db =
     reserve_action id example_caller ''c'' ''echo'' ''say'' (JObj []) None ''g'' (Some ''k'') nonce 0 db"

definition example_reserved :: store where
  "example_reserved = snd (example_reserve ''n'' (example_store None []))"

definition example_claim :: "store \<Rightarrow> bool \<times> store" where
  "example_claim db = claim_received id 1 (Some ''g'') example_caller
     (Option.bind (request example_reserved 1) rq_digest) ''f'' 5 db"

lemma example_claims: "fst (example_claim example_reserved)"
  by code_simp

lemma example_creates: "fst (example_reserve ''n'' (example_store None [])) =
    Inr (hd (st_requests example_reserved), True, False)"
  by code_simp

lemma example_run:
  "run (store_step id) (example_store None []) [None, Some 1] (snd (example_claim example_reserved))"
proof -
  have one: "run (store_step id) (example_store None []) ([] @ [None]) example_reserved"
    unfolding example_reserved_def example_reserve_def
    by (rule run_snoc [OF run_Nil]) (rule store_step.reserve)
  have "store_step id example_reserved (if True then Some 1 else None) (snd (example_claim example_reserved))"
    unfolding example_claim_def
    by (rule store_step.claim_rec) (use example_claims in \<open>simp add: prod_eq_iff example_claim_def\<close>)
  with run_snoc [OF one, of "Some 1"] show ?thesis by simp
qed

section \<open>Properties\<close>

text \<open>C9: Every store reached from a new database by any sequence of transactions of the gateway,
  the admin application, the command line and the offline tools keeps the invariant: primary and
  unique keys are distinct, foreign keys resolve, a caller has at most one request per idempotency
  key, and a request holds its arguments exactly until it ends.\<close>

theorem reachable_store_ok:
  "reach initial (\<lambda>s s'. \<exists>l. store_step sha s l s') db \<Longrightarrow> store_ok db"
  by (rule db.reach_inv)

theorem reachable_store_ok_witness: "store_ok (run_admin (AddCaller ''bot'' 0) (init_store ''u''))"
  by (rule reachable_store_ok [where sha = id])
    (auto intro!: reach_step [OF reach_init] store_step.admin simp: initial_def)

text \<open>C10: An ended request is final: whatever transactions follow, its row stays, with the same
  identity, and its status changes only when a completed result is pruned.\<close>

theorem ended_request_final:
  assumes "(\<lambda>s s'. \<exists>l. store_step sha s l s')\<^sup>*\<^sup>* db db'" "store_ok db" "request db k = Some r"
    "terminal (rq_status r)"
  shows "\<exists>r'. request db' k = Some r' \<and> same_row r r' \<and>
    (rq_status r' = rq_status r \<or> rq_status r = Completed \<and> rq_status r' = ResultExpired)"
  using assms by (rule final_steps)

theorem ended_request_final_witness:
  "\<exists>r'. request (run_admin (Prune 700000) (example_store None [example_row Completed])) 1 = Some r'
     \<and> same_row (example_row Completed) r'
     \<and> (rq_status r' = rq_status (example_row Completed)
         \<or> rq_status (example_row Completed) = Completed \<and> rq_status r' = ResultExpired)"
  by (rule ended_request_final [where sha = id, OF r_into_rtranclp example_ok(2) example_request])
    (auto intro: store_step.admin simp: example_row_def)

text \<open>In any interleaving of transactions, from any store that satisfies the invariant, no
  request is claimed for execution twice, by either of the two claiming transactions.\<close>

theorem request_claimed_once:
  "run (store_step sha) db ls db' \<Longrightarrow> store_ok db \<Longrightarrow> distinct (claimed ls)"
  by (rule claims.claims_distinct)

theorem request_claimed_once_witness: "distinct (claimed [None, Some (1 :: int)]) \<and> claimed [None, Some (1 :: int)] = [1]"
  using request_claimed_once [OF example_run example_ok(1)] by (simp add: claimed_def)

text \<open>Revocation is final for execution: once a caller is revoked, no sequence of
  transactions claims any of its requests, pending approvals included.\<close>

theorem revoked_never_claimed:
  assumes "run (store_step sha) db ls db'" "store_ok db" "revoked db cid"
    "request db' k = Some r" "rq_caller_id r = cid"
  shows "k \<notin> set (claimed ls)"
  using assms
proof (induction arbitrary: r rule: run.induct)
  case (run_snoc s ls s' l s'')
  have ok: "store_ok s'" using run_snoc by (blast intro: claims.run_valid)
  have rows: "rows_step l s' s''" using run_snoc.hyps(2) ok by (rule step_rows)
  show ?case
  proof (cases "request s' k")
    case None
    then have "k \<notin> set (claimed ls)" using claims.run_claims_closed [OF run_snoc.hyps(1) run_snoc.prems(1), of k] by auto
    moreover have "l \<noteq> Some k" using None rows by (auto simp: rows_step_def)
    ultimately show ?thesis by (cases l) auto
  next
    case (Some r0)
    with rows_step_request [OF rows Some] run_snoc.prems have cid: "rq_caller_id r0 = cid"
      by (auto simp: row_step_def same_row_def)
    with run_snoc Some have "k \<notin> set (claimed ls)" by blast
    moreover have "l \<noteq> Some k"
      using claim_step_live [of sha s' k s'' r0] run_snoc.hyps(2) Some cid
        revoked_run [OF run_snoc.hyps(1) run_snoc.prems(2)] by auto
    ultimately show ?thesis by (cases l) auto
  qed
qed simp

theorem revoked_never_claimed_witness: "1 \<notin> set (claimed ([] @ [None :: int option]))"
proof -
  let ?db = "example_store (Some 3) [example_row PendingApproval]"
  have "run (store_step id) ?db ([] @ [None]) (run_admin ClearAudit ?db)"
    by (rule run_snoc [OF run_Nil]) (rule store_step.admin)
  moreover have "revoked ?db 1" by (simp add: revoked_def caller_row_by_id_def example_defs)
  moreover have "request (run_admin ClearAudit ?db) 1 = Some (example_row PendingApproval)"
    using example_request by (simp add: run_admin_def clear_audit_def request_def)
  moreover have "rq_caller_id (example_row PendingApproval) = 1" by (simp add: example_row_def)
  ultimately show ?thesis by (rule revoked_never_claimed [OF _ example_ok(2)])
qed

text \<open>C13: A retry under an idempotency key never creates a second request: after the key is
  reserved, and whatever transactions follow, another reservation under the same caller and key
  leaves the store as it is and can only return that same request, as a conflict exactly when
  the digest of its payload differs.\<close>

theorem retry_returns_receipt:
  assumes first: "reserve_action sha cl corr tool op args reason g (Some k) fresh now db = (Inr (row, True, c), db1)"
    and ok: "store_ok db" and later: "(\<lambda>s s'. \<exists>l. store_step sha s l s')\<^sup>*\<^sup>* db1 db2"
    and retry: "reserve_action sha cl corr' tool' op' args' reason' g' (Some k) fresh' now' db2 = (res, db3)"
  shows "db3 = db2 \<and> (\<forall>row' created conflict. res = Inr (row', created, conflict) \<longrightarrow>
      rq_id row' = rq_id row \<and> \<not> created \<and>
      (\<exists>text. canonical (payload_value tool' op' args' reason') = Inr text
         \<and> conflict = (rq_payload_digest row \<noteq> Some (sha text))))"
proof -
  from reserve_created [OF first] have row: "row \<in> set (st_requests db1)" "rq_caller_id row = cl_id cl"
    by (auto simp: new_row_def dest: request_SomeD)
  have key: "rq_key row = Some k"
    using first by (auto simp: reserve_action_def reserved_row_def Let_def split: sum.splits prod.splits option.splits if_splits)
  have "store_ok db1"
    using step_store_ok [OF ok store_step.reserve [of sha db cl corr tool op args reason g "Some k" fresh now]] first
    by simp
  from prior_after [OF later this row key] obtain p where p: "prior_request db2 (cl_id cl) (Some k) = Some p"
    "rq_id p = rq_id row" "rq_payload_digest p = rq_payload_digest row" by blast
  from reserve_retry [OF p(1) retry] p(2,3) show ?thesis by auto
qed

theorem retry_returns_receipt_witness:
  "snd (example_reserve ''other'' example_reserved) = example_reserved"
proof -
  have first: "reserve_action id example_caller ''c'' ''echo'' ''say'' (JObj []) None ''g'' (Some ''k'') ''n'' 0 (example_store None [])
      = (Inr (hd (st_requests example_reserved), True, False), example_reserved)"
    using example_creates by (simp add: prod_eq_iff example_reserve_def example_reserved_def)
  have retry: "reserve_action id example_caller ''c'' ''echo'' ''say'' (JObj []) None ''g'' (Some ''k'') ''other'' 0 example_reserved
      = (fst (example_reserve ''other'' example_reserved), snd (example_reserve ''other'' example_reserved))"
    by (simp add: example_reserve_def)
  from retry_returns_receipt [OF first example_ok(1) rtranclp.rtrancl_refl retry] show ?thesis by blast
qed

text \<open>C14: A restored database can run nothing: no request can be claimed, no caller is live and
  every policy denies everything.\<close>

theorem restored_store_disarmed:
  "\<not> claimable (sanitize inst now db) k \<and> \<not> live (sanitize inst now db) cid clo
     \<and> decide (policy_for (sanitize inst now db) cid) tool op = DENY"
  by (simp add: sanitize_unclaimable sanitize_not_live sanitize_policy)

end
