(* ===== verification/Identity.thy ===== *)
theory Identity
  imports Store
begin

text \<open>
  \<^verbatim>\<open>broker/identity.py\<close>: from an \<^verbatim>\<open>Authorization\<close> header to a live caller. \<open>sha\<close> is
  \<^verbatim>\<open>hashlib.sha256(...).hexdigest()\<close>.
\<close>

definition bearer_token :: "string option \<Rightarrow> string option" where
  "bearer_token header =
     (case header of
        None \<Rightarrow> None
      | Some h \<Rightarrow>
          if h = [] then None
          else (case partition_at (CHR '' '') h of (scheme, _, rest) \<Rightarrow>
                  if py_lower scheme \<noteq> ''bearer'' \<or> py_strip rest = [] then None
                  else Some (py_strip rest)))"

definition hash_token :: "(string \<Rightarrow> string) \<Rightarrow> string \<Rightarrow> string" where
  "hash_token sha token = sha token"

definition token_fingerprint :: "(string \<Rightarrow> string) \<Rightarrow> string option \<Rightarrow> string option" where
  "token_fingerprint sha header =
     (case bearer_token header of None \<Rightarrow> None | Some t \<Rightarrow> Some (take 12 (hash_token sha t)))"

definition authenticate :: "(string \<Rightarrow> string) \<Rightarrow> store \<Rightarrow> string option \<Rightarrow> caller option" where
  "authenticate sha db header =
     (case bearer_token header of
        None \<Rightarrow> None
      | Some t \<Rightarrow> caller_by_token_hash db (hash_token sha t))"

text \<open>Authentication yields a caller only for an unrevoked token of an unrevoked caller.\<close>

lemma authenticate_SomeD:
  assumes "authenticate sha db header = Some cl"
  obtains token t c where "bearer_token header = Some token" "t \<in> set (st_tokens db)"
    "tk_hash t = sha token" "tk_revoked_at t = None" "c \<in> set (st_callers db)"
    "cr_id c = tk_caller_id t" "cr_revoked_at c = None" "cl_id cl = cr_id c" "cl_name cl = cr_name c"
    "cl_token_hash cl = Some (sha token)"
  using assms
  by (auto simp: authenticate_def caller_by_token_hash_def hash_token_def
      split: option.splits dest!: find_SomeD)

lemma authenticate_live:
  assumes "authenticate sha db header = Some cl" "distinct (map cr_id (st_callers db))"
  shows "live db (cl_id cl) (Some cl)"
proof -
  from assms(1) obtain token t c where *: "t \<in> set (st_tokens db)" "tk_hash t = sha token"
    "tk_revoked_at t = None" "c \<in> set (st_callers db)" "cr_id c = tk_caller_id t" "cr_revoked_at c = None"
    "cl_id cl = cr_id c" "cl_token_hash cl = Some (sha token)"
    by (rule authenticate_SomeD) blast
  from find_key_distinct [OF assms(2) *(4)] have "caller_row_by_id db (cl_id cl) = Some c"
    by (simp add: caller_row_by_id_def *(7))
  with * show ?thesis by (auto simp: live_def list_ex_iff)
qed

end
