(* ===== verification/Operations.thy ===== *)
theory Operations
  imports StoreProps Identity
begin

text \<open>
  \<^verbatim>\<open>broker/operations.py\<close>: the operator's mutations, shared by \<^verbatim>\<open>brokerctl\<close> and the admin
  application. They run in a process of their own beside the gateway, so every access to the store
  is one transaction and other processes may have committed before it: \<open>oe_others e n\<close> is what
  they did to the store before access \<open>n\<close>. The clock, the random tokens and the UUIDs are
  functions of the access too; \<open>oe_clock2\<close> is the second reading of the clock within one
  transaction.
\<close>

record op_env =
  oe_sha :: "string \<Rightarrow> string"
  oe_clock :: "nat \<Rightarrow> rat"
  oe_clock2 :: "nat \<Rightarrow> rat"
  oe_uuid :: "nat \<Rightarrow> string"
  oe_token :: "nat \<Rightarrow> string"
  oe_others :: "nat \<Rightarrow> store \<Rightarrow> store"
  oe_surface :: bool

record desk =
  dk_db :: store
  dk_tick :: nat
  dk_cancels :: "string list"

type_synonym 'a op = "(desk, 'a) state"

definition op_txn :: "op_env \<Rightarrow> (nat \<Rightarrow> store \<Rightarrow> 'a \<times> store) \<Rightarrow> 'a op" where
  "op_txn e f = State (\<lambda>w. case f (dk_tick w) (oe_others e (dk_tick w) (dk_db w)) of
     (x, db) \<Rightarrow> (x, w\<lparr>dk_db := db, dk_tick := dk_tick w + 1\<rparr>))"

definition op_query :: "op_env \<Rightarrow> (store \<Rightarrow> 'a) \<Rightarrow> 'a op" where
  "op_query e f = op_txn e (\<lambda>_ db. (f db, db))"

definition op_return :: "'a \<Rightarrow> 'a result op" where
  "op_return v = State_Monad.return (Inr v)"

section \<open>Audit events and callers\<close>

definition record_admin_event ::
  "op_env \<Rightarrow> string \<Rightarrow> string \<Rightarrow> (string \<times> json) list \<Rightarrow> unit result op" where
  "record_admin_event e operator event_type details =
     op_txn e (\<lambda>n db. (Inr (), snd (append_audit (oe_clock e n) ''admin'' event_type ''ok'' (Some (oe_uuid e n)) None
        (JObj ((''operator'', JStr operator) # details)) db)))"

definition record_admin_denied :: "op_env \<Rightarrow> string \<Rightarrow> (string \<times> json) list \<Rightarrow> unit result op" where
  "record_admin_denied e event_type details =
     op_txn e (\<lambda>n db. (Inr (), snd (append_audit (oe_clock e n) ''admin'' event_type ''denied'' (Some (oe_uuid e n)) None
        (JObj details) db)))"

definition require_caller :: "op_env \<Rightarrow> string \<Rightarrow> caller_row result op" where
  "require_caller e name =
     op_query e (\<lambda>db. case caller_by_name db name of None \<Rightarrow> Inl LookupError | Some c \<Rightarrow> Inr c)"

section \<open>Policies\<close>

text \<open>\<^verbatim>\<open>list(dict.fromkeys(xs))\<close>: the first of equal elements stays.\<close>

definition dedup :: "'a list \<Rightarrow> 'a list" where
  "dedup xs = rev (remdups (rev xs))"

text \<open>The three reads of the policy in \<^verbatim>\<open>set_enabled_tools\<close> are three accesses; subscripting the
  last may raise when another process has rewritten the policy in between.\<close>

definition set_enabled_tools :: "op_env \<Rightarrow> string \<Rightarrow> string list \<Rightarrow> string \<Rightarrow> unit result op" where
  "set_enabled_tools e name enabled operator =
     bind_ok (require_caller e name) (\<lambda>c.
     let enabled = dedup enabled in
     bind_ok (op_query e (\<lambda>db. Inr (case pol_tools (policy_for db (cr_id c)) of None \<Rightarrow> [] | Some ts \<Rightarrow> ts))) (\<lambda>prior.
     let tools = filter (\<lambda>(t, ops). t \<in> set enabled) prior;
         base = empty_policy\<lparr>pol_tools := Some tools, pol_enabled := (if enabled \<noteq> [] then Some enabled else None)\<rparr>
     in
     bind_ok (op_query e (\<lambda>db. Inr (pol_disabled (policy_for db (cr_id c)) \<noteq> None))) (\<lambda>managed.
     bind_ok (if managed
              then op_query e (\<lambda>db. case pol_disabled (policy_for db (cr_id c)) of
                     None \<Rightarrow> Inl KeyError
                   | Some d \<Rightarrow> Inr (base\<lparr>pol_enabled := Some enabled, pol_disabled := Some d\<rparr>))
              else op_return base) (\<lambda>p.
     bind_ok (op_txn e (\<lambda>n. set_policy (cr_id c) p (oe_clock e n) (oe_clock2 e n))) (\<lambda>_.
     record_admin_event e operator ''tools_changed''
       [(''name'', JStr name), (''enabled'', JList (map JStr enabled))])))))"

text \<open>\<^verbatim>\<open>grants\<close>: a dictionary comprehension, so a later pair replaces an earlier one of the same key.\<close>

definition grants :: "policy \<Rightarrow> (string \<times> string) list" where
  "grants p = foldl (\<lambda>d kv. AList.update (fst kv) (snd kv) d) []
     (concat (map (\<lambda>(tool, ops). map (\<lambda>(op, eff). (tool @ ''.'' @ op, eff)) ops)
        (case pol_tools p of None \<Rightarrow> [] | Some ts \<Rightarrow> ts)))"

definition grant_delta :: "policy \<Rightarrow> policy \<Rightarrow> json" where
  "grant_delta before after =
     (let old = map_of (grants before); new = map_of (grants after) in
      JList (map (\<lambda>k. JObj [(''operation'', JStr k), (''before'', opt_str (old k)), (''after'', opt_str (new k))])
        (filter (\<lambda>k. old k \<noteq> new k) (sort (remdups (map fst (grants before) @ map fst (grants after)))))))"

definition op_set_policy ::
  "op_env \<Rightarrow> string \<Rightarrow> string list \<Rightarrow> string list \<Rightarrow> string list \<Rightarrow> string \<Rightarrow> unit result op" where
  "op_set_policy e name allow review deny operator =
     bind_ok (require_caller e name) (\<lambda>c.
     bind_ok (op_query e (\<lambda>db. Inr (policy_for db (cr_id c)))) (\<lambda>before.
     let p = (build_policy allow review deny)\<lparr>pol_enabled := pol_enabled before, pol_disabled := pol_disabled before\<rparr> in
     bind_ok (op_txn e (\<lambda>n. set_policy (cr_id c) p (oe_clock e n) (oe_clock2 e n))) (\<lambda>_.
     record_admin_event e operator ''policy_changed''
       [(''name'', JStr name), (''grant_delta'', grant_delta before p)])))"

section \<open>Callers and tokens\<close>

text \<open>\<^verbatim>\<open>secrets.token_urlsafe(32)\<close>, drawn between two accesses of the store.\<close>

definition draw_token :: "op_env \<Rightarrow> string result op" where
  "draw_token e = op_txn e (\<lambda>n db. (Inr (oe_token e n), db))"

definition store_token :: "op_env \<Rightarrow> int \<Rightarrow> string \<Rightarrow> unit result op" where
  "store_token e caller_id token = op_txn e (\<lambda>n. add_token caller_id (hash_token (oe_sha e) token) (oe_clock e n))"

definition create_caller ::
  "op_env \<Rightarrow> string \<Rightarrow> string list \<Rightarrow> string list \<Rightarrow> string list \<Rightarrow> string \<Rightarrow> string result op" where
  "create_caller e name allow review deny operator =
     bind_ok (op_txn e (\<lambda>n. add_caller name (oe_clock e n))) (\<lambda>caller_id.
     bind_ok (draw_token e) (\<lambda>token.
     bind_ok (store_token e caller_id token) (\<lambda>_.
     bind_ok (op_txn e (\<lambda>n. set_policy caller_id (build_policy allow review deny) (oe_clock e n) (oe_clock2 e n))) (\<lambda>_.
     bind_ok (record_admin_event e operator ''caller_created'' [(''name'', JStr name)]) (\<lambda>_.
     op_return token)))))"

text \<open>One turn of the loop of \<^verbatim>\<open>_cancel_pending_approvals\<close>. What the surface raises is dropped.\<close>

definition withdraw :: "op_env \<Rightarrow> string \<Rightarrow> unit result op" where
  "withdraw e ref = State (\<lambda>w. (Inr (), if oe_surface e then w\<lparr>dk_cancels := dk_cancels w @ [ref], dk_tick := dk_tick w + 1\<rparr> else w))"

fun cancel_rows :: "op_env \<Rightarrow> string \<Rightarrow> string \<Rightarrow> (approval_row \<times> request_row) list \<Rightarrow> nat result op" where
  "cancel_rows e operator reason [] = op_return 0"
| "cancel_rows e operator reason ((a, r) # rows) =
     bind_ok (op_txn e (\<lambda>n. finish_pending (ap_request_id a) Expired ACancelled None None (oe_clock e n) False)) (\<lambda>ended.
     if \<not> ended then cancel_rows e operator reason rows
     else
       bind_ok (withdraw e (ap_surface_ref a)) (\<lambda>_.
       bind_ok (op_txn e (\<lambda>n db. (Inr (), snd (append_audit (oe_clock e n) ''approval'' ''cancelled'' ''cancelled''
          (Some (rq_correlation_id r)) (Some (ap_request_id a))
          (JObj [(''reason'', JStr reason), (''operator'', JStr operator),
                 (''tool'', JStr (rq_tool r)), (''op'', JStr (rq_op r))]) db)))) (\<lambda>_.
       bind_ok (cancel_rows e operator reason rows) (\<lambda>k. op_return (k + 1)))))"

definition cancel_pending_approvals :: "op_env \<Rightarrow> int \<Rightarrow> string \<Rightarrow> string \<Rightarrow> nat result op" where
  "cancel_pending_approvals e caller_id operator reason =
     bind_ok (op_query e (\<lambda>db. Inr (pending_approvals_for_caller caller_id db))) (cancel_rows e operator reason)"

definition op_revoke_caller :: "op_env \<Rightarrow> string \<Rightarrow> string \<Rightarrow> nat result op" where
  "op_revoke_caller e name operator =
     bind_ok (require_caller e name) (\<lambda>c.
     bind_ok (op_txn e (\<lambda>n db. (Inr (), revoke_caller name (oe_clock e n) db))) (\<lambda>_.
     bind_ok (cancel_pending_approvals e (cr_id c) operator ''caller_revoked'') (\<lambda>cancelled.
     bind_ok (record_admin_event e operator ''caller_revoked''
       [(''name'', JStr name), (''cancelled_approvals'', JInt (int cancelled))]) (\<lambda>_.
     op_return cancelled))))"

definition issue_token :: "op_env \<Rightarrow> string \<Rightarrow> string \<Rightarrow> string result op" where
  "issue_token e name operator =
     bind_ok (require_caller e name) (\<lambda>c.
     bind_ok (draw_token e) (\<lambda>token.
     bind_ok (store_token e (cr_id c) token) (\<lambda>_.
     bind_ok (record_admin_event e operator ''token_issued'' [(''name'', JStr name)]) (\<lambda>_.
     op_return token))))"

definition rotate_token :: "op_env \<Rightarrow> string \<Rightarrow> string \<Rightarrow> string result op" where
  "rotate_token e name operator =
     bind_ok (require_caller e name) (\<lambda>c.
     bind_ok (draw_token e) (\<lambda>token.
     bind_ok (store_token e (cr_id c) token) (\<lambda>_.
     bind_ok (op_txn e (\<lambda>n db. apfst Inr
        (revoke_tokens_for_caller (cr_id c) (Some (hash_token (oe_sha e) token)) (oe_clock e n) db))) (\<lambda>revoked.
     bind_ok (record_admin_event e operator ''token_rotated''
       [(''name'', JStr name), (''revoked'', JInt (int revoked))]) (\<lambda>_.
     op_return token)))))"

text \<open>The loop of \<^verbatim>\<open>revoke_token\<close> over the callers the prefix named.\<close>

fun cancel_tokenless :: "op_env \<Rightarrow> string \<Rightarrow> int list \<Rightarrow> nat result op" where
  "cancel_tokenless e operator [] = op_return 0"
| "cancel_tokenless e operator (cid # cids) =
     bind_ok (op_query e (\<lambda>db. Inr (active_token_count db cid = 0))) (\<lambda>bare.
     bind_ok (if bare then cancel_pending_approvals e cid operator ''token_revoked'' else op_return 0) (\<lambda>k.
     bind_ok (cancel_tokenless e operator cids) (\<lambda>m. op_return (k + m))))"

definition op_revoke_token :: "op_env \<Rightarrow> string \<Rightarrow> string \<Rightarrow> nat result op" where
  "op_revoke_token e pfx operator =
     (if py_strip pfx = [] then op_return 0
      else
        bind_ok (op_query e (caller_ids_for_token_prefix pfx)) (\<lambda>caller_ids.
        bind_ok (op_txn e (\<lambda>n. revoke_token_by_prefix pfx (oe_clock e n))) (\<lambda>count.
        if count = 0 then op_return 0
        else
          bind_ok (cancel_tokenless e operator caller_ids) (\<lambda>cancelled.
          bind_ok (record_admin_event e operator ''token_revoked''
            [(''prefix'', JStr pfx), (''count'', JInt (int count)), (''cancelled_approvals'', JInt (int cancelled))]) (\<lambda>_.
          op_return count)))))"

section \<open>What an operation does to the store, whatever the other processes do\<close>

text \<open>Rely and guarantee: when the other processes move the store along a preorder, so does the
  operation.\<close>

definition op_guar :: "(store \<Rightarrow> store \<Rightarrow> bool) \<Rightarrow> op_env \<Rightarrow> 'a op \<Rightarrow> bool" where
  "op_guar R e m \<longleftrightarrow> (\<forall>w. R (dk_db w) (dk_db (snd (run_state m w))))"

definition op_rely :: "(store \<Rightarrow> store \<Rightarrow> bool) \<Rightarrow> op_env \<Rightarrow> bool" where
  "op_rely R e \<longleftrightarrow> (\<forall>n db. R db (oe_others e n db))"

text \<open>The administrative transactions the operations are made of.\<close>

lemma run_admin_eqs:
  "snd (add_caller name t db) = run_admin (AddCaller name t) db"
  "revoke_caller name t db = run_admin (RevokeCaller name t) db"
  "snd (add_token cid h t db) = run_admin (AddToken cid h t) db"
  "snd (revoke_tokens_for_caller cid ex t db) = run_admin (RevokeTokensFor cid ex t) db"
  "snd (revoke_token_by_prefix pfx t db) = run_admin (RevokePrefix pfx t) db"
  "snd (set_policy cid p t t' db) = run_admin (SetPolicy cid p t t') db"
  "snd (finish_pending rid Expired ACancelled None None t dl db) = run_admin (FinishPending rid ACancelled dl t) db"
  "snd (append_audit t c ev out corr q d db) = run_admin (AppendAudit t c ev out corr q d) db"
  by (simp_all add: run_admin_def)

locale rely_guarantee =
  fixes R :: "store \<Rightarrow> store \<Rightarrow> bool"
  assumes R_refl: "R db db"
    and R_trans: "R a b \<Longrightarrow> R b c \<Longrightarrow> R a c"
    and R_admin: "R db (run_admin t db)"
begin

lemma guar_return: "op_guar R e (op_return v)"
  by (simp add: op_guar_def op_return_def R_refl)

lemma guar_txn:
  assumes "op_rely R e" "\<And>n db. R db (snd (f n db))"
  shows "op_guar R e (op_txn e f)"
  unfolding op_guar_def
proof
  fix w :: desk
  have "R (dk_db w) (oe_others e (dk_tick w) (dk_db w))" using assms(1) by (simp add: op_rely_def)
  with assms(2) show "R (dk_db w) (dk_db (snd (run_state (op_txn e f) w)))"
    by (auto simp: op_txn_def split: prod.splits intro: R_trans) (metis R_trans snd_conv)
qed

lemma guar_bind:
  assumes "op_guar R e m" "\<And>v. op_guar R e (f v)"
  shows "op_guar R e (bind_ok m f)"
  using assms unfolding op_guar_def bind_ok_def
  by (auto simp: split: prod.splits sum.splits) (metis R_trans snd_conv)+

lemma guar_query: "op_rely R e \<Longrightarrow> op_guar R e (op_query e f)"
  unfolding op_query_def by (intro guar_txn) (simp_all add: R_refl)

lemma guar_if: "op_guar R e m \<Longrightarrow> op_guar R e m' \<Longrightarrow> op_guar R e (if b then m else m')"
  by simp

lemma guar_withdraw: "op_guar R e (withdraw e ref)"
  by (simp add: op_guar_def withdraw_def R_refl)

lemma guar_event: "op_rely R e \<Longrightarrow> op_guar R e (record_admin_event e operator ev d)"
  unfolding record_admin_event_def by (intro guar_txn) (simp_all add: run_admin_eqs R_admin)

lemma guar_denied: "op_rely R e \<Longrightarrow> op_guar R e (record_admin_denied e ev d)"
  unfolding record_admin_denied_def by (intro guar_txn) (simp_all add: run_admin_eqs R_admin)

lemma guar_require: "op_rely R e \<Longrightarrow> op_guar R e (require_caller e name)"
  unfolding require_caller_def by (rule guar_query)

lemma guar_draw: "op_rely R e \<Longrightarrow> op_guar R e (draw_token e)"
  unfolding draw_token_def by (intro guar_txn) (simp_all add: R_refl)

lemma guar_store_token: "op_rely R e \<Longrightarrow> op_guar R e (store_token e cid token)"
  unfolding store_token_def by (intro guar_txn) (simp_all add: run_admin_eqs R_admin)

lemma guar_policy: "op_rely R e \<Longrightarrow> op_guar R e (op_txn e (\<lambda>n. set_policy cid p (t n) (t' n)))"
  by (intro guar_txn) (simp_all add: run_admin_eqs R_admin)

lemmas guar_intros = guar_return guar_bind guar_query guar_if guar_withdraw guar_event guar_denied
  guar_require guar_draw guar_store_token guar_policy

lemma guar_cancel_rows: "op_rely R e \<Longrightarrow> op_guar R e (cancel_rows e operator reason rows)"
proof (induction rows)
  case (Cons row rows)
  obtain a r where "row = (a, r)" by (cases row)
  with Cons show ?case
    by (auto intro!: guar_intros guar_txn simp: run_admin_eqs R_admin)
qed (simp add: guar_return)

lemma guar_cancel: "op_rely R e \<Longrightarrow> op_guar R e (cancel_pending_approvals e cid operator reason)"
  unfolding cancel_pending_approvals_def by (intro guar_intros guar_cancel_rows)

lemma guar_tokenless: "op_rely R e \<Longrightarrow> op_guar R e (cancel_tokenless e operator cids)"
  by (induction cids) (auto intro!: guar_intros guar_cancel)

lemma guar_set_enabled: "op_rely R e \<Longrightarrow> op_guar R e (set_enabled_tools e name enabled operator)"
  unfolding set_enabled_tools_def Let_def by (intro guar_intros)

lemma guar_set_policy: "op_rely R e \<Longrightarrow> op_guar R e (op_set_policy e name allow review deny operator)"
  unfolding op_set_policy_def Let_def by (intro guar_intros)

lemma guar_create: "op_rely R e \<Longrightarrow> op_guar R e (create_caller e name allow review deny operator)"
  unfolding create_caller_def by (intro guar_intros guar_txn) (simp_all add: run_admin_eqs R_admin)

lemma guar_revoke: "op_rely R e \<Longrightarrow> op_guar R e (op_revoke_caller e name operator)"
  unfolding op_revoke_caller_def
  by (intro guar_intros guar_cancel guar_txn) (simp_all add: run_admin_eqs R_admin)

lemma guar_issue: "op_rely R e \<Longrightarrow> op_guar R e (issue_token e name operator)"
  unfolding issue_token_def by (intro guar_intros)

lemma guar_rotate: "op_rely R e \<Longrightarrow> op_guar R e (rotate_token e name operator)"
  unfolding rotate_token_def
  by (intro guar_intros guar_txn) (simp_all add: run_admin_eqs R_admin)

lemma guar_revoke_token: "op_rely R e \<Longrightarrow> op_guar R e (op_revoke_token e pfx operator)"
  unfolding op_revoke_token_def
  by (intro guar_intros guar_tokenless guar_txn) (simp_all add: run_admin_eqs R_admin)

end

text \<open>The transactions of the store, in any order and by any process.\<close>

abbreviation store_steps :: "(string \<Rightarrow> string) \<Rightarrow> store \<Rightarrow> store \<Rightarrow> bool" where
  "store_steps sha \<equiv> (\<lambda>s s'. \<exists>l. store_step sha s l s')\<^sup>*\<^sup>*"

interpretation desk: rely_guarantee "store_steps sha" for sha
  by unfold_locales (auto intro: rtranclp_trans store_step.admin)

text \<open>A call of an operation, as \<^verbatim>\<open>brokerctl\<close> and the admin application make it, and a session of
  calls.\<close>

datatype op_call =
    SetEnabledTools string "string list" string
  | CreateCaller string "string list" "string list" "string list" string
  | RevokeCallerOp string string
  | SetPolicyOp string "string list" "string list" "string list" string
  | IssueToken string string
  | RotateToken string string
  | RevokeTokenOp string string
  | RecordDenied string "(string \<times> json) list"

definition perform :: "op_env \<Rightarrow> op_call \<Rightarrow> desk \<Rightarrow> desk" where
  "perform e c w =
     (case c of
        SetEnabledTools name enabled operator \<Rightarrow> snd (run_state (set_enabled_tools e name enabled operator) w)
      | CreateCaller name allow review deny operator \<Rightarrow> snd (run_state (create_caller e name allow review deny operator) w)
      | RevokeCallerOp name operator \<Rightarrow> snd (run_state (op_revoke_caller e name operator) w)
      | SetPolicyOp name allow review deny operator \<Rightarrow> snd (run_state (op_set_policy e name allow review deny operator) w)
      | IssueToken name operator \<Rightarrow> snd (run_state (issue_token e name operator) w)
      | RotateToken name operator \<Rightarrow> snd (run_state (rotate_token e name operator) w)
      | RevokeTokenOp pfx operator \<Rightarrow> snd (run_state (op_revoke_token e pfx operator) w)
      | RecordDenied ev d \<Rightarrow> snd (run_state (record_admin_denied e ev d) w))"

lemma perform_steps:
  assumes "op_rely (store_steps sha) e"
  shows "store_steps sha (dk_db w) (dk_db (perform e c w))"
  using desk.guar_set_enabled [OF assms] desk.guar_create [OF assms] desk.guar_revoke [OF assms]
    desk.guar_set_policy [OF assms] desk.guar_issue [OF assms] desk.guar_rotate [OF assms]
    desk.guar_revoke_token [OF assms] desk.guar_denied [OF assms]
  by (cases c) (simp_all only: perform_def op_guar_def op_call.case)

section \<open>The rows of a caller\<close>

lemma caller_name_step:
  assumes "store_step sha db l db'" "caller_by_name db name = Some c"
  shows "\<exists>c'. caller_by_name db' name = Some c' \<and> cr_id c' = cr_id c \<and> (cr_revoked_at c \<noteq> None \<longrightarrow> cr_revoked_at c' \<noteq> None)"
proof -
  have upd: "find (\<lambda>c. cr_name c = name) (sql_update (\<lambda>c. p c \<and> cr_revoked_at c = None) (\<lambda>c. c\<lparr>cr_revoked_at := Some now\<rparr>) xs)
      = map_option (\<lambda>r. if p r \<and> cr_revoked_at r = None then r\<lparr>cr_revoked_at := Some now\<rparr> else r)
          (find (\<lambda>c. cr_name c = name) xs)" for p now xs
    by (rule find_sql_update) simp
  from st_callers_cases [OF assms(1)] assms(2) show ?thesis
    by (auto simp: caller_by_name_def find_append upd)
qed

lemma caller_name_steps:
  assumes "store_steps sha db db'" "caller_by_name db name = Some c"
  shows "\<exists>c'. caller_by_name db' name = Some c' \<and> cr_id c' = cr_id c \<and> (cr_revoked_at c \<noteq> None \<longrightarrow> cr_revoked_at c' \<noteq> None)"
  using assms
proof (induction rule: rtranclp_induct)
  case (step a b)
  then show ?case using caller_name_step by (metis (no_types, lifting))
qed simp

text \<open>A revoked name does not authenticate.\<close>

lemma authenticate_not_revoked:
  assumes "authenticate sha db header = Some cl" "store_ok db" "caller_by_name db name = Some c" "cr_revoked_at c \<noteq> None"
  shows "cl_name cl \<noteq> name \<and> cl_id cl \<noteq> cr_id c"
proof -
  from assms(1) obtain c1 where c1: "c1 \<in> set (st_callers db)" "cr_revoked_at c1 = None" "cl_id cl = cr_id c1" "cl_name cl = cr_name c1"
    by (rule authenticate_SomeD) blast
  have c: "c \<in> set (st_callers db)" "cr_name c = name"
    using assms(3) by (auto simp: caller_by_name_def dest: find_SomeD)
  have d: "distinct (map cr_id (st_callers db))" "distinct (map cr_name (st_callers db))"
    using assms(2) by (auto simp: store_ok_def keys_ok_def)
  show ?thesis
  proof (intro conjI notI)
    assume "cl_name cl = name"
    then have "c1 = c" using c c1 d(2) by (metis (no_types, lifting) distinct_map inj_onD)
    with c1 assms(4) show False by simp
  next
    assume "cl_id cl = cr_id c"
    then have "c1 = c" using c c1 d(1) by (metis (no_types, lifting) distinct_map inj_onD)
    with c1 assms(4) show False by simp
  qed
qed

section \<open>Running an operation\<close>

lemma run_op_txn [simp]:
  "run_state (op_txn e f) w = (fst (f (dk_tick w) (oe_others e (dk_tick w) (dk_db w))),
     w\<lparr>dk_db := snd (f (dk_tick w) (oe_others e (dk_tick w) (dk_db w))), dk_tick := dk_tick w + 1\<rparr>)"
  by (simp add: op_txn_def split: prod.splits)

lemma run_op_query [simp]:
  "run_state (op_query e f) w = (f (oe_others e (dk_tick w) (dk_db w)),
     w\<lparr>dk_db := oe_others e (dk_tick w) (dk_db w), dk_tick := dk_tick w + 1\<rparr>)"
  by (simp add: op_query_def)

lemma run_op_ok [simp]: "run_state (op_return v) w = (Inr v, w)"
  by (simp add: op_return_def)

lemma finish_pending_returns:
  assumes "store_ok db"
  shows "\<exists>b. fst (finish_pending rid s a err state now dl db) = Inr b"
proof (cases "request db rid")
  case (Some r)
  then have "rq_caller_id r \<in> set (map cr_id (st_callers db))"
    using assms request_SomeD [OF Some] by (auto simp: store_ok_def refs_ok_def)
  then have "caller_row_by_id db (rq_caller_id r) \<noteq> None" unfolding caller_row_ids .
  with Some show ?thesis by (auto simp: finish_pending_def split: option.splits sum.splits)
qed (auto simp: finish_pending_def)

lemma steps_ok: "store_steps sha db db' \<Longrightarrow> store_ok db \<Longrightarrow> store_ok db'"
  by (rule db.steps_inv)

lemma rely_ok: "op_rely (store_steps sha) e \<Longrightarrow> store_ok db \<Longrightarrow> store_ok (oe_others e n db)"
  unfolding op_rely_def by (blast intro: steps_ok)

text \<open>An operation returns from a well-formed store.\<close>

definition op_returns :: "'a result op \<Rightarrow> bool" where
  "op_returns m \<longleftrightarrow> (\<forall>w. store_ok (dk_db w) \<longrightarrow> (\<exists>v. fst (run_state m w) = Inr v))"

lemma returnsE:
  assumes "op_returns m" "store_ok (dk_db w)"
  obtains v w' where "run_state m w = (Inr v, w')"
proof -
  obtain v where "fst (run_state m w) = Inr v" using assms unfolding op_returns_def by blast
  then show ?thesis using that [of v "snd (run_state m w)"] by (simp add: prod_eq_iff)
qed

lemma returns_bind:
  assumes "op_returns m" "op_guar (store_steps sha) e m" "\<And>v. op_returns (f v)"
  shows "op_returns (bind_ok m f)"
  unfolding op_returns_def
proof (intro allI impI)
  fix w :: desk
  assume ok: "store_ok (dk_db w)"
  from returnsE [OF assms(1) ok] obtain v w' where m: "run_state m w = (Inr v, w')" .
  have "store_ok (dk_db w')" using assms(2) ok m unfolding op_guar_def by (metis snd_conv steps_ok)
  then show "\<exists>u. fst (run_state (bind_ok m f) w) = Inr u"
    using assms(3) [of v] by (simp add: op_returns_def bind_ok_run m)
qed

lemma returns_return: "op_returns (op_return v)"
  by (simp add: op_returns_def)

lemma returns_event: "op_returns (record_admin_event e operator ev d)"
  by (simp add: op_returns_def record_admin_event_def)

lemma returns_withdraw: "op_returns (withdraw e ref)"
  by (simp add: op_returns_def withdraw_def)

lemma returns_txn: "(\<And>n db. fst (f n db) = Inr ()) \<Longrightarrow> op_returns (op_txn e f)"
  by (simp add: op_returns_def)

lemma returns_query: "op_returns (op_query e (\<lambda>db. Inr (f db)))"
  by (simp add: op_returns_def)

lemma returns_if: "op_returns m \<Longrightarrow> op_returns m' \<Longrightarrow> op_returns (if b then m else m')"
  by simp

lemma returns_cancel_rows:
  assumes "op_rely (store_steps sha) e"
  shows "op_returns (cancel_rows e operator reason rows)"
proof (induction rows)
  case (Cons row rows)
  obtain a r where row: "row = (a, r)" by (cases row)
  have fin: "op_returns (op_txn e (\<lambda>n. finish_pending (ap_request_id a) Expired ACancelled None None (oe_clock e n) False))"
    by (simp add: op_returns_def) (blast intro: finish_pending_returns rely_ok [OF assms])
  show ?case
    unfolding row cancel_rows.simps
    by (intro returns_bind [where sha = sha and e = e] returns_if fin returns_return Cons returns_withdraw returns_txn
        desk.guar_withdraw desk.guar_txn [OF assms] desk.guar_cancel_rows [OF assms])
      (simp_all add: run_admin_eqs desk.R_admin)
qed (simp add: returns_return)

lemma returns_cancel:
  assumes "op_rely (store_steps sha) e"
  shows "op_returns (cancel_pending_approvals e cid operator reason)"
  unfolding cancel_pending_approvals_def
  by (intro returns_bind [where sha = sha and e = e] returns_query desk.guar_query [OF assms] returns_cancel_rows [OF assms])

section \<open>A revoked caller\<close>

lemma revoke_marks:
  assumes "caller_by_name db name = Some c"
  shows "\<exists>c'. caller_by_name (revoke_caller name now db) name = Some c' \<and> cr_id c' = cr_id c \<and> cr_revoked_at c' \<noteq> None"
proof -
  have "find (\<lambda>c. cr_name c = name) (sql_update (\<lambda>c. cr_name c = name \<and> cr_revoked_at c = None) (\<lambda>c. c\<lparr>cr_revoked_at := Some now\<rparr>) xs)
      = map_option (\<lambda>r. if cr_name r = name \<and> cr_revoked_at r = None then r\<lparr>cr_revoked_at := Some now\<rparr> else r)
          (find (\<lambda>c. cr_name c = name) xs)" for xs :: "caller_row list"
    by (rule find_sql_update) simp
  moreover have "cr_name c = name" using assms by (auto simp: caller_by_name_def dest: find_SomeD)
  ultimately show ?thesis using assms by (cases "cr_revoked_at c") (simp_all add: caller_by_name_def revoke_caller_def)
qed

lemma revoked_by_name:
  assumes "store_ok db" "caller_by_name db name = Some c" "cr_revoked_at c \<noteq> None"
  shows "revoked db (cr_id c)"
proof -
  have "c \<in> set (st_callers db)" using assms(2) by (auto simp: caller_by_name_def dest: find_SomeD)
  then have "caller_row_by_id db (cr_id c) = Some c"
    using assms(1) by (simp add: caller_row_by_id_def find_key_distinct store_ok_def keys_ok_def)
  with assms(3) show ?thesis by (simp add: revoked_def)
qed

text \<open>What is left of the operation once it has marked the caller.\<close>

lemma op_revoke_caller_run:
  assumes rely: "op_rely (store_steps sha) e" and ok: "store_ok (dk_db w)" and c: "caller_by_name (dk_db w) name = Some c"
  shows "\<exists>k w' c'. run_state (op_revoke_caller e name operator) w = (Inr k, w') \<and> store_ok (dk_db w')
     \<and> caller_by_name (dk_db w') name = Some c' \<and> cr_id c' = cr_id c \<and> cr_revoked_at c' \<noteq> None"
proof -
  let ?n = "dk_tick w" and ?db1 = "oe_others e (dk_tick w) (dk_db w)"
  have r: "store_steps sha db (oe_others e n db)" for n db using rely by (simp add: op_rely_def)
  obtain c1 where c1: "caller_by_name ?db1 name = Some c1" "cr_id c1 = cr_id c"
    using caller_name_steps [OF r c] by blast
  let ?db2 = "oe_others e (?n + 1) ?db1"
  obtain c2 where c2: "caller_by_name ?db2 name = Some c2" "cr_id c2 = cr_id c"
    using caller_name_steps [OF r c1(1)] c1(2) by metis
  let ?db3 = "revoke_caller name (oe_clock e (?n + 1)) ?db2"
  obtain c3 where c3: "caller_by_name ?db3 name = Some c3" "cr_id c3 = cr_id c" "cr_revoked_at c3 \<noteq> None"
    using revoke_marks [OF c2(1)] c2(2) by metis
  let ?w3 = "w\<lparr>dk_db := ?db3, dk_tick := ?n + 2\<rparr>"
  let ?rest = "bind_ok (cancel_pending_approvals e (cr_id c1) operator ''caller_revoked'') (\<lambda>cancelled.
     bind_ok (record_admin_event e operator ''caller_revoked''
       [(''name'', JStr name), (''cancelled_approvals'', JInt (int cancelled))]) (\<lambda>_. op_return cancelled))"
  have run: "run_state (op_revoke_caller e name operator) w = run_state ?rest ?w3"
    by (simp add: op_revoke_caller_def bind_ok_run require_caller_def c1)
  have "store_steps sha (dk_db w) ?db3"
    using r [of "dk_db w" ?n] r [of ?db1 "?n + 1"] desk.R_admin [of sha ?db2 "RevokeCaller name (oe_clock e (?n + 1))"]
    by (metis (no_types) desk.R_trans run_admin_eqs(2))
  then have ok3: "store_ok (dk_db ?w3)" using ok by (simp add: steps_ok)
  have guar: "op_guar (store_steps sha) e ?rest"
    by (intro desk.guar_bind desk.guar_cancel [OF rely] desk.guar_event [OF rely] desk.guar_return)
  have "op_returns ?rest"
    by (intro returns_bind [where sha = sha and e = e] returns_cancel [OF rely] desk.guar_cancel [OF rely]
        returns_event desk.guar_event [OF rely] returns_return)
  from returnsE [OF this ok3] obtain k w' where w': "run_state ?rest ?w3 = (Inr k, w')" .
  have st: "store_steps sha ?db3 (dk_db w')"
    using guar [unfolded op_guar_def, rule_format, of ?w3] w' by simp
  from caller_name_steps [OF st c3(1)] c3 steps_ok [OF st] ok3 show ?thesis
    unfolding run w' by auto
qed

section \<open>Tokens handed out\<close>

text \<open>A token as \<^verbatim>\<open>token_urlsafe\<close> draws it: not empty and without white space at its ends.\<close>

definition plain_token :: "string \<Rightarrow> bool" where
  "plain_token t \<longleftrightarrow> t \<noteq> [] \<and> py_strip t = t"

lemma bearer_plain:
  assumes "plain_token t"
  shows "bearer_token (Some (''Bearer '' @ t)) = Some t"
proof -
  have low: "py_lower ''Bearer'' = ''bearer''" by code_simp
  have part: "partition_at (CHR '' '') (''Bearer '' @ t) = (''Bearer'', True, t)" by (simp add: partition_at_def)
  show ?thesis using assms by (simp add: bearer_token_def part [simplified] plain_token_def low)
qed

lemma find_key_live:
  assumes "distinct (map key rows)" "r \<in> set rows" "p r"
  shows "find (\<lambda>x. key x = key r \<and> p x) rows = Some r"
  using assms by (induction rows) (auto simp: image_iff)

lemma authenticate_token:
  assumes "authenticate sha db header = Some cl"
  shows "\<exists>t \<in> set (st_tokens db). tk_revoked_at t = None \<and> cl_id cl = tk_caller_id t \<and> cl_token_hash cl = Some (tk_hash t)"
  using assms by (rule authenticate_SomeD) (auto intro!: bexI)

lemma authenticate_plain:
  assumes t: "plain_token t" and tk: "tk \<in> set (st_tokens db)" "tk_hash tk = sha t" "tk_revoked_at tk = None" "tk_caller_id tk = cr_id c"
    and c: "c \<in> set (st_callers db)" "cr_revoked_at c = None"
    and d: "distinct (map tk_hash (st_tokens db))" "distinct (map cr_id (st_callers db))"
  shows "authenticate sha db (Some (''Bearer '' @ t)) =
    Some \<lparr>cl_id = cr_id c, cl_name = cr_name c, cl_token_hash = Some (sha t)\<rparr>"
  using find_key_live [OF d(1) tk(1), of "\<lambda>x. tk_revoked_at x = None"] find_key_live [OF d(2) c(1), of "\<lambda>x. cr_revoked_at x = None"] tk c
  by (simp add: authenticate_def bearer_plain [OF t, simplified] caller_by_token_hash_def hash_token_def)

text \<open>The tables after a rotation no other process interrupts.\<close>

lemma rotate_run:
  fixes w :: desk
  assumes quiet: "oe_others e = (\<lambda>_ db. db)" and c: "caller_by_name (dk_db w) name = Some c"
    and fresh: "oe_sha e tok \<notin> tk_hash ` set (st_tokens (dk_db w))" and tok: "tok = oe_token e (dk_tick w + 1)"
  shows "\<exists>w'. run_state (rotate_token e name operator) w = (Inr tok, w')
    \<and> st_callers (dk_db w') = st_callers (dk_db w) \<and> st_requests (dk_db w') = st_requests (dk_db w)
    \<and> st_approvals (dk_db w') = st_approvals (dk_db w)
    \<and> st_tokens (dk_db w') = sql_update (\<lambda>t. (tk_caller_id t = cr_id c \<and> tk_hash t \<noteq> oe_sha e tok) \<and> tk_revoked_at t = None)
         (\<lambda>t. t\<lparr>tk_revoked_at := Some (oe_clock e (dk_tick w + 3))\<rparr>)
         (st_tokens (dk_db w) @ [\<lparr>tk_hash = oe_sha e tok, tk_caller_id = cr_id c, tk_created_at = oe_clock e (dk_tick w + 2),
             tk_revoked_at = None\<rparr>])"
proof -
  have "caller_row_by_id (dk_db w) (cr_id c) \<noteq> None"
    using c unfolding caller_row_ids by (auto simp: caller_by_name_def dest: find_SomeD)
  then obtain row where id: "caller_row_by_id (dk_db w) (cr_id c) = Some row" by blast
  have new: "\<not> list_ex (\<lambda>t. tk_hash t = oe_sha e (oe_token e (Suc (dk_tick w)))) (st_tokens (dk_db w))"
    using fresh unfolding tok list_ex_iff by (auto simp: rev_image_eqI)
  show ?thesis
    using id new
    by (simp add: rotate_token_def bind_ok_run require_caller_def quiet c draw_token_def store_token_def
        add_token_def hash_token_def record_admin_event_def revoke_tokens_for_caller_def revoke_tokens_where_def Let_def
        append_audit_def tok numeral_2_eq_2 numeral_3_eq_3)
qed

text \<open>Reading back a policy that was written.\<close>

lemma policy_for_write:
  assumes "caller_row_by_id db cid \<noteq> None"
  shows "policy_for (snd (write_policy cid p t1 t2 db)) cid = p"
proof -
  let ?row = "\<lparr>pr_caller_id = cid, pr_policy = p, pr_updated_at = t1\<rparr>"
  have upd: "find (\<lambda>r. pr_caller_id r = cid) (sql_update (\<lambda>r. pr_caller_id r = cid) (\<lambda>_. ?row) rows) = Some ?row"
    if "list_ex (\<lambda>r. pr_caller_id r = cid) rows" for rows
    using that by (induction rows) auto
  have add: "find (\<lambda>r. pr_caller_id r = cid) (rows @ [?row]) = Some ?row"
    if "\<not> list_ex (\<lambda>r. pr_caller_id r = cid) rows" for rows
    using that by (induction rows) auto
  show ?thesis
    using assms by (cases "list_ex (\<lambda>r. pr_caller_id r = cid) (st_policies db)")
      (auto simp: policy_for_def write_policy_def Let_def upd add)
qed

lemma create_run:
  fixes w :: desk
  assumes quiet: "oe_others e = (\<lambda>_ db. db)" and new: "caller_by_name (dk_db w) name = None"
    and fresh: "oe_sha e tok \<notin> tk_hash ` set (st_tokens (dk_db w))" and tok: "tok = oe_token e (dk_tick w + 1)"
    and cid: "cid = next_rowid cr_id (st_callers (dk_db w))"
  shows "\<exists>w'. run_state (create_caller e name allow review deny operator) w = (Inr tok, w')
    \<and> st_callers (dk_db w') = st_callers (dk_db w) @
        [\<lparr>cr_id = cid, cr_name = name, cr_created_at = oe_clock e (dk_tick w), cr_revoked_at = None\<rparr>]
    \<and> st_tokens (dk_db w') = st_tokens (dk_db w) @
        [\<lparr>tk_hash = oe_sha e tok, tk_caller_id = cid, tk_created_at = oe_clock e (dk_tick w + 2), tk_revoked_at = None\<rparr>]
    \<and> policy_for (dk_db w') cid = build_policy allow review deny"
proof -
  let ?db = "dk_db w"
  let ?row = "\<lparr>cr_id = cid, cr_name = name, cr_created_at = oe_clock e (dk_tick w), cr_revoked_at = None\<rparr>"
  let ?db1 = "?db\<lparr>st_callers := st_callers ?db @ [?row]\<rparr>"
  let ?tk = "\<lparr>tk_hash = oe_sha e tok, tk_caller_id = cid, tk_created_at = oe_clock e (dk_tick w + 2), tk_revoked_at = None\<rparr>"
  let ?db2 = "?db1\<lparr>st_tokens := st_tokens ?db @ [?tk]\<rparr>"
  let ?pol = "write_policy cid (build_policy allow review deny) (oe_clock e (dk_tick w + 3)) (oe_clock2 e (dk_tick w + 3)) ?db2"
  have add: "add_caller name (oe_clock e (dk_tick w)) ?db = (Inr cid, ?db1)"
    using new cid by (auto simp: add_caller_def Let_def caller_by_name_def list_ex_iff find_None_iff')
  have id1: "caller_row_by_id ?db1 cid \<noteq> None" "caller_row_by_id ?db2 cid \<noteq> None"
    unfolding caller_row_ids by simp_all
  have tk: "add_token cid (oe_sha e tok) (oe_clock e (dk_tick w + 2)) ?db1 = (Inr (), ?db2)"
    using fresh id1(1) by (auto simp: add_token_def list_ex_iff rev_image_eqI)
  have pol: "fst ?pol = Inr ()" "st_callers (snd ?pol) = st_callers ?db2" "st_tokens (snd ?pol) = st_tokens ?db2"
    using id1(2) by (simp_all add: write_policy_def Let_def)
  have audit: "policy_for (snd (append_audit t c ev out corr q d db)) i = policy_for db i" for t c ev out corr q d db i
    by (simp add: policy_for_def append_audit_def Let_def)
  show ?thesis
    using add tk pol policy_for_write [OF id1(2)]
    by (simp add: create_caller_def bind_ok_run quiet draw_token_def store_token_def hash_token_def tok set_policy_def
        record_admin_event_def audit numeral_2_eq_2 numeral_3_eq_3)
qed

section \<open>Properties\<close>


text \<open>C12: Revoking an existing caller succeeds whatever other processes do meanwhile, and from then on,
  whatever happens, no header authenticates as it and no request of it is claimed for execution.\<close>

theorem revoked_caller_out:
  assumes "op_rely (store_steps sha) e" "store_ok (dk_db w)" "caller_by_name (dk_db w) name = Some c"
    and "store_steps sha (dk_db (snd (run_state (op_revoke_caller e name operator) w))) later"
  shows "(\<exists>k. fst (run_state (op_revoke_caller e name operator) w) = Inr k)
    \<and> (\<forall>header cl. authenticate sha' later header = Some cl \<longrightarrow> cl_name cl \<noteq> name \<and> cl_id cl \<noteq> cr_id c)
    \<and> (\<forall>k r next. store_step sha later (Some k) next \<and> request later k = Some r \<longrightarrow> rq_caller_id r \<noteq> cr_id c)"
proof -
  obtain k w' c' where run: "run_state (op_revoke_caller e name operator) w = (Inr k, w')" "store_ok (dk_db w')"
    "caller_by_name (dk_db w') name = Some c'" "cr_id c' = cr_id c" "cr_revoked_at c' \<noteq> None"
    using op_revoke_caller_run [OF assms(1-3)] by blast
  have st: "store_steps sha (dk_db w') later" using assms(4) run(1) by simp
  obtain c2 where c2: "caller_by_name later name = Some c2" "cr_id c2 = cr_id c" "cr_revoked_at c2 \<noteq> None"
    using caller_name_steps [OF st run(3)] run(4,5) by auto
  have ok: "store_ok later" using steps_ok [OF st run(2)] .
  have "revoked later (cr_id c)" using revoked_by_name [OF ok c2(1,3)] c2(2) by simp
  with authenticate_not_revoked [OF _ ok c2(1,3)] claim_step_live [where sha = sha and db = later] c2(2) run(1)
  show ?thesis by (metis fst_conv)
qed

text \<open>A rotation that no other process interrupts hands out a token that authenticates as the caller,
  leaves it no other token that does, and keeps its requests and pending approvals.\<close>

theorem rotation_leaves_one_token:
  assumes "oe_others e = (\<lambda>_ db. db)" "store_ok (dk_db w)"
    "caller_by_name (dk_db w) name = Some c" "cr_revoked_at c = None"
    "tok = oe_token e (dk_tick w + 1)" "plain_token tok" "oe_sha e tok \<notin> tk_hash ` set (st_tokens (dk_db w))"
  shows "\<exists>w'. run_state (rotate_token e name operator) w = (Inr tok, w')
    \<and> authenticate (oe_sha e) (dk_db w') (Some (''Bearer '' @ tok))
        = Some \<lparr>cl_id = cr_id c, cl_name = name, cl_token_hash = Some (oe_sha e tok)\<rparr>
    \<and> (\<forall>header cl. authenticate (oe_sha e) (dk_db w') header = Some cl \<and> cl_id cl = cr_id c
         \<longrightarrow> cl_token_hash cl = Some (oe_sha e tok))
    \<and> st_requests (dk_db w') = st_requests (dk_db w) \<and> st_approvals (dk_db w') = st_approvals (dk_db w)"
proof -
  have c: "c \<in> set (st_callers (dk_db w))" "cr_name c = name"
    using assms(3) by (auto simp: caller_by_name_def dest: find_SomeD)
  have d: "distinct (map tk_hash (st_tokens (dk_db w)))" "distinct (map cr_id (st_callers (dk_db w)))"
    using assms(2) by (auto simp: store_ok_def keys_ok_def)
  let ?new = "\<lparr>tk_hash = oe_sha e tok, tk_caller_id = cr_id c, tk_created_at = oe_clock e (dk_tick w + 2), tk_revoked_at = None\<rparr>"
  obtain w' where w': "run_state (rotate_token e name operator) w = (Inr tok, w')"
    "st_callers (dk_db w') = st_callers (dk_db w)" "st_requests (dk_db w') = st_requests (dk_db w)"
    "st_approvals (dk_db w') = st_approvals (dk_db w)"
    and tks: "st_tokens (dk_db w') = sql_update (\<lambda>t. (tk_caller_id t = cr_id c \<and> tk_hash t \<noteq> oe_sha e tok) \<and> tk_revoked_at t = None)
         (\<lambda>t. t\<lparr>tk_revoked_at := Some (oe_clock e (dk_tick w + 3))\<rparr>) (st_tokens (dk_db w) @ [?new])"
    using rotate_run [OF assms(1,3,7,5), of operator] by (elim exE conjE) (rule that, assumption+)
  have keys: "map tk_hash (st_tokens (dk_db w')) = map tk_hash (st_tokens (dk_db w) @ [?new])"
    unfolding tks by (rule map_sql_update) simp
  have "?new \<in> set (st_tokens (dk_db w'))" unfolding tks by (auto simp: set_sql_update image_iff)
  moreover have "distinct (map tk_hash (st_tokens (dk_db w')))" unfolding keys using d(1) assms(7) by simp
  ultimately have auth: "authenticate (oe_sha e) (dk_db w') (Some (''Bearer '' @ tok))
        = Some \<lparr>cl_id = cr_id c, cl_name = name, cl_token_hash = Some (oe_sha e tok)\<rparr>"
    using authenticate_plain [OF assms(6), of ?new "dk_db w'" "oe_sha e" c] c d(2) assms(4) w'(2) by simp
  have only: "cl_token_hash cl = Some (oe_sha e tok)"
    if a: "authenticate (oe_sha e) (dk_db w') header = Some cl" and i: "cl_id cl = cr_id c" for header cl
  proof -
    from authenticate_token [OF a] obtain t where t: "t \<in> set (st_tokens (dk_db w'))" "tk_revoked_at t = None"
      "cl_id cl = tk_caller_id t" "cl_token_hash cl = Some (tk_hash t)" by blast
    have "tk_caller_id t = cr_id c \<longrightarrow> tk_hash t = oe_sha e tok"
      using t(1,2) unfolding tks by (auto simp: set_sql_update split: if_splits)
    with t i show ?thesis by simp
  qed
  with auth w' show ?thesis by (intro exI [of _ w'] conjI allI impI) (simp_all only:, blast)
qed

text \<open>Creating a caller under a new name, uninterrupted, returns a token that authenticates as
  the new caller, whose policy decides as it was given.\<close>

theorem created_caller_works:
  assumes "oe_others e = (\<lambda>_ db. db)" "store_ok (dk_db w)" "caller_by_name (dk_db w) name = None"
    "tok = oe_token e (dk_tick w + 1)" "plain_token tok" "oe_sha e tok \<notin> tk_hash ` set (st_tokens (dk_db w))"
  shows "\<exists>w' cl. run_state (create_caller e name allow review deny operator) w = (Inr tok, w')
    \<and> authenticate (oe_sha e) (dk_db w') (Some (''Bearer '' @ tok)) = Some cl
    \<and> cl_name cl = name \<and> (\<forall>c \<in> set (st_callers (dk_db w)). cr_id c \<noteq> cl_id cl)
    \<and> (\<forall>tool op. decide (policy_for (dk_db w') (cl_id cl)) tool op =
         (if list_ex (spec_matches tool op) deny then DENY
          else if list_ex (spec_matches tool op) allow then ALLOW
          else if list_ex (spec_matches tool op) review then REVIEW else DENY))"
proof -
  define cid where "cid = next_rowid cr_id (st_callers (dk_db w))"
  let ?c = "\<lparr>cr_id = cid, cr_name = name, cr_created_at = oe_clock e (dk_tick w), cr_revoked_at = None\<rparr>"
  let ?tk = "\<lparr>tk_hash = oe_sha e tok, tk_caller_id = cid, tk_created_at = oe_clock e (dk_tick w + 2), tk_revoked_at = None\<rparr>"
  obtain w' where w': "run_state (create_caller e name allow review deny operator) w = (Inr tok, w')"
    and t: "st_callers (dk_db w') = st_callers (dk_db w) @ [?c]" "st_tokens (dk_db w') = st_tokens (dk_db w) @ [?tk]"
    and p: "policy_for (dk_db w') cid = build_policy allow review deny"
    using create_run [OF assms(1,3,6,4) cid_def, of allow review deny operator] by (elim exE conjE) (rule that, assumption+)
  have d: "distinct (map tk_hash (st_tokens (dk_db w')))" "distinct (map cr_id (st_callers (dk_db w')))"
    using assms(2,6) by (simp_all add: t store_ok_def keys_ok_def cid_def)
  have "authenticate (oe_sha e) (dk_db w') (Some (''Bearer '' @ tok)) =
      Some \<lparr>cl_id = cid, cl_name = name, cl_token_hash = Some (oe_sha e tok)\<rparr>"
    using authenticate_plain [OF assms(5), of ?tk "dk_db w'" "oe_sha e" ?c] d by (simp add: t)
  moreover have "\<forall>c \<in> set (st_callers (dk_db w)). cr_id c \<noteq> cid"
    using next_rowid_fresh [of _ "st_callers (dk_db w)" cr_id] unfolding cid_def by (metis less_irrefl)
  ultimately show ?thesis
    using w' p by (intro exI [of _ w'] exI [of _ "\<lparr>cl_id = cid, cl_name = name, cl_token_hash = Some (oe_sha e tok)\<rparr>"])
      (simp add: policy_of_specs)
qed

section \<open>An example session\<close>

definition demo_op_env :: op_env where
  "demo_op_env = \<lparr>oe_sha = (\<lambda>t. ''h'' @ t), oe_clock = (\<lambda>n. of_nat n), oe_clock2 = (\<lambda>n. of_nat n),
     oe_uuid = (\<lambda>_. ''u''), oe_token = (\<lambda>_. ''t1''), oe_others = (\<lambda>_ db. db), oe_surface = True\<rparr>"

definition demo_desk :: desk where
  "demo_desk = \<lparr>dk_db = example_store None [], dk_tick = 0, dk_cancels = []\<rparr>"

lemma demo_desk_ok: "store_ok (dk_db demo_desk)"
  by (simp add: demo_desk_def example_ok)

lemma demo_op_rely: "op_rely (store_steps id) demo_op_env"
  by (simp add: op_rely_def demo_op_env_def)

lemma demo_op_caller: "caller_by_name (dk_db demo_desk) ''bot'' = Some (hd (st_callers (dk_db demo_desk)))"
  by (simp add: demo_desk_def example_defs caller_by_name_def)

lemma demo_plain: "plain_token ''t1''"
  by code_simp


theorem revoked_caller_out_witness:
  "\<exists>k. fst (run_state (op_revoke_caller demo_op_env ''bot'' ''root'') demo_desk) = Inr k"
  using revoked_caller_out [OF demo_op_rely demo_desk_ok demo_op_caller rtranclp.rtrancl_refl, where operator = "''root''"] by blast

theorem rotation_leaves_one_token_witness:
  "\<exists>w. run_state (rotate_token demo_op_env ''bot'' ''root'') demo_desk = (Inr ''t1'', w)"
proof -
  have "oe_others demo_op_env = (\<lambda>_ db. db)" "cr_revoked_at (hd (st_callers (dk_db demo_desk))) = None"
    "''t1'' = oe_token demo_op_env (dk_tick demo_desk + 1)" "oe_sha demo_op_env ''t1'' \<notin> tk_hash ` set (st_tokens (dk_db demo_desk))"
    by (simp_all add: demo_op_env_def demo_desk_def example_defs)
  from rotation_leaves_one_token [OF this(1) demo_desk_ok demo_op_caller this(2,3) demo_plain this(4), of "''root''"]
  show ?thesis by blast
qed

theorem created_caller_works_witness:
  "\<exists>w (cl :: caller). run_state (create_caller demo_op_env ''ci'' [''echo.say''] [] [] ''root'') demo_desk = (Inr ''t1'', w) \<and> cl_name cl = ''ci''
     \<and> decide (policy_for (dk_db w) (cl_id cl)) ''echo'' ''say'' = ALLOW"
proof -
  have new: "caller_by_name (dk_db demo_desk) ''ci'' = None" by (simp add: demo_desk_def example_defs caller_by_name_def)
  have spec: "list_ex (spec_matches ''echo'' ''say'') [''echo.say'']" by code_simp
  have "oe_others demo_op_env = (\<lambda>_ db. db)" "''t1'' = oe_token demo_op_env (dk_tick demo_desk + 1)"
    "oe_sha demo_op_env ''t1'' \<notin> tk_hash ` set (st_tokens (dk_db demo_desk))"
    by (simp_all add: demo_op_env_def demo_desk_def example_defs)
  from created_caller_works [OF this(1) demo_desk_ok new this(2) demo_plain this(3), of "[''echo.say'']" "[]" "[]" "''root''"]
  obtain w and cl :: caller where w: "run_state (create_caller demo_op_env ''ci'' [''echo.say''] [] [] ''root'') demo_desk = (Inr ''t1'', w)"
    "cl_name cl = ''ci''" and "\<forall>tool op. decide (policy_for (dk_db w) (cl_id cl)) tool op =
         (if list_ex (spec_matches tool op) [] then DENY else if list_ex (spec_matches tool op) [''echo.say''] then ALLOW
          else if list_ex (spec_matches tool op) [] then REVIEW else DENY)" by (elim exE conjE) (rule that, assumption+)
  then have "decide (policy_for (dk_db w) (cl_id cl)) ''echo'' ''say'' = ALLOW" using spec by simp
  with w show ?thesis by blast
qed

end
