(* ===== verification/AdminSettings.thy ===== *)
theory AdminSettings
  imports Operations
begin

text \<open>
  \<^verbatim>\<open>admin/caller_settings.py\<close> and \<^verbatim>\<open>admin/policy_edits.py\<close>: how the administration pages turn what an
  editor sends into a caller's policy. The first replaces the settings of the whole visible catalog in one
  compare-and-set; the second merges the fields of a form into the stored policy. The results promise that
  what was sent decides, and that nothing the editor could not see changes.
\<close>

section \<open>The settings snapshot\<close>

type_synonym op_rows = "(string \<times> json) list list"

record settings_snapshot =
  sn_name :: string
  sn_caller_id :: int
  sn_installation :: string
  sn_revision :: string
  sn_policy :: policy
  sn_enabled :: "string list"
  sn_catalog :: "(string \<times> op_rows) list"

definition shown_row :: "(string \<times> json) list \<Rightarrow> (string \<times> json) list" where
  "shown_row op = map (\<lambda>key. (key, the (map_of op key))) [''op'', ''risk'', ''description'']"

text \<open>The rows of every tool of the loaded catalog, the tools in sorted order.\<close>

definition shown_catalog :: "catalog \<Rightarrow> (string \<times> op_rows) list" where
  "shown_catalog c = foldl (\<lambda>d (tool, op, row). AList.update tool (the (map_of d tool) @ [shown_row row]) d)
     (map (\<lambda>tool. (tool, [])) (tool_ids c)) (list_ops c)"

definition catalog_json :: "(string \<times> op_rows) list \<Rightarrow> json" where
  "catalog_json c = JObj (map_vals (\<lambda>rows. JList (map JObj rows)) c)"

definition revision_of :: "(string \<Rightarrow> string) \<Rightarrow> string \<Rightarrow> int \<Rightarrow> policy \<Rightarrow> (string \<times> op_rows) list \<Rightarrow> string" where
  "revision_of sha installation caller_id p c =
     sha (dumps '','' '':'' (sort_json (JList [JStr installation, JInt caller_id, policy_json p, catalog_json c])))"

definition settings_snapshot_op :: "op_env \<Rightarrow> catalog result \<Rightarrow> string \<Rightarrow> settings_snapshot result op" where
  "settings_snapshot_op e loaded name =
     bind_ok (require_caller e name) (\<lambda>c.
     if cr_revoked_at c \<noteq> None then State_Monad.return (Inl LookupError)
     else bind_ok (State_Monad.return loaded) (\<lambda>cat.
       let shown = shown_catalog cat in
       bind_ok (op_query e (\<lambda>db. Inr (policy_for db (cr_id c)))) (\<lambda>p.
       bind_ok (op_query e (\<lambda>db. Inr (st_installation db))) (\<lambda>installation.
       op_return \<lparr>sn_name = name, sn_caller_id = cr_id c, sn_installation = installation,
         sn_revision = revision_of (oe_sha e) installation (cr_id c) p shown,
         sn_policy = p, sn_enabled = enabled_tools p, sn_catalog = shown\<rparr>))))"

section \<open>Applying settings\<close>

datatype settings_exn = ChangedElsewhere | SettingsExn exn

definition str_list :: "json \<Rightarrow> string list option" where
  "str_list v =
     (case v of JList xs \<Rightarrow> if list_all is_str xs then Some (map (\<lambda>x. case x of JStr s \<Rightarrow> s | _ \<Rightarrow> []) xs) else None | _ \<Rightarrow> None)"

definition row_names :: "op_rows \<Rightarrow> string list" where
  "row_names rows = map (\<lambda>row. case map_of row ''op'' of Some (JStr s) \<Rightarrow> s | _ \<Rightarrow> []) rows"

text \<open>\<^verbatim>\<open>effects\<close> must be a dictionary that gives every operation of the tool one of the three effects.\<close>

definition effect_rules :: "string list \<Rightarrow> json \<Rightarrow> rules option" where
  "effect_rules names v =
     (case v of
        JObj d \<Rightarrow>
          if set (map fst d) = set names \<and> list_all (\<lambda>kv. snd kv \<in> {JStr ''allow'', JStr ''review'', JStr ''deny''}) d
          then Some (map_vals (\<lambda>x. case x of JStr s \<Rightarrow> s | _ \<Rightarrow> []) d) else None
      | _ \<Rightarrow> None)"

text \<open>One turn of the loop over the catalog, on the two dictionaries of the new policy.\<close>

definition apply_tool ::
  "(string \<times> json) list \<Rightarrow> (string \<times> json) list \<Rightarrow> (string \<times> string list) list \<times> (string \<times> rules) list
     \<Rightarrow> string \<times> op_rows \<Rightarrow> settings_exn + ((string \<times> string list) list \<times> (string \<times> rules) list)" where
  "apply_tool disabled tools acc tr =
     (case (acc, tr) of ((dis, tls), (tool, rows)) \<Rightarrow>
        let names = row_names rows in
        (case (str_list (the (map_of disabled tool)), effect_rules names (the (map_of tools tool))) of
           (Some excluded, Some effects) \<Rightarrow>
             if \<not> set excluded \<subseteq> set names then Inl (SettingsExn ValueError)
             else
               let old_excluded = filter (\<lambda>op. op \<notin> set names) (case map_of dis tool of None \<Rightarrow> [] | Some xs \<Rightarrow> xs) in
               Inr (AList.update tool (sort (remdups (old_excluded @ excluded))) dis,
                    AList.update tool (foldl (\<lambda>d kv. AList.update (fst kv) (snd kv) d)
                                         (case map_of tls tool of None \<Rightarrow> [] | Some r \<Rightarrow> r) effects) tls)
         | _ \<Rightarrow> Inl (SettingsExn ValueError)))"

definition prepare_settings :: "settings_snapshot \<Rightarrow> json \<Rightarrow> settings_exn + policy" where
  "prepare_settings current v =
     (let cat = sn_catalog current in
      if jget ''revision'' v \<noteq> Some (JStr (sn_revision current)) then Inl ChangedElsewhere
      else case str_list (jget0 ''enabled'' v) of
        None \<Rightarrow> Inl (SettingsExn ValueError)
      | Some enabled \<Rightarrow>
          if \<not> set enabled \<subseteq> set (map fst cat) then Inl (SettingsExn ValueError)
          else (case (jget0 ''disabled_functions'' v, jget0 ''tools'' v) of
            (JObj disabled, JObj tools) \<Rightarrow>
              if set (map fst disabled) \<noteq> set (map fst cat) \<or> set (map fst tools) \<noteq> set (map fst cat) then Inl ChangedElsewhere
              else
                let before = sn_policy current in
                andthen (fold_res (apply_tool disabled tools)
                           (case pol_disabled before of None \<Rightarrow> [] | Some d \<Rightarrow> d, case pol_tools before of None \<Rightarrow> [] | Some t \<Rightarrow> t) cat)
                  (\<lambda>(dis, tls). Inr \<lparr>pol_tools = Some tls,
                     pol_enabled = Some (sort (remdups (filter (\<lambda>t. t \<notin> set (map fst cat)) (sn_enabled current) @ enabled))),
                     pol_disabled = Some dis\<rparr>)
          | _ \<Rightarrow> Inl (SettingsExn ValueError)))"

text \<open>\<^verbatim>\<open>apply\<close>: the new policy is committed only over the policy the snapshot saw; \<open>clock3\<close> is the
  third reading of the clock in that transaction.\<close>

definition settings_result :: "'a result \<Rightarrow> settings_exn + 'a" where
  "settings_result r = (case r of Inl x \<Rightarrow> Inl (SettingsExn x) | Inr v \<Rightarrow> Inr v)"

definition apply_settings :: "op_env \<Rightarrow> (nat \<Rightarrow> rat) \<Rightarrow> catalog result \<Rightarrow> string \<Rightarrow> json \<Rightarrow> string \<Rightarrow> (settings_exn + policy) op" where
  "apply_settings e clock3 loaded name v operator = do {
     s \<leftarrow> settings_snapshot_op e loaded name;
     case andthen (settings_result s) (\<lambda>current. map_sum id (Pair current) (prepare_settings current v)) of
       Inl x \<Rightarrow> State_Monad.return (Inl x)
     | Inr (current, after) \<Rightarrow> do {
         c \<leftarrow> require_caller e name;
         case c of
           Inl x \<Rightarrow> State_Monad.return (Inl (SettingsExn x))
         | Inr row \<Rightarrow> do {
             saved \<leftarrow> op_txn e (\<lambda>n. compare_and_set_policy (cr_id row) (sn_policy current) after operator
                        (oe_clock e n) (oe_clock2 e n) (clock3 n) (oe_uuid e n));
             State_Monad.return (case saved of Inl x \<Rightarrow> Inl (SettingsExn x)
               | Inr False \<Rightarrow> Inl ChangedElsewhere | Inr True \<Rightarrow> Inr after)
           }
       }
   }"

section \<open>The fields of the form\<close>

type_synonym field_map = "(string \<times> (string \<times> string) option) list"

definition field_key :: "string \<Rightarrow> string \<Rightarrow> string" where
  "field_key tool op = ''op__'' @ tool @ ''__'' @ op"

definition operation_fields :: "policy \<Rightarrow> (string \<times> op_rows) list \<Rightarrow> field_map" where
  "operation_fields current cat =
     foldl (\<lambda>result (tool, op). AList.update (field_key tool op)
              (case map_of result (field_key tool op) of None \<Rightarrow> Some (tool, op)
               | Some t \<Rightarrow> if t \<noteq> Some (tool, op) then None else Some (tool, op)) result)
       [] (concat (map (\<lambda>tool. map (Pair tool) (row_names (case map_of cat tool of None \<Rightarrow> [] | Some r \<Rightarrow> r))) (enabled_tools current)))"

definition known_effects :: "string list" where
  "known_effects = [''allow'', ''review'', ''deny'']"

definition retained_draft :: "policy \<Rightarrow> (string \<times> string) list \<Rightarrow> field_map \<Rightarrow> policy" where
  "retained_draft current posted fm =
     current\<lparr>pol_tools := Some (foldl (\<lambda>tls (key, eff).
        case map_of fm key of
          Some (Some (tool, op)) \<Rightarrow> if eff \<in> set known_effects then set_rule tls tool op eff else tls
        | _ \<Rightarrow> tls) (case pol_tools current of None \<Rightarrow> [] | Some t \<Rightarrow> t) posted)\<rparr>"

text \<open>\<^verbatim>\<open>key.split("__", 2)\<close> of a key that starts with \<^verbatim>\<open>op__\<close>: the two parts after it, if there are two.\<close>

fun cut_pair :: "string \<Rightarrow> (string \<times> string) option" where
  "cut_pair [] = None"
| "cut_pair (c # s) =
     (if c = CHR ''_'' \<and> s \<noteq> [] \<and> hd s = CHR ''_'' then Some ([], tl s)
      else map_option (apfst ((#) c)) (cut_pair s))"

definition grant_key :: "string \<Rightarrow> string \<Rightarrow> string" where
  "grant_key tool op = tool @ ''.'' @ op"

definition merge_field :: "field_map option \<Rightarrow> (string \<times> string) list \<Rightarrow> string \<times> string \<Rightarrow> (string \<times> string) list result" where
  "merge_field fm gs kv =
     (case kv of (key, eff) \<Rightarrow>
        if \<not> starts_with ''op__'' key then Inr gs
        else case cut_pair (drop 4 key) of
          None \<Rightarrow> Inl ValueError
        | Some (tool, op) \<Rightarrow>
            if eff \<notin> set known_effects then Inl ValueError
            else (case fm of
                    None \<Rightarrow> Inr (AList.update (grant_key tool op) eff gs)
                  | Some m \<Rightarrow> (case map_of m key of
                                  Some (Some (t, p)) \<Rightarrow> Inr (AList.update (grant_key t p) eff gs)
                                | _ \<Rightarrow> Inl ValueError)))"

definition merge_grants ::
  "policy \<Rightarrow> (string \<times> string) list \<Rightarrow> field_map option \<Rightarrow> (string list \<times> string list \<times> string list) result" where
  "merge_grants current posted fm =
     andthen (fold_res (merge_field fm) (grants current) posted) (\<lambda>gs.
       let keys = (\<lambda>eff. map fst (filter (\<lambda>kv. snd kv = eff) gs)) in Inr (keys ''allow'', keys ''review'', keys ''deny''))"

definition merge_enabled :: "policy \<Rightarrow> string list \<Rightarrow> string list \<Rightarrow> string list" where
  "merge_enabled current available selected =
     (let prior = dedup ((case pol_enabled current of None \<Rightarrow> [] | Some en \<Rightarrow> en)
                         @ (case pol_tools current of None \<Rightarrow> [] | Some t \<Rightarrow> map fst t))
      in dedup (filter (\<lambda>t. t \<notin> set available) prior @ selected))"

end
