(* ===== verification/SettingsProps.thy ===== *)
theory SettingsProps
  imports AdminSettings
begin

text \<open>
  What the administration pages promise about a policy: the settings that are sent are the ones that decide,
  a save never overwrites a policy the editor did not see, tools outside the visible catalog keep every
  decision, and a form field never changes an operation other than the one it was shown for.
\<close>

section \<open>What a list of JSON strings says\<close>

definition json_has :: "string \<Rightarrow> json \<Rightarrow> bool" where
  "json_has s v \<longleftrightarrow> (case v of JList xs \<Rightarrow> JStr s \<in> set xs | _ \<Rightarrow> False)"

lemma str_list_has: "str_list v = Some ss \<Longrightarrow> s \<in> set ss \<longleftrightarrow> json_has s v"
proof -
  assume a: "str_list v = Some ss"
  then obtain xs where v: "v = JList xs" "list_all is_str xs" "ss = map (\<lambda>x. case x of JStr s \<Rightarrow> s | _ \<Rightarrow> []) xs"
    by (auto simp: str_list_def split: json.splits if_splits)
  have "s \<in> set ss \<longleftrightarrow> JStr s \<in> set xs"
    unfolding v(3) using v(2) by (induction xs) (auto simp: is_str_def split: json.splits)
  then show ?thesis by (simp add: json_has_def v(1))
qed

definition sent_text :: "json \<Rightarrow> string \<Rightarrow> string option" where
  "sent_text v op = (case jget op v of Some (JStr s) \<Rightarrow> Some s | _ \<Rightarrow> None)"

lemma effect_rules_map:
  assumes "effect_rules names v = Some r"
  shows "map_of r op = sent_text v op" "map_of r op = None \<longleftrightarrow> op \<notin> set names"
    and "\<exists>d. v = JObj d \<and> map fst r = map fst d"
proof -
  let ?f = "\<lambda>x. case x of JStr s \<Rightarrow> s | _ \<Rightarrow> []"
  from assms obtain d where d: "v = JObj d" "set (map fst d) = set names" "r = map_vals ?f d"
    "list_all (\<lambda>kv. snd kv \<in> {JStr ''allow'', JStr ''review'', JStr ''deny''}) d"
    unfolding effect_rules_def by (cases v) (simp_all split: if_splits)
  have "map_of r op = map_option ?f (map_of d op)"
    unfolding d(3) by (induction d) (auto simp: map_vals_def)
  moreover have "map_of d op = Some x \<Longrightarrow> \<exists>s. x = JStr s" for x
    using d(4) by (auto simp: list_all_iff dest!: map_of_SomeD)
  ultimately show "map_of r op = sent_text v op" "map_of r op = None \<longleftrightarrow> op \<notin> set names"
    using d(2) by (auto simp: sent_text_def d(1) map_of_eq_None_iff split: option.splits)
  show "\<exists>d. v = JObj d \<and> map fst r = map fst d" using d(1,3) by (simp add: map_vals_def comp_def)
qed

lemma map_of_update_all:
  assumes "distinct (map fst effects)"
  shows "map_of (foldl (\<lambda>d kv. AList.update (fst kv) (snd kv) d) r effects) op =
     (case map_of effects op of None \<Rightarrow> map_of r op | Some v \<Rightarrow> Some v)"
  using assms
proof (induction effects arbitrary: r)
  case (Cons kv effects)
  have "fst kv = op \<Longrightarrow> map_of effects op = None" using Cons.prems by (auto simp: map_of_eq_None_iff)
  then show ?case using Cons by (auto simp: update_conv split: option.splits)
qed simp

section \<open>One tool of the settings\<close>

text \<open>What the settings of one tool become: \<open>d0\<close>, \<open>r0\<close> before, \<open>d1\<close>, \<open>r1\<close> after.\<close>

definition tool_set ::
  "json \<Rightarrow> json \<Rightarrow> string list \<Rightarrow> string list option \<Rightarrow> rules option \<Rightarrow> string list option \<Rightarrow> rules option \<Rightarrow> bool" where
  "tool_set excluded effects names d0 r0 d1 r1 \<longleftrightarrow>
     (\<exists>xs r. d1 = Some xs \<and> r1 = Some r
        \<and> (\<forall>op. op \<in> set xs \<longleftrightarrow> json_has op excluded \<or> op \<notin> set names \<and> op \<in> set (case d0 of None \<Rightarrow> [] | Some ys \<Rightarrow> ys))
        \<and> (\<forall>op. map_of r op = (if op \<in> set names then sent_text effects op
                             else map_of (case r0 of None \<Rightarrow> [] | Some r' \<Rightarrow> r') op))
        \<and> (\<forall>op. json_has op excluded \<longrightarrow> op \<in> set names))"

lemma apply_tool_step:
  assumes "apply_tool disabled tools (dis, tls) (tool, rows) = Inr (dis', tls')" "wf_json (the (map_of tools tool))"
  shows "tool_set (the (map_of disabled tool)) (the (map_of tools tool)) (row_names rows)
       (map_of dis tool) (map_of tls tool) (map_of dis' tool) (map_of tls' tool)"
    and "t \<noteq> tool \<Longrightarrow> map_of dis' t = map_of dis t \<and> map_of tls' t = map_of tls t"
proof -
  from assms(1) obtain excluded effects where sent: "str_list (the (map_of disabled tool)) = Some excluded"
    "effect_rules (row_names rows) (the (map_of tools tool)) = Some effects" "set excluded \<subseteq> set (row_names rows)"
    and new: "dis' = AList.update tool (sort (remdups (filter (\<lambda>op. op \<notin> set (row_names rows))
          (case map_of dis tool of None \<Rightarrow> [] | Some xs \<Rightarrow> xs) @ excluded))) dis"
      "tls' = AList.update tool (foldl (\<lambda>d kv. AList.update (fst kv) (snd kv) d)
          (case map_of tls tool of None \<Rightarrow> [] | Some r \<Rightarrow> r) effects) tls"
    unfolding apply_tool_def prod.case Let_def by (auto split: option.splits if_splits)
  from effect_rules_map(3) [OF sent(2)] assms(2) have "distinct (map fst effects)" by auto
  note merged = map_of_update_all [OF this]
  have rules: "map_of (foldl (\<lambda>d kv. AList.update (fst kv) (snd kv) d) old effects) op
      = (if op \<in> set (row_names rows) then sent_text (the (map_of tools tool)) op
         else map_of old op)" for old op
  proof (cases "op \<in> set (row_names rows)")
    case True
    then obtain x where "map_of effects op = Some x" using effect_rules_map(2) [OF sent(2), of op] by auto
    moreover from this have "sent_text (the (map_of tools tool)) op = Some x" using effect_rules_map(1) [OF sent(2), of op] by simp
    ultimately show ?thesis using True by (simp add: merged)
  next
    case False
    then have "map_of effects op = None" using effect_rules_map(2) [OF sent(2), of op] by simp
    with False show ?thesis by (simp add: merged)
  qed
  show "tool_set (the (map_of disabled tool)) (the (map_of tools tool)) (row_names rows)
       (map_of dis tool) (map_of tls tool) (map_of dis' tool) (map_of tls' tool)"
    using sent(3) str_list_has [OF sent(1)]
    unfolding tool_set_def new by (auto simp: update_conv rules)
  show "t \<noteq> tool \<Longrightarrow> map_of dis' t = map_of dis t \<and> map_of tls' t = map_of tls t" unfolding new by (simp add: update_conv)
qed

definition tools_set ::
  "(string \<times> json) list \<Rightarrow> (string \<times> json) list \<Rightarrow> (string \<times> op_rows) list
     \<Rightarrow> (string \<times> string list) list \<Rightarrow> (string \<times> rules) list \<Rightarrow> (string \<times> string list) list \<Rightarrow> (string \<times> rules) list \<Rightarrow> bool" where
  "tools_set disabled tools cat dis tls dis' tls' \<longleftrightarrow>
     (\<forall>t rows. (t, rows) \<in> set cat \<longrightarrow> tool_set (the (map_of disabled t)) (the (map_of tools t)) (row_names rows)
        (map_of dis t) (map_of tls t) (map_of dis' t) (map_of tls' t))
     \<and> (\<forall>t. t \<notin> fst ` set cat \<longrightarrow> map_of dis' t = map_of dis t \<and> map_of tls' t = map_of tls t)"

lemma apply_tools:
  assumes "fold_res (apply_tool disabled tools) (dis, tls) cat = Inr (dis', tls')" "distinct (map fst cat)"
    "\<And>t. t \<in> fst ` set cat \<Longrightarrow> wf_json (the (map_of tools t))"
  shows "tools_set disabled tools cat dis tls dis' tls'"
  using assms
proof (induction cat arbitrary: dis tls)
  case (Cons tr cat)
  obtain t rs where tr: "tr = (t, rs)" by (cases tr)
  from Cons.prems(1) tr obtain acc where one: "apply_tool disabled tools (dis, tls) (t, rs) = Inr acc"
    and rest: "fold_res (apply_tool disabled tools) acc cat = Inr (dis', tls')" by (auto split: sum.splits)
  obtain d1 t1 where acc: "acc = (d1, t1)" by (cases acc)
  have wf: "wf_json (the (map_of tools t))" using Cons.prems(3) tr by auto
  note step = apply_tool_step [OF one [unfolded acc] wf]
  have dist: "distinct (map fst cat)" "t \<notin> fst ` set cat" using Cons.prems(2) tr by auto
  have IH: "tools_set disabled tools cat d1 t1 dis' tls'"
    by (rule Cons.IH [OF rest [unfolded acc] dist(1)]) (use Cons.prems(3) in auto)
  show ?case
    unfolding tools_set_def
  proof (intro conjI allI impI)
    fix u rows
    assume u: "(u, rows) \<in> set (tr # cat)"
    show "tool_set (the (map_of disabled u)) (the (map_of tools u)) (row_names rows)
        (map_of dis u) (map_of tls u) (map_of dis' u) (map_of tls' u)"
    proof (cases "u = t")
      case True
      with u dist(2) tr have "rows = rs" by force
      moreover have "map_of dis' t = map_of d1 t" "map_of tls' t = map_of t1 t" using IH dist(2) by (simp_all add: tools_set_def)
      ultimately show ?thesis using step(1) True by simp
    next
      case False
      with u tr have "(u, rows) \<in> set cat" by auto
      with IH have "tool_set (the (map_of disabled u)) (the (map_of tools u)) (row_names rows)
          (map_of d1 u) (map_of t1 u) (map_of dis' u) (map_of tls' u)" unfolding tools_set_def by blast
      with step(2) [OF False] show ?thesis by simp
    qed
  next
    fix u
    assume "u \<notin> fst ` set (tr # cat)"
    with tr IH step(2) [of u] show "map_of dis' u = map_of dis u" "map_of tls' u = map_of tls u"
      by (auto simp: tools_set_def)
  qed
qed (simp add: tools_set_def)

section \<open>The whole policy\<close>

lemma fold_update_keys:
  assumes "\<And>t op row. (t, op, row) \<in> set xs \<Longrightarrow> t \<in> fst ` set d"
  shows "map fst (foldl (\<lambda>d (tool, op, row). AList.update tool (the (map_of d tool) @ [f row]) d) d xs) = map fst d"
  using assms
proof (induction xs arbitrary: d)
  case (Cons x xs)
  obtain t op row where x: "x = (t, op, row)" by (cases x)
  have "t \<in> fst ` set d" using Cons.prems x by fastforce
  then have keys: "map fst (AList.update t v d) = map fst d" for v by (simp add: update_keys)
  then have "fst ` set (AList.update t v d) = fst ` set d" for v by (metis list.set_map)
  with Cons.prems have "map fst (foldl (\<lambda>d (tool, op, row). AList.update tool (the (map_of d tool) @ [f row]) d)
       (AList.update t (the (map_of d t) @ [f row]) d) xs) = map fst (AList.update t (the (map_of d t) @ [f row]) d)"
    by (intro Cons.IH) auto
  with keys x show ?case by simp
qed simp

lemma shown_catalog_tools: "map fst (shown_catalog c) = tool_ids c"
proof -
  have "map fst (shown_catalog c) = map fst (map (\<lambda>tool. (tool, [] :: op_rows)) (tool_ids c))"
    unfolding shown_catalog_def
    by (rule fold_update_keys) (force simp: list_ops_def tool_ids_def)
  then show ?thesis by (simp add: comp_def)
qed

lemma settings_decide:
  assumes prep: "prepare_settings current v = Inr after" and wf: "wf_json v" and dist: "distinct (map fst (sn_catalog current))"
    and enabled: "sn_enabled current = enabled_tools (sn_policy current)"
  shows "(t, rows) \<in> set (sn_catalog current) \<Longrightarrow> op \<in> set (row_names rows) \<Longrightarrow>
      decide after t op =
        (if json_has t (jget0 ''enabled'' v) \<and> \<not> json_has op (jget0 t (jget0 ''disabled_functions'' v))
         then norm_effect (sent_text (jget0 t (jget0 ''tools'' v)) op) else DENY)"
    and "t \<notin> fst ` set (sn_catalog current) \<Longrightarrow> decide after t op = decide (sn_policy current) t op"
proof -
  let ?cat = "sn_catalog current" and ?p = "sn_policy current"
  let ?d0 = "case pol_disabled ?p of None \<Rightarrow> [] | Some d \<Rightarrow> d" and ?t0 = "case pol_tools ?p of None \<Rightarrow> [] | Some t \<Rightarrow> t"
  from prep obtain en disabled tools dis tls where sent: "str_list (jget0 ''enabled'' v) = Some en"
    "jget0 ''disabled_functions'' v = JObj disabled" "jget0 ''tools'' v = JObj tools"
    "set (map fst disabled) = set (map fst ?cat)" "set (map fst tools) = set (map fst ?cat)" "set en \<subseteq> set (map fst ?cat)"
    and fold: "fold_res (apply_tool disabled tools) (?d0, ?t0) ?cat = Inr (dis, tls)"
    and after: "after = \<lparr>pol_tools = Some tls,
       pol_enabled = Some (sort (remdups (filter (\<lambda>t. t \<notin> set (map fst ?cat)) (sn_enabled current) @ en))), pol_disabled = Some dis\<rparr>"
    unfolding prepare_settings_def Let_def andthen_def by (auto split: if_splits option.splits json.splits sum.splits)
  have "jget ''tools'' v = Some (JObj tools)" using sent(3) by (auto simp: jget0_def split: option.splits)
  then obtain d where d: "v = JObj d" "(''tools'', JObj tools) \<in> set d" by (cases v) (auto dest: map_of_SomeD)
  from wf d(1) have "list_all (\<lambda>kv. wf_json (snd kv)) d" by simp
  with d(2) have "wf_json (JObj tools)" unfolding list_all_iff by (metis snd_conv)
  then have wfs: "list_all (\<lambda>kv. wf_json (snd kv)) tools" by simp
  have wft: "wf_json (the (map_of tools t))" if "t \<in> fst ` set ?cat" for t
  proof -
    from that sent(5) have "map_of tools t \<noteq> None" by (simp add: map_of_eq_None_iff)
    then obtain y where y: "map_of tools t = Some y" by blast
    then have "(t, y) \<in> set tools" by (rule map_of_SomeD)
    with wfs have "wf_json y" unfolding list_all_iff by (metis snd_conv)
    with y show ?thesis by simp
  qed
  have set: "tools_set disabled tools ?cat ?d0 ?t0 dis tls" using fold dist wft by (rule apply_tools)
  have en: "t \<in> set (sort (remdups (filter (\<lambda>t. t \<notin> set (map fst ?cat)) (sn_enabled current) @ en)))
      \<longleftrightarrow> (if t \<in> fst ` set ?cat then json_has t (jget0 ''enabled'' v) else t \<in> set (enabled_tools ?p))" for t
    using str_list_has [OF sent(1), of t] sent(6) enabled by auto
  show "decide after t op =
        (if json_has t (jget0 ''enabled'' v) \<and> \<not> json_has op (jget0 t (jget0 ''disabled_functions'' v))
         then norm_effect (sent_text (jget0 t (jget0 ''tools'' v)) op) else DENY)"
    if row: "(t, rows) \<in> set ?cat" and named: "op \<in> set (row_names rows)"
  proof -
    from row have t: "t \<in> fst ` set ?cat" by force
    with sent(4,5) have "map_of disabled t \<noteq> None" "map_of tools t \<noteq> None" by (simp_all add: map_of_eq_None_iff)
    then obtain x y where xy: "map_of disabled t = Some x" "map_of tools t = Some y" by blast
    have "tool_set x y (row_names rows) (map_of ?d0 t) (map_of ?t0 t) (map_of dis t) (map_of tls t)"
      using set row xy unfolding tools_set_def by (metis option.sel)
    from this [unfolded tool_set_def] obtain xs r where new: "map_of dis t = Some xs" "map_of tls t = Some r"
      and all: "\<forall>op. op \<in> set xs \<longleftrightarrow> json_has op x \<or> op \<notin> set (row_names rows) \<and> op \<in> set (case map_of ?d0 t of None \<Rightarrow> [] | Some ys \<Rightarrow> ys)"
      "\<forall>op. map_of r op = (if op \<in> set (row_names rows) then sent_text y op else map_of (case map_of ?t0 t of None \<Rightarrow> [] | Some r' \<Rightarrow> r') op)"
      by (elim exE conjE) (rule that)
    have here: "op \<in> set xs \<longleftrightarrow> json_has op x" "map_of r op = sent_text y op"
      using spec [OF all(1), of op] spec [OF all(2), of op] named by simp_all
    have "jget0 t (JObj disabled) = x" "jget0 t (JObj tools) = y" using xy by (simp_all add: jget0_def)
    with new here en [of t] t show ?thesis unfolding sent(2,3) after by (simp add: decide_def dict_get_def del: set_sort)
  qed
  show "decide after t op = decide ?p t op" if "t \<notin> fst ` set ?cat"
  proof -
    have same: "map_of dis t = map_of ?d0 t" "map_of tls t = map_of ?t0 t" using set that unfolding tools_set_def by auto
    define D where "D = dict_get [] (pol_disabled ?p) t"
    define R where "R = dict_get [] (pol_tools ?p) t"
    have "dict_get [] (Some dis) t = D" "dict_get [] (Some tls) t = R"
      unfolding D_def R_def dict_get_def using same by (simp_all split: option.split)
    with en [of t] that have new: "decide after t op = (if t \<notin> set (enabled_tools ?p) then DENY else if op \<in> set D then DENY else norm_effect (map_of R op))"
      unfolding after by (simp add: decide_def del: set_sort)
    show ?thesis
    proof (cases "t \<in> set (enabled_tools ?p)")
      case True
      then have c: "\<not> (pol_disabled ?p \<noteq> None \<and> (case pol_enabled ?p of None \<Rightarrow> False | Some en \<Rightarrow> t \<notin> set en))"
        by (cases "pol_disabled ?p"; cases "pol_enabled ?p") (simp_all add: enabled_tools_def)
      have "decide ?p t op = (if op \<in> set D then DENY else norm_effect (map_of R op))"
        unfolding decide_def D_def R_def by (simp only: c if_False)
      with True new show ?thesis by simp
    next
      case False
      have "decide ?p t op = DENY"
      proof (cases "pol_disabled ?p \<noteq> None \<and> pol_enabled ?p \<noteq> None")
        case True
        with False show ?thesis by (auto simp: decide_def enabled_tools_def)
      next
        case unmanaged: False
        with False have "t \<notin> fst ` set ?t0" by (cases "pol_disabled ?p"; cases "pol_enabled ?p") (auto simp: enabled_tools_def)
        then have "map_of ?t0 t = None" by (simp add: map_of_eq_None_iff)
        then have "R = []" unfolding R_def dict_get_def by (auto split: option.splits)
        then show ?thesis by (simp add: decide_def R_def norm_effect_def)
      qed
      with False new show ?thesis by simp
    qed
  qed
qed

lemma snapshot_run:
  assumes "run_state (settings_snapshot_op e loaded name) w = (Inr current, w1)"
  shows "\<exists>cat db. loaded = Inr cat \<and> caller_by_name db name \<noteq> None \<and> sn_catalog current = shown_catalog cat
     \<and> sn_enabled current = enabled_tools (sn_policy current)"
  using assms
  by (auto simp: settings_snapshot_op_def bind_ok_run require_caller_def Let_def split: option.splits sum.splits if_splits)

lemma apply_run:
  assumes "run_state (apply_settings e clock3 loaded name v operator) w = (Inr after, w')"
  shows "\<exists>current w1 row w2 t1 t2 t3 u db. run_state (settings_snapshot_op e loaded name) w = (Inr current, w1)
     \<and> prepare_settings current v = Inr after \<and> run_state (require_caller e name) w1 = (Inr row, w2)
     \<and> compare_and_set_policy (cr_id row) (sn_policy current) after operator t1 t2 t3 u db = (Inr True, dk_db w')"
proof -
  obtain s w1 where snap: "run_state (settings_snapshot_op e loaded name) w = (s, w1)"
    by (cases "run_state (settings_snapshot_op e loaded name) w")
  from assms snap obtain current where s: "s = Inr current" "prepare_settings current v = Inr after"
    by (cases s; cases "prepare_settings (projr s) v")
      (auto simp: apply_settings_def settings_result_def andthen_def split: sum.splits prod.splits bool.splits)
  obtain r w2 where req: "run_state (require_caller e name) w1 = (r, w2)" by (cases "run_state (require_caller e name) w1")
  from assms snap s req obtain row where row: "r = Inr row"
    by (cases r) (auto simp: apply_settings_def settings_result_def andthen_def)
  define k where "k = dk_tick w2"
  define db where "db = oe_others e k (dk_db w2)"
  obtain b db' where cas: "compare_and_set_policy (cr_id row) (sn_policy current) after operator (oe_clock e k) (oe_clock2 e k)
      (clock3 k) (oe_uuid e k) db = (b, db')"
    by (cases "compare_and_set_policy (cr_id row) (sn_policy current) after operator (oe_clock e k) (oe_clock2 e k)
      (clock3 k) (oe_uuid e k) db")
  from assms have "b = Inr True \<and> dk_db w' = db'"
    using cas unfolding db_def k_def
    by (auto simp: apply_settings_def settings_result_def andthen_def snap s req row split: sum.splits bool.splits)
  with cas snap s req row show ?thesis by blast
qed

lemma append_audit_policies [simp]: "policy_for (snd (append_audit at_time c ev oc corr rid d db)) cid = policy_for db cid"
  by (simp add: append_audit_def policy_for_def Let_def)

lemma compare_and_set_saves:
  assumes "compare_and_set_policy cid before after operator t1 t2 t3 u db = (Inr True, db')"
  shows "policy_eq (policy_for db cid) before \<and> policy_for db' cid = after
     \<and> (\<exists>row. caller_row_by_id db cid = Some row \<and> cr_revoked_at row = None)"
proof -
  from assms obtain row where row: "caller_row_by_id db cid = Some row" "cr_revoked_at row = None"
    "policy_eq (policy_for db cid) before" by (auto simp: compare_and_set_policy_def split: option.splits if_splits)
  from policy_for_write [of db cid after t1 t2] row(1) have "policy_for (snd (write_policy cid after t1 t2 db)) cid = after" by simp
  with assms row have "policy_for db' cid = after"
    by (auto simp: compare_and_set_policy_def split: prod.splits sum.splits)
  with row show ?thesis by blast
qed


section \<open>The form\<close>

text \<open>The fields of a list of shown operations: a field that has a target is that operation's own, and no other
  shown operation is posted under the same name.\<close>

definition shown_fields :: "(string \<times> string) list \<Rightarrow> field_map" where
  "shown_fields xs = foldl (\<lambda>result (tool, op). AList.update (field_key tool op)
              (case map_of result (field_key tool op) of None \<Rightarrow> Some (tool, op)
               | Some t \<Rightarrow> if t \<noteq> Some (tool, op) then None else Some (tool, op)) result) [] xs"

definition shown_ops :: "policy \<Rightarrow> (string \<times> op_rows) list \<Rightarrow> (string \<times> string) list" where
  "shown_ops current cat =
     concat (map (\<lambda>tool. map (Pair tool) (row_names (case map_of cat tool of None \<Rightarrow> [] | Some r \<Rightarrow> r))) (enabled_tools current))"

lemma operation_fields_shown: "operation_fields current cat = shown_fields (shown_ops current cat)"
  by (simp add: operation_fields_def shown_fields_def shown_ops_def)

lemma shown_fields_snoc:
  "shown_fields (xs @ [(tool, op)]) = AList.update (field_key tool op)
     (case map_of (shown_fields xs) (field_key tool op) of None \<Rightarrow> Some (tool, op)
      | Some t \<Rightarrow> if t \<noteq> Some (tool, op) then None else Some (tool, op)) (shown_fields xs)"
  by (simp add: shown_fields_def)

lemma shown_fields_known: "(tool, op) \<in> set xs \<Longrightarrow> map_of (shown_fields xs) (field_key tool op) \<noteq> None"
proof (induction xs rule: rev_induct)
  case (snoc x xs)
  then show ?case by (cases x) (auto simp: shown_fields_snoc update_conv)
qed simp

lemma shown_fields_target:
  "map_of (shown_fields xs) key = Some (Some (tool, op)) \<Longrightarrow>
     field_key tool op = key \<and> (tool, op) \<in> set xs \<and> (\<forall>t p. (t, p) \<in> set xs \<longrightarrow> field_key t p = key \<longrightarrow> (t, p) = (tool, op))"
proof (induction xs rule: rev_induct)
  case (snoc x xs)
  obtain t p where x: "x = (t, p)" by (cases x)
  show ?case
  proof (cases "field_key t p = key")
    case False
    with snoc x show ?thesis by (auto simp: shown_fields_snoc update_conv)
  next
    case True
    show ?thesis
    proof (cases "map_of (shown_fields xs) key")
      case None
      then have "(t', p') \<notin> set xs" if "field_key t' p' = key" for t' p'
        using shown_fields_known [of t' p' xs] that by auto
      with True None snoc.prems x show ?thesis by (auto simp: shown_fields_snoc update_conv)
    next
      case (Some u)
      with True snoc.prems x have "u = Some (t, p)" "(t, p) = (tool, op)"
        by (auto simp: shown_fields_snoc update_conv split: if_splits)
      with Some snoc.IH x True show ?thesis by auto
    qed
  qed
qed (simp add: shown_fields_def)

section \<open>Merging the form into the grants\<close>

definition field_target :: "field_map \<Rightarrow> string \<Rightarrow> (string \<times> string) option" where
  "field_target fm key = (if starts_with ''op__'' key then (case map_of fm key of Some t \<Rightarrow> t | None \<Rightarrow> None) else None)"

lemma merge_field_step:
  assumes "merge_field (Some fm) gs (key, eff) = Inr gs'"
  shows "gs' = (case field_target fm key of None \<Rightarrow> gs | Some (t, p) \<Rightarrow> AList.update (grant_key t p) eff gs)"
  using assms by (auto simp: merge_field_def field_target_def split: if_splits option.splits)

lemma partition_grant_key: "CHR ''.'' \<notin> set t \<Longrightarrow> partition_at (CHR ''.'') (grant_key t p) = (t, True, p)"
  unfolding grant_key_def by (rule partition_at_dotted)

lemma dotted_key_inject:
  assumes "CHR ''.'' \<notin> set tool" "CHR ''.'' \<notin> set t" "grant_key tool op = grant_key t p"
  shows "tool = t \<and> op = p"
proof -
  have "(tool, True, op) = (t, True, p)"
    unfolding partition_grant_key [OF assms(1), symmetric] partition_grant_key [OF assms(2), symmetric] assms(3) by (rule refl)
  then show ?thesis by simp
qed

lemma merged_grants:
  assumes "fold_res (merge_field (Some fm)) gs posted = Inr gs'" "distinct (map fst posted)"
    and targets: "\<And>key t p. field_target fm key = Some (t, p) \<Longrightarrow> key = field_key t p \<and> CHR ''.'' \<notin> set t"
    and tool: "CHR ''.'' \<notin> set tool"
  shows "map_of gs' (grant_key tool op) =
     (case map_of posted (field_key tool op) of
        Some eff \<Rightarrow> if field_target fm (field_key tool op) = Some (tool, op) then Some eff else map_of gs (grant_key tool op)
      | None \<Rightarrow> map_of gs (grant_key tool op))"
  using assms(1,2)
proof (induction posted arbitrary: gs)
  case (Cons kv posted)
  obtain key eff where kv: "kv = (key, eff)" by (cases kv)
  from Cons.prems(1) kv obtain g1 where one: "merge_field (Some fm) gs (key, eff) = Inr g1"
    and rest: "fold_res (merge_field (Some fm)) g1 posted = Inr gs'" by (auto split: sum.splits)
  have dist: "distinct (map fst posted)" "map_of posted key = None" using Cons.prems(2) kv by (auto simp: map_of_eq_None_iff)
  note g1 = merge_field_step [OF one]
  have other: "map_of g1 (grant_key tool op) = map_of gs (grant_key tool op)" if "field_target fm key \<noteq> Some (tool, op)"
  proof (cases "field_target fm key")
    case (Some tp)
    obtain t p where tp: "tp = (t, p)" by (cases tp)
    with that Some targets [of key t p] dotted_key_inject [OF tool, of t op p] have "grant_key t p \<noteq> grant_key tool op" by auto
    with Some tp show ?thesis by (simp add: g1 update_conv)
  qed (simp add: g1)
  show ?case
  proof (cases "key = field_key tool op")
    case True
    with Cons.IH [OF rest dist(1)] dist(2) have "map_of gs' (grant_key tool op) = map_of g1 (grant_key tool op)" by simp
    with True other show ?thesis by (auto simp: kv g1 update_conv)
  next
    case False
    then have "field_target fm key \<noteq> Some (tool, op)" using targets by blast
    with other Cons.IH [OF rest dist(1)] False show ?thesis by (simp add: kv split: option.split)
  qed
qed simp

lemma merged_distinct:
  "fold_res (merge_field fm) gs posted = Inr gs' \<Longrightarrow> distinct (map fst gs) \<Longrightarrow> distinct (map fst gs')"
  by (erule fold_res_inv) (auto simp: merge_field_def distinct_update split: if_splits option.splits prod.splits)

lemma grants_distinct: "distinct (map fst (grants p))"
proof -
  have "distinct (map fst (foldl (\<lambda>d kv. AList.update (fst kv) (snd kv) d) d xs))" if "distinct (map fst d)"
    for d xs :: "(string \<times> string) list"
    using that by (induction xs arbitrary: d) (auto simp: distinct_update)
  then show ?thesis by (simp add: grants_def)
qed

lemma keys_of_effect:
  assumes "distinct (map fst gs)" "CHR ''.'' \<notin> set tool" "\<And>k. k \<in> fst ` set gs \<Longrightarrow> \<exists>t p. k = grant_key t p \<and> CHR ''.'' \<notin> set t"
  shows "list_ex (spec_matches tool op) (map fst (filter (\<lambda>kv. snd kv = eff) gs)) \<longleftrightarrow> map_of gs (grant_key tool op) = Some eff"
proof -
  have "spec_matches tool op k \<longleftrightarrow> k = grant_key tool op" if k: "k \<in> fst ` set gs" for k
  proof -
    obtain t p where tp: "k = grant_key t p" "CHR ''.'' \<notin> set t" using assms(3) [OF k] by blast
    have "spec_matches tool op k \<longleftrightarrow> t = tool \<and> p = op"
      by (simp add: tp(1) spec_matches_def partition_grant_key [OF tp(2)])
    with dotted_key_inject [OF assms(2) tp(2), of op p] tp(1) show ?thesis by auto
  qed
  then have "list_ex (spec_matches tool op) (map fst (filter (\<lambda>kv. snd kv = eff) gs)) \<longleftrightarrow> (grant_key tool op, eff) \<in> set gs"
    by (force simp: list_ex_iff)
  with assms(1) show ?thesis by simp
qed

definition dotless :: "string \<Rightarrow> bool" where
  "dotless t \<longleftrightarrow> CHR ''.'' \<notin> set t"

definition policy_rules :: "policy \<Rightarrow> (string \<times> rules) list" where
  "policy_rules p = (case pol_tools p of None \<Rightarrow> [] | Some ts \<Rightarrow> ts)"

definition granted_pairs :: "(string \<times> rules) list \<Rightarrow> (string \<times> string) list" where
  "granted_pairs ts = concat (map (\<lambda>(tool, ops). map (\<lambda>(op, eff). (grant_key tool op, eff)) ops) ts)"

lemma grants_pairs: "grants p = foldl (\<lambda>d kv. AList.update (fst kv) (snd kv) d) [] (granted_pairs (policy_rules p))"
  by (simp add: grants_def granted_pairs_def policy_rules_def grant_key_def split: option.split)

lemma granted_block:
  assumes "dotless t" "dotless tool"
  shows "map_of (map (\<lambda>(op, eff). (grant_key t op, eff)) ops) (grant_key tool op) = (if t = tool then map_of ops op else None)"
proof (induction ops)
  case (Cons oe ops)
  have eq: "grant_key t o' = grant_key tool op \<longleftrightarrow> t = tool \<and> o' = op" for o'
    using dotted_key_inject [OF assms [unfolded dotless_def]] by blast
  obtain o1 e1 where oe: "oe = (o1, e1)" by (cases oe)
  show ?case
  proof (cases "t = tool \<and> o1 = op")
    case False
    then have "grant_key tool op \<noteq> grant_key t o1" using eq [of o1] by metis
    with False Cons show ?thesis by (auto simp: oe)
  qed (simp add: oe)
qed simp

lemma granted_pairs_map:
  assumes "\<And>t ops. (t, ops) \<in> set ts \<Longrightarrow> dotless t" "dotless tool" "distinct (map fst ts)"
  shows "map_of (granted_pairs ts) (grant_key tool op) = (case map_of ts tool of None \<Rightarrow> None | Some ops \<Rightarrow> map_of ops op)"
  using assms(1,3)
proof (induction ts)
  case (Cons to ts)
  obtain t ops where to: "to = (t, ops)" by (cases to)
  have t: "dotless t" using Cons.prems(1) to by auto
  have IH: "map_of (granted_pairs ts) (grant_key tool op) = (case map_of ts tool of None \<Rightarrow> None | Some ops \<Rightarrow> map_of ops op)"
    by (rule Cons.IH) (use Cons.prems in auto)
  have "t = tool \<Longrightarrow> map_of ts tool = None" using Cons.prems(2) to by (auto simp: map_of_eq_None_iff)
  then show ?case
    using IH by (auto simp: to granted_pairs_def map_add_def granted_block [OF t assms(2)] split: option.splits)
qed (simp add: granted_pairs_def)

lemma granted_pairs_distinct:
  assumes "\<And>t ops. (t, ops) \<in> set ts \<Longrightarrow> dotless t \<and> distinct (map fst ops)" "distinct (map fst ts)"
  shows "distinct (map fst (granted_pairs ts))"
  using assms
proof (induction ts)
  case (Cons to ts)
  obtain t ops where to: "to = (t, ops)" by (cases to)
  have t: "dotless t" "distinct (map fst ops)" using Cons.prems(1) to by auto
  have block: "map fst (map (\<lambda>(op, eff). (grant_key t op, eff)) ops) = map (grant_key t) (map fst ops)" by (induction ops) auto
  have "inj (grant_key t)" by (rule injI) (simp add: grant_key_def)
  then have one: "distinct (map fst (map (\<lambda>(op, eff). (grant_key t op, eff)) ops))"
    unfolding block using t(2) by (simp only: distinct_map) (blast intro: inj_on_subset)
  have rest: "distinct (map fst (granted_pairs ts))" by (rule Cons.IH) (use Cons.prems in auto)
  have apart: "grant_key t o' \<notin> fst ` set (granted_pairs ts)" for o'
  proof
    assume "grant_key t o' \<in> fst ` set (granted_pairs ts)"
    then obtain u us p where u: "(u, us) \<in> set ts" "grant_key t o' = grant_key u p" by (auto simp: granted_pairs_def)
    have "dotless u" using u(1) Cons.prems(1) by auto
    then have "t = u \<and> o' = p" by (intro dotted_key_inject [OF t(1) [unfolded dotless_def] _ u(2)]) (simp add: dotless_def)
    with u(1) have "t \<in> fst ` set ts" by force
    with Cons.prems(2) to show False by simp
  qed
  have "granted_pairs (to # ts) = map (\<lambda>(op, eff). (grant_key t op, eff)) ops @ granted_pairs ts" by (simp add: granted_pairs_def to)
  moreover have "set (map fst (map (\<lambda>(op, eff). (grant_key t op, eff)) ops)) \<inter> set (map fst (granted_pairs ts)) = {}"
    using apart unfolding block by auto
  ultimately show ?case using one rest by (simp only: map_append distinct_append)
qed (simp add: granted_pairs_def)

lemma grants_map:
  assumes "wf_policy p" "\<And>t ops. (t, ops) \<in> set (policy_rules p) \<Longrightarrow> dotless t" "dotless tool"
  shows "map_of (grants p) (grant_key tool op) = map_of (dict_get [] (pol_tools p) tool) op"
proof -
  have wf: "distinct (map fst (policy_rules p))" "\<And>t ops. (t, ops) \<in> set (policy_rules p) \<Longrightarrow> distinct (map fst ops)"
    using assms(1) by (auto simp: wf_policy_def policy_rules_def list_all_iff split: option.splits)
  have "distinct (map fst (granted_pairs (policy_rules p)))" using wf assms(2) by (intro granted_pairs_distinct) auto
  from map_of_update_all [OF this, of "[]"]
  have "map_of (grants p) (grant_key tool op) = map_of (granted_pairs (policy_rules p)) (grant_key tool op)"
    by (simp add: grants_pairs split: option.split)
  also have "\<dots> = (case map_of (policy_rules p) tool of None \<Rightarrow> None | Some ops \<Rightarrow> map_of ops op)"
    using assms(2,3) wf(1) by (intro granted_pairs_map) auto
  also have "\<dots> = map_of (dict_get [] (pol_tools p) tool) op"
    by (auto simp: dict_get_def policy_rules_def split: option.split)
  finally show ?thesis .
qed

lemma merged_keys:
  assumes "fold_res (merge_field (Some fm)) (grants p) posted = Inr gs" "k \<in> fst ` set gs"
    and "\<And>t ops. (t, ops) \<in> set (policy_rules p) \<Longrightarrow> dotless t" "\<And>key t p. field_target fm key = Some (t, p) \<Longrightarrow> dotless t"
  shows "\<exists>t p. k = grant_key t p \<and> CHR ''.'' \<notin> set t"
proof -
  have update: "fst ` set (AList.update k' v d) = insert k' (fst ` set d)" for k' :: string and v :: string and d
    by (simp add: dom_update)
  have all: "fst ` set (foldl (\<lambda>d kv. AList.update (fst kv) (snd kv) d) d xs) = fst ` set d \<union> fst ` set xs" for d xs :: "(string \<times> string) list"
    by (induction xs arbitrary: d) (auto simp: update)
  have start: "\<forall>k \<in> fst ` set (grants p). \<exists>t p. k = grant_key t p \<and> dotless t"
  proof
    fix k assume "k \<in> fst ` set (grants p)"
    then have "k \<in> fst ` set (granted_pairs (policy_rules p))" by (simp add: grants_pairs all)
    then obtain t ops o' where "(t, ops) \<in> set (policy_rules p)" "k = grant_key t o'" by (auto simp: granted_pairs_def)
    with assms(3) show "\<exists>t p. k = grant_key t p \<and> dotless t" by blast
  qed
  have "\<forall>k \<in> fst ` set gs. \<exists>t p. k = grant_key t p \<and> dotless t"
    using assms(1) start
  proof (rule fold_res_inv)
    fix g kv g'
    assume one: "merge_field (Some fm) g kv = Inr g'" and g: "\<forall>k \<in> fst ` set g. \<exists>t p. k = grant_key t p \<and> dotless t"
    obtain key eff where kv: "kv = (key, eff)" by (cases kv)
    show "\<forall>k \<in> fst ` set g'. \<exists>t p. k = grant_key t p \<and> dotless t"
    proof (cases "field_target fm key")
      case None
      with merge_field_step [OF one [unfolded kv]] g show ?thesis by simp
    next
      case (Some tp)
      obtain t p where tp: "tp = (t, p)" by (cases tp)
      with Some assms(4) have "dotless t" by simp
      moreover have "fst ` set g' = insert (grant_key t p) (fst ` set g)"
        using merge_field_step [OF one [unfolded kv]] Some tp by (simp add: update)
      ultimately show ?thesis using g by blast
    qed
  qed
  with assms(2) show ?thesis by (auto simp: dotless_def)
qed

lemma field_target_shown:
  assumes "field_target (operation_fields current cat) key = Some (t, p)"
  shows "key = field_key t p \<and> (t, p) \<in> set (shown_ops current cat)
     \<and> (\<forall>u q. (u, q) \<in> set (shown_ops current cat) \<longrightarrow> field_key u q = key \<longrightarrow> (u, q) = (t, p))"
proof -
  from assms have "map_of (shown_fields (shown_ops current cat)) key = Some (Some (t, p))"
    by (auto simp: field_target_def operation_fields_shown split: if_splits option.splits)
  from shown_fields_target [OF this] show ?thesis by auto
qed


section \<open>Witnesses\<close>

definition demo_rows :: "(string \<times> op_rows) list" where
  "demo_rows = [(''mail'', [[(''op'', JStr ''send'')], [(''op'', JStr ''read'')]])]"

definition demo_before :: policy where
  "demo_before = \<lparr>pol_tools = Some [(''mail'', [(''read'', ''allow'')])], pol_enabled = Some [''mail''], pol_disabled = None\<rparr>"


definition mail_catalog :: catalog where
  "mail_catalog = [(''mail'', \<lparr>te_port = 7000, te_type = ''api'',
     te_ops = [(''send'', \<lparr>om_risk = JStr ''low'', om_description = JStr [], om_args = JList [],
                          om_approval_fields = None, om_rest = None\<rparr>)],
     te_manifest_path = ''m'', te_manifest_digest = ''raw''\<rparr>)]"

definition mail_settings :: json where
  "mail_settings = JObj
     [(''revision'', JStr (revision_of (oe_sha demo_op_env) ''u'' 1 (build_policy [''echo.say''] [] []) (shown_catalog mail_catalog))),
      (''enabled'', JList [JStr ''mail'']), (''disabled_functions'', JObj [(''mail'', JList [])]),
      (''tools'', JObj [(''mail'', JObj [(''send'', JStr ''allow'')])])]"

lemma mail_saved:
  "\<exists>after w'. run_state (apply_settings demo_op_env (\<lambda>_. 0) (Inr mail_catalog) ''bot'' mail_settings ''root'') demo_desk = (Inr after, w')"
proof -
  have "case fst (run_state (apply_settings demo_op_env (\<lambda>_. 0) (Inr mail_catalog) ''bot'' mail_settings ''root'') demo_desk) of
      Inl _ \<Rightarrow> False | Inr _ \<Rightarrow> True" by code_simp
  then show ?thesis
    by (cases "run_state (apply_settings demo_op_env (\<lambda>_. 0) (Inr mail_catalog) ''bot'' mail_settings ''root'') demo_desk")
      (auto split: sum.splits)
qed


end
