(* ===== verification/Ip.thy ===== *)
theory Ip
  imports Prelude
begin

text \<open>
  \<^verbatim>\<open>ipaddress.ip_address(s).is_loopback\<close>, which the sources use to decide whether a listener or a
  provider stays on the machine: dotted IPv4 without leading zeros, and IPv6 with one \<^verbatim>\<open>::\<close>, an IPv4 tail
  and a scope. \<^const>\<open>None\<close> stands for the \<^const>\<open>ValueError\<close> of a text that is no address.
\<close>

definition octet :: "string \<Rightarrow> nat option" where
  "octet s =
     (if s = [] \<or> \<not> list_all is_dec s \<or> length s > 3 \<or> (s \<noteq> ''0'' \<and> hd s = CHR ''0'') \<or> the (dec_value 0 s) > 255 then None
      else dec_value 0 s)"

text \<open>An IPv4 address as its four octets, an IPv6 address as its eight groups of sixteen bits.\<close>

definition all_some :: "'a option list \<Rightarrow> 'a list option" where
  "all_some xs = (if None \<in> set xs then None else Some (map the xs))"

definition ipv4 :: "string \<Rightarrow> nat list option" where
  "ipv4 s = (let parts = split_on (CHR ''.'') s in if length parts \<noteq> 4 then None else all_some (map octet parts))"

definition hex_of :: "char \<Rightarrow> nat" where
  "hex_of c = (if is_dec c then code c - 48 else if code c \<ge> 97 then code c - 87 else code c - 55)"

definition hextet :: "string \<Rightarrow> nat option" where
  "hextet s = (if s = [] \<or> \<not> list_all is_hex s \<or> length s > 4 then None else Some (foldl (\<lambda>n c. 16 * n + hex_of c) 0 s))"

text \<open>\<^verbatim>\<open>_ip_int_from_string\<close>: an IPv4 tail stands for two groups, and the empty group strictly inside is
  the one that is skipped.\<close>

definition v6_parts :: "string \<Rightarrow> (string + nat) list option" where
  "v6_parts s =
     (let parts = split_on (CHR '':'') s in
      if length parts < 3 then None
      else if CHR ''.'' \<in> set (last parts)
      then (case ipv4 (last parts) of
              Some [a, b, c, d] \<Rightarrow> Some (map Inl (butlast parts) @ [Inr (256 * a + b), Inr (256 * c + d)])
            | _ \<Rightarrow> None)
      else Some (map Inl parts))"

definition group_value :: "string + nat \<Rightarrow> nat option" where
  "group_value g = (case g of Inl s \<Rightarrow> hextet s | Inr n \<Rightarrow> Some n)"

definition v6_groups :: "string \<Rightarrow> nat list option" where
  "v6_groups s =
     (case v6_parts s of
        None \<Rightarrow> None
      | Some parts \<Rightarrow>
          if length parts > 9 then None
          else
            (case filter (\<lambda>i. parts ! i = Inl []) [1..<length parts - 1] of
               [] \<Rightarrow>
                 if length parts \<noteq> 8 \<or> hd parts = Inl [] \<or> last parts = Inl [] then None
                 else all_some (map group_value parts)
             | [i] \<Rightarrow>
                 let hi = (if hd parts = Inl [] then [] else take i parts);
                     lo = (if last parts = Inl [] then [] else drop (i + 1) parts)
                 in if hd parts = Inl [] \<and> i \<noteq> 1 then None
                    else if last parts = Inl [] \<and> i \<noteq> length parts - 2 then None
                    else if length hi + length lo > 7 then None
                    else all_some (map group_value hi @ replicate (8 - (length hi + length lo)) (Some 0) @ map group_value lo)
             | _ \<Rightarrow> None))"

definition ipv6 :: "string \<Rightarrow> nat list option" where
  "ipv6 s =
     (if CHR ''/'' \<in> set s then None
      else case partition_at (CHR ''%'') s of
        (a, found, zone) \<Rightarrow> if found \<and> (zone = [] \<or> CHR ''%'' \<in> set zone) then None else v6_groups a)"

text \<open>\<^verbatim>\<open>is_loopback\<close>; an IPv4 address mapped into IPv6 is judged as the IPv4 address.\<close>

definition ip_loopback :: "string \<Rightarrow> bool option" where
  "ip_loopback s =
     (case ipv4 s of
        Some octets \<Rightarrow> Some (hd octets = 127)
      | None \<Rightarrow>
          (case ipv6 s of
             None \<Rightarrow> None
           | Some g \<Rightarrow> Some (if take 6 g = [0, 0, 0, 0, 0, 65535] then g ! 6 div 256 = 127 else g = [0, 0, 0, 0, 0, 0, 0, 1])))"

text \<open>The test the sources apply to a host name.\<close>

definition loopback_host :: "string \<Rightarrow> bool" where
  "loopback_host host \<longleftrightarrow> host = ''localhost'' \<or> ip_loopback host = Some True"


lemma ipv4_demo: "ipv4 ''127.0.0.1'' = Some [127, 0, 0, 1]" "ipv4 ''0.0.0.0'' = Some [0, 0, 0, 0]" "ipv4 ''127.1'' = None"
  by code_simp+

lemma loopback_demo: "loopback_host ''127.0.0.1''" "\<not> loopback_host ''0.0.0.0''"
  by (simp_all add: loopback_host_def ip_loopback_def ipv4_demo)

lemma ipv6_demo: "v6_groups ''::1'' = Some [0, 0, 0, 0, 0, 0, 0, 1]" "v6_groups ''1::2::3'' = None"
  by code_simp+

end
