(* ===== verification/Mcp.thy ===== *)
theory Mcp
  imports LifecycleInv Identity
begin

text \<open>
  \<^verbatim>\<open>broker/mcp.py\<close>, the JSON-RPC framing of the same authority, with the two helpers of
  \<^verbatim>\<open>broker/gateway.py\<close> it shares: the terminal audit event and the body of an outcome. The
  exceptions of the module are the constructors of \<open>mcp_exn\<close>; any other exception is
  \<open>McpRaised\<close>. Argument names in a manifest are strings; the registry does not check it, and
  another value raises here.
\<close>

section \<open>Shared with the gateway\<close>

definition request_terminal :: "ostatus \<Rightarrow> (string \<times> string) option" where
  "request_terminal s = (case s of O_OK \<Rightarrow> Some (''completed'', ''ok'') | O_DENIED \<Rightarrow> Some (''denied'', ''denied'')
     | O_FAILED \<Rightarrow> Some (''failed'', ''failed'') | O_UNAVAILABLE \<Rightarrow> Some (''failed'', ''failed'')
     | O_EXPIRED \<Rightarrow> Some (''expired'', ''expired'') | O_UNKNOWN \<Rightarrow> Some (''unknown'', ''unknown'') | _ \<Rightarrow> None)"

definition audit_request_terminal :: "env \<Rightarrow> outcome \<Rightarrow> string \<Rightarrow> string \<Rightarrow> string \<Rightarrow> unit act" where
  "audit_request_terminal e out correlation_id tool op =
     (if oc_reused out then
        audit_record e ''request'' ''receipt_reused'' (ostatus_str (oc_status out)) correlation_id
          (oc_request_id out) (tool_op_details tool op)
      else case request_terminal (oc_status out) of
          None \<Rightarrow> ret ()
        | Some (event_type, outcome_word) \<Rightarrow>
            if oc_request_id out = None then ret ()
            else audit_record e ''request'' event_type outcome_word correlation_id (oc_request_id out)
                   (tool_op_details tool op))"

definition field_if :: "string \<Rightarrow> json \<Rightarrow> (string \<times> json) list" where
  "field_if k v = (if v = JNull then [] else [(k, v)])"

definition outcome_body :: "outcome \<Rightarrow> json" where
  "outcome_body out = JObj
     ([(''status'', JStr (ostatus_str (oc_status out)))]
      @ field_if ''idempotency_key'' (opt_str (oc_key out))
      @ (if oc_pruned out then [(''payloads_pruned'', JBool True)] else [])
      @ (if oc_reused out then [(''reused'', JBool True)] else [])
      @ (case oc_request_id out of None \<Rightarrow> [] | Some i \<Rightarrow> [(''request_id'', JInt i)])
      @ field_if ''result'' (oc_result out)
      @ field_if ''reason'' (opt_str (oc_reason out))
      @ field_if ''error'' (opt_str (oc_error out))
      @ field_if ''detail'' (opt_str (oc_detail out))
      @ field_if ''approver'' (opt_str (oc_approver out))
      @ field_if ''note'' (opt_str (oc_note out))
      @ field_if ''decided_at'' (opt_str (oc_decided_at out)))"

text \<open>\<^verbatim>\<open>ctx.rate_limiter is None or ctx.rate_limiter.allow(caller.id)\<close>.\<close>

definition rate_ok :: "env \<Rightarrow> int \<Rightarrow> bool act" where
  "rate_ok e caller_id = State (\<lambda>w.
     case w_limiter w of
       None \<Rightarrow> (True, w)
     | Some l \<Rightarrow> (case rl_allow l caller_id (ev_clock e (w_tick w)) of
         (ok, l') \<Rightarrow> (ok, w\<lparr>w_limiter := Some l', w_tick := w_tick w + 1\<rparr>)))"

section \<open>Discovery\<close>

datatype mcp_exn = MethodNotFound string | InvalidParams string | RateLimited | IdempotencyConflict json | McpRaised exn

definition json_types :: "string list" where
  "json_types = [''string'', ''integer'', ''number'', ''boolean'', ''object'', ''array'']"

definition unhashable :: "json \<Rightarrow> bool" where
  "unhashable v = (case v of JList _ \<Rightarrow> True | JObj _ \<Rightarrow> True | _ \<Rightarrow> False)"

definition arg_schema :: "json \<Rightarrow> (string \<times> json \<times> bool) result" where
  "arg_schema a =
     (if \<not> is_obj a then Inl AttributeError
      else let jtype = jget_or (JStr ''string'') ''type'' a in
        if unhashable jtype then Inl TypeError
        else case jget ''name'' a of
          None \<Rightarrow> Inl KeyError
        | Some (JStr n) \<Rightarrow>
            Inr (n, JObj [(''type'', case jtype of JStr t \<Rightarrow> if t \<in> set json_types then JStr t else JStr ''string''
                                     | _ \<Rightarrow> JStr ''string''),
                          (''description'', jget_or (JStr '''') ''description'' a)], truthy (jget0 ''required'' a))
        | Some _ \<Rightarrow> Inl TypeError)"

fun arg_schemas :: "json list \<Rightarrow> (string \<times> json \<times> bool) list result" where
  "arg_schemas [] = Inr []"
| "arg_schemas (a # as) =
     (case arg_schema a of Inl x \<Rightarrow> Inl x
      | Inr s \<Rightarrow> (case arg_schemas as of Inl x \<Rightarrow> Inl x | Inr ss \<Rightarrow> Inr (s # ss)))"

definition input_schema :: "json \<Rightarrow> json result" where
  "input_schema args =
     (case iter_items args of
        Inl x \<Rightarrow> Inl x
      | Inr items \<Rightarrow>
          (case arg_schemas items of
             Inl x \<Rightarrow> Inl x
           | Inr ss \<Rightarrow>
               let props = build_dict (map (\<lambda>(n, p, _). (n, p)) ss);
                   required = map (\<lambda>(n, _). JStr n) (filter (\<lambda>(_, _, r). r) ss)
               in Inr (if props = [] then JObj [(''type'', JStr ''object'')]
                       else JObj ([(''type'', JStr ''object''), (''properties'', JObj props)]
                                  @ (if required = [] then [] else [(''required'', JList required)])))))"

definition reason_prop :: json where
  "reason_prop = JObj [(''type'', JStr ''string''),
     (''description'', JStr ''Legacy private request metadata; omitted from approval and audit text. Not passed to the tool. Do not include secrets.'')]"

definition with_reason :: "json \<Rightarrow> json" where
  "with_reason schema =
     (let props = (case jget ''properties'' schema of Some (JObj d) \<Rightarrow> d | _ \<Rightarrow> []);
          d = (case schema of JObj d \<Rightarrow> d | _ \<Rightarrow> [])
      in JObj (AList.update ''properties'' (JObj (AList.update ''_reason'' reason_prop props))
                (AList.update ''type'' (JStr ''object'') d)))"

definition mcp_result :: "string \<Rightarrow> bool \<Rightarrow> json" where
  "mcp_result text is_error =
     JObj [(''content'', JList [JObj [(''type'', JStr ''text''), (''text'', JStr text)]]),
           (''isError'', JBool is_error)]"

text \<open>The operations of the registry that are not REST, with their description and arguments.\<close>

definition mcp_ops :: "catalog \<Rightarrow> (string \<times> string) list" where
  "mcp_ops catalog =
     concat (map (\<lambda>(tool, entry). if te_type entry = ''rest'' then [] else map (\<lambda>(op, _). (tool, op)) (te_ops entry)) catalog)"

definition allowed_ops :: "catalog \<Rightarrow> policy \<Rightarrow> (string \<times> string \<times> effect) list" where
  "allowed_ops catalog p =
     map (\<lambda>(tool, op). (tool, op, decide p tool op))
       (filter (\<lambda>(tool, op). decide p tool op \<noteq> DENY) (mcp_ops catalog))"

definition mcp_tool :: "catalog \<Rightarrow> string \<times> string \<times> effect \<Rightarrow> json result" where
  "mcp_tool catalog t = (case t of (tool, op, eff) \<Rightarrow>
     let described = (case describe catalog tool op of None \<Rightarrow> JObj [] | Some d \<Rightarrow> d) in
     (case input_schema (jget_or (JList []) ''args'' described) of
        Inl x \<Rightarrow> Inl x
      | Inr schema \<Rightarrow>
          let description = jget_or (JStr '''') ''description'' described in
          if eff = REVIEW then
            (case description of
               JStr s \<Rightarrow> Inr (JObj [(''name'', JStr (tool @ ''__'' @ op)),
                             (''description'', JStr (py_strip (s @ '' (requires human approval)''))),
                             (''inputSchema'', with_reason schema)])
             | _ \<Rightarrow> Inl TypeError)
          else Inr (JObj [(''name'', JStr (tool @ ''__'' @ op)), (''description'', description),
                          (''inputSchema'', schema)])))"

fun mcp_tools :: "catalog \<Rightarrow> (string \<times> string \<times> effect) list \<Rightarrow> json list result" where
  "mcp_tools catalog [] = Inr []"
| "mcp_tools catalog (t # ts) =
     (case mcp_tool catalog t of Inl x \<Rightarrow> Inl x
      | Inr j \<Rightarrow> (case mcp_tools catalog ts of Inl x \<Rightarrow> Inl x | Inr js \<Rightarrow> Inr (j # js)))"

text \<open>\<^verbatim>\<open>name.partition("__")\<close>.\<close>

fun partition_us :: "string \<Rightarrow> (string \<times> string) option" where
  "partition_us (x # y # zs) =
     (if x = CHR ''_'' \<and> y = CHR ''_'' then Some ([], zs)
      else map_option (\<lambda>(a, b). (x # a, b)) (partition_us (y # zs)))"
| "partition_us _ = None"

text \<open>\<^verbatim>\<open>_resolve_name\<close>: the last of two registered operations with the same joined name wins.\<close>

definition resolve_name :: "catalog \<Rightarrow> string \<Rightarrow> (string \<times> string) option" where
  "resolve_name catalog name =
     (case map_of (rev (map (\<lambda>(t, o'). (t @ ''__'' @ o', (t, o'))) (mcp_ops catalog))) name of
        Some p \<Rightarrow> Some p
      | None \<Rightarrow>
          (case partition_us name of
             Some (tool, op) \<Rightarrow> if id_ok tool \<and> id_ok op then Some (tool, op) else None
           | None \<Rightarrow> None))"

section \<open>Calls\<close>

text \<open>\<^verbatim>\<open>json.dumps(v, indent=2)\<close>.\<close>

definition newline :: "nat \<Rightarrow> string" where
  "newline n = CHR 0x0A # replicate (2 * n) (CHR '' '')"

fun dumps_indent :: "nat \<Rightarrow> json \<Rightarrow> string" where
  "dumps_indent n (JList xs) =
     (if xs = [] then ''[]''
      else CHR ''['' # newline (n + 1) @ join_with (CHR '','' # newline (n + 1)) (map (dumps_indent (n + 1)) xs)
           @ newline n @ '']'')"
| "dumps_indent n (JObj d) =
     (if d = [] then ''{}''
      else CHR ''{'' # newline (n + 1)
           @ join_with (CHR '','' # newline (n + 1))
               (map (\<lambda>kv. quote (fst kv) @ '': '' @ dumps_indent (n + 1) (snd kv)) d)
           @ newline n @ ''}'')"
| "dumps_indent n v = dumps '', '' '': '' v"

definition mcp_fail :: "ostatus \<Rightarrow> bool" where
  "mcp_fail s \<longleftrightarrow> s \<notin> {O_OK, O_PENDING, O_NOT_FOUND}"

definition unknown_tool :: "string \<Rightarrow> json" where
  "unknown_tool name = mcp_result (''unknown tool '' @ [CHR 0x22] @ name @ [CHR 0x22]) True"

text \<open>The idempotency key of a call: the header and the metadata must not disagree.\<close>

definition mcp_key :: "json \<Rightarrow> string option \<Rightarrow> mcp_exn + json" where
  "mcp_key meta idempotency_key =
     (let key = jget0 ''toolstack/idempotency-key'' meta in
      case idempotency_key of
        None \<Rightarrow> Inr key
      | Some k \<Rightarrow> if key \<noteq> JNull \<and> key \<noteq> JStr k
                 then Inl (InvalidParams ''conflicting idempotency metadata'') else Inr (JStr k))"

text \<open>\<^verbatim>\<open>lifecycle.submit\<close> with a key that may be any JSON value: one that is neither a string
  nor null is refused by \<^verbatim>\<open>validate_idempotency_key\<close> before anything else.\<close>

definition submit_key ::
  "env \<Rightarrow> caller \<Rightarrow> string \<Rightarrow> string \<Rightarrow> json \<Rightarrow> string \<Rightarrow> json \<Rightarrow> json \<Rightarrow> outcome result act" where
  "submit_key e cl tool op arguments correlation_id reason key =
     (case key of
        JNull \<Rightarrow> submit e cl tool op arguments correlation_id reason None
      | JStr k \<Rightarrow> submit e cl tool op arguments correlation_id reason (Some k)
      | _ \<Rightarrow> ret (Inr ((outcome0 O_INVALID)\<lparr>oc_error := Some ''invalid_idempotency_key''\<rparr>)))"

definition call_result :: "string \<Rightarrow> outcome \<Rightarrow> mcp_exn + json" where
  "call_result name out =
     (if oc_status out \<in> {O_DENIED, O_NOT_FOUND} then Inr (unknown_tool name)
      else if oc_status out = O_CONFLICT
      then Inl (IdempotencyConflict (mcp_result (dumps '', '' '': '' (outcome_body out)) True))
      else Inr (mcp_result (dumps_indent 0 (outcome_body out))
                  (mcp_fail (oc_status out) \<or> jget ''isError'' (oc_result out) = Some (JBool True))))"

text \<open>The part of \<^verbatim>\<open>_call_tool\<close> after the name is resolved: the same path as an action.\<close>

definition call_submit ::
  "env \<Rightarrow> caller \<Rightarrow> string \<Rightarrow> string \<Rightarrow> string \<Rightarrow> string \<Rightarrow> json \<Rightarrow> json \<Rightarrow> json \<Rightarrow> (mcp_exn + json) act" where
  "call_submit e cl correlation_id name tool op arguments reason key = do {
     out \<leftarrow> submit_key e cl tool op arguments correlation_id reason key;
     case out of
       Inl x \<Rightarrow> ret (Inl (McpRaised x))
     | Inr oc \<Rightarrow> do {
         audit_request_terminal e oc correlation_id tool op;
         ret (call_result name oc)
       }
   }"

definition private_reason :: "(string \<times> json) list \<Rightarrow> json" where
  "private_reason args = (case map_of args ''_reason'' of
     Some (JStr s) \<Rightarrow> if py_strip s = [] then JNull else JStr s | _ \<Rightarrow> JNull)"

definition call_resolved ::
  "env \<Rightarrow> caller \<Rightarrow> string \<Rightarrow> string \<Rightarrow> string \<Rightarrow> string \<Rightarrow> (string \<times> json) list \<Rightarrow> json \<Rightarrow> string option
     \<Rightarrow> (mcp_exn + json) act" where
  "call_resolved e cl correlation_id name tool op args params idempotency_key = do {
     resolved \<leftarrow> find_op e tool op;
     if map_option to_type resolved = Some ''rest'' then ret (Inr (unknown_tool name))
     else
       let meta = jget_or (JObj []) ''_meta'' params
       in if \<not> is_obj meta then ret (Inl (InvalidParams ''_meta must be an object''))
          else case mcp_key meta idempotency_key of
            Inl x \<Rightarrow> ret (Inl x)
          | Inr key \<Rightarrow> call_submit e cl correlation_id name tool op
                         (JObj (filter (\<lambda>kv. fst kv \<noteq> ''_reason'') args)) (private_reason args) key
   }"

definition call_tool :: "env \<Rightarrow> caller \<Rightarrow> string \<Rightarrow> json \<Rightarrow> string option \<Rightarrow> (mcp_exn + json) act" where
  "call_tool e cl correlation_id params idempotency_key =
     (case (case jget0 ''arguments'' params of JNull \<Rightarrow> JObj [] | v \<Rightarrow> v) of
        JObj args \<Rightarrow> do {
          ok \<leftarrow> rate_ok e (cl_id cl);
          if \<not> ok then ret (Inl RateLimited)
          else case jget_or (JStr '''') ''name'' params of
            JStr name \<Rightarrow>
              (case resolve_name (ev_catalog e) name of
                 None \<Rightarrow> ret (Inr (unknown_tool name))
               | Some (tool, op) \<Rightarrow> call_resolved e cl correlation_id name tool op args params idempotency_key)
          | v \<Rightarrow> ret (Inl (McpRaised (if unhashable v then TypeError else AttributeError)))
        }
      | _ \<Rightarrow> ret (Inl (InvalidParams ''arguments must be an object'')))"

definition protocol_version :: string where
  "protocol_version = ''2024-11-05''"

definition mcp_instructions :: string where
  "mcp_instructions = ''Supply tools/call params._meta['' @ [CHR 0x22] @ ''toolstack/idempotency-key'' @ [CHR 0x22]
     @ ''] (1-128 letters/digits/_/-). Matching retries return the same receipt, never replay. Poll the request receipt; unknown is not retry permission.''"

text \<open>The text of a JSON value as \<^verbatim>\<open>str\<close> shows it, used in one error message; a list or an
  object is shown by its JSON text.\<close>

definition py_str :: "json \<Rightarrow> string" where
  "py_str v = (case v of JStr s \<Rightarrow> s | JNull \<Rightarrow> ''None'' | JBool b \<Rightarrow> if b then ''True'' else ''False''
     | JInt i \<Rightarrow> show_int i | v \<Rightarrow> dumps '', '' '': '' v)"

definition mcp_dispatch :: "env \<Rightarrow> caller \<Rightarrow> string \<Rightarrow> json \<Rightarrow> json \<Rightarrow> string option \<Rightarrow> (mcp_exn + json) act" where
  "mcp_dispatch e cl correlation_id meth params idempotency_key =
     (if meth = JStr ''initialize'' then
        ret (Inr (JObj [(''protocolVersion'', jget_or (JStr protocol_version) ''protocolVersion'' params),
                        (''capabilities'', JObj [(''tools'', JObj [])]),
                        (''serverInfo'', JObj [(''name'', JStr ''toolstack-broker''), (''version'', JStr ''0.1.0'')]),
                        (''instructions'', JStr mcp_instructions)]))
      else if meth = JStr ''ping'' then ret (Inr (JObj []))
      else if meth = JStr ''tools/list'' then do {
        p \<leftarrow> query e (\<lambda>db. policy_for db (cl_id cl));
        ret (case mcp_tools (ev_catalog e) (allowed_ops (ev_catalog e) p) of
               Inl x \<Rightarrow> Inl (McpRaised x) | Inr ts \<Rightarrow> Inr (JObj [(''tools'', JList ts)]))
      }
      else if meth = JStr ''tools/call'' then call_tool e cl correlation_id params idempotency_key
      else ret (Inl (MethodNotFound (py_str meth))))"

definition mcp_error :: "json \<Rightarrow> int \<Rightarrow> string \<Rightarrow> json" where
  "mcp_error mid num message =
     JObj [(''jsonrpc'', JStr ''2.0''), (''id'', mid),
           (''error'', JObj [(''code'', JInt num), (''message'', JStr message)])]"

text \<open>The status and the envelope for what a dispatch did; a notification has an empty body.\<close>

definition mcp_reply :: "json \<Rightarrow> string \<Rightarrow> mcp_exn + json \<Rightarrow> int \<times> json" where
  "mcp_reply mid correlation_id res =
     (let wrap = (\<lambda>b. if mid = JNull then JObj [] else b);
          envelope = (\<lambda>r. JObj [(''jsonrpc'', JStr ''2.0''), (''id'', mid), (''result'', r)])
      in case res of
           Inr r \<Rightarrow> (200, wrap (envelope r))
         | Inl RateLimited \<Rightarrow> (429, wrap (mcp_error mid (- 32000) ''rate_limited''))
         | Inl (IdempotencyConflict r) \<Rightarrow> (409, wrap (envelope r))
         | Inl (MethodNotFound m) \<Rightarrow> (200, wrap (mcp_error mid (- 32601) (''method not found: '' @ m)))
         | Inl (InvalidParams m) \<Rightarrow> (200, wrap (mcp_error mid (- 32602) m))
         | Inl (McpRaised _) \<Rightarrow>
             (500, wrap (mcp_error mid (- 32603) (''internal error (correlation id '' @ correlation_id @ '')''))))"

text \<open>\<^verbatim>\<open>mcp.handle\<close>. A body that is not JSON and the JSON \<^verbatim>\<open>null\<close> are both \<^verbatim>\<open>None\<close>.\<close>

definition mcp_handle :: "env \<Rightarrow> json \<Rightarrow> caller \<Rightarrow> string \<Rightarrow> string option \<Rightarrow> (int \<times> json) act" where
  "mcp_handle e body cl correlation_id idempotency_key =
     (case body of
        JNull \<Rightarrow> ret (200, mcp_error JNull (- 32700) ''parse error: body is not valid JSON'')
      | JList _ \<Rightarrow> ret (200, mcp_error JNull (- 32600) ''invalid request: batch is not supported'')
      | JObj _ \<Rightarrow>
          (let mid = jget0 ''id'' body;
               params = (let p = jget0 ''params'' body in if truthy p then p else JObj [])
           in if \<not> is_obj params
              then ret (200, if mid = JNull then JObj [] else mcp_error mid (- 32602) ''params must be an object'')
              else do {
                res \<leftarrow> mcp_dispatch e cl correlation_id (jget_or (JStr '''') ''method'' body) params idempotency_key;
                ret (mcp_reply mid correlation_id res)
              })
      | _ \<Rightarrow> ret (200, mcp_error JNull (- 32600) ''invalid request: expected a JSON-RPC object''))"

section \<open>The invariant\<close>

lemma hoare_rate_linv: "hoare (linv e db0) (rate_ok e c) (\<lambda>_. linv e db0)"
  unfolding rate_ok_def by (auto simp: hoare_def linv_def split: option.splits prod.splits)

lemma audit_terminal_linv: "hoare (linv e db0) (audit_request_terminal e out corr tool op) (\<lambda>_. linv e db0)"
  unfolding audit_request_terminal_def
  by (auto intro!: hoare_audit_linv hoare_ret split: option.split)

lemma submit_key_linv: "hoare (linv e db0) (submit_key e cl tool op args corr reason key) (\<lambda>_. linv e db0)"
  unfolding submit_key_def by (cases key) (auto intro: submit_linv hoare_ret)

lemma call_submit_linv:
  "hoare (linv e db0) (call_submit e cl corr name tool op args reason key) (\<lambda>_. linv e db0)"
  unfolding call_submit_def
  by (rule hoare_bind [OF submit_key_linv])
    (auto intro!: hoare_bind [OF audit_terminal_linv] hoare_ret split: sum.split)

lemma call_resolved_linv:
  "hoare (linv e db0) (call_resolved e cl corr name tool op args params key) (\<lambda>_. linv e db0)"
  unfolding call_resolved_def Let_def find_op_def
  by (rule hoare_bind [OF hoare_read_linv])
    (auto intro!: hoare_ret call_submit_linv split: sum.split)

lemma call_tool_linv: "hoare (linv e db0) (call_tool e cl corr params key) (\<lambda>_. linv e db0)"
proof -
  have named: "hoare (linv e db0) (case v of
            JStr name \<Rightarrow>
              (case resolve_name (ev_catalog e) name of
                 None \<Rightarrow> ret (Inr (unknown_tool name))
               | Some (tool, op) \<Rightarrow> call_resolved e cl corr name tool op args params key)
          | v \<Rightarrow> ret (Inl (McpRaised (if unhashable v then TypeError else AttributeError)))) (\<lambda>_. linv e db0)"
    for v args
    by (cases v) (auto intro!: hoare_ret call_resolved_linv split: option.split)
  have args: "hoare (linv e db0) (case v of
        JObj args \<Rightarrow> do {
          ok \<leftarrow> rate_ok e (cl_id cl);
          if \<not> ok then ret (Inl RateLimited) else m args }
      | _ \<Rightarrow> ret (Inl (InvalidParams ''arguments must be an object''))) (\<lambda>_. linv e db0)"
    if "\<And>args. hoare (linv e db0) (m args) (\<lambda>_. linv e db0)" for v m
    by (cases v) (auto intro!: hoare_ret hoare_bind [OF hoare_rate_linv] that)
  show ?thesis
    unfolding call_tool_def by (rule args, rule named)
qed

lemma mcp_dispatch_linv: "hoare (linv e db0) (mcp_dispatch e cl corr meth params key) (\<lambda>_. linv e db0)"
  unfolding mcp_dispatch_def
  by (auto intro!: call_tool_linv hoare_bind [OF hoare_query_linv] hoare_ret)

lemma mcp_handle_linv: "hoare (linv e db0) (mcp_handle e body cl corr key) (\<lambda>_. linv e db0)"
  unfolding mcp_handle_def Let_def
  by (cases body) (auto intro!: hoare_ret hoare_bind [OF mcp_dispatch_linv])

end
