(* ===== verification/Gateway.thy ===== *)
theory Gateway
  imports Mcp
begin

text \<open>
  \<^verbatim>\<open>broker/gateway.py\<close>: routing, authentication and the mapping of outcomes to HTTP. A header
  dictionary is an association list as the server hands it over; a body that is not JSON is
  \<^const>\<open>JNull\<close>. An exception that leaves \<^verbatim>\<open>handle\<close> is answered by the server with status 500.
\<close>

section \<open>Tables\<close>

definition outcome_status :: "ostatus \<Rightarrow> int" where
  "outcome_status s = (case s of O_OK \<Rightarrow> 200 | O_PENDING \<Rightarrow> 202 | O_DENIED \<Rightarrow> 403 | O_NOT_FOUND \<Rightarrow> 404
     | O_EXPIRED \<Rightarrow> 200 | O_FAILED \<Rightarrow> 502 | O_UNAVAILABLE \<Rightarrow> 503 | O_RECEIVED \<Rightarrow> 202 | O_EXECUTING \<Rightarrow> 202
     | O_UNKNOWN \<Rightarrow> 502 | O_RESULT_EXPIRED \<Rightarrow> 200 | O_CONFLICT \<Rightarrow> 409 | O_INVALID \<Rightarrow> 400)"

definition audit_outcome :: "int \<Rightarrow> string" where
  "audit_outcome status =
     (case map_of [(200, ''ok''), (202, ''accepted''), (400, ''invalid''), (401, ''denied''), (403, ''denied''),
                   (404, ''not_found''), (429, ''rate_limited''), (502, ''failed''), (503, ''unavailable''),
                   (409, ''conflict'')] status of
        None \<Rightarrow> ''failed'' | Some s \<Rightarrow> s)"

record response =
  rs_status :: int
  rs_body :: json
  rs_correlation_id :: string

definition respond :: "int \<Rightarrow> json \<Rightarrow> string \<Rightarrow> response" where
  "respond status body correlation_id = \<lparr>rs_status = status, rs_body = body, rs_correlation_id = correlation_id\<rparr>"

definition error_body :: "string \<Rightarrow> json" where
  "error_body err = JObj [(''error'', JStr err)]"

definition detail_body :: "string \<Rightarrow> json" where
  "detail_body detail = JObj [(''error'', JStr ''invalid''), (''detail'', JStr detail)]"

definition health_path :: string where "health_path = ''/v1/health''"
definition actions_prefix :: string where "actions_prefix = ''/v1/actions/''"
definition requests_prefix :: string where "requests_prefix = ''/v1/requests/''"
definition tools_path :: string where "tools_path = ''/v1/tools''"
definition tools_prefix :: string where "tools_prefix = ''/v1/tools/''"
definition mcp_path :: string where "mcp_path = ''/mcp''"

section \<open>Handlers\<close>

definition lower_headers :: "(string \<times> string) list \<Rightarrow> (string \<times> string) list" where
  "lower_headers hs = foldl (\<lambda>d kv. AList.update (py_lower (fst kv)) (snd kv) d) [] hs"

text \<open>\<^verbatim>\<open>make_correlation_id\<close>: \<open>fresh\<close> is the reading of \<^verbatim>\<open>uuid4().hex\<close>.\<close>

definition make_correlation_id :: "(string \<times> string) list \<Rightarrow> string \<Rightarrow> string" where
  "make_correlation_id headers fresh =
     (let supplied = py_strip (case map_of headers ''x-correlation-id'' of None \<Rightarrow> [] | Some s \<Rightarrow> s)
      in if 1 \<le> length supplied \<and> length supplied \<le> 64 \<and> list_all is_word supplied then supplied else fresh)"

text \<open>The two parts of \<^verbatim>\<open><tool>.<op>\<close>, if there are exactly two and both satisfy \<open>p\<close>.\<close>

definition two_parts :: "(string \<Rightarrow> bool) \<Rightarrow> string \<Rightarrow> (string \<times> string) option" where
  "two_parts p spec = (case split_on (CHR ''.'') spec of [a, b] \<Rightarrow> if p a \<and> p b then Some (a, b) else None | _ \<Rightarrow> None)"

definition list_tools_body :: "catalog \<Rightarrow> policy \<Rightarrow> string \<Rightarrow> json" where
  "list_tools_body catalog p cname =
     JObj [(''caller'', JStr cname),
           (''tools'', JList (map (\<lambda>(tool, op, d). JObj (d @ [(''effect'', JStr (effect_str (decide p tool op)))]))
              (filter (\<lambda>(tool, op, d). decide p tool op \<noteq> DENY) (list_ops catalog))))]"

definition describe_tool :: "env \<Rightarrow> string \<Rightarrow> caller \<Rightarrow> string \<Rightarrow> response act" where
  "describe_tool e path cl correlation_id =
     (case two_parts (\<lambda>s. s \<noteq> []) (drop (length tools_prefix) path) of
        None \<Rightarrow> ret (respond 400 (detail_body ''expected /v1/tools/<tool>.<op>'') correlation_id)
      | Some (tool, op) \<Rightarrow> do {
          eff \<leftarrow> query e (\<lambda>db. decide (policy_for db (cl_id cl)) tool op);
          if eff = DENY then ret (respond 404 (error_body ''not_found'') correlation_id)
          else case describe (ev_catalog e) tool op of
              Some (JObj d) \<Rightarrow> ret (respond 200 (JObj (AList.update ''effect'' (JStr (effect_str eff)) d)) correlation_id)
            | _ \<Rightarrow> ret (respond 404 (error_body ''not_found'') correlation_id)
        })"

definition authority_body :: json where
  "authority_body = JObj [(''status'', JStr ''denied''), (''error'', JStr ''authority'')]"

text \<open>The part of \<^verbatim>\<open>_request_status\<close> for a request of the caller.\<close>

definition owned_status :: "env \<Rightarrow> int \<Rightarrow> request_row \<Rightarrow> caller \<Rightarrow> string \<Rightarrow> response result act" where
  "owned_status e rid req cl correlation_id = do {
     before \<leftarrow> query e (\<lambda>db. authorized_request db cl rid);
     if before = None then ret (Inr (respond 403 authority_body correlation_id))
     else bind_ok (resolve_request e rid (Some cl)) (\<lambda>out. do {
       after \<leftarrow> query e (\<lambda>db. authorized_request db cl rid);
       if after = None then ret (Inr (respond 403 authority_body correlation_id))
       else do {
         (if rq_status req = PendingApproval
          then audit_request_terminal e out correlation_id (rq_tool req) (rq_op req) else ret ());
         ret (Inr (respond 200 (outcome_body out) correlation_id))
       }
     })
   }"

text \<open>\<^verbatim>\<open>_request_status\<close>. SQLite takes no integer of more than 64 bits.\<close>

definition request_status :: "env \<Rightarrow> string \<Rightarrow> caller \<Rightarrow> string \<Rightarrow> response result act" where
  "request_status e path cl correlation_id =
     (let rid = drop (length requests_prefix) path in
      if \<not> py_isdigit rid then ret (Inr (respond 400 (error_body ''invalid'') correlation_id))
      else case py_int_digits rid of
        Inl x \<Rightarrow> ret (Inl x)
      | Inr n \<Rightarrow>
          if n \<ge> 2 ^ 63 then ret (Inl OverflowError)
          else do {
            row \<leftarrow> query e (\<lambda>db. request db n);
            case row of
              None \<Rightarrow> ret (Inr (respond 404 (error_body ''not_found'') correlation_id))
            | Some req \<Rightarrow>
                if rq_caller_id req \<noteq> cl_id cl
                then ret (Inr (respond 404 (error_body ''not_found'') correlation_id))
                else owned_status e n req cl correlation_id
          })"

definition action :: "env \<Rightarrow> string \<Rightarrow> json \<Rightarrow> caller \<Rightarrow> string \<Rightarrow> string option \<Rightarrow> response result act" where
  "action e path body cl correlation_id key =
     (case two_parts id_ok (drop (length actions_prefix) path) of
        None \<Rightarrow> ret (Inr (respond 400 (detail_body ''expected /v1/actions/<tool>.<op>'') correlation_id))
      | Some (tool, op) \<Rightarrow>
          if \<not> is_obj body
          then ret (Inr (respond 400 (detail_body ''body must be a JSON object'') correlation_id))
          else if \<not> is_obj (jget_or (JObj []) ''arguments'' body)
          then ret (Inr (respond 400 (detail_body ''arguments must be an object'') correlation_id))
          else bind_ok (submit e cl tool op (jget_or (JObj []) ''arguments'' body) correlation_id
                          (jget0 ''reason'' body) key)
            (\<lambda>out. do {
               audit_request_terminal e out correlation_id tool op;
               ret (Inr (respond (outcome_status (oc_status out)) (outcome_body out) correlation_id))
             }))"

section \<open>Routing\<close>

text \<open>\<^verbatim>\<open>_route\<close> for an authenticated caller.\<close>

definition route_caller ::
  "env \<Rightarrow> string \<Rightarrow> string \<Rightarrow> (string \<times> string) list \<Rightarrow> json \<Rightarrow> caller \<Rightarrow> string \<Rightarrow> response result act" where
  "route_caller e meth path headers body cl correlation_id =
     (let key = map_of headers ''idempotency-key'' in
      if meth = ''POST'' \<and> starts_with actions_prefix path then do {
        ok \<leftarrow> rate_ok e (cl_id cl);
        if \<not> ok then ret (Inr (respond 429 (error_body ''rate_limited'') correlation_id))
        else action e path body cl correlation_id key
      }
      else if meth = ''POST'' \<and> path = mcp_path then do {
        sb \<leftarrow> mcp_handle e body cl correlation_id key;
        ret (Inr (respond (fst sb) (snd sb) correlation_id))
      }
      else if meth = ''GET'' \<and> path = tools_path then do {
        p \<leftarrow> query e (\<lambda>db. policy_for db (cl_id cl));
        ret (Inr (respond 200 (list_tools_body (ev_catalog e) p (cl_name cl)) correlation_id))
      }
      else if meth = ''GET'' \<and> starts_with tools_prefix path then do {
        r \<leftarrow> describe_tool e path cl correlation_id;
        ret (Inr r)
      }
      else if meth = ''GET'' \<and> starts_with requests_prefix path then do {
        ok \<leftarrow> rate_ok e (cl_id cl);
        if \<not> ok then ret (Inr (respond 429 (error_body ''rate_limited'') correlation_id))
        else request_status e path cl correlation_id
      }
      else ret (Inr (respond 404 (error_body ''not_found'') correlation_id)))"

definition health_body :: "env \<Rightarrow> json" where
  "health_body e = JObj ((''status'', JStr ''ok'') #
     (if ev_observation e = [] then [] else [(''catalog_observation_id'', JStr (ev_observation e))]))"

definition route ::
  "env \<Rightarrow> string \<Rightarrow> string \<Rightarrow> (string \<times> string) list \<Rightarrow> json \<Rightarrow> string \<Rightarrow> response result act" where
  "route e meth path headers body correlation_id =
     (if meth = ''GET'' \<and> path = health_path then ret (Inr (respond 200 (health_body e) correlation_id))
      else let bearer = map_of headers ''authorization''; fp = opt_str (token_fingerprint (ev_sha e) bearer) in do {
        who \<leftarrow> query e (\<lambda>db. authenticate (ev_sha e) db bearer);
        case who of
          None \<Rightarrow> do {
            audit_record e ''identity'' ''token_rejected'' ''denied'' correlation_id None
              [(''has_bearer'', JBool (bearer \<noteq> None \<and> bearer \<noteq> Some [])), (''token_fp'', fp)];
            ret (Inr (respond 401 (error_body ''unauthorized'') correlation_id))
          }
        | Some cl \<Rightarrow> do {
            audit_record e ''identity'' ''token_validated'' ''ok'' correlation_id None
              [(''caller'', JStr (cl_name cl)), (''token_fp'', fp)];
            route_caller e meth path headers body cl correlation_id
          }
      })"

definition audit_path :: "string \<Rightarrow> string" where
  "audit_path path =
     (if starts_with actions_prefix path \<and> two_parts id_ok (drop (length actions_prefix) path) = None
      then actions_prefix @ ''<invalid>'' else path)"

definition handle ::
  "env \<Rightarrow> string \<Rightarrow> string \<Rightarrow> (string \<times> string) list \<Rightarrow> json \<Rightarrow> response result act" where
  "handle e meth path headers0 body =
     (let headers = lower_headers headers0; audited = \<not> (meth = ''GET'' \<and> path = health_path) in do {
        fresh \<leftarrow> txn e (\<lambda>n db. (ev_rng e n, db));
        let correlation_id = make_correlation_id headers fresh;
        (if audited then audit_record e ''gateway'' ''request_received'' ''accepted'' correlation_id None
             [(''method'', JStr meth), (''path'', JStr (audit_path path)),
              (''has_bearer'', JBool (map_of headers ''authorization'' \<noteq> None))]
         else ret ());
        bind_ok (route e meth path headers body correlation_id) (\<lambda>r. do {
          (if audited then audit_record e ''gateway'' ''response_returned'' (audit_outcome (rs_status r)) correlation_id
               None [(''status'', JInt (rs_status r))]
           else ret ());
          ret (Inr r)
        })
      })"

text \<open>The server answers one request after the other.\<close>

record http_request =
  hr_method :: string
  hr_path :: string
  hr_headers :: "(string \<times> string) list"
  hr_body :: json

fun serve :: "env \<Rightarrow> http_request list \<Rightarrow> response result list act" where
  "serve e [] = ret []"
| "serve e (h # hs) = do {
     r \<leftarrow> handle e (hr_method h) (hr_path h) (hr_headers h) (hr_body h);
     rs \<leftarrow> serve e hs;
     ret (r # rs)
   }"

definition start_world :: "store \<Rightarrow> limiter option \<Rightarrow> world" where
  "start_world db l = \<lparr>w_db = db, w_tick = 0, w_limiter = l, w_log = [], w_cards = []\<rparr>"

section \<open>The invariant\<close>

lemma owned_status_linv: "hoare (linv e db0) (owned_status e rid req cl corr) (\<lambda>_. linv e db0)"
  unfolding owned_status_def
  apply (rule hoare_bind [OF hoare_query_linv])
  apply (split if_split, intro conjI impI)
  subgoal by (rule hoare_ret)
  apply (rule hoare_bind_ok [OF resolve_request_linv])
  subgoal by (rule hoare_bind [OF hoare_query_linv]) (auto intro!: hoare_bind [OF audit_terminal_linv] hoare_ret)
  subgoal .
  done

lemma request_status_linv: "hoare (linv e db0) (request_status e path cl corr) (\<lambda>_. linv e db0)"
  unfolding request_status_def Let_def
  by (auto intro!: hoare_ret hoare_bind [OF hoare_query_linv] owned_status_linv split: sum.split option.split)

lemma action_linv: "hoare (linv e db0) (action e path body cl corr key) (\<lambda>_. linv e db0)"
  unfolding action_def
  by (auto intro!: hoare_ret hoare_bind_ok [OF submit_linv] hoare_bind [OF audit_terminal_linv] split: option.split)

lemma describe_tool_linv: "hoare (linv e db0) (describe_tool e path cl corr) (\<lambda>_. linv e db0)"
proof (cases "two_parts (\<lambda>s. s \<noteq> []) (drop (length tools_prefix) path)")
  case (Some to)
  obtain tool op where to: "to = (tool, op)" by (cases to)
  have "hoare (linv e db0) (if eff = DENY then ret r1 else case d of Some (JObj d) \<Rightarrow> ret (r2 d) | _ \<Rightarrow> ret r1)
      (\<lambda>_. linv e db0)" for eff :: effect and d and r1 :: response and r2
    by (cases d) (auto intro!: hoare_ret split: json.split)
  then show ?thesis
    unfolding describe_tool_def Some option.case to prod.case by (rule hoare_bind [OF hoare_query_linv])
qed (auto simp: describe_tool_def intro: hoare_ret)

lemma route_caller_linv: "hoare (linv e db0) (route_caller e meth path hs body cl corr) (\<lambda>_. linv e db0)"
  unfolding route_caller_def Let_def
  by (intro hoare_if hoare_bind [OF hoare_rate_linv] action_linv hoare_bind [OF mcp_handle_linv]
      hoare_bind [OF hoare_query_linv] hoare_bind [OF describe_tool_linv] request_status_linv hoare_ret)

lemma route_linv: "hoare (linv e db0) (route e meth path hs body corr) (\<lambda>_. linv e db0)"
  unfolding route_def Let_def
  by (auto intro!: hoare_ret hoare_bind [OF hoare_query_linv] hoare_bind [OF hoare_audit_linv] route_caller_linv
      split: option.split)

lemma handle_linv: "hoare (linv e db0) (handle e meth path hs body) (\<lambda>_. linv e db0)"
proof -
  have audit: "hoare (linv e db0) (if b then audit_record e c ev oc corr rid d else ret ()) (\<lambda>_. linv e db0)"
    for b c ev oc corr rid d by (auto intro: hoare_audit_linv hoare_ret)
  show ?thesis
    unfolding handle_def Let_def
    by (auto intro!: hoare_bind [OF hoare_read_linv] hoare_bind [OF audit] hoare_bind_ok [OF route_linv] hoare_ret)
qed

lemma serve_linv: "hoare (linv e db0) (serve e hs) (\<lambda>_. linv e db0)"
  by (induction hs) (auto intro!: hoare_ret hoare_bind [OF handle_linv] hoare_bind)

lemma start_linv: "store_ok db \<Longrightarrow> st_approvals db = [] \<Longrightarrow> linv e db (start_world db l)"
  by (simp add: linv_def start_world_def cards_ok_def apps_frozen_def)

end
