(* ===== verification/BrokerServer.thy ===== *)
theory BrokerServer
  imports SpsClient Ip Runtime Gateway
begin

text \<open>
  \<^verbatim>\<open>broker/server.py\<close> and \<^verbatim>\<open>admin/catalog_observation.py\<close>: what stands between a socket and the
  gateway. A connection is what the request parser of the standard library made of it (a request with its
  headers as they came, or the refusal it asked for) together with the reads its body would give and whether
  the reply can be written. Sockets and the parser are not modelled; \<^verbatim>\<open>json.loads\<close>, the environment
  variables and the fingerprint's hash are parameters.
\<close>

section \<open>Where the broker listens\<close>

definition configured_host :: "(string \<Rightarrow> string option) \<Rightarrow> string option" where
  "configured_host getenv =
     (let host = (case getenv ''TOOLSTACK_BROKER_HOST'' of None \<Rightarrow> ''127.0.0.1'' | Some h \<Rightarrow> if h = [] then ''127.0.0.1'' else h);
          allow = py_lower (case getenv ''TOOLSTACK_BROKER_ALLOW_NONLOOPBACK'' of None \<Rightarrow> [] | Some s \<Rightarrow> s)
                    \<in> {''1'', ''true'', ''yes''}
      in if \<not> loopback_host host \<and> \<not> allow then None else Some host)"

definition configured_port :: "(string \<Rightarrow> string option) \<Rightarrow> int option" where
  "configured_port getenv =
     (case getenv ''TOOLSTACK_BROKER_PORT'' of
        None \<Rightarrow> Some 8765
      | Some raw \<Rightarrow> (case py_int raw of Inl _ \<Rightarrow> None | Inr n \<Rightarrow> Some n))"

section \<open>A request as it arrives\<close>

record http_in =
  hi_command :: string
  hi_path :: string
  hi_headers :: "(string \<times> string) list"
  hi_stream :: "rd list"

definition get_all :: "string \<Rightarrow> (string \<times> string) list \<Rightarrow> string list" where
  "get_all name hs = map snd (filter (\<lambda>kv. py_lower (fst kv) = py_lower name) hs)"

definition header_get :: "string \<Rightarrow> (string \<times> string) list \<Rightarrow> string option" where
  "header_get name hs = (case get_all name hs of [] \<Rightarrow> None | v # _ \<Rightarrow> Some v)"

text \<open>\<^verbatim>\<open>dict(self.headers)\<close>: one entry per spelling, each with the first value under any spelling.\<close>

definition dict_headers :: "(string \<times> string) list \<Rightarrow> (string \<times> string) list" where
  "dict_headers hs = foldl (\<lambda>d kv. AList.update (fst kv) (the (header_get (fst kv) hs)) d) [] hs"

definition MAX_BODY :: nat where
  "MAX_BODY = 65536"

definition REST_BODY_MAX :: int where
  "REST_BODY_MAX = 20971520"

text \<open>\<^verbatim>\<open>_body_cap\<close>.\<close>

definition body_cap :: "(string \<Rightarrow> string option) \<Rightarrow> string \<Rightarrow> int" where
  "body_cap getenv path =
     (if starts_with ''/v1/actions/'' path
      then let rest_max = (case getenv ''TOOLSTACK_REST_BODY_MAX'' of None \<Rightarrow> REST_BODY_MAX
                           | Some raw \<Rightarrow> (case py_int raw of Inl _ \<Rightarrow> REST_BODY_MAX | Inr n \<Rightarrow> n))
           in max 0 (min rest_max REST_BODY_MAX) * 4 div 3 + 65536
      else int MAX_BODY)"

text \<open>\<^verbatim>\<open>_read_body\<close> up to the read: what is read, or why nothing is.\<close>

datatype body_plan = PlanEmpty | PlanRead nat | PlanTooLarge int | PlanUnauthorized | PlanBadFraming

definition plan_body :: "(string \<Rightarrow> string option) \<Rightarrow> (string \<Rightarrow> string) \<Rightarrow> store \<Rightarrow> http_in \<Rightarrow> body_plan" where
  "plan_body getenv sha db h =
     (let hs = hi_headers h; lengths = get_all ''Content-Length'' hs in
      if length (get_all ''Idempotency-Key'' hs) > 1 then PlanBadFraming
      else if get_all ''Transfer-Encoding'' hs \<noteq> [] \<or> length lengths > 1 then PlanBadFraming
      else
        let v = (case lengths of [] \<Rightarrow> ''0'' | l # _ \<Rightarrow> l) in
        if v = [] \<or> length v > 10 \<or> \<not> list_all is_dec v then PlanBadFraming
        else
          let n = the (dec_value 0 v); cap = body_cap getenv (hi_path h) in
          if n = 0 then PlanEmpty
          else if int n > cap then PlanTooLarge cap
          else if n > MAX_BODY \<and> authenticate sha db (header_get ''Authorization'' hs) = None then PlanUnauthorized
          else PlanRead n)"

text \<open>\<^verbatim>\<open>rfile.read(n)\<close>: bytes until there are enough or the stream ends.\<close>

fun rfile_read :: "nat \<Rightarrow> rd list \<Rightarrow> stop + string" where
  "rfile_read n [] = Inr []"
| "rfile_read n (Bytes s # rs) =
     (if s = [] then Inr []
      else if length s \<ge> n then Inr (take n s)
      else (case rfile_read (n - length s) rs of Inl x \<Rightarrow> Inl x | Inr t \<Rightarrow> Inr (s @ t)))"
| "rfile_read n (Stalled # rs) = Inl TimedOut"
| "rfile_read n (Broken name # rs) = Inl (Lost name)"

datatype body_in = GotBody json | BodyTooLarge int | BodyUnauthorized | BodyBad | BodyLost stop | BodyRaised string

definition decode_body :: "(string \<Rightarrow> parsed) \<Rightarrow> nat \<Rightarrow> string \<Rightarrow> body_in" where
  "decode_body loads n raw =
     (if length raw \<noteq> n then BodyBad
      else (case loads raw of
              Parsed v \<Rightarrow> GotBody v
            | NotJson \<Rightarrow> GotBody JNull
            | NotUtf8 \<Rightarrow> GotBody JNull
            | LoadRaised name \<Rightarrow> if name = ''RecursionError'' then BodyBad else BodyRaised name))"

definition read_body :: "(string \<Rightarrow> parsed) \<Rightarrow> body_plan \<Rightarrow> rd list \<Rightarrow> body_in" where
  "read_body loads p rs =
     (case p of
        PlanEmpty \<Rightarrow> GotBody (JObj [])
      | PlanBadFraming \<Rightarrow> BodyBad
      | PlanTooLarge cap \<Rightarrow> BodyTooLarge cap
      | PlanUnauthorized \<Rightarrow> BodyUnauthorized
      | PlanRead n \<Rightarrow> (case rfile_read n rs of Inl x \<Rightarrow> BodyLost x | Inr raw \<Rightarrow> decode_body loads n raw))"

section \<open>Replying\<close>

record wire_reply =
  wr_status :: int
  wr_payload :: string
  wr_correlation :: string

text \<open>What the peer sees: a reply, a reply that may have been cut off, or a closed connection.\<close>

datatype wire = Sent wire_reply | SentPartly wire_reply | Closed

definition fresh_id :: "env \<Rightarrow> string act" where
  "fresh_id e = txn e (\<lambda>n db. (ev_rng e n, db))"

definition send_json :: "env \<Rightarrow> bool \<Rightarrow> int \<Rightarrow> string \<Rightarrow> string \<Rightarrow> wire act" where
  "send_json e fails status payload correlation_id =
     (let r = \<lparr>wr_status = status, wr_payload = payload, wr_correlation = correlation_id\<rparr> in
      if fails then do {
        audit_record e ''gateway'' ''output_error'' ''failed'' correlation_id None [(''status'', JInt status)];
        ret (SentPartly r)
      } else ret (Sent r))"

definition error_name :: "int \<Rightarrow> string" where
  "error_name status =
     (case map_of [(408, ''request_timeout''), (413, ''body_too_large''), (500, ''internal_error'')] status of
        None \<Rightarrow> ''invalid_request'' | Some s \<Rightarrow> s)"

definition send_error :: "env \<Rightarrow> bool \<Rightarrow> int \<Rightarrow> wire act" where
  "send_error e fails status = do {
     correlation_id \<leftarrow> fresh_id e;
     audit_record e ''gateway'' ''transport_error'' (if status \<ge> 500 then ''failed'' else ''invalid'') correlation_id None
       [(''status'', JInt status)];
     send_json e fails status (json_dumps (JObj [(''error'', JStr (error_name status))])) correlation_id
   }"

section \<open>One connection\<close>

record srv =
  sr_getenv :: "string \<Rightarrow> string option"
  sr_loads :: "string \<Rightarrow> parsed"

text \<open>\<^verbatim>\<open>_respond\<close>.\<close>

definition respond_http :: "env \<Rightarrow> srv \<Rightarrow> bool \<Rightarrow> http_in \<Rightarrow> wire act" where
  "respond_http e s fails h = do {
     plan \<leftarrow> query e (\<lambda>db. plan_body (sr_getenv s) (ev_sha e) db h);
     case read_body (sr_loads s) plan (hi_stream h) of
       BodyUnauthorized \<Rightarrow> do {
         correlation_id \<leftarrow> fresh_id e;
         send_json e fails 401 ([CHR 0x7B] @ quote ''error'' @ '':'' @ quote ''unauthorized'' @ [CHR 0x7D]) correlation_id
       }
     | BodyBad \<Rightarrow> send_error e fails 400
     | BodyTooLarge limit \<Rightarrow> do {
         correlation_id \<leftarrow> fresh_id e;
         audit_record e ''gateway'' ''transport_error'' ''invalid'' correlation_id None [(''status'', JInt 413)];
         send_json e fails 413 (json_dumps (JObj [(''error'', JStr ''body_too_large''), (''limit_bytes'', JInt limit)])) correlation_id
       }
     | BodyLost TimedOut \<Rightarrow> send_error e fails 408
     | BodyLost _ \<Rightarrow> ret Closed
     | BodyRaised _ \<Rightarrow> ret Closed
     | GotBody body \<Rightarrow> do {
         r \<leftarrow> handle e (hi_command h) (hi_path h) (dict_headers (hi_headers h)) body;
         case r of
           Inl _ \<Rightarrow> send_error e fails 500
         | Inr resp \<Rightarrow> send_json e fails (rs_status resp) (json_dumps (rs_body resp)) (rs_correlation_id resp)
       }
   }"

text \<open>What reading the request line and the headers came to.\<close>

datatype incoming =
    LineTooLong
  | NoRequest
  | Malformed int
  | HeadersTooLarge
  | InputTimeout
  | PeerGone
  | Arrived http_in

definition http_methods :: "string list" where
  "http_methods = [''GET'', ''POST'', ''PUT'', ''DELETE'', ''PATCH'']"

text \<open>\<^verbatim>\<open>handle_one_request\<close>; the first component says whether writing the reply fails.\<close>

definition handle_one :: "env \<Rightarrow> srv \<Rightarrow> bool \<times> incoming \<Rightarrow> wire act" where
  "handle_one e s c =
     (case snd c of
        LineTooLong \<Rightarrow> send_error e (fst c) 414
      | NoRequest \<Rightarrow> ret Closed
      | Malformed status \<Rightarrow> send_error e (fst c) status
      | HeadersTooLarge \<Rightarrow> send_error e (fst c) 431
      | InputTimeout \<Rightarrow> send_error e (fst c) 408
      | PeerGone \<Rightarrow> ret Closed
      | Arrived h \<Rightarrow>
          if hi_command h \<notin> set http_methods then send_error e (fst c) 501 else respond_http e s (fst c) h)"

text \<open>The server is single-threaded: one connection after the other.\<close>

fun listen :: "env \<Rightarrow> srv \<Rightarrow> (bool \<times> incoming) list \<Rightarrow> wire list act" where
  "listen e s [] = ret []"
| "listen e s (c # cs) = do {
     r \<leftarrow> handle_one e s c;
     rs \<leftarrow> listen e s cs;
     ret (r # rs)
   }"

section \<open>The header limit\<close>

text \<open>\<^verbatim>\<open>_InputReader.readline\<close>: one line of the buffered input, at most \<open>most\<close> characters, from the
  budget all header lines share. \<^const>\<open>None\<close> is \<^verbatim>\<open>_HeaderTooLarge\<close>.\<close>

definition take_line :: "string \<Rightarrow> string" where
  "take_line s = (case partition_at (CHR 0x0A) s of (a, found, _) \<Rightarrow> if found then a @ [CHR 0x0A] else a)"

definition read_header_line :: "nat \<Rightarrow> nat \<Rightarrow> string \<Rightarrow> (string \<times> nat \<times> string) option" where
  "read_header_line remaining most s =
     (let line = take (min most (remaining + 1)) (take_line s)
      in if length line > remaining then None else Some (line, remaining - length line, drop (length line) s))"

fun read_header_lines :: "nat \<Rightarrow> nat \<Rightarrow> nat \<Rightarrow> string \<Rightarrow> string list option" where
  "read_header_lines 0 remaining most s = Some []"
| "read_header_lines (Suc k) remaining most s =
     (case read_header_line remaining most s of
        None \<Rightarrow> None
      | Some (line, remaining', rest) \<Rightarrow> map_option ((#) line) (read_header_lines k remaining' most rest))"

section \<open>Reloading the catalog and certifying it\<close>

definition observation_fingerprint :: "(string \<Rightarrow> string) \<Rightarrow> json \<Rightarrow> json \<Rightarrow> catalog \<Rightarrow> string" where
  "observation_fingerprint sha tools_root tool_dirs catalog =
     sha (dumps_sorted (JObj [(''root'', tools_root), (''tool_dirs'', tool_dirs),
       (''catalog'', JObj (map_vals (\<lambda>entry. case entry_json entry of
           JObj d \<Rightarrow> JObj (filter (\<lambda>kv. fst kv \<noteq> ''manifest_digest'') d) | v \<Rightarrow> v) catalog))]))"

record server =
  sv_catalog :: catalog
  sv_observation :: "string option"
  sv_store :: store

text \<open>\<^verbatim>\<open>_publish_catalog_receipt\<close>; \<open>fp\<close> is the fingerprint of a catalog under this server's directories.\<close>

definition publish_receipt :: "(catalog \<Rightarrow> string) \<Rightarrow> string \<Rightarrow> server \<Rightarrow> server" where
  "publish_receipt fp observation sv =
     sv\<lparr>sv_store := set_catalog_receipt (JObj [(''observation_id'', JStr observation),
                                               (''fingerprint'', JStr (fp (sv_catalog sv)))]) (sv_store sv),
        sv_observation := Some observation\<rparr>"

definition catalog_counts :: "catalog \<Rightarrow> int \<times> int" where
  "catalog_counts catalog = (int (length catalog), int (length (list_ops catalog)))"

text \<open>\<^verbatim>\<open>_reload_registry\<close>: the certificate is withdrawn first; \<open>loaded\<close> is what reading the sources gives.\<close>

definition reload_registry ::
  "(catalog \<Rightarrow> string) \<Rightarrow> catalog result \<Rightarrow> string \<Rightarrow> string \<Rightarrow> rat \<Rightarrow> server \<Rightarrow> exn option \<times> server" where
  "reload_registry fp loaded observation correlation_id now sv =
     (let sv1 = sv\<lparr>sv_observation := None, sv_store := set_catalog_receipt JNull (sv_store sv)\<rparr>;
          old_counts = catalog_counts (sv_catalog sv)
      in case loaded of
           Inl x \<Rightarrow> (Some x, sv1)
         | Inr new \<Rightarrow>
             let sv2 = publish_receipt fp observation (sv1\<lparr>sv_catalog := new\<rparr>); after = catalog_counts new
             in (None, sv2\<lparr>sv_store := snd (append_audit now ''registry'' ''reloaded'' ''ok'' (Some correlation_id) None
                  (JObj [(''tools_before'', JInt (fst old_counts)), (''ops_before'', JInt (snd old_counts)),
                         (''tools_after'', JInt (fst after)), (''ops_after'', JInt (snd after))]) (sv_store sv2))\<rparr>))"

text \<open>The health answer of a server, and \<^verbatim>\<open>observe_catalog\<close>: two health answers around a private reading
  of the receipt and of the sources. Every failure is \<^verbatim>\<open>unknown\<close>.\<close>

definition health_of :: "server \<Rightarrow> json" where
  "health_of sv = JObj ((''status'', JStr ''ok'') #
     (case sv_observation sv of None \<Rightarrow> [] | Some o' \<Rightarrow> if o' = [] then [] else [(''catalog_observation_id'', JStr o')]))"

definition observe_catalog ::
  "(catalog \<Rightarrow> string) \<Rightarrow> (int \<times> json) option \<Rightarrow> json \<Rightarrow> catalog result \<Rightarrow> (int \<times> json) option \<Rightarrow> (string \<times> string list) option" where
  "observe_catalog fp health receipt current latest =
     (case health of
        None \<Rightarrow> None
      | Some (st, h) \<Rightarrow>
          if st \<noteq> 200 \<or> jget ''status'' h \<noteq> Some (JStr ''ok'') then None
          else (case jget ''catalog_observation_id'' h of
            Some (JStr observation) \<Rightarrow>
              if observation = [] then None
              else (case current of
                Inl _ \<Rightarrow> None
              | Inr c \<Rightarrow>
                  if jget ''observation_id'' receipt \<noteq> Some (JStr observation) then None
                  else if jget ''fingerprint'' receipt \<noteq> Some (JStr (fp c)) then None
                  else (case latest of
                    None \<Rightarrow> None
                  | Some (st2, h2) \<Rightarrow>
                      if st2 \<noteq> 200 \<or> jget ''status'' h2 \<noteq> Some (JStr ''ok'')
                         \<or> jget ''catalog_observation_id'' h2 \<noteq> Some (JStr observation) then None
                      else Some (observation, tool_ids c)))
          | _ \<Rightarrow> None))"

definition target_verified :: "(string \<times> string list) option \<Rightarrow> string \<Rightarrow> bool" where
  "target_verified verdict target =
     (case verdict of None \<Rightarrow> False | Some (_, ids) \<Rightarrow> (\<forall>i \<in> set ids. i \<noteq> []) \<and> target \<in> set ids)"

end
