(* ===== verification/EgressProxy.thy ===== *)
theory EgressProxy
  imports BrokerServer Url
begin

text \<open>
  \<^verbatim>\<open>toolyard/egress_proxy.py\<close>, the only way out of a sandboxed tool, and the text of the packet filter that
  makes it so (\<^verbatim>\<open>toolyard/netguard.py\<close>). A request is what the parser of the standard library gives; name
  resolution and the servers behind are parameters. The result lists the destinations a connection was
  opened to. A deadline that strikes is a read or an exchange that fails.
\<close>

section \<open>Destinations\<close>

definition authority :: "string \<Rightarrow> nat \<Rightarrow> string" where
  "authority host port = (if CHR '':'' \<in> set host then [CHR ''['' ] @ host @ [CHR '']''] else host) @ '':'' @ show_int (int port)"

definition host_of :: "url \<Rightarrow> string" where
  "host_of u = (case url_hostname u of None \<Rightarrow> [] | Some h \<Rightarrow> h)"

text \<open>The checks of \<^verbatim>\<open>do_CONNECT\<close>: \<^const>\<open>Inl\<close> is what is logged with the refusal.\<close>

definition connect_target :: "string list \<Rightarrow> string \<Rightarrow> string + (string \<times> nat)" where
  "connect_target allow path =
     (case urlsplit (''//'' @ path) of
        Inl _ \<Rightarrow> Inl ''invalid destination''
      | Inr u \<Rightarrow>
          (case url_port u of
             Inl _ \<Rightarrow> Inl ''invalid destination''
           | Inr p \<Rightarrow>
               let host = host_of u; port = (case p of None \<Rightarrow> 443 | Some n \<Rightarrow> n) in
               if host = [] \<or> \<not> (1 \<le> port \<and> port \<le> 65535) \<or> url_username u \<noteq> None \<or> url_password u \<noteq> None
                  \<or> url_path u \<noteq> [] \<or> url_query u \<noteq> [] \<or> url_fragment u \<noteq> []
               then Inl ''invalid destination''
               else if \<not> (authority host port \<in> set allow \<or> (port = 443 \<and> host \<in> set allow)) then Inl (authority host port)
               else Inr (host, port)))"

section \<open>Tunnels\<close>

definition MAX_RESPONSE :: nat where
  "MAX_RESPONSE = 4194304"

text \<open>\<^verbatim>\<open>_pump\<close>: what the sockets give in turn, \<^const>\<open>True\<close> for the tool's side; \<open>writes\<close> says whether a write
  to the other side succeeds. The result is what was written, in order, with the side it came from.\<close>

fun pump :: "nat \<Rightarrow> (bool \<times> rd \<times> bool) list \<Rightarrow> (bool \<times> string) list" where
  "pump sent [] = []"
| "pump sent ((side, Bytes s, ok) # es) =
     (if s = [] \<or> sent + length s > MAX_RESPONSE \<or> \<not> ok then [] else (side, s) # pump (sent + length s) es)"
| "pump sent ((side, _, ok) # es) = []"

section \<open>Plain requests\<close>

record proxy_in =
  px_command :: string
  px_path :: string
  px_headers :: "(string \<times> string) list"
  px_stream :: "rd list"

record outbound =
  ob_host :: string
  ob_port :: nat
  ob_command :: string
  ob_path :: string
  ob_body :: "string option"
  ob_headers :: "(string \<times> string) list"

datatype upstream_reply = UpFails | UpReply int "(string \<times> string) list" "rd list"

record upstream =
  up_connects :: "string \<Rightarrow> nat \<Rightarrow> bool"
  up_answers :: "outbound \<Rightarrow> upstream_reply"
  up_tunnel :: "string \<Rightarrow> nat \<Rightarrow> (bool \<times> rd \<times> bool) list"

datatype proxy_out =
    Denied string
  | Refused int
  | Tunnel "(bool \<times> string) list"
  | Relayed int "(string \<times> string) list" string
  | Aborted

definition MAX_REQUEST :: nat where
  "MAX_REQUEST = 1048576"

definition origin_path :: "url \<Rightarrow> string" where
  "origin_path u = (if url_path u = [] then ''/'' else url_path u) @ (if url_query u = [] then [] else ''?'' @ url_query u)"

definition request_headers :: "(string \<times> string) list \<Rightarrow> (string \<times> string) list" where
  "request_headers hs =
     foldl (\<lambda>d kv. AList.update (fst kv) (snd kv) d) []
       (filter (\<lambda>kv. py_lower (fst kv) \<notin> {''proxy-connection'', ''connection'', ''host''}) hs)"

definition reply_headers :: "(string \<times> string) list \<Rightarrow> (string \<times> string) list" where
  "reply_headers hs =
     filter (\<lambda>kv. py_lower (fst kv) \<notin> {''transfer-encoding'', ''connection'', ''content-length'', ''keep-alive'', ''upgrade'', ''trailer''}) hs
     @ [(''Connection'', ''close'')]"

text \<open>The loop that copies the response: reads of at most 64 KiB, and never more than the limit is written.\<close>

function relay :: "nat \<Rightarrow> rd list \<Rightarrow> string" where
  "relay sent [] = []"
| "relay sent (Bytes s # rs) =
     (let n = min 65536 (MAX_RESPONSE - sent + 1); chunk = take n s in
      if chunk = [] \<or> sent + length chunk > MAX_RESPONSE then []
      else chunk @ relay (sent + length chunk) (if drop n s = [] then rs else Bytes (drop n s) # rs))"
| "relay sent (Stalled # rs) = []"
| "relay sent (Broken name # rs) = []"
  by pat_completeness auto
termination
  by (relation "measure (\<lambda>(l, rs). sum_list (map (\<lambda>r. case r of Bytes s \<Rightarrow> Suc (length s) | _ \<Rightarrow> 1) rs))")
    (auto simp: min_def)

declare relay.simps(2) [simp del]

definition announced_ok :: "(string \<times> string) list \<Rightarrow> bool" where
  "announced_ok hs =
     (case header_get ''Content-Length'' hs of
        None \<Rightarrow> True
      | Some v \<Rightarrow> v = [] \<or> (list_all is_dec v \<and> (case py_int_digits v of Inl _ \<Rightarrow> False | Inr n \<Rightarrow> n \<le> int MAX_RESPONSE)))"

text \<open>\<^verbatim>\<open>_forward\<close>: the outcome and the destinations connected to.\<close>

definition exchange_up :: "upstream \<Rightarrow> outbound \<Rightarrow> proxy_out \<times> (string \<times> nat) list" where
  "exchange_up up ob =
     (if \<not> up_connects up (ob_host ob) (ob_port ob) then (Refused 502, [])
      else (case up_answers up ob of
              UpFails \<Rightarrow> Refused 502
            | UpReply status hs rs \<Rightarrow>
                if \<not> announced_ok hs then Refused 502
                else Relayed status (reply_headers hs) (if ob_command ob = ''HEAD'' then [] else relay 0 rs),
            [(ob_host ob, ob_port ob)]))"

definition forward_body :: "upstream \<Rightarrow> proxy_in \<Rightarrow> url \<Rightarrow> nat \<Rightarrow> proxy_out \<times> (string \<times> nat) list" where
  "forward_body up q u n =
     (case (if n = 0 then Inr [] else rfile_read n (px_stream q)) of
        Inl _ \<Rightarrow> (Aborted, [])
      | Inr body \<Rightarrow>
          if length body \<noteq> n then (Refused 400, [])
          else if url_scheme u \<noteq> ''http'' \<or> (case url_username u of None \<Rightarrow> False | Some s \<Rightarrow> s \<noteq> [])
                  \<or> (case url_password u of None \<Rightarrow> False | Some s \<Rightarrow> s \<noteq> []) then (Refused 400, [])
          else (case url_port u of
                  Inl _ \<Rightarrow> (Refused 502, [])
                | Inr p \<Rightarrow> exchange_up up
                    \<lparr>ob_host = host_of u, ob_port = (case p of None \<Rightarrow> 80 | Some k \<Rightarrow> if k = 0 then 80 else k),
                     ob_command = px_command q, ob_path = origin_path u, ob_body = (if n = 0 then None else Some body),
                     ob_headers = request_headers (px_headers q)\<rparr>))"

definition forward :: "string list \<Rightarrow> upstream \<Rightarrow> proxy_in \<Rightarrow> proxy_out \<times> (string \<times> nat) list" where
  "forward allow up q =
     (case urlsplit (px_path q) of
        Inl _ \<Rightarrow> (Aborted, [])
      | Inr u \<Rightarrow>
          let host = host_of u; lengths = get_all ''Content-Length'' (px_headers q);
              v = (case lengths of [] \<Rightarrow> ''0'' | l # _ \<Rightarrow> l) in
          if host = [] \<or> host \<notin> set allow then (Denied (if host = [] then ''?'' else host), [])
          else if (case header_get ''Transfer-Encoding'' (px_headers q) of None \<Rightarrow> False | Some s \<Rightarrow> s \<noteq> []) \<or> length lengths > 1
          then (Refused 400, [])
          else if v = [] \<or> \<not> list_all is_dec v then (Refused 400, [])
          else if length v > 10 \<or> the (dec_value 0 v) > MAX_REQUEST then (Refused 413, [])
          else forward_body up q u (the (dec_value 0 v)))"

definition tunnel :: "string list \<Rightarrow> upstream \<Rightarrow> proxy_in \<Rightarrow> proxy_out \<times> (string \<times> nat) list" where
  "tunnel allow up q =
     (case connect_target allow (px_path q) of
        Inl reason \<Rightarrow> (Denied reason, [])
      | Inr (host, port) \<Rightarrow>
          if \<not> up_connects up host port then (Refused 502, [])
          else (Tunnel (pump 0 (up_tunnel up host port)), [(host, port)]))"

definition forward_methods :: "string list" where
  "forward_methods = [''GET'', ''POST'', ''PUT'', ''DELETE'', ''PATCH'', ''HEAD'', ''OPTIONS'']"

text \<open>One request of the tool; the base class answers 501 to other methods.\<close>

definition proxy_request :: "string list \<Rightarrow> upstream \<Rightarrow> proxy_in \<Rightarrow> proxy_out \<times> (string \<times> nat) list" where
  "proxy_request allow up q =
     (if px_command q = ''CONNECT'' then tunnel allow up q
      else if px_command q \<in> set forward_methods then forward allow up q
      else (Refused 501, []))"

section \<open>The packet filter\<close>

definition tool_id_ok :: "string \<Rightarrow> bool" where
  "tool_id_ok s \<longleftrightarrow> s \<noteq> [] \<and> length s \<le> 64 \<and> (is_lower (hd s) \<or> is_dec (hd s))
     \<and> list_all (\<lambda>c. is_lower c \<or> is_dec c \<or> c = CHR ''_'' \<or> c = CHR ''-'') s"

text \<open>\<^verbatim>\<open>_ruleset\<close>; \<open>table\<close> is the name made from the hash of the tool.\<close>

definition rule_prefix :: "string \<Rightarrow> string" where
  "rule_prefix tool_id = ''socket cgroupv2 level 2 '' @ [CHR 0x22] @ ''toolyard/'' @ tool_id @ [CHR 0x22] @ '' ''"

definition filter_rules :: "string \<Rightarrow> nat option \<Rightarrow> string list" where
  "filter_rules tool_id proxy_port =
     [rule_prefix tool_id @ ''ct state established,related accept'']
     @ (case proxy_port of None \<Rightarrow> []
        | Some p \<Rightarrow> [rule_prefix tool_id @ ''ip daddr 127.0.0.1 tcp dport '' @ show_int (int p) @ '' accept''])
     @ [rule_prefix tool_id @ ''meta nfproto ipv4 drop'', rule_prefix tool_id @ ''meta nfproto ipv6 drop'']"

definition ruleset :: "string \<Rightarrow> string \<Rightarrow> nat option \<Rightarrow> string" where
  "ruleset table tool_id proxy_port =
     ''table inet '' @ table @ '' '' @ [CHR 0x7B, CHR 0x0A] @ ''  chain out '' @ [CHR 0x7B, CHR 0x0A]
     @ ''    type filter hook output priority 0; policy accept;'' @ [CHR 0x0A] @ ''    ''
     @ join_with ([CHR 0x0A] @ ''    '') (filter_rules tool_id proxy_port)
     @ [CHR 0x0A] @ ''  '' @ [CHR 0x7D, CHR 0x0A, CHR 0x7D, CHR 0x0A]"

section \<open>What leaves the sandbox\<close>

lemma connect_target_allowed:
  "connect_target allow path = Inr (host, port) \<Longrightarrow>
     host \<noteq> [] \<and> 1 \<le> port \<and> port \<le> 65535 \<and> (authority host port \<in> set allow \<or> port = 443 \<and> host \<in> set allow)"
  by (auto simp: connect_target_def Let_def split: sum.splits if_splits)

lemma exchange_up_targets: "d \<in> set (snd (exchange_up up ob)) \<Longrightarrow> d = (ob_host ob, ob_port ob)"
  by (auto simp: exchange_up_def split: if_splits)

lemma forward_targets:
  assumes "(host, port) \<in> set (snd (forward allow up q))"
  shows "host \<in> set allow \<and> (\<exists>u. urlsplit (px_path q) = Inr u \<and> url_scheme u = ''http'' \<and> url_hostname u = Some host)"
proof -
  from assms obtain u n where u: "urlsplit (px_path q) = Inr u" "host_of u \<noteq> []" "host_of u \<in> set allow"
    and fb: "(host, port) \<in> set (snd (forward_body up q u n))"
    by (auto simp: forward_def Let_def split: sum.splits if_splits)
  from fb obtain ob where ob: "(host, port) \<in> set (snd (exchange_up up ob))" "ob_host ob = host_of u" "url_scheme u = ''http''"
    by (fastforce simp: forward_body_def split: sum.splits if_splits)
  from exchange_up_targets [OF ob(1)] ob(2) have "host = host_of u" by simp
  with u ob(3) show ?thesis by (auto simp: host_of_def split: option.splits)
qed

lemma exchange_up_out:
  "fst (exchange_up up ob) \<noteq> Denied reason" "fst (exchange_up up ob) \<noteq> Tunnel ws"
  "fst (exchange_up up ob) = Relayed status hs body \<Longrightarrow> body = [] \<or> (\<exists>rs. body = relay 0 rs)"
  by (auto simp: exchange_up_def split: upstream_reply.splits if_splits)

lemma forward_body_out:
  "fst (forward_body up q u n) \<noteq> Denied reason" "fst (forward_body up q u n) \<noteq> Tunnel ws"
  "fst (forward_body up q u n) = Relayed status hs body \<Longrightarrow> body = [] \<or> (\<exists>rs. body = relay 0 rs)"
  by (auto simp: forward_body_def exchange_up_out split: sum.splits if_splits dest: exchange_up_out(3))

lemma forward_out:
  "fst (forward allow up q) = Denied reason \<Longrightarrow> snd (forward allow up q) = []" "fst (forward allow up q) \<noteq> Tunnel ws"
  "fst (forward allow up q) = Relayed status hs body \<Longrightarrow> body = [] \<or> (\<exists>rs. body = relay 0 rs)"
  by (auto simp: forward_def Let_def forward_body_out split: sum.splits if_splits dest: forward_body_out(3))

lemma tunnel_out:
  "fst (tunnel allow up q) = Denied reason \<Longrightarrow> snd (tunnel allow up q) = []"
  "fst (tunnel allow up q) = Tunnel ws \<Longrightarrow> \<exists>host port. ws = pump 0 (up_tunnel up host port)"
  "fst (tunnel allow up q) \<noteq> Relayed status hs body"
proof -
  show "fst (tunnel allow up q) = Tunnel ws \<Longrightarrow> \<exists>host port. ws = pump 0 (up_tunnel up host port)"
    by (auto simp: tunnel_def split: sum.splits if_splits) blast
qed (auto simp: tunnel_def split: sum.splits if_splits)

text \<open>C35: The proxy opens connections only to destinations on the tool's allowlist: a tunnel goes to a listed
  \<^verbatim>\<open>host:port\<close>, or to port 443 of a listed host; any other request goes to a listed host. A refused request
  opens none.\<close>

theorem egress_only_allowed:
  assumes "(host, port) \<in> set (snd (proxy_request allow up q))"
  shows "(px_command q = ''CONNECT'' \<and> (authority host port \<in> set allow \<or> port = 443 \<and> host \<in> set allow)
       \<or> px_command q \<in> set forward_methods \<and> host \<in> set allow)
     \<and> fst (proxy_request allow up q) \<noteq> Denied reason"
proof
  show "px_command q = ''CONNECT'' \<and> (authority host port \<in> set allow \<or> port = 443 \<and> host \<in> set allow)
     \<or> px_command q \<in> set forward_methods \<and> host \<in> set allow"
  proof (cases "px_command q = ''CONNECT''")
    case True
    with assms have "connect_target allow (px_path q) = Inr (host, port)"
      by (auto simp: proxy_request_def tunnel_def split: sum.splits if_splits)
    from connect_target_allowed [OF this] True show ?thesis by blast
  next
    case False
    with assms have "px_command q \<in> set forward_methods" "(host, port) \<in> set (snd (forward allow up q))"
      by (auto simp: proxy_request_def split: if_splits)
    with forward_targets show ?thesis by blast
  qed
  show "fst (proxy_request allow up q) \<noteq> Denied reason"
    using assms forward_out(1) [of allow up q reason] tunnel_out(1) [of allow up q reason]
    by (auto simp: proxy_request_def split: if_splits)
qed

lemma pump_bounded: "sent \<le> MAX_RESPONSE \<Longrightarrow> sent + length (concat (map snd (pump sent es))) \<le> MAX_RESPONSE"
proof (induction sent es rule: pump.induct)
  case (2 sent side s ok es)
  then show ?case by (auto simp: add.assoc)
qed auto

fun side_bytes :: "bool \<Rightarrow> (bool \<times> rd \<times> bool) list \<Rightarrow> string" where
  "side_bytes b [] = []"
| "side_bytes b ((side, Bytes s, ok) # es) = (if side = b then s else []) @ side_bytes b es"
| "side_bytes b ((side, _, ok) # es) = side_bytes b es"

lemma pump_prefix: "\<exists>more. side_bytes b es = concat (map snd (filter (\<lambda>p. fst p = b) (pump sent es))) @ more"
  by (induction sent es rule: pump.induct) auto

lemma relay_bounded: "sent \<le> MAX_RESPONSE \<Longrightarrow> sent + length (relay sent rs) \<le> MAX_RESPONSE"
proof (induction sent rs rule: relay.induct)
  case (2 sent s rs)
  define n where "n = min 65536 (MAX_RESPONSE - sent + 1)"
  define rest where "rest = (if drop n s = [] then rs else Bytes (drop n s) # rs)"
  have eq: "relay sent (Bytes s # rs) =
      (if take n s = [] \<or> sent + length (take n s) > MAX_RESPONSE then [] else take n s @ relay (sent + length (take n s)) rest)"
    unfolding relay.simps(2) Let_def n_def [symmetric] rest_def by (rule refl)
  show ?case
  proof (cases "take n s = [] \<or> sent + length (take n s) > MAX_RESPONSE")
    case True
    with "2.prems" show ?thesis unfolding eq by simp
  next
    case False
    then have "sent + length (take n s) \<le> MAX_RESPONSE" by simp
    from "2.IH" [OF n_def refl False this, folded rest_def] False show ?thesis unfolding eq by (simp add: add.assoc)
  qed
qed simp_all

text \<open>However much is offered, a tunnel carries at most 4 MiB in both directions together and a relayed
  response at most 4 MiB; what a tunnel writes to one side is a prefix of what the other side sent.\<close>

theorem egress_bounded:
  shows "fst (proxy_request allow up q) = Tunnel ws \<Longrightarrow> length (concat (map snd ws)) \<le> 4194304
     \<and> (\<exists>host port more. side_bytes b (up_tunnel up host port) = concat (map snd (filter (\<lambda>p. fst p = b) ws)) @ more)"
    and "fst (proxy_request allow up q) = Relayed status hs body \<Longrightarrow> length body \<le> 4194304"
proof -
  assume "fst (proxy_request allow up q) = Tunnel ws"
  then have "fst (tunnel allow up q) = Tunnel ws" using forward_out(2) by (auto simp: proxy_request_def split: if_splits)
  from tunnel_out(2) [OF this] obtain host port where ws: "ws = pump 0 (up_tunnel up host port)" by blast
  show "length (concat (map snd ws)) \<le> 4194304
     \<and> (\<exists>host port more. side_bytes b (up_tunnel up host port) = concat (map snd (filter (\<lambda>p. fst p = b) ws)) @ more)"
    using pump_bounded [of 0 "up_tunnel up host port"] pump_prefix [of b "up_tunnel up host port" 0]
    unfolding ws MAX_RESPONSE_def by auto
next
  assume "fst (proxy_request allow up q) = Relayed status hs body"
  then have "fst (forward allow up q) = Relayed status hs body" using tunnel_out(3) by (auto simp: proxy_request_def split: if_splits)
  then have "body = [] \<or> (\<exists>rs. body = relay 0 rs)" by (rule forward_out(3))
  then show "length body \<le> 4194304" using relay_bounded [of 0] by (auto simp: MAX_RESPONSE_def)
qed

text \<open>A plain request may name any port of a listed host, and an entry \<^verbatim>\<open>host:port\<close> permits none.\<close>

definition demo_url :: "string \<Rightarrow> string \<Rightarrow> url" where
  "demo_url netloc path = \<lparr>url_scheme = ''http'', url_netloc = netloc, url_path = path, url_query = [], url_fragment = []\<rparr>"

lemma demo_urls:
  "urlsplit ''http://api.example:22/'' = Inr (demo_url ''api.example:22'' ''/'')"
  "hostinfo (demo_url ''api.example:22'' ''/'') = (''api.example'', Some ''22'')"
  "url_username (demo_url ''api.example:22'' ''/'') = None" "url_password (demo_url ''api.example:22'' ''/'') = None"
  "py_lower ''api.example'' = ''api.example''" "dec_value 0 ''22'' = Some 22"
  by code_simp+

lemma plain_request_any_port:
  assumes "up_connects up ''api.example'' 22"
  shows "snd (proxy_request [''api.example''] up
     \<lparr>px_command = ''GET'', px_path = ''http://api.example:22/'', px_headers = [], px_stream = []\<rparr>) = [(''api.example'', 22)]"
    and "fst (proxy_request [''api.example:22''] up
     \<lparr>px_command = ''GET'', px_path = ''http://api.example:22/'', px_headers = [], px_stream = []\<rparr>) = Denied ''api.example''"
proof -
  have port: "url_port (demo_url ''api.example:22'' ''/'') = Inr (Some 22)" by (simp add: url_port_def demo_urls del: dec_value.simps)
  have host: "host_of (demo_url ''api.example:22'' ''/'') = ''api.example''" by (simp add: host_of_def url_hostname_def Let_def demo_urls)
  have heads: "get_all ''Content-Length'' [] = []" "header_get ''Transfer-Encoding'' [] = None" by code_simp+
  have zero: "dec_value 0 ''0'' = Some 0" "is_dec (CHR ''0'')" by code_simp+
  show "snd (proxy_request [''api.example''] up
     \<lparr>px_command = ''GET'', px_path = ''http://api.example:22/'', px_headers = [], px_stream = []\<rparr>) = [(''api.example'', 22)]"
    using assms
    by (simp add: proxy_request_def forward_methods_def forward_def demo_urls(1,3,4) host heads zero forward_body_def port exchange_up_def
        Let_def MAX_REQUEST_def del: dec_value.simps) (simp add: demo_url_def)
  show "fst (proxy_request [''api.example:22''] up
     \<lparr>px_command = ''GET'', px_path = ''http://api.example:22/'', px_headers = [], px_stream = []\<rparr>) = Denied ''api.example''"
    by (simp add: proxy_request_def forward_methods_def forward_def demo_urls(1) host)
qed

section \<open>Witnesses\<close>

definition demo_up :: upstream where
  "demo_up = \<lparr>up_connects = (\<lambda>_ _. True), up_answers = (\<lambda>_. UpReply 200 [] []),
     up_tunnel = (\<lambda>_ _. [(True, Bytes ''hi'', True), (False, Stalled, True)])\<rparr>"

definition demo_connect :: proxy_in where
  "demo_connect = \<lparr>px_command = ''CONNECT'', px_path = ''api.example:443'', px_headers = [], px_stream = []\<rparr>"

lemma demo_target: "connect_target [''api.example''] (px_path demo_connect) = Inr (''api.example'', 443)"
proof -
  let ?u = "\<lparr>url_scheme = [], url_netloc = ''api.example:443'', url_path = [], url_query = [], url_fragment = []\<rparr>"
  have u: "urlsplit ''//api.example:443'' = Inr ?u" "hostinfo ?u = (''api.example'', Some ''443'')"
    "url_username ?u = None" "url_password ?u = None" "dec_value 0 ''443'' = Some 443" by code_simp+
  have "url_port ?u = Inr (Some 443)" by (simp add: url_port_def u(2,5) del: dec_value.simps)
  moreover have "host_of ?u = ''api.example''" by (simp add: host_of_def url_hostname_def Let_def u(2) demo_urls(5))
  ultimately show ?thesis using u(1,3,4) by (simp add: connect_target_def demo_connect_def)
qed

lemma demo_tunnel: "proxy_request [''api.example''] demo_up demo_connect = (Tunnel [(True, ''hi'')], [(''api.example'', 443)])"
proof -
  have "px_command demo_connect = ''CONNECT''" by (simp add: demo_connect_def)
  with demo_target show ?thesis by (simp add: proxy_request_def tunnel_def demo_up_def MAX_RESPONSE_def)
qed

theorem egress_only_allowed_witness:
  "(''api.example'', 443) \<in> set (snd (proxy_request [''api.example''] demo_up demo_connect))
   \<and> (authority ''api.example'' 443 \<in> {''api.example''} \<or> (443::nat) = 443 \<and> ''api.example'' \<in> {''api.example''})"
proof -
  have opened: "(''api.example'', 443) \<in> set (snd (proxy_request [''api.example''] demo_up demo_connect))" by (simp add: demo_tunnel)
  from egress_only_allowed [OF opened] opened show ?thesis by auto
qed

theorem egress_bounded_witness:
  "length (concat (map snd [(True, ''hi'')])) \<le> 4194304
   \<and> fst (proxy_request [''api.example''] demo_up demo_connect) = Tunnel [(True, ''hi'')]"
  using egress_bounded(1) [of "[''api.example'']" demo_up demo_connect "[(True, ''hi'')]" True] by (simp add: demo_tunnel)

end
