(* ===== verification/Processes.thy ===== *)
theory Processes
  imports Effects
begin

text \<open>
  The processes \<^verbatim>\<open>toolyard/runner.py\<close> supervises, and how it stops one: \<^verbatim>\<open>_terminate\<close>. The operating
  system is a parameter that answers each call at its tick: which process has a number now, whether a child
  has exited, whether a signal was delivered. The world logs every call with its answer; a process that the
  record names may be gone and its number given to another one at any time.
\<close>

section \<open>The operating system\<close>

datatype wait_result = NotChild | StillRunning | Reaped
datatype kill_result = Delivered | NoProcess | Refused

datatype child = MainProcess | LogFollower | EgressProxy

record secret_spec =
  ss_name :: string
  ss_field :: string
  ss_writable :: bool
  ss_item :: "string option"

datatype os_event =
    Looked int "string option"
  | Waited int wait_result
  | Probed int kill_result
  | Signalled int nat kill_result
  | Spawned child int "string list" "(string \<times> string) list"
  | Registered string string "secret_spec list"
  | Unregistered string

text \<open>The record of a started tool (\<^verbatim>\<open>RunningTool\<close>).\<close>

record running_tool =
  rn_tool_id :: string
  rn_port :: int
  rn_backend :: string
  rn_handle :: string
  rn_log_pid :: "string option"
  rn_log_path :: "string option"
  rn_egress_pid :: "string option"
  rn_e_secret :: "string option"
  rn_sps_host :: string
  rn_sps_port :: int
  rn_sps_ca :: "string option"
  rn_boot_id :: "string option"
  rn_channel_secret :: "string option"
  rn_process_identity :: "string option"
  rn_log_identity :: "string option"
  rn_egress_identity :: "string option"
  rn_process_exited :: bool
  rn_log_exited :: bool
  rn_egress_exited :: bool
  rn_declarations :: "secret_spec list option"
  rn_manifest_digest :: "string option"

text \<open>\<^verbatim>\<open>os_boot\<close> is the cached \<^verbatim>\<open>_boot_id\<close>, \<open>os_look\<close> is \<^verbatim>\<open>_process_identity\<close>, \<open>os_lag\<close> what an
  iteration takes beyond its sleep, in milliseconds.\<close>

record os_env =
  os_boot :: "string option"
  os_look :: "nat \<Rightarrow> int \<Rightarrow> string option"
  os_wait :: "nat \<Rightarrow> int \<Rightarrow> wait_result"
  os_probe :: "nat \<Rightarrow> int \<Rightarrow> kill_result"
  os_kill :: "nat \<Rightarrow> int \<Rightarrow> nat \<Rightarrow> kill_result"
  os_lag :: "nat \<Rightarrow> nat"

text \<open>\<open>ow_rec\<close> is the variable \<^verbatim>\<open>running\<close> of a start in progress, which its handlers read.\<close>

record os_world =
  ow_tick :: nat
  ow_log :: "os_event list"
  ow_rec :: running_tool

type_synonym 'a os = "(os_world, 'a) state"

definition observe :: "(nat \<Rightarrow> 'a) \<Rightarrow> ('a \<Rightarrow> os_event) \<Rightarrow> 'a os" where
  "observe f ev = State (\<lambda>w. let r = f (ow_tick w) in
     (r, w\<lparr>ow_tick := Suc (ow_tick w), ow_log := ow_log w @ [ev r]\<rparr>))"

definition look_up :: "os_env \<Rightarrow> int \<Rightarrow> string option os" where
  "look_up e pid = observe (\<lambda>n. os_look e n pid) (Looked pid)"

definition wait_child :: "os_env \<Rightarrow> int \<Rightarrow> wait_result os" where
  "wait_child e pid = observe (\<lambda>n. os_wait e n pid) (Waited pid)"

definition nonempty :: "string option \<Rightarrow> bool" where
  "nonempty s \<longleftrightarrow> s \<noteq> None \<and> s \<noteq> Some []"

section \<open>Stopping one process\<close>

text \<open>\<^verbatim>\<open>_pid_absent\<close>; \<^const>\<open>Inl\<close> is the message of the \<^verbatim>\<open>RuntimeError\<close>.\<close>

definition pid_absent :: "os_env \<Rightarrow> int \<Rightarrow> (string + bool) os" where
  "pid_absent e pid =
     (if pid \<le> 1 then ret (Inl ''invalid process handle; retain state'')
      else do {
        r \<leftarrow> observe (\<lambda>n. os_probe e n pid) (Probed pid);
        ret (case r of NoProcess \<Rightarrow> Inr True
             | Refused \<Rightarrow> Inl ''process absence unconfirmed; retain state''
             | Delivered \<Rightarrow> Inr False)
      })"

definition check_exit :: "os_env \<Rightarrow> int \<Rightarrow> string option \<Rightarrow> string option \<Rightarrow> (string + bool) os" where
  "check_exit e pid identity boot =
     (if nonempty boot \<and> nonempty (os_boot e) \<and> boot \<noteq> os_boot e then ret (Inr True)
      else if nonempty boot \<and> os_boot e = None then ret (Inl ''process boot identity unconfirmed; retain state'')
      else do {
        current \<leftarrow> look_up e pid;
        if identity \<noteq> None \<and> current \<noteq> None \<and> current \<noteq> identity
        then ret (Inl ''process identity changed; retain state'')
        else do {
          r \<leftarrow> wait_child e pid;
          if r = Reaped then ret (Inr True)
          else if \<not> nonempty boot \<or> \<not> nonempty (os_boot e) then ret (Inl ''process boot identity unconfirmed; retain state'')
          else pid_absent e pid
        }
      })"

text \<open>The polling loop: a check and a sleep of 50 ms until the time is used up.\<close>

function wait_loop ::
  "os_env \<Rightarrow> int \<Rightarrow> string option \<Rightarrow> string option \<Rightarrow> nat \<Rightarrow> os_world \<Rightarrow> (string + bool) \<times> os_world" where
  "wait_loop e pid identity boot time_left w =
     (if time_left = 0 then (Inr False, w)
      else case run_state (check_exit e pid identity boot) w of
             (Inr False, w1) \<Rightarrow> wait_loop e pid identity boot (time_left - (50 + os_lag e (ow_tick w1))) (w1\<lparr>ow_tick := Suc (ow_tick w1)\<rparr>)
           | r \<Rightarrow> r)"
  by pat_completeness auto
termination by (relation "measure (\<lambda>(_, _, _, _, time_left, _). time_left)") auto

declare wait_loop.simps [simp del]

definition wait_exit :: "os_env \<Rightarrow> int \<Rightarrow> string option \<Rightarrow> string option \<Rightarrow> nat \<Rightarrow> (string + bool) os" where
  "wait_exit e pid identity boot delay = State (wait_loop e pid identity boot delay)"

fun stop_steps :: "os_env \<Rightarrow> int \<Rightarrow> string option \<Rightarrow> string option \<Rightarrow> (nat \<times> nat) list \<Rightarrow> (string + unit) os" where
  "stop_steps e pid identity boot [] = ret (Inl ''process stop unconfirmed; retain state'')"
| "stop_steps e pid identity boot ((sig, delay) # rest) =
     (if \<not> nonempty boot \<or> os_boot e \<noteq> boot \<or> \<not> nonempty identity
      then ret (Inl ''process identity unconfirmed; retain state'')
      else do {
        current \<leftarrow> look_up e pid;
        if current \<noteq> identity then ret (Inl ''process identity unconfirmed; retain state'')
        else do {
          k \<leftarrow> observe (\<lambda>n. os_kill e n pid sig) (Signalled pid sig);
          if k = Refused
          then bind_ok (check_exit e pid identity boot) (\<lambda>exited.
                 ret (if exited then Inr () else Inl ''process signal denied; retain state''))
          else bind_ok (wait_exit e pid identity boot delay) (\<lambda>exited.
                 if exited then ret (Inr ())
                 else bind_ok (check_exit e pid identity boot) (\<lambda>exited.
                        if exited then ret (Inr ()) else stop_steps e pid identity boot rest))
        }
      })"

definition stop_signals :: "(nat \<times> nat) list" where
  "stop_signals = [(15, 2000), (9, 1000)]"

definition terminate_process :: "os_env \<Rightarrow> string option \<Rightarrow> string option \<Rightarrow> string option \<Rightarrow> (string + unit) os" where
  "terminate_process e handle identity boot =
     (case handle of
        None \<Rightarrow> ret (Inr ())
      | Some s \<Rightarrow>
          (case py_int s of
             Inl _ \<Rightarrow> ret (Inr ())
           | Inr pid \<Rightarrow>
               if pid \<le> 1 then ret (Inr ())
               else bind_ok (check_exit e pid identity boot) (\<lambda>exited.
                      if exited then ret (Inr ()) else stop_steps e pid identity boot stop_signals)))"

section \<open>What an action logs\<close>

text \<open>Whatever the start, the action appends events that satisfy \<open>G\<close> with its result, and leaves the record.\<close>

definition tracks :: "('a \<Rightarrow> os_event list \<Rightarrow> bool) \<Rightarrow> 'a os \<Rightarrow> bool" where
  "tracks G m \<longleftrightarrow> (\<forall>w r w'. run_state m w = (r, w') \<longrightarrow>
     (\<exists>evs. ow_log w' = ow_log w @ evs \<and> ow_rec w' = ow_rec w \<and> G r evs))"

lemma tracksD:
  "tracks G m \<Longrightarrow> run_state m w = (r, w') \<Longrightarrow> \<exists>evs. ow_log w' = ow_log w @ evs \<and> ow_rec w' = ow_rec w \<and> G r evs"
  by (simp add: tracks_def)

lemma tracks_mono: "tracks G m \<Longrightarrow> (\<And>r evs. G r evs \<Longrightarrow> H r evs) \<Longrightarrow> tracks H m"
  unfolding tracks_def by metis

lemma tracks_ret: "G x [] \<Longrightarrow> tracks G (ret x)"
  by (simp add: tracks_def)

lemma tracks_observe: "(\<And>r. G r [ev r]) \<Longrightarrow> tracks G (observe f ev)"
  by (auto simp: tracks_def observe_def Let_def)

lemma tracks_if: "(c \<Longrightarrow> tracks G m) \<Longrightarrow> (\<not> c \<Longrightarrow> tracks G n) \<Longrightarrow> tracks G (if c then m else n)"
  by simp

lemma tracks_bind:
  assumes "tracks F m" "\<And>x a. F x a \<Longrightarrow> tracks (\<lambda>y b. G y (a @ b)) (f x)"
  shows "tracks G (State_Monad.bind m f)"
  unfolding tracks_def
proof (intro allI impI)
  fix w r w' assume run: "run_state (State_Monad.bind m f) w = (r, w')"
  obtain x w1 where one: "run_state m w = (x, w1)" by (cases "run_state m w")
  with run have two: "run_state (f x) w1 = (r, w')" by simp
  from tracksD [OF assms(1) one] obtain a where a: "ow_log w1 = ow_log w @ a" "ow_rec w1 = ow_rec w" "F x a" by blast
  from tracksD [OF assms(2) [OF a(3)] two] a
  show "\<exists>evs. ow_log w' = ow_log w @ evs \<and> ow_rec w' = ow_rec w \<and> G r evs" by auto
qed

lemma tracks_bind_ok:
  assumes "tracks F m" "\<And>x a. F (Inl x) a \<Longrightarrow> G (Inl x) a" "\<And>v a. F (Inr v) a \<Longrightarrow> tracks (\<lambda>y b. G y (a @ b)) (f v)"
  shows "tracks G (bind_ok m f)"
  unfolding bind_ok_def
proof (rule tracks_bind [OF assms(1)])
  fix x a assume "F x a"
  then show "tracks (\<lambda>y b. G y (a @ b)) (case x of Inl x \<Rightarrow> ret (Inl x) | Inr v \<Rightarrow> f v)"
    using assms(2,3) by (cases x) (auto intro!: tracks_ret)
qed

text \<open>Evidence that the process recorded under a number no longer exists.\<close>

definition gone :: "os_env \<Rightarrow> string option \<Rightarrow> int \<Rightarrow> os_event list \<Rightarrow> bool" where
  "gone e boot pid evs \<longleftrightarrow>
     nonempty boot \<and> nonempty (os_boot e) \<and> boot \<noteq> os_boot e
     \<or> Waited pid Reaped \<in> set evs \<or> Probed pid NoProcess \<in> set evs"

lemma gone_append: "gone e boot pid a \<Longrightarrow> gone e boot pid (a @ b)" "gone e boot pid b \<Longrightarrow> gone e boot pid (a @ b)"
  by (auto simp: gone_def)

text \<open>Every signal goes to this process, right after a look that confirmed it is the recorded one.\<close>

definition guarded :: "os_env \<Rightarrow> int \<Rightarrow> string option \<Rightarrow> string option \<Rightarrow> os_event list \<Rightarrow> bool" where
  "guarded e pid identity boot evs \<longleftrightarrow>
     (\<forall>a q s k b. evs = a @ Signalled q s k # b \<longrightarrow>
        q = pid \<and> nonempty boot \<and> os_boot e = boot \<and> nonempty identity \<and> (\<exists>a'. a = a' @ [Looked pid identity]))"

lemma guarded_append: "guarded e pid identity boot a \<Longrightarrow> guarded e pid identity boot b \<Longrightarrow> guarded e pid identity boot (a @ b)"
  unfolding guarded_def append_eq_append_conv2 by (fastforce simp: append_eq_Cons_conv)

lemma guarded_none: "(\<forall>q s k. Signalled q s k \<notin> set evs) \<Longrightarrow> guarded e pid identity boot evs"
  unfolding guarded_def by (metis in_set_conv_decomp)

lemma guarded_pair:
  "nonempty boot \<Longrightarrow> os_boot e = boot \<Longrightarrow> nonempty identity \<Longrightarrow> guarded e pid identity boot [Looked pid identity, Signalled pid s k]"
  by (auto simp: guarded_def append_eq_Cons_conv Cons_eq_append_conv)

text \<open>The contract of the pieces of a stop: no process is started, at most so many calls and signals are
  made, the signals are guarded, and the answer that the process is gone rests on evidence.\<close>

definition signals :: "os_event list \<Rightarrow> nat" where
  "signals evs = length (filter (\<lambda>ev. \<exists>q s k. ev = Signalled q s k) evs)"

definition quiet_event :: "os_event \<Rightarrow> bool" where
  "quiet_event ev \<longleftrightarrow> (case ev of Spawned _ _ _ _ \<Rightarrow> False | Registered _ _ _ \<Rightarrow> False | Unregistered _ \<Rightarrow> False | _ \<Rightarrow> True)"

definition stop_ok :: "os_env \<Rightarrow> int \<Rightarrow> string option \<Rightarrow> string option \<Rightarrow> nat \<Rightarrow> nat \<Rightarrow> bool \<Rightarrow> os_event list \<Rightarrow> bool" where
  "stop_ok e pid identity boot calls sigs exited evs \<longleftrightarrow>
     list_all quiet_event evs \<and> length evs \<le> calls \<and> signals evs \<le> sigs \<and> guarded e pid identity boot evs
     \<and> (exited \<longrightarrow> gone e boot pid evs)"

lemma stop_ok_append:
  assumes "stop_ok e pid identity boot c1 s1 x a" "stop_ok e pid identity boot c2 s2 exited b"
    and "c1 + c2 \<le> c" "s1 + s2 \<le> s"
  shows "stop_ok e pid identity boot c s exited (a @ b)"
  using assms by (auto simp: stop_ok_def signals_def guarded_append intro: gone_append)

lemma stop_ok_Nil: "stop_ok e pid identity boot c s False []"
  by (simp add: stop_ok_def signals_def guarded_none)

lemma stop_ok_mono: "stop_ok e pid identity boot c1 s1 x evs \<Longrightarrow> c1 \<le> c \<Longrightarrow> s1 \<le> s \<Longrightarrow> stop_ok e pid identity boot c s x evs"
  by (auto simp: stop_ok_def)

lemmas stop_ok_events = stop_ok_def signals_def quiet_event_def guarded_none gone_def

lemma tracks_pid_absent: "tracks (\<lambda>r. stop_ok e pid identity boot 1 0 (r = Inr True)) (pid_absent e pid)"
proof (cases "pid \<le> 1")
  case True
  then show ?thesis by (simp add: pid_absent_def tracks_ret stop_ok_Nil stop_ok_def signals_def guarded_none)
next
  case False
  have "tracks (\<lambda>r evs. evs = [Probed pid r]) (observe (\<lambda>n. os_probe e n pid) (Probed pid))" by (rule tracks_observe) simp
  then show ?thesis unfolding pid_absent_def if_not_P [OF False]
  proof (rule tracks_bind)
    fix x :: kill_result and a assume a: "a = [Probed pid x]"
    show "tracks (\<lambda>y b. stop_ok e pid identity boot 1 0 (y = Inr True) (a @ b))
        (ret (case x of NoProcess \<Rightarrow> Inr True | Refused \<Rightarrow> Inl ''process absence unconfirmed; retain state'' | Delivered \<Rightarrow> Inr False))"
      unfolding a by (rule tracks_ret) (cases x; simp add: stop_ok_def signals_def quiet_event_def guarded_none gone_def)
  qed
qed

lemma tracks_check_exit: "tracks (\<lambda>r. stop_ok e pid identity boot 3 0 (r = Inr True)) (check_exit e pid identity boot)"
proof -
  have seen: "tracks (\<lambda>r evs. evs = [Looked pid r]) (look_up e pid)" unfolding look_up_def by (rule tracks_observe) simp
  have waited: "tracks (\<lambda>r evs. evs = [Waited pid r]) (wait_child e pid)" unfolding wait_child_def by (rule tracks_observe) simp
  have absent: "tracks (\<lambda>y b. stop_ok e pid identity boot 3 0 (y = Inr True) ([Looked pid c, Waited pid r] @ b)) (pid_absent e pid)" for c r
    by (rule tracks_mono [OF tracks_pid_absent [of e pid identity boot]])
      (rule stop_ok_append [of _ _ _ _ 2 0 False _ 1 0],
        simp_all add: stop_ok_def signals_def quiet_event_def guarded_none)
  have after_wait: "tracks (\<lambda>y b. stop_ok e pid identity boot 3 0 (y = Inr True) ([Looked pid c] @ b))
      (do { r \<leftarrow> wait_child e pid;
            if r = Reaped then ret (Inr True)
            else if \<not> nonempty boot \<or> \<not> nonempty (os_boot e) then ret (Inl ''process boot identity unconfirmed; retain state'')
            else pid_absent e pid })" for c
  proof (rule tracks_bind [OF waited])
    fix x :: wait_result and a assume a: "a = [Waited pid x]"
    show "tracks (\<lambda>y b. stop_ok e pid identity boot 3 0 (y = Inr True) ([Looked pid c] @ a @ b))
      (if x = Reaped then ret (Inr True)
       else if \<not> nonempty boot \<or> \<not> nonempty (os_boot e) then ret (Inl ''process boot identity unconfirmed; retain state'')
       else pid_absent e pid)"
      unfolding a using absent [of c x]
      by (intro tracks_if tracks_ret) (simp_all add: stop_ok_events)
  qed
  show ?thesis
    unfolding check_exit_def
    by (intro tracks_if tracks_ret tracks_bind [OF seen]) (use after_wait in \<open>simp_all add: stop_ok_events\<close>)
qed

definition polls :: "nat \<Rightarrow> nat" where
  "polls time_left = (time_left + 49) div 50"

lemma polls_step: "time_left \<noteq> 0 \<Longrightarrow> polls (time_left - (50 + lag)) + 1 \<le> polls time_left"
proof -
  assume t: "time_left \<noteq> 0"
  have "time_left - (50 + lag) + 49 + 50 \<le> time_left + 49 \<or> time_left \<le> 50 + lag" by linarith
  then show ?thesis
  proof
    assume "time_left - (50 + lag) + 49 + 50 \<le> time_left + 49"
    then have "(time_left - (50 + lag) + 49 + 50) div 50 \<le> (time_left + 49) div 50" by (rule div_le_mono)
    then show ?thesis by (simp add: polls_def)
  qed (use t in \<open>simp add: polls_def\<close>)
qed

lemma wait_loop_log:
  assumes "wait_loop e pid identity boot time_left w = (r, w')"
  shows "\<exists>evs. ow_log w' = ow_log w @ evs \<and> ow_rec w' = ow_rec w
     \<and> stop_ok e pid identity boot (3 * polls time_left) 0 (r = Inr True) evs"
  using assms
proof (induction e pid identity boot time_left w arbitrary: r w' rule: wait_loop.induct)
  case (1 e pid identity boot time_left w)
  show ?case
  proof (cases "time_left = 0")
    case True
    with 1(2) have "(r, w') = (Inr False, w)" by (simp add: wait_loop.simps [of e pid identity boot 0 w])
    then show ?thesis by (simp add: stop_ok_Nil)
  next
    case False
    obtain x w1 where one: "run_state (check_exit e pid identity boot) w = (x, w1)" by (cases "run_state (check_exit e pid identity boot) w")
    from tracksD [OF tracks_check_exit one] obtain a where a: "ow_log w1 = ow_log w @ a" "ow_rec w1 = ow_rec w"
      "stop_ok e pid identity boot 3 0 (x = Inr True) a" by blast
    show ?thesis
    proof (cases "x = Inr False")
      case go: True
      let ?l = "time_left - (50 + os_lag e (ow_tick w1))" and ?w1 = "w1\<lparr>ow_tick := Suc (ow_tick w1)\<rparr>"
      have "wait_loop e pid identity boot ?l ?w1 = (r, w')"
        using 1(2) False one go by (simp add: wait_loop.simps [of _ _ _ _ time_left])
      from 1(1) [OF False one [symmetric] _ _ this] go obtain b where b: "ow_log w' = ow_log w1 @ b" "ow_rec w' = ow_rec w1"
        "stop_ok e pid identity boot (3 * polls ?l) 0 (r = Inr True) b" by auto
      have "stop_ok e pid identity boot (3 * polls time_left) 0 (r = Inr True) (a @ b)"
        by (rule stop_ok_append [OF a(3) b(3)]) (use polls_step [OF False, of "os_lag e (ow_tick w1)"] in simp_all)
      with a b show ?thesis by auto
    next
      case stop: False
      have "(r, w') = (x, w1)"
        using 1(2) False one stop by (auto simp: wait_loop.simps [of _ _ _ _ time_left] split: sum.splits bool.splits)
      moreover have "1 \<le> polls time_left" using False by (simp add: polls_def)
      ultimately show ?thesis using a stop_ok_mono [OF a(3), of "3 * polls time_left" 0] by auto
    qed
  qed
qed

lemma tracks_wait_exit: "tracks (\<lambda>r. stop_ok e pid identity boot (3 * polls delay) 0 (r = Inr True)) (wait_exit e pid identity boot delay)"
  unfolding tracks_def wait_exit_def by (simp add: wait_loop_log)

fun stop_calls :: "(nat \<times> nat) list \<Rightarrow> nat" where
  "stop_calls [] = 0"
| "stop_calls ((sig, delay) # rest) = 5 + 3 * polls delay + stop_calls rest"

lemma tracks_stop_steps:
  "tracks (\<lambda>r. stop_ok e pid identity boot (stop_calls steps) (length steps) (r = Inr ())) (stop_steps e pid identity boot steps)"
proof (induction steps)
  case Nil
  show ?case by (simp add: tracks_ret stop_ok_Nil)
next
  case (Cons step rest)
  obtain sig delay where step: "step = (sig, delay)" by (cases step)
  show ?case
  proof (cases "\<not> nonempty boot \<or> os_boot e \<noteq> boot \<or> \<not> nonempty identity")
    case True
    then show ?thesis unfolding step stop_steps.simps if_P [OF True] by (intro tracks_ret) (simp add: stop_ok_Nil)
  next
    case False
    let ?n = "stop_calls (step # rest)" and ?s = "length (step # rest)"
    let ?ok = "\<lambda>(y :: string + unit). stop_ok e pid identity boot ?n ?s (y = Inr ())"
    have seen: "tracks (\<lambda>r evs. evs = [Looked pid r]) (look_up e pid)" unfolding look_up_def by (rule tracks_observe) simp
    have sent: "tracks (\<lambda>k evs. evs = [Signalled pid sig k]) (observe (\<lambda>n. os_kill e n pid sig) (Signalled pid sig))"
      by (rule tracks_observe) simp
    have pair: "stop_ok e pid identity boot 2 1 False [Looked pid identity, Signalled pid sig k]" for k
      using False by (simp add: stop_ok_def signals_def quiet_event_def guarded_pair)
    have finish: "tracks (\<lambda>y b. ?ok y ([Looked pid identity, Signalled pid sig k] @ a @ b))
        (if exited then ret (Inr ()) else stop_steps e pid identity boot rest)"
      if "stop_ok e pid identity boot (3 * polls delay + 3) 0 exited a" for exited a k
    proof -
      have all: "stop_ok e pid identity boot (3 * polls delay + 5) 1 exited ([Looked pid identity, Signalled pid sig k] @ a)"
        by (rule stop_ok_append [OF pair that]) simp_all
      show ?thesis
      proof (rule tracks_if)
        assume exited
        with all show "tracks (\<lambda>y b. ?ok y ([Looked pid identity, Signalled pid sig k] @ a @ b)) (ret (Inr ()))"
          by (intro tracks_ret) (auto simp: step elim: stop_ok_mono)
      next
        show "tracks (\<lambda>y b. ?ok y ([Looked pid identity, Signalled pid sig k] @ a @ b)) (stop_steps e pid identity boot rest)"
        proof (rule tracks_mono [OF Cons.IH])
          fix y :: "string + unit" and b assume "stop_ok e pid identity boot (stop_calls rest) (length rest) (y = Inr ()) b"
          from stop_ok_append [OF all this, of ?n ?s] show "?ok y ([Looked pid identity, Signalled pid sig k] @ a @ b)"
            by (simp add: step)
        qed
      qed
    qed
    have denied: "tracks (\<lambda>y b. ?ok y ([Looked pid identity, Signalled pid sig k] @ b))
        (bind_ok (check_exit e pid identity boot) (\<lambda>exited. ret (if exited then Inr () else Inl msg)))" for k and msg :: string
    proof (rule tracks_bind_ok [OF tracks_check_exit])
      fix x :: string and a assume "stop_ok e pid identity boot 3 0 (Inl x = Inr True) a"
      from stop_ok_append [OF pair this] show "?ok (Inl x) ([Looked pid identity, Signalled pid sig k] @ a)" by (simp add: step)
    next
      fix v a assume "stop_ok e pid identity boot 3 0 (Inr v = Inr True) a"
      from stop_ok_append [OF pair this, of ?n ?s] show "tracks (\<lambda>y b. ?ok y ([Looked pid identity, Signalled pid sig k] @ a @ b))
          (ret (if v then Inr () else Inl msg))"
        by (intro tracks_ret) (auto simp: step)
    qed
    have waits: "tracks (\<lambda>y b. ?ok y ([Looked pid identity, Signalled pid sig k] @ b))
        (bind_ok (wait_exit e pid identity boot delay) (\<lambda>exited. if exited then ret (Inr ())
           else bind_ok (check_exit e pid identity boot) (\<lambda>exited. if exited then ret (Inr ()) else stop_steps e pid identity boot rest)))" for k
    proof (rule tracks_bind_ok [OF tracks_wait_exit])
      fix x :: string and a assume "stop_ok e pid identity boot (3 * polls delay) 0 (Inl x = Inr True) a"
      from stop_ok_append [OF pair this] show "?ok (Inl x) ([Looked pid identity, Signalled pid sig k] @ a)" by (simp add: step)
    next
      fix v a assume a: "stop_ok e pid identity boot (3 * polls delay) 0 (Inr v = Inr True) a"
      have checked: "tracks (\<lambda>y b. ?ok y ([Looked pid identity, Signalled pid sig k] @ a @ b))
          (bind_ok (check_exit e pid identity boot) (\<lambda>exited. if exited then ret (Inr ()) else stop_steps e pid identity boot rest))"
      proof (rule tracks_bind_ok [OF tracks_check_exit])
        fix x :: string and c assume c: "stop_ok e pid identity boot 3 0 (Inl x = Inr True) c"
        from stop_ok_append [OF pair stop_ok_append [OF a c order_refl order_refl]]
        show "?ok (Inl x) ([Looked pid identity, Signalled pid sig k] @ a @ c)" by (simp add: step)
      next
        fix u c assume c: "stop_ok e pid identity boot 3 0 (Inr u = Inr True) c"
        from finish [OF stop_ok_append [OF a c order_refl], of k]
        show "tracks (\<lambda>y b. ?ok y ([Looked pid identity, Signalled pid sig k] @ a @ c @ b))
          (if u then ret (Inr ()) else stop_steps e pid identity boot rest)" by simp
      qed
      from a have "stop_ok e pid identity boot (3 * polls delay + 3) 0 v a" by (auto elim: stop_ok_mono)
      from finish [OF this, of k] checked
      show "tracks (\<lambda>y b. ?ok y ([Looked pid identity, Signalled pid sig k] @ a @ b))
        (if v then ret (Inr ()) else bind_ok (check_exit e pid identity boot)
           (\<lambda>exited. if exited then ret (Inr ()) else stop_steps e pid identity boot rest))" by (cases v) simp_all
    qed
    have refuse: "tracks (\<lambda>y b. ?ok y (a @ b)) (ret (Inl msg))" if "list_all quiet_event a" "length a \<le> 2" "signals a = 0" "guarded e pid identity boot a" for a and msg :: string
      using that by (intro tracks_ret) (simp add: stop_ok_def step)
    show ?thesis
      unfolding step stop_steps.simps if_not_P [OF False]
      using refuse [of "[Looked pid c]" for c] denied waits unfolding step
      by (intro tracks_bind [OF seen] tracks_if tracks_bind [OF sent])
        (simp_all add: signals_def quiet_event_def guarded_none)
  qed
qed

lemma tracks_terminate:
  assumes "py_int s = Inr pid" "pid > 1"
  shows "tracks (\<lambda>r. stop_ok e pid identity boot 193 2 (r = Inr ())) (terminate_process e (Some s) identity boot)"
proof -
  have n: "stop_calls stop_signals = 190" by (simp add: stop_signals_def polls_def)
  have "tracks (\<lambda>r. stop_ok e pid identity boot 193 2 (r = Inr ()))
      (bind_ok (check_exit e pid identity boot) (\<lambda>exited.
                      if exited then ret (Inr ()) else stop_steps e pid identity boot stop_signals))"
  proof (rule tracks_bind_ok [OF tracks_check_exit])
    fix x :: string and a assume "stop_ok e pid identity boot 3 0 (Inl x = Inr True) a"
    then show "stop_ok e pid identity boot 193 2 (Inl x = Inr ()) a" by (auto elim: stop_ok_mono)
  next
    fix v a assume a: "stop_ok e pid identity boot 3 0 (Inr v = Inr True) a"
    have more: "tracks (\<lambda>y b. stop_ok e pid identity boot 193 2 (y = Inr ()) (a @ b)) (stop_steps e pid identity boot stop_signals)"
      by (rule tracks_mono [OF tracks_stop_steps]) (rule stop_ok_append [OF a], assumption, simp_all add: n, simp add: stop_signals_def)
    show "tracks (\<lambda>y b. stop_ok e pid identity boot 193 2 (y = Inr ()) (a @ b))
        (if v then ret (Inr ()) else stop_steps e pid identity boot stop_signals)"
      using a more by (intro tracks_if tracks_ret) (auto elim: stop_ok_mono)
  qed
  with assms show ?thesis by (simp add: terminate_process_def)
qed

end
