(* ===== verification/Nod.thy ===== *)
theory Nod
  imports Runtime Url Template
begin

text \<open>
  \<^verbatim>\<open>broker/surface_nod.py\<close>: the approval surface behind which a human decides, spoken to over HTTP.
  The service, \<^verbatim>\<open>json.loads\<close> and \<^verbatim>\<open>str\<close> of a JSON value are parameters; the world logs every request
  that is attempted. What the adapter promises: it reads an answer as an approval only when the answer is
  about the card asked for, is resolved and carries the exact pair issued for approval; and the key that
  makes opening a card idempotent names one installation and one request.
\<close>

section \<open>Identifiers\<close>

definition ref_ok :: "string \<Rightarrow> bool" where
  "ref_ok s \<longleftrightarrow> s \<noteq> [] \<and> length s \<le> 128 \<and> list_all is_word s"

text \<open>\<^verbatim>\<open>_reference\<close>.\<close>

definition nod_reference :: "json \<Rightarrow> string result" where
  "nod_reference v = (case v of JStr s \<Rightarrow> if ref_ok s then Inr s else Inl ValueError | _ \<Rightarrow> Inl ValueError)"

text \<open>\<^verbatim>\<open>_matching_ids\<close>: every \<^verbatim>\<open>request_id\<close> at any depth, and the \<^verbatim>\<open>id\<close> of every \<^verbatim>\<open>request\<close> object.\<close>

fun matching_ids :: "json \<Rightarrow> string \<Rightarrow> bool" where
  "matching_ids (JObj d) ref = list_all (\<lambda>kv.
     \<not> (fst kv = ''request_id'' \<and> snd kv \<noteq> JStr ref)
     \<and> \<not> (fst kv = ''request'' \<and> is_obj (snd kv) \<and> jget ''id'' (snd kv) \<noteq> None \<and> jget ''id'' (snd kv) \<noteq> Some (JStr ref))
     \<and> matching_ids (snd kv) ref) d"
| "matching_ids (JList xs) ref = list_all (\<lambda>x. matching_ids x ref) xs"
| "matching_ids _ ref = True"

text \<open>\<^verbatim>\<open>str(uuid.UUID(s))\<close>: \<^verbatim>\<open>urn:\<close>, \<^verbatim>\<open>uuid:\<close>, braces and hyphens are dropped, 32 characters must remain
  that \<^verbatim>\<open>int\<close> reads in base 16, and the number is printed in groups.\<close>

function remove_all :: "string \<Rightarrow> string \<Rightarrow> string" where
  "remove_all n [] = []"
| "remove_all n (x # xs) =
     (if n \<noteq> [] \<and> starts_with n (x # xs) then remove_all n (drop (length n) (x # xs)) else x # remove_all n xs)"
  by pat_completeness auto
termination by (relation "measure (\<lambda>(n, s). length s)") (auto simp: neq_Nil_conv)

definition strip_set :: "char set \<Rightarrow> string \<Rightarrow> string" where
  "strip_set cs s = rev (dropWhile (\<lambda>c. c \<in> cs) (rev (dropWhile (\<lambda>c. c \<in> cs) s)))"

definition hex_value :: "char \<Rightarrow> nat" where
  "hex_value c = (if is_dec c then code c - 48 else if code c \<ge> 97 then code c - 87 else code c - 55)"

fun hex_number :: "nat \<Rightarrow> string \<Rightarrow> nat option" where
  "hex_number acc [] = Some acc"
| "hex_number acc (c # cs) = (if is_hex c then hex_number (16 * acc + hex_value c) cs else None)"

text \<open>\<^verbatim>\<open>int(s, 16)\<close> of a text without a minus sign.\<close>

definition py_int16 :: "string \<Rightarrow> nat result" where
  "py_int16 s =
     (let t = py_strip s;
          t = (if t \<noteq> [] \<and> hd t = CHR ''+'' then tl t else t);
          t = (if starts_with ''0x'' t \<or> starts_with ''0X'' t
               then (let b = drop 2 t in if b \<noteq> [] \<and> hd b = CHR ''_'' then tl b else b) else t);
          parts = split_on (CHR ''_'') t
      in if list_ex (\<lambda>p. p = []) parts then Inl ValueError
         else (case hex_number 0 (concat parts) of None \<Rightarrow> Inl ValueError | Some n \<Rightarrow> Inr n))"

definition uuid_value :: "string \<Rightarrow> nat result" where
  "uuid_value s =
     (let h = filter (\<lambda>c. c \<noteq> CHR ''-'') (strip_set {CHR 0x7B, CHR 0x7D} (remove_all ''uuid:'' (remove_all ''urn:'' s)))
      in if length h \<noteq> 32 then Inl ValueError else py_int16 h)"

fun hex_text :: "nat \<Rightarrow> nat \<Rightarrow> string" where
  "hex_text 0 n = []"
| "hex_text (Suc k) n = hex_text k (n div 16) @ [hex_digit (n mod 16)]"

definition uuid_text :: "nat \<Rightarrow> string" where
  "uuid_text n = (let h = hex_text 32 n in
     take 8 h @ ''-'' @ take 4 (drop 8 h) @ ''-'' @ take 4 (drop 12 h) @ ''-'' @ take 4 (drop 16 h) @ ''-'' @ drop 20 h)"

section \<open>The client\<close>

record nod_surface =
  nod_base :: string
  nod_token :: string
  nod_channel :: string
  nod_timeout :: rat

text \<open>\<^verbatim>\<open>NodSurface.__init__\<close>; every refusal of the address is the same \<^const>\<open>ValueError\<close>.\<close>

definition nod_url_ok :: "string \<Rightarrow> bool" where
  "nod_url_ok s \<longleftrightarrow> \<not> list_ex (\<lambda>c. is_space c \<or> code c < 32) s
     \<and> (case urlsplit s of Inl _ \<Rightarrow> False
        | Inr u \<Rightarrow> url_scheme u \<in> {''http'', ''https''} \<and> url_hostname u \<noteq> None \<and> url_username u = None \<and> url_password u = None
            \<and> CHR ''?'' \<notin> set s \<and> CHR ''#'' \<notin> set s \<and> CHR 0x5C \<notin> set s
            \<and> (case url_port u of Inl _ \<Rightarrow> False | Inr None \<Rightarrow> True | Inr (Some p) \<Rightarrow> 0 < p \<and> p \<le> 65535))"

definition new_nod :: "string \<Rightarrow> string \<Rightarrow> string \<Rightarrow> rat \<Rightarrow> nod_surface result" where
  "new_nod base_url issuer_token channel timeout =
     andthen (ensure (nod_url_ok base_url) ValueError) (\<lambda>_.
     andthen (ensure (0 < timeout \<and> timeout \<le> 60) ValueError) (\<lambda>_.
       Inr \<lparr>nod_base = py_rstrip_slash base_url, nod_token = issuer_token, nod_channel = channel, nod_timeout = timeout\<rparr>))"

text \<open>\<^verbatim>\<open>from_env\<close>: no surface unless both the address and the token are set.\<close>

definition nod_from_env :: "(string \<Rightarrow> string option) \<Rightarrow> nod_surface option result" where
  "nod_from_env getenv =
     (case (getenv ''TOOLSTACK_NOD_URL'', getenv ''TOOLSTACK_NOD_TOKEN'') of
        (Some u, Some t) \<Rightarrow>
          if u = [] \<or> t = [] then Inr None
          else andthen (new_nod u t (case getenv ''TOOLSTACK_NOD_CHANNEL'' of None \<Rightarrow> ''default'' | Some c \<Rightarrow> c) 15) (\<lambda>s. Inr (Some s))
      | _ \<Rightarrow> Inr None)"

section \<open>A call of the service\<close>

datatype nod_exn = NodValueError | NodHttp int | NodUrlError string | NodRuntime string | NodLimit | NodTimeout | NodOther string

record nod_request =
  nq_method :: string
  nq_url :: string
  nq_headers :: "(string \<times> string) list"
  nq_body :: "string option"

record 'h nod_env =
  ne_net :: "'h \<Rightarrow> nod_request \<Rightarrow> net_result \<times> 'h"
  ne_loads :: "string \<Rightarrow> parsed"
  ne_str :: "json \<Rightarrow> string"
  ne_late :: "'h \<Rightarrow> bool"

record 'h nod_world =
  nw_net :: 'h
  nw_log :: "(nod_request \<times> net_result) list"

definition nod_response_max :: nat where
  "nod_response_max = 1048576"

definition nod_stop :: "stop \<Rightarrow> nod_exn option" where
  "nod_stop s = (case s of Eof \<Rightarrow> None | TimedOut \<Rightarrow> Some NodTimeout | TooLarge \<Rightarrow> Some NodLimit | Lost name \<Rightarrow> Some (NodOther name))"

definition nod_decode :: "(string \<Rightarrow> parsed) \<Rightarrow> string \<Rightarrow> nod_exn + json" where
  "nod_decode loads raw =
     (case (if raw = [] then Parsed (JObj []) else loads raw) of
        Parsed v \<Rightarrow> if is_obj v then Inr v else Inl NodValueError
      | NotJson \<Rightarrow> Inl NodValueError
      | NotUtf8 \<Rightarrow> Inl NodValueError
      | LoadRaised name \<Rightarrow> Inl (NodOther name))"

definition nod_reply :: "'h nod_env \<Rightarrow> 'h \<Rightarrow> net_result \<Rightarrow> nod_exn + json" where
  "nod_reply e h r =
     (case r of
        TooLate \<Rightarrow> Inl NodTimeout
      | ConnRefused reason \<Rightarrow> Inl (NodUrlError reason)
      | ConnFailed reason \<Rightarrow> Inl (NodUrlError reason)
      | ReplyFailed name \<Rightarrow> Inl (NodOther name)
      | Reply st hs rs \<Rightarrow>
          if \<not> status_ok st then Inl (NodHttp st)
          else case chunk_list nod_response_max rs of
            (cs, stop) \<Rightarrow>
              (case nod_stop stop of
                 Some x \<Rightarrow> Inl x
               | None \<Rightarrow> if ne_late e h then Inl NodTimeout else nod_decode (ne_loads e) (concat cs)))"

definition nod_request_to :: "nod_surface \<Rightarrow> string \<Rightarrow> string \<Rightarrow> json option \<Rightarrow> nod_request" where
  "nod_request_to n meth path body =
     \<lparr>nq_method = meth, nq_url = nod_base n @ path,
      nq_headers = [(''Content-Type'', ''application/json''), (''Authorization'', ''Bearer '' @ nod_token n)],
      nq_body = map_option json_dumps body\<rparr>"

definition nod_call ::
  "nod_surface \<Rightarrow> 'h nod_env \<Rightarrow> string \<Rightarrow> string \<Rightarrow> json option \<Rightarrow> 'h nod_world \<Rightarrow> (nod_exn + json) \<times> 'h nod_world" where
  "nod_call n e meth path body w =
     (let q = nod_request_to n meth path body in
      if list_ex (\<lambda>kv. illegal_header (snd kv)) (nq_headers q) then (Inl NodValueError, w)
      else case ne_net e (nw_net w) q of
        (r, h) \<Rightarrow> (nod_reply e h r, w\<lparr>nw_net := h, nw_log := nw_log w @ [(q, r)]\<rparr>))"

section \<open>Opening a card\<close>

definition labelled :: "string \<Rightarrow> json \<Rightarrow> json" where
  "labelled label v = JObj [(''label'', JStr label), (''value'', v)]"

definition if_text :: "string \<Rightarrow> string option \<Rightarrow> json list" where
  "if_text label v = (case v of None \<Rightarrow> [] | Some s \<Rightarrow> if s = [] then [] else [labelled label (JStr s)])"

definition nod_fields :: "operation_card \<Rightarrow> json list" where
  "nod_fields c =
     [labelled ''Caller'' (JStr (card_caller c)), labelled ''Tool'' (JStr (card_tool c)),
      labelled ''Operation'' (JStr (card_op c)), labelled ''Risk'' (card_risk c), labelled ''Policy'' (JStr (card_reason c))]
     @ if_text ''Endpoint'' (card_endpoint c)
     @ if_text ''Full request SHA-256'' (card_request_digest c)
     @ if_text ''Operation generation'' (card_operation_generation c)"

definition nod_options :: json where
  "nod_options = JList
     [JObj [(''id'', JStr ''approve''), (''label'', JStr ''Approve''), (''kind'', JStr ''approve'')],
      JObj [(''id'', JStr ''reject''), (''label'', JStr ''Reject''), (''kind'', JStr ''reject_with_text''), (''destructive'', JBool True)]]"

definition nod_markdown :: "operation_card \<Rightarrow> (string \<times> json) list" where
  "nod_markdown c =
     (case card_details c of None \<Rightarrow> []
      | Some d \<Rightarrow> if d = [] then []
          else [(''body_markdown'', JStr (''**Allowlisted summary (not the complete request):**'' @ [CHR 0x0A]
                  @ [CHR 0x60, CHR 0x60, CHR 0x60] @ ''json'' @ [CHR 0x0A] @ d @ [CHR 0x0A, CHR 0x60, CHR 0x60, CHR 0x60]))])"

definition dedupe_key :: "nat \<Rightarrow> int \<Rightarrow> string" where
  "dedupe_key namespace request_id = ''toolstack:'' @ uuid_text namespace @ '':'' @ show_int request_id"

definition nod_payload :: "nod_surface \<Rightarrow> (json \<Rightarrow> string) \<Rightarrow> operation_card \<Rightarrow> json result" where
  "nod_payload n str c =
     andthen (case card_installation_id c of None \<Rightarrow> Inl ValueError | Some i \<Rightarrow> if i = [] then Inl ValueError else uuid_value i)
       (\<lambda>namespace. Inr (JObj
          ([(''channel_id'', JStr (nod_channel n)), (''title'', JStr (card_title c)),
            (''summary'', JStr (card_tool c @ ''.'' @ card_op c @ [CHR '' '', CHR 0xB7] @ '' risk ''
               @ (case card_risk c of JStr s \<Rightarrow> s | v \<Rightarrow> str v))),
            (''fields'', JList (nod_fields c)), (''options'', nod_options),
            (''dedupe_key'', JStr (dedupe_key namespace (card_request_id c))),
            (''notification'', JObj [(''redact'', JBool True)])] @ nod_markdown c)))"

definition nod_open ::
  "nod_surface \<Rightarrow> 'h nod_env \<Rightarrow> operation_card \<Rightarrow> 'h nod_world \<Rightarrow> (nod_exn + string) \<times> 'h nod_world" where
  "nod_open n e c w =
     (case nod_payload n (ne_str e) c of
        Inl _ \<Rightarrow> (Inl NodValueError, w)
      | Inr payload \<Rightarrow>
          (case nod_call n e ''POST'' ''/api/v1/requests'' (Some payload) w of
             (Inl x, w') \<Rightarrow> (Inl x, w')
           | (Inr v, w') \<Rightarrow>
               ((case nod_reference (jget0 ''request_id'' v) of
                   Inl _ \<Rightarrow> Inl NodValueError
                 | Inr ref \<Rightarrow> if matching_ids v ref then Inr ref else Inl NodValueError), w')))"

section \<open>Reading the decision\<close>

text \<open>The three optional fields are whatever JSON the service gives.\<close>

record nod_state =
  ns_outcome :: surface_outcome
  ns_approver :: json
  ns_note :: json
  ns_decided_at :: json

definition bare_state :: "surface_outcome \<Rightarrow> nod_state" where
  "bare_state oc = \<lparr>ns_outcome = oc, ns_approver = JNull, ns_note = JNull, ns_decided_at = JNull\<rparr>"

definition to_state :: "json \<Rightarrow> nod_state" where
  "to_state v =
     (let status = jget_or (JStr ''pending'') ''status'' v; decision = jget0 ''decision'' v in
      if status = JStr ''expired'' then bare_state SExpired
      else if status = JStr ''cancelled'' then bare_state SCancelled
      else if status \<noteq> JStr ''resolved'' \<or> \<not> is_obj decision then bare_state SPending
      else
        let pair = (jget0 ''option_id'' decision, jget0 ''option_kind'' decision);
            full = (\<lambda>oc. \<lparr>ns_outcome = oc, ns_approver = jget0 ''actor_user_id'' decision,
                         ns_note = jget0 ''text'' decision, ns_decided_at = jget0 ''resolved_at'' decision\<rparr>)
        in if pair = (JStr ''approve'', JStr ''approve'') then full SApproved
           else if pair = (JStr ''reject'', JStr ''reject_with_text'') then full SRejected
           else bare_state SPending)"

definition decision_path :: "string \<Rightarrow> string" where
  "decision_path ref = ''/api/v1/requests/'' @ ref @ ''/decision''"

definition nod_poll ::
  "nod_surface \<Rightarrow> 'h nod_env \<Rightarrow> string \<Rightarrow> 'h nod_world \<Rightarrow> (nod_exn + nod_state) \<times> 'h nod_world" where
  "nod_poll n e ref w =
     (if \<not> ref_ok ref then (Inl NodValueError, w)
      else case nod_call n e ''GET'' (decision_path ref) None w of
        (Inl (NodHttp st), w') \<Rightarrow>
          ((if st = 404 then Inr (bare_state SExpired) else Inl (NodRuntime (''nod poll failed: HTTP '' @ show_int st))), w')
      | (Inl (NodUrlError reason), w') \<Rightarrow> (Inl (NodRuntime (''nod unreachable: '' @ reason)), w')
      | (Inl x, w') \<Rightarrow> (Inl x, w')
      | (Inr v, w') \<Rightarrow>
          ((if jget0 ''request_id'' v \<noteq> JStr ref \<or> \<not> matching_ids v ref then Inl NodValueError else Inr (to_state v)), w'))"

text \<open>\<^verbatim>\<open>cancel\<close>: best effort, every exception is dropped.\<close>

definition nod_cancel :: "nod_surface \<Rightarrow> 'h nod_env \<Rightarrow> string \<Rightarrow> 'h nod_world \<Rightarrow> 'h nod_world" where
  "nod_cancel n e ref w =
     (if \<not> ref_ok ref then w else snd (nod_call n e ''POST'' (''/api/v1/requests/'' @ ref @ ''/cancel'') None w))"

end
