(* ===== verification/Runner.thy ===== *)
theory Runner
  imports Processes Nod
begin

text \<open>
  \<^verbatim>\<open>toolyard/runner.py\<close>: starting, stopping and inspecting a tool as a process of the owner, bare or under
  the macOS sandbox. Each step that can raise asks the environment; registration with the secrets provider,
  its configuration, free ports and random tokens are parameters. A failed start ends every process it began,
  or keeps its number in the record it raises.
\<close>

section \<open>The environment\<close>

text \<open>\<^verbatim>\<open>Interrupted\<close> stands for the exceptions that are no \<^verbatim>\<open>Exception\<close>.\<close>

datatype run_exn = RunnerConfigError | RunFailed string | Interrupted | CleanupFailed running_tool

record resolved_sps =
  rs_host :: string
  rs_port :: int
  rs_secret :: string
  rs_ca :: string
  rs_verify :: bool

record tool_def =
  td_id :: string
  td_type :: string
  td_port :: int
  td_command :: "string option"
  td_image :: "string option"
  td_secrets :: "secret_spec list"
  td_path :: string
  td_description :: string
  td_egress :: "string list"
  td_manifest_digest :: "string option"

record run_env =
  ru_os :: os_env
  ru_environ :: "(string \<times> string) list"
  ru_sps_file :: bool
  ru_fails :: "nat \<Rightarrow> string \<Rightarrow> run_exn option"
  ru_token :: "nat \<Rightarrow> string"
  ru_config :: "nat \<Rightarrow> run_exn + resolved_sps"
  ru_register :: "nat \<Rightarrow> run_exn option"
  ru_spawn :: "nat \<Rightarrow> run_exn + int"
  ru_port :: "nat \<Rightarrow> int"
  ru_python :: string
  ru_repo :: string

definition run_getenv :: "run_env \<Rightarrow> string \<Rightarrow> string option" where
  "run_getenv e k = map_of (ru_environ e) k"

definition attempt :: "run_env \<Rightarrow> string \<Rightarrow> (run_exn + unit) os" where
  "attempt e what = State (\<lambda>w. (case ru_fails e (ow_tick w) what of None \<Rightarrow> Inr () | Some x \<Rightarrow> Inl x,
     w\<lparr>ow_tick := Suc (ow_tick w)\<rparr>))"

definition draw_hex :: "run_env \<Rightarrow> string os" where
  "draw_hex e = State (\<lambda>w. (ru_token e (ow_tick w), w\<lparr>ow_tick := Suc (ow_tick w)\<rparr>))"

definition amend :: "(running_tool \<Rightarrow> running_tool) \<Rightarrow> (run_exn + unit) os" where
  "amend f = State (\<lambda>w. (Inr (), w\<lparr>ow_rec := f (ow_rec w)\<rparr>))"

text \<open>\<^verbatim>\<open>_child_environment\<close>: what a child inherits.\<close>

definition plumbing :: "string list" where
  "plumbing = [''PATH'', ''HOME'', ''TMPDIR'', ''TMP'', ''TEMP'', ''LANG'', ''TZ'', ''PYTHONPATH'', ''VIRTUAL_ENV'',
     ''PYTHONUNBUFFERED'', ''SSL_CERT_FILE'', ''SSL_CERT_DIR'']"

definition child_environment :: "run_env \<Rightarrow> (string \<times> string) list" where
  "child_environment e = filter (\<lambda>kv. fst kv \<in> set plumbing \<or> starts_with ''LC_'' (fst kv)) (ru_environ e)"

section \<open>Commands\<close>

text \<open>\<^verbatim>\<open>shlex.quote\<close>.\<close>

definition shell_safe :: "char \<Rightarrow> bool" where
  "shell_safe c \<longleftrightarrow> is_word c \<or> c \<in> set ''@%+=:,./-''"

definition shell_quote :: "string \<Rightarrow> string" where
  "shell_quote s =
     (if s = [] then [CHR 0x27, CHR 0x27]
      else if list_all shell_safe s then s
      else [CHR 0x27] @ concat (map (\<lambda>c. if c = CHR 0x27 then [CHR 0x27, CHR 0x22, CHR 0x27, CHR 0x22, CHR 0x27] else [c]) s) @ [CHR 0x27])"

text \<open>\<^verbatim>\<open>python(\d+(\.\d+)?)?\<close>.\<close>

definition bare_python :: "string \<Rightarrow> bool" where
  "bare_python s \<longleftrightarrow> starts_with ''python'' s \<and>
     (let v = drop 6 s in v = [] \<or>
        (case split_on (CHR ''.'') v of
           [a] \<Rightarrow> a \<noteq> [] \<and> list_all is_dec a
         | [a, b] \<Rightarrow> a \<noteq> [] \<and> b \<noteq> [] \<and> list_all is_dec a \<and> list_all is_dec b
         | _ \<Rightarrow> False))"

definition bind_interpreter :: "run_env \<Rightarrow> string \<Rightarrow> string" where
  "bind_interpreter e command =
     (let t = dropWhile is_space command; word = takeWhile (\<lambda>c. \<not> is_space c) t;
          rest = dropWhile is_space (dropWhile (\<lambda>c. \<not> is_space c) t)
      in if word = [] \<or> CHR ''/'' \<in> set word \<or> \<not> bare_python word then command
         else rev (dropWhile is_space (rev (shell_quote (ru_python e) @ '' '' @ rest))))"

definition path_in :: "string \<Rightarrow> string \<Rightarrow> string" where
  "path_in d name = (if d = ''.'' then name else if d \<noteq> [] \<and> last d = CHR ''/'' then d @ name else d @ ''/'' @ name)"

definition inner_script :: "run_env \<Rightarrow> tool_def \<Rightarrow> string \<Rightarrow> string" where
  "inner_script e t command = ''cd '' @ shell_quote (td_path t) @ '' && exec '' @ bind_interpreter e command"

definition egress_script :: "run_env \<Rightarrow> string list \<Rightarrow> int \<Rightarrow> string" where
  "egress_script e allow port = ''cd '' @ shell_quote (ru_repo e) @ '' && exec '' @ shell_quote (ru_python e)
     @ '' -m toolyard.egress_proxy --port '' @ show_int port @ '' ''
     @ join_with '' '' (map (\<lambda>h. ''--allow '' @ shell_quote h) allow)"

text \<open>\<^verbatim>\<open>_seatbelt_profile\<close> without unix sockets, which no start asks for.\<close>

definition seatbelt_profile :: "int option \<Rightarrow> string" where
  "seatbelt_profile egress_port = join_with [CHR 0x0A]
     ([''(version 1)'', ''(allow default)'', ''(deny network*)'',
       ''(allow network-bind (local ip '' @ [CHR 0x22] @ ''localhost:*'' @ [CHR 0x22] @ ''))'',
       ''(allow network-inbound (local ip '' @ [CHR 0x22] @ ''localhost:*'' @ [CHR 0x22] @ ''))'']
      @ (case egress_port of None \<Rightarrow> []
         | Some p \<Rightarrow> [''(allow network-outbound (remote ip '' @ [CHR 0x22] @ ''localhost:'' @ show_int p @ [CHR 0x22] @ ''))'']))
     @ [CHR 0x0A]"

definition spawn_argv :: "string \<Rightarrow> string \<Rightarrow> int option \<Rightarrow> string list" where
  "spawn_argv backend script egress_port =
     (if backend = ''seatbelt''
      then [''sandbox-exec'', ''-p'', seatbelt_profile egress_port, ''/bin/sh'', ''-c'', script]
      else [''/bin/sh'', ''-c'', script])"

definition policy_egress :: "string \<Rightarrow> tool_def \<Rightarrow> string list" where
  "policy_egress backend t = (if backend = ''seatbelt'' then td_egress t else [])"

definition set_all :: "(string \<times> string) list \<Rightarrow> (string \<times> string) list \<Rightarrow> (string \<times> string) list" where
  "set_all kvs d = foldl (\<lambda>d kv. AList.update (fst kv) (snd kv) d) d kvs"

definition sps_variables :: "string option \<Rightarrow> resolved_sps option \<Rightarrow> (string \<times> string) list" where
  "sps_variables e_secret cfg =
     (case (e_secret, cfg) of
        (Some s, Some c) \<Rightarrow> [(''TOOLSTACK_E_SECRET'', s), (''TOOLSTACK_SPS_HOST'', rs_host c), (''TOOLSTACK_SPS_PORT'', show_int (rs_port c)),
           (''TOOLSTACK_SPS_CA'', rs_ca c), (''TOOLSTACK_SPS_VERIFY'', if rs_verify c then ''1'' else ''0'')]
      | _ \<Rightarrow> [])"

definition tool_environment ::
  "run_env \<Rightarrow> tool_def \<Rightarrow> string \<Rightarrow> string option \<Rightarrow> resolved_sps option \<Rightarrow> int option \<Rightarrow> (string \<times> string) list" where
  "tool_environment e t channel_secret e_secret cfg egress_port =
     set_all ([(''TOOLSTACK_CHANNEL_SECRET'', channel_secret)] @ sps_variables e_secret cfg
              @ (case egress_port of None \<Rightarrow> []
                 | Some p \<Rightarrow> map (\<lambda>v. (v, ''http://127.0.0.1:'' @ show_int p)) [''HTTP_PROXY'', ''HTTPS_PROXY'', ''http_proxy'', ''https_proxy'']))
       (AList.delete ''TOOLSTACK_E_SECRET''
          (set_all [(''TOOLSTACK_PORT'', show_int (td_port t)), (''TOOLSTACK_TOOL_CONFIG'', path_in (td_path t) ''toolyard.toml'')]
             (child_environment e)))"

section \<open>The children of a record\<close>

definition pid_of :: "child \<Rightarrow> running_tool \<Rightarrow> string option" where
  "pid_of k r = (case k of MainProcess \<Rightarrow> if rn_handle r = [] then None else Some (rn_handle r)
     | LogFollower \<Rightarrow> rn_log_pid r | EgressProxy \<Rightarrow> rn_egress_pid r)"

definition identity_of :: "child \<Rightarrow> running_tool \<Rightarrow> string option" where
  "identity_of k r = (case k of MainProcess \<Rightarrow> rn_process_identity r | LogFollower \<Rightarrow> rn_log_identity r
     | EgressProxy \<Rightarrow> rn_egress_identity r)"

definition has_exited :: "child \<Rightarrow> running_tool \<Rightarrow> bool" where
  "has_exited k r = (case k of MainProcess \<Rightarrow> rn_process_exited r | LogFollower \<Rightarrow> rn_log_exited r
     | EgressProxy \<Rightarrow> rn_egress_exited r)"

definition mark_exited :: "child \<Rightarrow> running_tool \<Rightarrow> running_tool" where
  "mark_exited k r = (case k of MainProcess \<Rightarrow> r\<lparr>rn_process_exited := True\<rparr> | LogFollower \<Rightarrow> r\<lparr>rn_log_exited := True\<rparr>
     | EgressProxy \<Rightarrow> r\<lparr>rn_egress_exited := True\<rparr>)"

definition children :: "running_tool \<Rightarrow> child list" where
  "children r = (if rn_backend r \<in> {''process'', ''seatbelt''} then [MainProcess] else []) @ [LogFollower, EgressProxy]"

text \<open>\<^verbatim>\<open>_cleanup_partial_start\<close>: every child is tried, and what is known to have exited is remembered.\<close>

fun cleanup_children :: "os_env \<Rightarrow> child list \<Rightarrow> running_tool \<Rightarrow> (running_tool \<times> bool) os" where
  "cleanup_children e [] r = ret (r, False)"
| "cleanup_children e (k # ks) r =
     (case pid_of k r of
        None \<Rightarrow> cleanup_children e ks r
      | Some h \<Rightarrow>
          if has_exited k r then cleanup_children e ks r
          else do {
            res \<leftarrow> (case py_int h of Inl _ \<Rightarrow> ret (Inl ''ValueError'')
                    | Inr p \<Rightarrow> if p \<le> 1 then ret (Inl ''invalid process handle'')
                              else terminate_process e (Some h) (identity_of k r) (rn_boot_id r));
            case res of
              Inr _ \<Rightarrow> cleanup_children e ks (mark_exited k r)
            | Inl _ \<Rightarrow> do { (r', _) \<leftarrow> cleanup_children e ks r; ret (r', True) }
          })"

definition cleanup_partial_start :: "os_env \<Rightarrow> running_tool \<Rightarrow> (run_exn + running_tool) os" where
  "cleanup_partial_start e r = do {
     (r', failed) \<leftarrow> cleanup_children e (children r) r;
     ret (if failed then Inl (CleanupFailed r') else Inr r')
   }"

section \<open>Is it alive\<close>

definition pid_absent_run :: "os_env \<Rightarrow> int \<Rightarrow> (run_exn + bool) os" where
  "pid_absent_run e pid = do { r \<leftarrow> pid_absent e pid; ret (case r of Inl m \<Rightarrow> Inl (RunFailed m) | Inr b \<Rightarrow> Inr b) }"

definition pids_are_current :: "os_env \<Rightarrow> int \<Rightarrow> running_tool \<Rightarrow> bool os" where
  "pids_are_current e pid r =
     (if os_boot e = None \<or> rn_boot_id r \<noteq> os_boot e \<or> rn_process_identity r = None then ret False
      else do { current \<leftarrow> look_up e pid; ret (current = rn_process_identity r) })"

text \<open>\<^verbatim>\<open>ProcessRunner.is_alive\<close>; the second component says that it reaped the process.\<close>

definition process_alive :: "os_env \<Rightarrow> running_tool \<Rightarrow> (run_exn + bool \<times> bool) os" where
  "process_alive e r =
     (if rn_process_exited r \<or> rn_handle r = [] then ret (Inr (False, False))
      else case py_int (rn_handle r) of
        Inl _ \<Rightarrow> ret (Inl (RunFailed ''ValueError''))
      | Inr pid \<Rightarrow>
          if nonempty (rn_boot_id r) \<and> nonempty (os_boot e) \<and> rn_boot_id r \<noteq> os_boot e then ret (Inr (False, False))
          else do {
            current \<leftarrow> look_up e pid;
            if \<not> nonempty (rn_boot_id r) \<or> \<not> nonempty (os_boot e) then ret (Inl RunnerConfigError)
            else if rn_process_identity r \<noteq> None \<and> current \<noteq> None \<and> current \<noteq> rn_process_identity r then ret (Inr (False, False))
            else if \<not> nonempty (rn_process_identity r)
            then bind_ok (pid_absent_run e pid) (\<lambda>absent. ret (if absent then Inr (False, False) else Inl RunnerConfigError))
            else do {
              k \<leftarrow> wait_child e pid;
              case k of
                Reaped \<Rightarrow> ret (Inr (False, True))
              | StillRunning \<Rightarrow> ret (Inr (True, False))
              | NotChild \<Rightarrow> bind_ok (pid_absent_run e pid) (\<lambda>absent.
                  if absent then ret (Inr (False, False))
                  else do {
                    same \<leftarrow> pids_are_current e pid r;
                    ret (if same then Inr (True, False) else Inl (RunFailed ''process identity unconfirmed; retain record''))
                  })
            }
          })"

section \<open>Starting\<close>

definition fresh_record :: "run_env \<Rightarrow> string \<Rightarrow> tool_def \<Rightarrow> string \<Rightarrow> string option \<Rightarrow> string \<Rightarrow> running_tool" where
  "fresh_record e backend t log_path e_secret channel_secret =
     \<lparr>rn_tool_id = td_id t, rn_port = td_port t, rn_backend = backend, rn_handle = [], rn_log_pid = None,
      rn_log_path = Some log_path, rn_egress_pid = None, rn_e_secret = e_secret, rn_sps_host = ''127.0.0.1'', rn_sps_port = 8743,
      rn_sps_ca = None, rn_boot_id = os_boot (ru_os e), rn_channel_secret = Some channel_secret, rn_process_identity = None,
      rn_log_identity = None, rn_egress_identity = None, rn_process_exited = False, rn_log_exited = False, rn_egress_exited = False,
      rn_declarations = Some (td_secrets t), rn_manifest_digest = td_manifest_digest t\<rparr>"

text \<open>\<^verbatim>\<open>posix_spawn\<close>, and the assignment that puts the number into the record.\<close>

definition launch :: "run_env \<Rightarrow> child \<Rightarrow> string list \<Rightarrow> (string \<times> string) list \<Rightarrow> (run_exn + int) os" where
  "launch e k argv env = State (\<lambda>w.
     case ru_spawn e (ow_tick w) of
       Inl x \<Rightarrow> (Inl x, w\<lparr>ow_tick := Suc (ow_tick w)\<rparr>)
     | Inr pid \<Rightarrow> (Inr pid, w\<lparr>ow_tick := Suc (ow_tick w), ow_log := ow_log w @ [Spawned k pid argv env],
         ow_rec := (case k of MainProcess \<Rightarrow> (ow_rec w)\<lparr>rn_handle := show_int pid\<rparr>
                    | LogFollower \<Rightarrow> (ow_rec w)\<lparr>rn_log_pid := Some (show_int pid)\<rparr>
                    | EgressProxy \<Rightarrow> (ow_rec w)\<lparr>rn_egress_pid := Some (show_int pid)\<rparr>)\<rparr>))"

definition note_identity :: "run_env \<Rightarrow> child \<Rightarrow> int \<Rightarrow> (run_exn + unit) os" where
  "note_identity e k pid = do {
     i \<leftarrow> look_up (ru_os e) pid;
     amend (\<lambda>r. case k of MainProcess \<Rightarrow> r\<lparr>rn_process_identity := i\<rparr> | LogFollower \<Rightarrow> r\<lparr>rn_log_identity := i\<rparr>
                  | EgressProxy \<Rightarrow> r\<lparr>rn_egress_identity := i\<rparr>)
   }"

text \<open>The first block of the start: the configuration and the registration with the secrets provider. The
  result is the capability the tool gets, and the configuration.\<close>

definition register_tool :: "run_env \<Rightarrow> tool_def \<Rightarrow> string \<Rightarrow> (run_exn + unit) os" where
  "register_tool e t e_secret = State (\<lambda>w.
     case ru_register e (ow_tick w) of
       Some x \<Rightarrow> (Inl x, w\<lparr>ow_tick := Suc (ow_tick w)\<rparr>)
     | None \<Rightarrow> (Inr (), w\<lparr>ow_tick := Suc (ow_tick w), ow_log := ow_log w @ [Registered (td_id t) e_secret (td_secrets t)]\<rparr>))"

definition enroll :: "run_env \<Rightarrow> tool_def \<Rightarrow> string option \<Rightarrow> (run_exn + string option \<times> resolved_sps option) os" where
  "enroll e t e_secret =
     (case e_secret of
        None \<Rightarrow> ret (Inr (None, None))
      | Some secret \<Rightarrow> do {
          cfg \<leftarrow> State (\<lambda>w. (ru_config e (ow_tick w), w\<lparr>ow_tick := Suc (ow_tick w)\<rparr>));
          (cfg', res) \<leftarrow> (case cfg of
              Inl x \<Rightarrow> ret (None, Inl x)
            | Inr c \<Rightarrow> do { r \<leftarrow> register_tool e t secret; ret (Some c, r) });
          case res of
            Inr _ \<Rightarrow> ret (Inr (Some secret, cfg'))
          | Inl RunnerConfigError \<Rightarrow> ret (Inl RunnerConfigError)
          | Inl Interrupted \<Rightarrow> ret (Inl Interrupted)
          | Inl _ \<Rightarrow> if td_secrets t \<noteq> [] then ret (Inl (RunFailed ''registration failed and the tool declares secrets''))
                     else ret (Inr (None, cfg'))
        })"

definition start_egress :: "run_env \<Rightarrow> string list \<Rightarrow> (run_exn + int option) os" where
  "start_egress e allow =
     (if allow = [] then ret (Inr None)
      else bind_ok (attempt e ''free port'') (\<lambda>_. do {
        port \<leftarrow> State (\<lambda>w. (ru_port e (ow_tick w), w\<lparr>ow_tick := Suc (ow_tick w)\<rparr>));
        bind_ok (launch e EgressProxy [''/bin/sh'', ''-c'', egress_script e allow port] (child_environment e)) (\<lambda>pid.
        bind_ok (note_identity e EgressProxy pid) (\<lambda>_. ret (Inr (Some port))))
      }))"

text \<open>The readiness check: a reaped process is marked, and a tool that is not alive fails the start.\<close>

definition judge_start :: "run_env \<Rightarrow> running_tool \<Rightarrow> (run_exn + running_tool) os" where
  "judge_start e r =
     bind_ok (process_alive (ru_os e) r) (\<lambda>(alive, reaped).
     bind_ok (if reaped then amend (mark_exited MainProcess) else ret (Inr ())) (\<lambda>_.
     if alive then ret (Inr r) else ret (Inl (RunFailed ''exited immediately on start''))))"

definition launch_tool ::
  "run_env \<Rightarrow> string \<Rightarrow> tool_def \<Rightarrow> string \<Rightarrow> string \<Rightarrow> string option \<Rightarrow> resolved_sps option \<Rightarrow> (run_exn + running_tool) os" where
  "launch_tool e backend t command channel_secret e_secret cfg =
     bind_ok (amend (\<lambda>r. r\<lparr>rn_e_secret := e_secret,
         rn_sps_host := (case cfg of None \<Rightarrow> ''127.0.0.1'' | Some c \<Rightarrow> rs_host c),
         rn_sps_port := (case cfg of None \<Rightarrow> 8743 | Some c \<Rightarrow> rs_port c),
         rn_sps_ca := map_option rs_ca cfg\<rparr>)) (\<lambda>_.
     bind_ok (start_egress e (policy_egress backend t)) (\<lambda>egress_port.
     bind_ok (attempt e ''open log'') (\<lambda>_.
     bind_ok (launch e MainProcess (spawn_argv backend (inner_script e t command) egress_port)
         (tool_environment e t channel_secret e_secret cfg egress_port)) (\<lambda>pid.
     bind_ok (note_identity e MainProcess pid) (\<lambda>_.
     bind_ok (attempt e ''readiness'') (\<lambda>_. do {
       r \<leftarrow> State (\<lambda>w. (ow_rec w, w));
       judge_start e r
     }))))))"

text \<open>The block guarded by the handlers.\<close>

definition start_body ::
  "run_env \<Rightarrow> string \<Rightarrow> tool_def \<Rightarrow> string \<Rightarrow> string \<Rightarrow> string option \<Rightarrow> (run_exn + running_tool) os" where
  "start_body e backend t command channel_secret minted =
     bind_ok (enroll e t minted) (\<lambda>(e_secret, cfg). launch_tool e backend t command channel_secret e_secret cfg)"

definition sps_active :: "run_env \<Rightarrow> bool" where
  "sps_active e \<longleftrightarrow> run_getenv e ''TOOLSTACK_SPS_SKIP'' \<noteq> Some ''1'' \<and> ru_sps_file e"

definition unregister_tool :: "run_env \<Rightarrow> string \<Rightarrow> unit os" where
  "unregister_tool e tool_id = State (\<lambda>w. ((), w\<lparr>ow_tick := Suc (ow_tick w), ow_log := ow_log w @ [Unregistered tool_id]\<rparr>))"

text \<open>The handler: the children are stopped, and a registration made since the log was \<open>earlier\<close> is withdrawn.\<close>

definition is_registration :: "os_event \<Rightarrow> bool" where
  "is_registration ev = (case ev of Registered _ _ _ \<Rightarrow> True | _ \<Rightarrow> False)"

definition abandon_start :: "run_env \<Rightarrow> tool_def \<Rightarrow> os_event list \<Rightarrow> run_exn \<Rightarrow> (run_exn + running_tool) os" where
  "abandon_start e t earlier cause = do {
     (r, now) \<leftarrow> State (\<lambda>w. ((ow_rec w, ow_log w), w));
     cleaned \<leftarrow> cleanup_partial_start (ru_os e) r;
     _ \<leftarrow> (if list_ex is_registration (drop (length earlier) now) then unregister_tool e (td_id t) else ret ());
     ret (case cleaned of Inl x \<Rightarrow> Inl x | Inr _ \<Rightarrow> Inl cause)
   }"

text \<open>\<^verbatim>\<open>ProcessRunner.start\<close>, for the backends \<^verbatim>\<open>process\<close> and \<^verbatim>\<open>seatbelt\<close>.\<close>

definition process_start :: "run_env \<Rightarrow> string \<Rightarrow> tool_def \<Rightarrow> (run_exn + running_tool) os" where
  "process_start e backend t =
     (case td_command t of
        None \<Rightarrow> ret (Inl (RunFailed ''no entrypoint.command''))
      | Some command \<Rightarrow>
          if command = [] then ret (Inl (RunFailed ''no entrypoint.command''))
          else bind_ok (attempt e ''check port'') (\<lambda>_.
            if (sps_active e \<or> td_secrets t \<noteq> []) \<and> backend \<noteq> ''process'' then ret (Inl RunnerConfigError)
            else if td_secrets t \<noteq> [] \<and> \<not> sps_active e \<and> run_getenv e ''TOOLSTACK_SPS_SKIP'' \<noteq> Some ''1''
            then ret (Inl RunnerConfigError)
            else do {
              channel_secret \<leftarrow> draw_hex e;
              minted \<leftarrow> (if sps_active e then do { s \<leftarrow> draw_hex e; ret (Some s) } else ret None);
              bind_ok (attempt e ''log path'') (\<lambda>_.
              bind_ok (amend (\<lambda>_. fresh_record e backend t (path_in (path_in (td_path t) ''logs'') ''tool.log'') minted channel_secret)) (\<lambda>_. do {
                earlier \<leftarrow> State (\<lambda>w. (ow_log w, w));
                res \<leftarrow> start_body e backend t command channel_secret minted;
                case res of
                  Inr r \<Rightarrow> ret (Inr r)
                | Inl cause \<Rightarrow> abandon_start e t earlier cause
              }))
            }))"

text \<open>\<^verbatim>\<open>ProcessRunner.stop\<close>: whatever becomes of the processes, the provider is asked to
  withdraw the capability (a request that may fail).\<close>

definition process_stop :: "run_env \<Rightarrow> running_tool \<Rightarrow> (run_exn + unit) os" where
  "process_stop e r = do {
     res \<leftarrow> cleanup_partial_start (ru_os e) r;
     _ \<leftarrow> (if nonempty (rn_e_secret r) then unregister_tool e (rn_tool_id r) else ret ());
     ret (map_sum id (\<lambda>_. ()) res)
   }"

end
