(* ===== verification/RunnerProps.thy ===== *)
theory RunnerProps
  imports Runner
begin

text \<open>
  What the runner promises about the processes it starts: it signals only a process it has just recognised,
  and it forgets none it started.
\<close>

section \<open>Records\<close>

lemma mark_exited_simps [simp]:
  "pid_of k (mark_exited j r) = pid_of k r" "identity_of k (mark_exited j r) = identity_of k r"
  "rn_boot_id (mark_exited j r) = rn_boot_id r" "rn_backend (mark_exited j r) = rn_backend r"
  "has_exited k (mark_exited j r) \<longleftrightarrow> k = j \<or> has_exited k r"
  by (cases j; cases k; simp add: mark_exited_def pid_of_def identity_of_def has_exited_def)+

section \<open>Stopping the children of a record\<close>

definition recorded_signals :: "os_env \<Rightarrow> running_tool \<Rightarrow> os_event list \<Rightarrow> bool" where
  "recorded_signals e r evs \<longleftrightarrow>
     (\<forall>a q s c b. evs = a @ Signalled q s c # b \<longrightarrow>
        (\<exists>k h. pid_of k r = Some h \<and> py_int h = Inr q \<and> q > 1 \<and> \<not> has_exited k r \<and> nonempty (rn_boot_id r)
           \<and> os_boot e = rn_boot_id r \<and> nonempty (identity_of k r) \<and> (\<exists>a'. a = a' @ [Looked q (identity_of k r)])))"

lemma recorded_signals_append:
  "recorded_signals e r a \<Longrightarrow> recorded_signals e r b \<Longrightarrow> recorded_signals e r (a @ b)"
  unfolding recorded_signals_def append_eq_append_conv2 by (fastforce simp: append_eq_Cons_conv)

lemma recorded_signals_guarded:
  assumes "guarded e p (identity_of k r) (rn_boot_id r) evs" "pid_of k r = Some h" "py_int h = Inr p" "p > 1" "\<not> has_exited k r"
  shows "recorded_signals e r evs"
  using assms unfolding recorded_signals_def guarded_def by metis

lemma recorded_signals_mark: "recorded_signals e (mark_exited k r) evs \<Longrightarrow> recorded_signals e r evs"
  unfolding recorded_signals_def by simp metis

text \<open>What cleaning up gives: the numbers stay, and an exit that is newly recorded rests on evidence.\<close>

definition cleaned :: "os_env \<Rightarrow> child list \<Rightarrow> running_tool \<Rightarrow> running_tool \<times> bool \<Rightarrow> os_event list \<Rightarrow> bool" where
  "cleaned e ks r res evs \<longleftrightarrow>
     list_all quiet_event evs \<and> recorded_signals e r evs \<and> rn_boot_id (fst res) = rn_boot_id r
     \<and> (\<forall>k. pid_of k (fst res) = pid_of k r \<and> (has_exited k r \<longrightarrow> has_exited k (fst res)))
     \<and> (\<forall>k. has_exited k (fst res) \<longrightarrow> \<not> has_exited k r \<longrightarrow>
          (\<exists>h p. pid_of k r = Some h \<and> py_int h = Inr p \<and> gone e (rn_boot_id r) p evs))
     \<and> (\<not> snd res \<longrightarrow> (\<forall>k \<in> set ks. pid_of k r \<noteq> None \<longrightarrow> has_exited k (fst res)))"

lemma cleanedD:
  "cleaned e ks r res evs \<Longrightarrow> has_exited k (fst res) \<Longrightarrow> \<not> has_exited k r
     \<Longrightarrow> \<exists>h p. pid_of k r = Some h \<and> py_int h = Inr p \<and> gone e (rn_boot_id r) p evs"
  by (simp add: cleaned_def)

lemma cleaned_Nil: "cleaned e [] r (r, False) []"
  by (simp add: cleaned_def recorded_signals_def)

lemma cleaned_skip: "cleaned e ks r res evs \<Longrightarrow> pid_of k r = None \<or> has_exited k r \<Longrightarrow> cleaned e (k # ks) r res evs"
  by (auto simp: cleaned_def)

lemma cleaned_failed:
  assumes c: "cleaned e ks r (r', x) evs" and a: "list_all quiet_event a" "recorded_signals e r a"
  shows "cleaned e (k # ks) r (r', True) (a @ evs)"
  unfolding cleaned_def
proof (intro conjI allI impI ballI)
  show "list_all quiet_event (a @ evs)" "recorded_signals e r (a @ evs)"
    using c a by (auto simp: cleaned_def recorded_signals_append)
  fix j assume "has_exited j (fst (r', True))" "\<not> has_exited j r"
  with cleanedD [OF c, of j] show "\<exists>h p. pid_of j r = Some h \<and> py_int h = Inr p \<and> gone e (rn_boot_id r) p (a @ evs)"
    by (auto intro: gone_append(2))
qed (use c in \<open>auto simp: cleaned_def\<close>)

lemma cleaned_marked:
  assumes "cleaned e ks (mark_exited k r) res evs" "list_all quiet_event a" "recorded_signals e r a"
    and "pid_of k r = Some h" "py_int h = Inr p" "gone e (rn_boot_id r) p a"
  shows "cleaned e (k # ks) r res (a @ evs)"
  unfolding cleaned_def
proof (intro conjI allI impI ballI)
  show "list_all quiet_event (a @ evs)" "recorded_signals e r (a @ evs)"
    using assms recorded_signals_mark by (auto simp: cleaned_def recorded_signals_append)
  fix j assume j: "has_exited j (fst res)" "\<not> has_exited j r"
  show "\<exists>h p. pid_of j r = Some h \<and> py_int h = Inr p \<and> gone e (rn_boot_id r) p (a @ evs)"
  proof (cases "j = k")
    case True
    with j assms show ?thesis by (auto intro: gone_append(1))
  next
    case False
    with j cleanedD [OF assms(1), of j] show ?thesis by (auto intro: gone_append(2))
  qed
qed (use assms in \<open>auto simp: cleaned_def\<close>)

lemma tracks_cleanup_children: "tracks (cleaned e ks r) (cleanup_children e ks r)"
proof (induction ks arbitrary: r)
  case Nil
  show ?case by (simp add: tracks_ret cleaned_Nil)
next
  case (Cons k ks)
  show ?case
  proof (cases "pid_of k r")
    case None
    then show ?thesis by (auto intro: tracks_mono [OF Cons.IH] cleaned_skip)
  next
    case (Some h)
    show ?thesis
    proof (cases "has_exited k r")
      case True
      then show ?thesis using Some by (auto intro: tracks_mono [OF Cons.IH] cleaned_skip)
    next
      case False
      let ?stopping = "case py_int h of Inl _ \<Rightarrow> ret (Inl ''ValueError'')
          | Inr p \<Rightarrow> if p \<le> 1 then ret (Inl ''invalid process handle'')
                    else terminate_process e (Some h) (identity_of k r) (rn_boot_id r)"
      have stop: "tracks (\<lambda>res evs. list_all quiet_event evs \<and> recorded_signals e r evs
          \<and> (res = Inr () \<longrightarrow> (\<exists>p. py_int h = Inr p \<and> gone e (rn_boot_id r) p evs))) ?stopping"
      proof (cases "py_int h")
        case (Inr p)
        show ?thesis
        proof (cases "p \<le> 1")
          case False
          then have "p > 1" by simp
          from tracks_terminate [OF Inr this, of e "identity_of k r" "rn_boot_id r"] Inr False Some \<open>\<not> has_exited k r\<close>
          show ?thesis by (auto simp: stop_ok_def intro: recorded_signals_guarded elim!: tracks_mono)
        qed (use Inr in \<open>simp add: tracks_ret recorded_signals_def\<close>)
      qed (simp add: tracks_ret recorded_signals_def)
      have "tracks (cleaned e (k # ks) r) (do {
          res \<leftarrow> ?stopping;
          case res of
            Inr _ \<Rightarrow> cleanup_children e ks (mark_exited k r)
          | Inl _ \<Rightarrow> do { (r', _) \<leftarrow> cleanup_children e ks r; ret (r', True) } })"
      proof (rule tracks_bind [OF stop], elim conjE)
        fix res a assume a: "list_all quiet_event a" "recorded_signals e r a"
          and res: "res = Inr () \<longrightarrow> (\<exists>p. py_int h = Inr p \<and> gone e (rn_boot_id r) p a)"
        show "tracks (\<lambda>y b. cleaned e (k # ks) r y (a @ b)) (case res of
            Inr _ \<Rightarrow> cleanup_children e ks (mark_exited k r)
          | Inl _ \<Rightarrow> do { (r', _) \<leftarrow> cleanup_children e ks r; ret (r', True) })"
        proof (cases res)
          case (Inl m)
          have "tracks (\<lambda>y b. cleaned e (k # ks) r y (a @ b)) (do { (r', _) \<leftarrow> cleanup_children e ks r; ret (r', True) })"
            by (rule tracks_bind [OF Cons.IH]) (auto intro!: tracks_ret cleaned_failed [OF _ a])
          with Inl show ?thesis by simp
        next
          case (Inr u)
          with res obtain p where p: "py_int h = Inr p" "gone e (rn_boot_id r) p a" by auto
          have "tracks (\<lambda>y b. cleaned e (k # ks) r y (a @ b)) (cleanup_children e ks (mark_exited k r))"
            by (rule tracks_mono [OF Cons.IH]) (rule cleaned_marked [OF _ a Some p])
          with Inr show ?thesis by simp
        qed
      qed
      then show ?thesis using Some False by simp
    qed
  qed
qed

lemma cleanup_run:
  assumes "run_state (cleanup_partial_start e r) w = (res, w')"
  obtains r' failed evs where "res = (if failed then Inl (CleanupFailed r') else Inr r')" "ow_log w' = ow_log w @ evs"
    "ow_rec w' = ow_rec w" "cleaned e (children r) r (r', failed) evs"
proof -
  obtain x w1 where one: "run_state (cleanup_children e (children r) r) w = (x, w1)" by (cases "run_state (cleanup_children e (children r) r) w")
  from tracksD [OF tracks_cleanup_children one] assms one that show thesis
    by (cases x) (auto simp: cleanup_partial_start_def)
qed

section \<open>The block of the start\<close>

text \<open>After the events \<open>evs\<close> since the start began: what was started is in the record, the children in \<open>A\<close>
  were not started yet, and none is recorded as gone.\<close>

definition owned :: "run_env \<Rightarrow> string \<Rightarrow> os_event list \<Rightarrow> child set \<Rightarrow> os_world \<Rightarrow> bool" where
  "owned e b L A w \<longleftrightarrow> (\<exists>evs. ow_log w = L @ evs \<and> rn_backend (ow_rec w) = b \<and> rn_boot_id (ow_rec w) = os_boot (ru_os e)
     \<and> (\<forall>k pid argv env. Spawned k pid argv env \<in> set evs \<longrightarrow> pid_of k (ow_rec w) = Some (show_int pid))
     \<and> (\<forall>k \<in> A. pid_of k (ow_rec w) = None) \<and> (\<forall>k. \<not> has_exited k (ow_rec w)))"

lemma owned_tracks:
  assumes "tracks (\<lambda>_. list_all quiet_event) m"
  shows "hoare (owned e b L A) m (\<lambda>_. owned e b L A)"
proof (rule hoareI)
  fix w r w' assume h: "owned e b L A w" and run: "run_state m w = (r, w')"
  from tracksD [OF assms run] obtain evs where evs: "ow_log w' = ow_log w @ evs" "ow_rec w' = ow_rec w" "list_all quiet_event evs" by blast
  from h obtain es where es: "ow_log w = L @ es" "rn_backend (ow_rec w) = b" "rn_boot_id (ow_rec w) = os_boot (ru_os e)"
    "\<And>k pid argv env. Spawned k pid argv env \<in> set es \<Longrightarrow> pid_of k (ow_rec w) = Some (show_int pid)"
    "\<forall>k \<in> A. pid_of k (ow_rec w) = None" "\<forall>k. \<not> has_exited k (ow_rec w)"
    unfolding owned_def by blast
  have "Spawned k pid argv env \<notin> set evs" for k pid argv env
    using evs(3) by (auto simp: list_all_iff quiet_event_def)
  with es evs show "owned e b L A w'" unfolding owned_def by (intro exI [of _ "es @ evs"]) auto
qed

lemma owned_tick: "hoare (owned e b L A) (State (\<lambda>w. (f w, w\<lparr>ow_tick := Suc (ow_tick w)\<rparr>))) (\<lambda>_. owned e b L A)"
  by (rule hoareI) (auto simp: owned_def)

lemma owned_attempt: "hoare (owned e b L A) (attempt e what) (\<lambda>_. owned e b L A)"
  unfolding attempt_def by (rule owned_tick)

lemma owned_amend:
  assumes "\<And>r k. pid_of k (f r) = pid_of k r \<and> has_exited k (f r) = has_exited k r"
    "\<And>r. rn_boot_id (f r) = rn_boot_id r \<and> rn_backend (f r) = rn_backend r"
  shows "hoare (owned e b L A) (amend f) (\<lambda>_. owned e b L A)"
  using assms by (auto simp: hoare_def amend_def owned_def)

lemma owned_look: "hoare (owned e b L A) (look_up o' pid) (\<lambda>_. owned e b L A)"
  unfolding look_up_def by (rule owned_tracks, rule tracks_observe) (simp add: quiet_event_def)

lemma owned_note: "hoare (owned e b L A) (note_identity e k pid) (\<lambda>_. owned e b L A)"
  unfolding note_identity_def
  by (rule hoare_bind [OF owned_look], rule owned_amend)
    (cases k; simp add: pid_of_def has_exited_def split: child.splits)+

lemma owned_launch:
  assumes "k \<in> A"
  shows "hoare (owned e b L A) (launch e k argv env) (\<lambda>_. owned e b L (A - {k}))"
proof (rule hoareI)
  fix w r w' assume h: "owned e b L A w" and run: "run_state (launch e k argv env) w = (r, w')"
  from h obtain es where es: "ow_log w = L @ es" "rn_backend (ow_rec w) = b" "rn_boot_id (ow_rec w) = os_boot (ru_os e)"
    "\<And>k pid argv env. Spawned k pid argv env \<in> set es \<Longrightarrow> pid_of k (ow_rec w) = Some (show_int pid)"
    "\<forall>k \<in> A. pid_of k (ow_rec w) = None" "\<forall>k. \<not> has_exited k (ow_rec w)"
    unfolding owned_def by blast
  show "owned e b L (A - {k}) w'"
  proof (cases "ru_spawn e (ow_tick w)")
    case (Inl x)
    with run es show ?thesis unfolding owned_def by (intro exI [of _ es]) (auto simp: launch_def)
  next
    case (Inr pid)
    let ?r = "ow_rec w'"
    have w': "ow_log w' = L @ (es @ [Spawned k pid argv env])" "rn_backend ?r = b" "rn_boot_id ?r = os_boot (ru_os e)"
      "pid_of k ?r = Some (show_int pid)" "\<And>j. j \<noteq> k \<Longrightarrow> pid_of j ?r = pid_of j (ow_rec w)" "\<And>j. has_exited j ?r = has_exited j (ow_rec w)"
      using run Inr es(1-3) by (auto simp: launch_def pid_of_def has_exited_def split: child.splits)
    have "pid_of j ?r = Some (show_int q)" if "Spawned j q a en \<in> set (es @ [Spawned k pid argv env])" for j q a en
    proof (cases "Spawned j q a en \<in> set es")
      case True
      then have "pid_of j (ow_rec w) = Some (show_int q)" by (rule es(4))
      moreover from this es(5) assms have "j \<noteq> k" by auto
      ultimately show ?thesis using w'(5) by simp
    qed (use that w'(4) in auto)
    with w' es(5,6) show ?thesis unfolding owned_def by (intro exI [of _ "es @ [Spawned k pid argv env]"]) auto
  qed
qed

lemma owned_less: "owned e b L A w \<Longrightarrow> B \<subseteq> A \<Longrightarrow> owned e b L B w"
  unfolding owned_def by blast

lemma owned_enroll: "hoare (owned e b L A) (enroll e t s) (\<lambda>_. owned e b L A)"
proof -
  have reg: "hoare (owned e b L A) (register_tool e t x) (\<lambda>_. owned e b L A)" for x
  proof (rule hoareI)
    fix w r w' assume h: "owned e b L A w" and run: "run_state (register_tool e t x) w = (r, w')"
    from h obtain es where es: "ow_log w = L @ es" "rn_backend (ow_rec w) = b" "rn_boot_id (ow_rec w) = os_boot (ru_os e)"
      "\<And>k pid argv env. Spawned k pid argv env \<in> set es \<Longrightarrow> pid_of k (ow_rec w) = Some (show_int pid)"
      "\<forall>k \<in> A. pid_of k (ow_rec w) = None" "\<forall>k. \<not> has_exited k (ow_rec w)"
      unfolding owned_def by blast
    show "owned e b L A w'"
    proof (cases "ru_register e (ow_tick w)")
      case None
      with run es show ?thesis unfolding owned_def
        by (intro exI [of _ "es @ [Registered (td_id t) x (td_secrets t)]"]) (auto simp: register_tool_def)
    qed (use run es in \<open>auto simp: register_tool_def owned_def\<close>)
  qed
  show ?thesis
  proof (cases s)
    case (Some x)
    show ?thesis unfolding enroll_def Some option.case
    proof (rule hoare_bind [OF owned_tick])
      fix cfg :: "run_exn + resolved_sps"
      have part: "hoare (owned e b L A) (case cfg of Inl x \<Rightarrow> ret (None, Inl x) | Inr c \<Rightarrow> do { r \<leftarrow> register_tool e t x; ret (Some c, r) })
          (\<lambda>_. owned e b L A)"
        by (cases cfg) (auto intro!: hoare_ret hoare_bind [OF reg])
      show "hoare (owned e b L A) (do {
          (cfg', res) \<leftarrow> (case cfg of Inl x \<Rightarrow> ret (None, Inl x) | Inr c \<Rightarrow> do { r \<leftarrow> register_tool e t x; ret (Some c, r) });
          case res of
            Inr _ \<Rightarrow> ret (Inr (Some x, cfg'))
          | Inl RunnerConfigError \<Rightarrow> ret (Inl RunnerConfigError)
          | Inl Interrupted \<Rightarrow> ret (Inl Interrupted)
          | Inl _ \<Rightarrow> if td_secrets t \<noteq> [] then ret (Inl (RunFailed ''registration failed and the tool declares secrets''))
                     else ret (Inr (None, cfg')) }) (\<lambda>_. owned e b L A)"
        by (rule hoare_bind [OF part]) (auto intro!: hoare_ret split: sum.splits run_exn.splits)
    qed
  qed (simp add: enroll_def hoare_ret)
qed

lemma owned_start_egress:
  "hoare (owned e b L {MainProcess, EgressProxy}) (start_egress e allow) (\<lambda>_. owned e b L {MainProcess})"
proof -
  have drop: "hoare (owned e b L {MainProcess, EgressProxy}) (launch e EgressProxy argv env) (\<lambda>_. owned e b L {MainProcess})" for argv env
    by (rule hoare_post [OF owned_launch]) (auto elim: owned_less)
  show ?thesis unfolding start_egress_def
    by (auto intro!: hoare_if hoare_ret hoare_bind_ok [OF owned_attempt] hoare_bind [OF owned_tick] hoare_bind_ok [OF drop]
        hoare_bind_ok [OF owned_note] elim: owned_less)
qed

text \<open>Whether the tool is alive: a reaped process was waited for.\<close>

definition reaped_ok :: "running_tool \<Rightarrow> run_exn + bool \<times> bool \<Rightarrow> os_event list \<Rightarrow> bool" where
  "reaped_ok r res evs \<longleftrightarrow> list_all quiet_event evs \<and>
     (\<forall>x. res = Inr (x, True) \<longrightarrow> \<not> x \<and> (\<exists>p. rn_handle r \<noteq> [] \<and> py_int (rn_handle r) = Inr p \<and> Waited p Reaped \<in> set evs))"

lemma reaped_ok_append: "list_all quiet_event a \<Longrightarrow> reaped_ok r res b \<Longrightarrow> reaped_ok r res (a @ b)"
  by (auto simp: reaped_ok_def)

lemma tracks_pid_absent_run: "tracks (\<lambda>_. list_all quiet_event) (pid_absent_run e pid)"
  unfolding pid_absent_run_def
  by (rule tracks_bind [OF tracks_pid_absent [of e pid None None]]) (auto intro!: tracks_ret simp: stop_ok_def)

lemma tracks_pids_are_current: "tracks (\<lambda>_. list_all quiet_event) (pids_are_current e pid r)"
  unfolding pids_are_current_def look_up_def
  by (intro tracks_if tracks_ret tracks_bind [OF tracks_observe [where G = "\<lambda>_. list_all quiet_event"]])
    (simp_all add: quiet_event_def)

lemma tracks_alive_probe:
  "tracks (reaped_ok r) (bind_ok (pid_absent_run e pid) (\<lambda>absent.
      if absent then ret (Inr (False, False))
      else do { same \<leftarrow> pids_are_current e pid r; ret (if same then Inr (True, False) else Inl x) }))"
  by (rule tracks_bind_ok [OF tracks_pid_absent_run])
    (auto intro!: tracks_if tracks_ret tracks_bind [OF tracks_pids_are_current] simp: reaped_ok_def split: if_splits)

lemma tracks_alive_wait:
  assumes "rn_handle r \<noteq> []" "py_int (rn_handle r) = Inr pid"
  shows "tracks (reaped_ok r) (do {
      k \<leftarrow> wait_child e pid;
      case k of
        Reaped \<Rightarrow> ret (Inr (False, True))
      | StillRunning \<Rightarrow> ret (Inr (True, False))
      | NotChild \<Rightarrow> bind_ok (pid_absent_run e pid) (\<lambda>absent.
          if absent then ret (Inr (False, False))
          else do { same \<leftarrow> pids_are_current e pid r; ret (if same then Inr (True, False) else Inl x) }) })"
  unfolding wait_child_def
proof (rule tracks_bind [OF tracks_observe [where G = "\<lambda>k evs. evs = [Waited pid k]"]])
  fix k and a assume a: "a = [Waited pid k]"
  have q: "list_all quiet_event a" by (simp add: a quiet_event_def)
  show "tracks (\<lambda>y b. reaped_ok r y (a @ b)) (case k of
        Reaped \<Rightarrow> ret (Inr (False, True))
      | StillRunning \<Rightarrow> ret (Inr (True, False))
      | NotChild \<Rightarrow> bind_ok (pid_absent_run e pid) (\<lambda>absent.
          if absent then ret (Inr (False, False))
          else do { same \<leftarrow> pids_are_current e pid r; ret (if same then Inr (True, False) else Inl x) }))"
  proof (cases k)
    case NotChild
    then show ?thesis using tracks_mono [OF tracks_alive_probe reaped_ok_append [OF q]] by simp
  qed (use assms q in \<open>auto intro!: tracks_ret simp: a reaped_ok_def\<close>)
qed simp

lemma tracks_process_alive: "tracks (reaped_ok r) (process_alive e r)"
proof (cases "rn_process_exited r \<or> rn_handle r = []")
  case True
  then show ?thesis by (simp add: process_alive_def tracks_ret reaped_ok_def)
next
  case False
  show ?thesis
  proof (cases "py_int (rn_handle r)")
    case (Inl x)
    with False show ?thesis by (simp add: process_alive_def tracks_ret reaped_ok_def)
  next
    case (Inr pid)
    have seen: "tracks (\<lambda>_. list_all quiet_event) (look_up e pid)"
      unfolding look_up_def by (rule tracks_observe) (simp add: quiet_event_def)
    have absent: "tracks (reaped_ok r) (bind_ok (pid_absent_run e pid) (\<lambda>absent. ret (if absent then Inr (False, False) else Inl x)))" for x
      by (rule tracks_bind_ok [OF tracks_pid_absent_run]) (auto intro!: tracks_ret simp: reaped_ok_def)
    have "rn_handle r \<noteq> []" using False by simp
    note wait = tracks_alive_wait [OF this Inr, of e]
    have answer: "reaped_ok r (Inr (x, False)) a" "reaped_ok r (Inl y) a" if "list_all quiet_event a" for x y a
      using that by (simp_all add: reaped_ok_def)
    show ?thesis
      unfolding process_alive_def if_not_P [OF False] Inr sum.case
      by (intro tracks_if tracks_ret tracks_bind [OF seen] tracks_mono [OF absent reaped_ok_append] tracks_mono [OF wait reaped_ok_append])
        (simp_all add: answer)
  qed
qed

text \<open>The block as a whole: what it started is in the record, and what the record says is gone was reaped.\<close>

definition accounted :: "run_env \<Rightarrow> string \<Rightarrow> os_event list \<Rightarrow> os_world \<Rightarrow> bool" where
  "accounted e b L w \<longleftrightarrow> (\<exists>evs. ow_log w = L @ evs \<and> rn_backend (ow_rec w) = b \<and> rn_boot_id (ow_rec w) = os_boot (ru_os e)
     \<and> (\<forall>k pid argv env. Spawned k pid argv env \<in> set evs \<longrightarrow> pid_of k (ow_rec w) = Some (show_int pid))
     \<and> (\<forall>k. has_exited k (ow_rec w) \<longrightarrow> (\<exists>h p. pid_of k (ow_rec w) = Some h \<and> py_int h = Inr p \<and> Waited p Reaped \<in> set evs)))"

lemma owned_accounted: "owned e b L A w \<Longrightarrow> accounted e b L w"
  unfolding owned_def accounted_def by blast

definition start_post :: "run_env \<Rightarrow> string \<Rightarrow> os_event list \<Rightarrow> run_exn + running_tool \<Rightarrow> os_world \<Rightarrow> bool" where
  "start_post e b L res w \<longleftrightarrow> accounted e b L w \<and> (\<forall>r. res = Inr r \<longrightarrow> r = ow_rec w \<and> owned e b L {} w)"

lemma owned_failed: "owned e b L A w \<Longrightarrow> start_post e b L (Inl x) w"
  by (simp add: start_post_def owned_accounted)

lemma start_judge:
  "hoare (\<lambda>w. r = ow_rec w \<and> owned e b L {} w) (judge_start e r) (start_post e b L)"
proof (rule hoareI)
  fix w res w' assume h: "r = ow_rec w \<and> owned e b L {} w" and run: "run_state (judge_start e r) w = (res, w')"
  obtain o1 w1 where one: "run_state (process_alive (ru_os e) r) w = (o1, w1)" by (cases "run_state (process_alive (ru_os e) r) w")
  from tracksD [OF tracks_process_alive one] obtain evs where evs: "ow_log w1 = ow_log w @ evs" "ow_rec w1 = r" "reaped_ok r o1 evs"
    using h by auto
  have quiet: "tracks (\<lambda>_. list_all quiet_event) (process_alive (ru_os e) r)"
    by (rule tracks_mono [OF tracks_process_alive]) (simp add: reaped_ok_def)
  have h1: "owned e b L {} w1" using hoareD [OF owned_tracks [OF quiet] _ one] h by blast
  show "start_post e b L res w'"
  proof (cases o1)
    case (Inl y)
    with run one h1 show ?thesis by (auto simp: judge_start_def bind_ok_run intro: owned_failed)
  next
    case (Inr v)
    obtain alive reaped where v: "v = (alive, reaped)" by (cases v)
    show ?thesis
    proof (cases reaped)
      case False
      with run one Inr v h1 evs(2) show ?thesis
        by (auto simp: judge_start_def bind_ok_run start_post_def owned_accounted split: if_splits)
    next
      case True
      from evs(3) Inr v True obtain p where p: "rn_handle r \<noteq> []" "py_int (rn_handle r) = Inr p" "Waited p Reaped \<in> set evs"
        by (auto simp: reaped_ok_def)
      have fin: "w' = w1\<lparr>ow_rec := mark_exited MainProcess r\<rparr>" "alive \<longrightarrow> False"
        using run one Inr v True evs by (auto simp: judge_start_def bind_ok_run amend_def reaped_ok_def split: if_splits)
      from h1 obtain es where es: "ow_log w1 = L @ es" "rn_backend r = b" "rn_boot_id r = os_boot (ru_os e)"
        "\<forall>k pid argv env. Spawned k pid argv env \<in> set es \<longrightarrow> pid_of k r = Some (show_int pid)" "\<forall>k. \<not> has_exited k r"
        unfolding owned_def evs(2) by blast
      have "Waited p Reaped \<in> set es" using h p(3) es(1) evs(1) unfolding owned_def by auto
      moreover from p have "pid_of MainProcess r = Some (rn_handle r)" by (simp add: pid_of_def)
      moreover have "ow_log w' = L @ es" "ow_rec w' = mark_exited MainProcess r" using fin es by simp_all
      moreover have "\<exists>x. res = Inl x" using run one Inr v True fin(2) by (auto simp: judge_start_def bind_ok_run amend_def)
      ultimately show ?thesis using es p(2)
        by (auto simp: start_post_def accounted_def)
    qed
  qed
qed

lemma owned_start_body:
  "hoare (owned e b L {MainProcess, EgressProxy}) (start_body e b t command cs minted) (start_post e b L)"
proof -
  have launched: "hoare (owned e b L {MainProcess}) (launch e MainProcess argv env) (\<lambda>_. owned e b L {})" for argv env
    by (rule hoare_post [OF owned_launch]) (auto elim: owned_less)
  have read_rec: "hoare (owned e b L {}) (State (\<lambda>w. (ow_rec w, w))) (\<lambda>r w. r = ow_rec w \<and> owned e b L {} w)"
    by (simp add: hoare_def)
  have filled: "hoare (owned e b L A) (amend (\<lambda>r. r\<lparr>rn_e_secret := x, rn_sps_host := y, rn_sps_port := z, rn_sps_ca := ca\<rparr>)) (\<lambda>_. owned e b L A)"
    for A x y z ca by (rule owned_amend) (simp_all add: pid_of_def has_exited_def split: child.splits)
  show ?thesis
    unfolding start_body_def launch_tool_def
    by (rule hoare_bind_ok [OF owned_enroll], clarsimp, rule hoare_bind_ok [OF filled], rule hoare_bind_ok [OF owned_start_egress],
        rule hoare_bind_ok [OF owned_attempt], rule hoare_bind_ok [OF launched], rule hoare_bind_ok [OF owned_note],
        rule hoare_bind_ok [OF owned_attempt], rule hoare_bind [OF read_rec start_judge])
      (erule owned_failed)+
qed

section \<open>Starting\<close>

text \<open>A started process is in the record that is returned or raised, or is known to be gone.\<close>

definition retained :: "run_env \<Rightarrow> run_exn + running_tool \<Rightarrow> os_event list \<Rightarrow> child \<Rightarrow> int \<Rightarrow> bool" where
  "retained e res evs k pid \<longleftrightarrow>
     (\<exists>r. res = Inr r \<and> pid_of k r = Some (show_int pid) \<and> rn_boot_id r = os_boot (ru_os e) \<and> \<not> has_exited k r)
     \<or> (\<exists>r. res = Inl (CleanupFailed r) \<and> pid_of k r = Some (show_int pid) \<and> rn_boot_id r = os_boot (ru_os e)
          \<and> (has_exited k r \<longrightarrow> Waited pid Reaped \<in> set evs \<or> Probed pid NoProcess \<in> set evs))
     \<or> (\<exists>x. res = Inl x) \<and> (Waited pid Reaped \<in> set evs \<or> Probed pid NoProcess \<in> set evs)"

definition kept :: "run_env \<Rightarrow> string \<Rightarrow> os_event list \<Rightarrow> run_exn + running_tool \<Rightarrow> os_world \<Rightarrow> bool" where
  "kept e b L res w \<longleftrightarrow> (\<exists>evs. ow_log w = L @ evs \<and>
     (\<forall>k pid argv env. Spawned k pid argv env \<in> set evs \<longrightarrow> retained e res evs k pid))"

lemma kept_none: "ow_log w = L \<Longrightarrow> kept e b L res w"
  by (simp add: kept_def)

lemma kept_quiet:
  assumes "kept e b L res w" "ow_log w' = ow_log w @ [Unregistered i]"
  shows "kept e b L res w'"
proof -
  have "retained e res (evs @ [Unregistered i]) k pid \<longleftrightarrow> retained e res evs k pid" for evs k pid
    by (simp add: retained_def)
  with assms show ?thesis by (fastforce simp: kept_def)
qed

lemma all_children: "rn_backend r \<in> {''process'', ''seatbelt''} \<Longrightarrow> k \<in> set (children r)"
  by (cases k) (simp_all add: children_def)

lemma cleanup_kept:
  assumes b: "b \<in> {''process'', ''seatbelt''}"
  shows "hoare (\<lambda>w. r = ow_rec w \<and> accounted e b L w) (cleanup_partial_start (ru_os e) r)
     (\<lambda>res. kept e b L (case res of Inl x \<Rightarrow> Inl x | Inr _ \<Rightarrow> Inl cause))"
proof (rule hoareI)
  fix w and res :: "run_exn + running_tool" and w'
  assume a: "r = ow_rec w \<and> accounted e b L w" and run: "run_state (cleanup_partial_start (ru_os e) r) w = (res, w')"
  from a obtain es where es: "ow_log w = L @ es" "rn_backend r = b" "rn_boot_id r = os_boot (ru_os e)"
    "\<And>k pid argv env. Spawned k pid argv env \<in> set es \<Longrightarrow> pid_of k r = Some (show_int pid)"
    "\<And>k. has_exited k r \<Longrightarrow> \<exists>h p. pid_of k r = Some h \<and> py_int h = Inr p \<and> Waited p Reaped \<in> set es"
    unfolding accounted_def by blast
  from cleanup_run [OF run] obtain r' failed evs where
    res: "res = (if failed then Inl (CleanupFailed r') else Inr r')" "ow_log w' = ow_log w @ evs"
    and c: "cleaned (ru_os e) (children r) r (r', failed) evs" by blast
  have gone_ev: "Waited pid Reaped \<in> set (es @ evs) \<or> Probed pid NoProcess \<in> set (es @ evs)"
    if k: "pid_of k r = Some (show_int pid)" "has_exited k r'" for k pid
  proof (cases "has_exited k r")
    case True
    from es(5) [OF True] k(1) show ?thesis using py_int_show_Inr by auto
  next
    case False
    from cleanedD [OF c, of k] k False obtain p where p: "py_int (show_int pid) = Inr p" "gone (ru_os e) (rn_boot_id r) p evs" by auto
    then have "p = pid" using py_int_show_Inr by blast
    with p es(3) show ?thesis by (auto simp: gone_def)
  qed
  show "kept e b L (case res of Inl x \<Rightarrow> Inl x | Inr _ \<Rightarrow> Inl cause) w'"
    unfolding kept_def
  proof (intro exI [of _ "es @ evs"] conjI allI impI)
    show "ow_log w' = L @ es @ evs" using res(2) es(1) by simp
    fix k pid argv env assume "Spawned k pid argv env \<in> set (es @ evs)"
    moreover have "Spawned k pid argv env \<notin> set evs" using c by (auto simp: cleaned_def list_all_iff quiet_event_def)
    ultimately have pid: "pid_of k r = Some (show_int pid)" using es(4) by auto
    show "retained e (case res of Inl x \<Rightarrow> Inl x | Inr _ \<Rightarrow> Inl cause) (es @ evs) k pid"
    proof (cases failed)
      case True
      have "pid_of k r' = Some (show_int pid)" "rn_boot_id r' = os_boot (ru_os e)"
        using c pid es(3) by (simp_all add: cleaned_def)
      with True res(1) gone_ev [OF pid] show ?thesis by (simp add: retained_def)
    next
      case False
      with c pid all_children [of r k] es(2) b have "has_exited k r'" by (simp add: cleaned_def)
      with False res(1) gone_ev [OF pid] show ?thesis by (simp add: retained_def)
    qed
  qed
qed

lemma owned_kept: "owned e b L {} w \<Longrightarrow> kept e b L (Inr (ow_rec w)) w"
  unfolding owned_def kept_def retained_def by (elim exE conjE, intro exI, intro conjI) (assumption, simp)

lemma start_kept:
  assumes b: "b \<in> {''process'', ''seatbelt''}"
  shows "hoare (\<lambda>w. ow_log w = L) (process_start e b t) (kept e b L)"
proof -
  have tick: "hoare (\<lambda>w. ow_log w = L) (attempt e what) (\<lambda>_ w. ow_log w = L)" for what
    by (auto simp: hoare_def attempt_def)
  have draw: "hoare (\<lambda>w. ow_log w = L) (draw_hex e) (\<lambda>_ w. ow_log w = L)"
    by (auto simp: hoare_def draw_hex_def)
  have mint: "hoare (\<lambda>w. ow_log w = L) (if c then do { s \<leftarrow> draw_hex e; ret (Some s) } else ret None) (\<lambda>_ w. ow_log w = L)" for c
    by (auto intro!: hoare_if hoare_ret hoare_bind [OF draw])
  have begun: "hoare (\<lambda>w. ow_log w = L) (amend (\<lambda>_. fresh_record e b t lp minted cs))
      (\<lambda>r w. r = Inr () \<and> owned e b L {MainProcess, EgressProxy} w)" for lp minted cs
    by (auto simp: hoare_def amend_def owned_def fresh_record_def pid_of_def has_exited_def split: child.splits)
  have read_log: "hoare (owned e b L A) (State (\<lambda>w. (ow_log w, w))) (\<lambda>_. owned e b L A)" for A
    by (simp add: hoare_def)
  have read_both: "hoare (\<lambda>w. accounted e b L w) (State (\<lambda>w. ((ow_rec w, ow_log w), w))) (\<lambda>(r, _) w. r = ow_rec w \<and> accounted e b L w)"
    by (simp add: hoare_def)
  have withdraw: "hoare (kept e b L res) (if c then unregister_tool e i else ret ()) (\<lambda>_. kept e b L res)" for c i res
    by (rule hoare_if) (auto simp: hoare_def unregister_tool_def intro: kept_quiet)
  have recover: "hoare (\<lambda>w. accounted e b L w) (abandon_start e t earlier cause) (kept e b L)" for earlier cause
    unfolding abandon_start_def
    by (rule hoare_bind [OF read_both], clarify, rule hoare_bind [OF cleanup_kept [OF b]], rule hoare_bind [OF withdraw], rule hoare_ret)
  have finish: "hoare (start_post e b L res) (case res of Inr r \<Rightarrow> ret (Inr r) | Inl cause \<Rightarrow> abandon_start e t earlier cause) (kept e b L)"
    for earlier res
    by (cases res) (auto simp: start_post_def intro!: hoare_ret hoare_pre [OF recover] elim: owned_kept)
  show ?thesis
  proof (cases "td_command t")
    case (Some command)
    show ?thesis
      unfolding process_start_def Some option.case
      by (rule hoare_if, rule hoare_ret, erule kept_none,
          rule hoare_bind_ok [OF tick], rule hoare_if, rule hoare_ret, erule kept_none,
          rule hoare_if, rule hoare_ret, erule kept_none,
          rule hoare_bind [OF draw], rule hoare_bind [OF mint], rule hoare_bind_ok [OF tick],
          rule hoare_bind_ok [OF begun], rule hoare_pure, rule hoare_bind [OF read_log],
          rule hoare_bind [OF owned_start_body], rule finish) (simp_all add: kept_none)
  qed (simp add: process_start_def hoare_ret kept_none)
qed

text \<open>C36: No process is lost by a start that fails. After \<^verbatim>\<open>start\<close> every process it spawned has its number in the
  record that is returned; or in the record that the exception carries, where an exit receipt rests on a reap or
  on a probe that found no such process; or that evidence exists for it.\<close>

theorem no_process_lost:
  assumes "run_state (process_start e backend t) w = (res, w')" "backend \<in> {''process'', ''seatbelt''}"
    and "evs = drop (length (ow_log w)) (ow_log w')" "Spawned k pid argv env \<in> set evs"
  shows "(\<exists>r. res = Inr r \<and> pid_of k r = Some (show_int pid) \<and> rn_boot_id r = os_boot (ru_os e) \<and> \<not> has_exited k r)
     \<or> (\<exists>r. res = Inl (CleanupFailed r) \<and> pid_of k r = Some (show_int pid) \<and> rn_boot_id r = os_boot (ru_os e)
          \<and> (has_exited k r \<longrightarrow> Waited pid Reaped \<in> set evs \<or> Probed pid NoProcess \<in> set evs))
     \<or> (\<exists>x. res = Inl x) \<and> (Waited pid Reaped \<in> set evs \<or> Probed pid NoProcess \<in> set evs)"
proof -
  from hoareD [OF start_kept [OF assms(2)] refl assms(1)] obtain evs' where evs': "ow_log w' = ow_log w @ evs'"
    and k: "\<And>k pid argv env. Spawned k pid argv env \<in> set evs' \<Longrightarrow> retained e res evs' k pid"
    unfolding kept_def by blast
  from evs' have "evs = evs'" using assms(3) by simp
  with assms(4) k [of k pid argv env] show ?thesis unfolding retained_def by simp
qed

section \<open>Stopping\<close>

text \<open>C38: Stopping a process is bounded and careful: at most two signals and 193 system calls, each signal to the
  recorded number, in the boot of the record and right after the process table named the recorded process, and
  the call returns only with evidence that the process is gone.\<close>

theorem stop_is_bounded:
  assumes "run_state (terminate_process e (Some handle) identity boot) w = (res, w')" "py_int handle = Inr pid" "pid > 1"
  shows "\<exists>evs. ow_log w' = ow_log w @ evs \<and> length evs \<le> 193 \<and> signals evs \<le> 2
     \<and> (\<forall>a q s k b. evs = a @ Signalled q s k # b \<longrightarrow> q = pid \<and> nonempty boot \<and> os_boot e = boot \<and> nonempty identity
          \<and> (\<exists>a'. a = a' @ [Looked pid identity]))
     \<and> (res = Inr () \<longrightarrow> nonempty boot \<and> nonempty (os_boot e) \<and> boot \<noteq> os_boot e
          \<or> Waited pid Reaped \<in> set evs \<or> Probed pid NoProcess \<in> set evs)"
  using tracksD [OF tracks_terminate [OF assms(2,3)] assms(1)] unfolding stop_ok_def guarded_def gone_def by blast

text \<open>C37: Stopping a tool is certain or keeps the record. \<^verbatim>\<open>stop\<close> signals only recorded children it has just
  recognised; it returns only when every child is gone; when it raises, the exception carries the record with
  every number, and an exit it newly records rests on evidence. In both cases the provider is asked to withdraw the capability.\<close>

theorem stop_is_certain:
  assumes "run_state (process_stop e r) w = (res, w')" "rn_backend r \<in> {''process'', ''seatbelt''}"
  shows "\<exists>evs. ow_log w' = ow_log w @ evs @ (if nonempty (rn_e_secret r) then [Unregistered (rn_tool_id r)] else [])
     \<and> recorded_signals (ru_os e) r evs
     \<and> (res = Inr () \<longrightarrow> (\<forall>k h. pid_of k r = Some h \<longrightarrow>
          has_exited k r \<or> (\<exists>p. py_int h = Inr p \<and> gone (ru_os e) (rn_boot_id r) p evs)))
     \<and> (\<forall>x. res = Inl x \<longrightarrow> (\<exists>r'. x = CleanupFailed r' \<and> rn_boot_id r' = rn_boot_id r \<and> (\<forall>k. pid_of k r' = pid_of k r
          \<and> (has_exited k r' \<longrightarrow> has_exited k r \<or> (\<exists>h p. pid_of k r = Some h \<and> py_int h = Inr p \<and> gone (ru_os e) (rn_boot_id r) p evs)))))"
proof -
  obtain c w1 where one: "run_state (cleanup_partial_start (ru_os e) r) w = (c, w1)" by (cases "run_state (cleanup_partial_start (ru_os e) r) w")
  from cleanup_run [OF one] obtain r' failed evs where c: "c = (if failed then Inl (CleanupFailed r') else Inr r')"
    "ow_log w1 = ow_log w @ evs" "cleaned (ru_os e) (children r) r (r', failed) evs" by blast
  have fin: "res = map_sum id (\<lambda>_. ()) c" "ow_log w' = ow_log w1 @ (if nonempty (rn_e_secret r) then [Unregistered (rn_tool_id r)] else [])"
    using assms(1) one by (auto simp: process_stop_def unregister_tool_def split: if_splits)
  have ev: "has_exited k r' \<Longrightarrow> has_exited k r \<or> (\<exists>h p. pid_of k r = Some h \<and> py_int h = Inr p \<and> gone (ru_os e) (rn_boot_id r) p evs)" for k
    using cleanedD [OF c(3), of k] by auto
  have same: "recorded_signals (ru_os e) r evs" "rn_boot_id r' = rn_boot_id r" "\<And>k. pid_of k r' = pid_of k r"
    using c(3) by (simp_all add: cleaned_def)
  have all: "has_exited k r'" if "\<not> failed" "pid_of k r = Some h" for k h
    using c(3) that all_children [OF assms(2)] by (simp add: cleaned_def)
  have done_ok: "has_exited k r \<or> (\<exists>p. py_int h = Inr p \<and> gone (ru_os e) (rn_boot_id r) p evs)"
    if "res = Inr ()" "pid_of k r = Some h" for k h
  proof -
    from that(1) fin(1) c(1) have "\<not> failed" by auto
    from ev [OF all [OF this that(2)]] that(2) show ?thesis by auto
  qed
  have raised: "\<exists>r'. x = CleanupFailed r' \<and> rn_boot_id r' = rn_boot_id r \<and> (\<forall>k. pid_of k r' = pid_of k r
     \<and> (has_exited k r' \<longrightarrow> has_exited k r \<or> (\<exists>h p. pid_of k r = Some h \<and> py_int h = Inr p \<and> gone (ru_os e) (rn_boot_id r) p evs)))"
    if "res = Inl x" for x
    by (rule exI [of _ r']) (use that fin(1) c(1) same ev in \<open>auto split: if_splits\<close>)
  show ?thesis
    by (rule exI [of _ evs]) (use fin(2) c(2) same(1) done_ok raised in simp)
qed

end
