(* ===== verification/RunnerSecrets.thy ===== *)
theory RunnerSecrets
  imports RunnerProps
begin

text \<open>
  What the runner gives to the processes it starts: no variable of its own environment but the plumbing, and no
  tool runs without the secrets it declares. The witnesses run a small start and a small stop.
\<close>

section \<open>What the children are given\<close>

text \<open>An action that only logs events of a kind.\<close>

definition emits :: "(os_event \<Rightarrow> bool) \<Rightarrow> 'a os \<Rightarrow> bool" where
  "emits P m \<longleftrightarrow> (\<forall>w r w'. run_state m w = (r, w') \<longrightarrow> (\<exists>evs. ow_log w' = ow_log w @ evs \<and> list_all P evs))"

lemma emitsD: "emits P m \<Longrightarrow> run_state m w = (r, w') \<Longrightarrow> \<exists>evs. ow_log w' = ow_log w @ evs \<and> list_all P evs"
  by (simp add: emits_def)

lemma emits_ret: "emits P (ret x)"
  by (simp add: emits_def)

lemma emits_bind:
  assumes "emits P m" "\<And>x. emits P (f x)"
  shows "emits P (State_Monad.bind m f)"
  unfolding emits_def
proof (intro allI impI)
  fix w r w' assume run: "run_state (State_Monad.bind m f) w = (r, w')"
  obtain x w1 where one: "run_state m w = (x, w1)" by (cases "run_state m w")
  with run have two: "run_state (f x) w1 = (r, w')" by simp
  from emitsD [OF assms(1) one] emitsD [OF assms(2) two]
  show "\<exists>evs. ow_log w' = ow_log w @ evs \<and> list_all P evs" by auto
qed

lemma emits_if: "emits P m \<Longrightarrow> emits P n \<Longrightarrow> emits P (if c then m else n)"
  by simp

lemma emits_bind_ok: "emits P m \<Longrightarrow> (\<And>v. emits P (f v)) \<Longrightarrow> emits P (bind_ok m f)"
  unfolding bind_ok_def by (rule emits_bind) (auto intro: emits_ret split: sum.split)

lemma emits_tracks: "tracks G m \<Longrightarrow> (\<And>r evs. G r evs \<Longrightarrow> list_all P evs) \<Longrightarrow> emits P m"
  unfolding tracks_def emits_def by metis

lemma emits_step: "(\<And>w. ow_log (snd (f w)) = ow_log w) \<Longrightarrow> emits P (State f)"
  unfolding emits_def
proof (intro allI impI exI [of _ "[]"])
  fix w r w' assume "\<And>w. ow_log (snd (f w)) = ow_log w" "run_state (State f) w = (r, w')"
  then show "ow_log w' = ow_log w @ [] \<and> list_all P []" by (metis append_Nil2 list.pred_inject(1) snd_conv state.sel)
qed

lemma emits_quiet:
  assumes "\<And>ev. quiet_event ev \<Longrightarrow> P ev"
  shows "emits P (look_up o' pid)" "emits P (process_alive o' r)" "emits P (cleanup_partial_start o' r)"
proof -
  have all: "list_all quiet_event evs \<Longrightarrow> list_all P evs" for evs by (auto simp: list_all_iff assms)
  show "emits P (look_up o' pid)" unfolding look_up_def
    by (rule emits_tracks [OF tracks_observe [where G = "\<lambda>_. list_all quiet_event"] all]) (simp_all add: quiet_event_def)
  show "emits P (process_alive o' r)" by (rule emits_tracks [OF tracks_process_alive]) (simp add: reaped_ok_def all)
  show "emits P (cleanup_partial_start o' r)" unfolding cleanup_partial_start_def
    by (rule emits_bind [OF emits_tracks [OF tracks_cleanup_children]]) (auto simp: cleaned_def all intro: emits_ret)
qed

lemma emits_simple: "emits P (attempt e what)" "emits P (amend f)" "emits P (draw_hex e)"
  by (auto simp: attempt_def amend_def draw_hex_def intro!: emits_step)

lemma emits_note: "(\<And>ev. quiet_event ev \<Longrightarrow> P ev) \<Longrightarrow> emits P (note_identity e k pid)"
  unfolding note_identity_def by (intro emits_bind emits_simple emits_quiet)

lemma emits_launch: "(\<And>pid. P (Spawned k pid argv env)) \<Longrightarrow> emits P (launch e k argv env)"
  by (auto simp: emits_def launch_def split: sum.splits)

lemma emits_enroll: "(\<And>s. P (Registered (td_id t) s (td_secrets t))) \<Longrightarrow> emits P (enroll e t minted)"
proof -
  assume "\<And>s. P (Registered (td_id t) s (td_secrets t))"
  then have reg: "emits P (register_tool e t s)" for s by (auto simp: emits_def register_tool_def split: option.splits)
  have pick: "emits P (case cfg of Inl x \<Rightarrow> ret (None, Inl x) | Inr c \<Rightarrow> do { r \<leftarrow> register_tool e t s; ret (Some c, r) })"
    for s and cfg :: "run_exn + resolved_sps"
    by (cases cfg) (auto intro!: emits_ret emits_bind reg)
  show ?thesis unfolding enroll_def
    by (cases minted) (auto intro!: emits_ret emits_bind emits_step pick split: sum.split run_exn.split)
qed

lemma emits_start_egress:
  assumes "\<And>ev. quiet_event ev \<Longrightarrow> P ev" "\<And>pid argv. P (Spawned EgressProxy pid argv (child_environment e))"
  shows "emits P (start_egress e allow)"
proof -
  have port: "emits P (State (\<lambda>w. (ru_port e (ow_tick w), w\<lparr>ow_tick := Suc (ow_tick w)\<rparr>)))" by (rule emits_step) simp
  have launched: "emits P (launch e EgressProxy argv (child_environment e))" for argv by (rule emits_launch) (rule assms(2))
  show ?thesis unfolding start_egress_def
    by (cases "allow = []") (auto intro!: emits_ret emits_bind emits_bind_ok emits_simple port launched emits_note assms(1))
qed

text \<open>The variables the runner sets itself.\<close>

definition own_variables :: "string list" where
  "own_variables = [''TOOLSTACK_PORT'', ''TOOLSTACK_TOOL_CONFIG'', ''TOOLSTACK_CHANNEL_SECRET'', ''TOOLSTACK_E_SECRET'', ''TOOLSTACK_SPS_HOST'',
     ''TOOLSTACK_SPS_PORT'', ''TOOLSTACK_SPS_CA'', ''TOOLSTACK_SPS_VERIFY'', ''HTTP_PROXY'', ''HTTPS_PROXY'', ''http_proxy'', ''https_proxy'']"

definition inherited :: "run_env \<Rightarrow> string \<times> string \<Rightarrow> bool" where
  "inherited e kv \<longleftrightarrow> kv \<in> set (ru_environ e) \<and> (fst kv \<in> set plumbing \<or> starts_with ''LC_'' (fst kv))"

lemma update_subset: "set (AList.update k v d) \<subseteq> insert (k, v) (set d)"
  by (induction d) auto

lemma set_all_subset: "set (set_all kvs d) \<subseteq> set kvs \<union> set d"
proof (induction kvs arbitrary: d)
  case (Cons kv kvs)
  from Cons.IH [of "AList.update (fst kv) (snd kv) d"] update_subset [of "fst kv" "snd kv" d]
  show ?case by (auto simp: set_all_def)
qed (simp add: set_all_def)

lemma set_all_map: "map_of (set_all kvs d) = map_of d ++ map_of (rev kvs)"
  by (induction kvs arbitrary: d) (auto simp: set_all_def update_conv' map_add_assoc fun_eq_iff map_add_def split: option.split)

lemma delete_subset: "set (AList.delete k d) \<subseteq> set d"
  by (auto simp: AList.delete_eq)

lemma child_environment_inherited: "kv \<in> set (child_environment e) \<Longrightarrow> inherited e kv"
  by (auto simp: child_environment_def inherited_def)

lemma tool_environment_variables:
  assumes "kv \<in> set (tool_environment e t cs s cfg port)"
  shows "fst kv \<in> set own_variables \<or> inherited e kv"
proof -
  have own: "fst kv \<in> set own_variables" if "kv \<in> set ([(''TOOLSTACK_CHANNEL_SECRET'', cs)] @ sps_variables s cfg
      @ (case port of None \<Rightarrow> []
         | Some p \<Rightarrow> map (\<lambda>v. (v, ''http://127.0.0.1:'' @ show_int p)) [''HTTP_PROXY'', ''HTTPS_PROXY'', ''http_proxy'', ''https_proxy'']))"
    using that by (auto simp: own_variables_def sps_variables_def split: option.splits)
  from subsetD [OF set_all_subset assms [unfolded tool_environment_def]]
  show ?thesis
  proof (rule UnE)
    assume "kv \<in> set (AList.delete ''TOOLSTACK_E_SECRET''
        (set_all [(''TOOLSTACK_PORT'', show_int (td_port t)), (''TOOLSTACK_TOOL_CONFIG'', path_in (td_path t) ''toolyard.toml'')]
          (child_environment e)))"
    from subsetD [OF set_all_subset subsetD [OF delete_subset this]] show ?thesis
      by (auto simp: own_variables_def dest: child_environment_inherited)
  qed (simp add: own)
qed

lemma tool_environment_secret:
  "map_of (tool_environment e t cs (Some s) (Some c) port) ''TOOLSTACK_E_SECRET'' = Some s"
  by (cases port) (simp_all add: tool_environment_def set_all_map sps_variables_def)

lemma emits_judge: "(\<And>ev. quiet_event ev \<Longrightarrow> P ev) \<Longrightarrow> emits P (judge_start e r)"
  unfolding judge_start_def by (auto intro!: emits_bind_ok emits_ret emits_simple emits_quiet(2))

lemma emits_start_body:
  assumes "\<And>ev. quiet_event ev \<Longrightarrow> P ev" "\<And>s. P (Registered (td_id t) s (td_secrets t))"
    and "\<And>pid argv. P (Spawned EgressProxy pid argv (child_environment e))"
    and "\<And>pid argv s cfg port. P (Spawned MainProcess pid argv (tool_environment e t cs s cfg port))"
  shows "emits P (start_body e b t command cs minted)"
proof -
  have read_rec: "emits P (State (\<lambda>w. (ow_rec w, w)))" by (rule emits_step) simp
  have launched: "emits P (launch e MainProcess argv (tool_environment e t cs s cfg port))" for argv s cfg port
    by (rule emits_launch) (rule assms(4))
  show ?thesis unfolding start_body_def launch_tool_def
    by (auto intro!: emits_bind_ok [OF emits_enroll] emits_bind_ok [OF emits_simple(2)] emits_bind_ok [OF emits_start_egress]
        emits_bind_ok [OF emits_simple(1)] emits_bind_ok [OF launched] emits_bind_ok [OF emits_note] emits_bind [OF read_rec] emits_judge assms)
qed

lemma emits_start:
  assumes "\<And>ev. quiet_event ev \<Longrightarrow> P ev" "\<And>s. P (Registered (td_id t) s (td_secrets t))" "\<And>i. P (Unregistered i)"
    and "\<And>pid argv. P (Spawned EgressProxy pid argv (child_environment e))"
    and "\<And>pid argv cs s cfg port. P (Spawned MainProcess pid argv (tool_environment e t cs s cfg port))"
  shows "emits P (process_start e b t)"
proof -
  have read_log: "emits P (State (\<lambda>w. (ow_log w, w)))" "emits P (State (\<lambda>w. ((ow_rec w, ow_log w), w)))" by (rule emits_step, simp)+
  have withdraw: "emits P (if c then unregister_tool e i else ret ())" for c i
    using assms(3) by (auto simp: emits_def unregister_tool_def)
  have abandon: "emits P (abandon_start e t earlier cause)" for earlier cause
    unfolding abandon_start_def by (auto intro!: emits_bind [OF read_log(2)] emits_bind [OF emits_quiet(3)] emits_bind [OF withdraw] emits_ret assms(1))
  have body: "emits P (do {
      earlier \<leftarrow> State (\<lambda>w. (ow_log w, w));
      res \<leftarrow> start_body e b t command cs minted;
      case res of Inr r \<Rightarrow> ret (Inr r) | Inl cause \<Rightarrow> abandon_start e t earlier cause })" for command cs minted
    by (rule emits_bind [OF read_log(1)], rule emits_bind [OF emits_start_body])
      (auto intro: assms emits_ret abandon split: sum.split)
  have mint: "emits P (if c then do { s \<leftarrow> draw_hex e; ret (Some s) } else ret None)" for c
    by (auto intro!: emits_bind emits_ret emits_simple)
  show ?thesis
  proof (cases "td_command t")
    case (Some command)
    show ?thesis unfolding process_start_def Some option.case
      by (intro emits_if emits_ret emits_bind_ok [OF emits_simple(1)] emits_bind_ok [OF emits_simple(2)] emits_bind [OF emits_simple(3)]
          emits_bind [OF mint] body)
  qed (simp add: process_start_def emits_ret)
qed


section \<open>No tool without its secrets\<close>

definition main_free :: "os_event \<Rightarrow> bool" where
  "main_free ev \<longleftrightarrow> (\<forall>pid argv env. ev \<noteq> Spawned MainProcess pid argv env)"

lemma main_freeI: "quiet_event ev \<Longrightarrow> main_free ev" "main_free (Registered i s ss)" "main_free (Unregistered i)"
  "main_free (Spawned EgressProxy pid argv env)"
  by (auto simp: main_free_def quiet_event_def)

text \<open>The log since \<open>L\<close> satisfies \<open>Q\<close>; what is not a start of the main process keeps such a property.\<close>

definition since :: "os_event list \<Rightarrow> (os_event list \<Rightarrow> bool) \<Rightarrow> os_world \<Rightarrow> bool" where
  "since L Q w \<longleftrightarrow> (\<exists>evs. ow_log w = L @ evs \<and> Q evs)"

definition registered_before :: "string \<Rightarrow> secret_spec list \<Rightarrow> os_event list \<Rightarrow> bool" where
  "registered_before i ss evs \<longleftrightarrow> (\<forall>a pid argv env b. evs = a @ Spawned MainProcess pid argv env # b \<longrightarrow>
     (\<exists>s. Registered i s ss \<in> set a \<and> map_of env ''TOOLSTACK_E_SECRET'' = Some s))"

definition registered_as :: "string \<Rightarrow> secret_spec list \<Rightarrow> string \<Rightarrow> os_event list \<Rightarrow> bool" where
  "registered_as i ss s evs \<longleftrightarrow> list_all main_free evs \<and> Registered i s ss \<in> set evs"

lemma registered_before_append:
  assumes "registered_before i ss evs" "list_all main_free later"
  shows "registered_before i ss (evs @ later)"
  unfolding registered_before_def
proof (intro allI impI)
  fix a pid argv env b assume "evs @ later = a @ Spawned MainProcess pid argv env # b"
  moreover have "Spawned MainProcess pid argv env \<notin> set later" using assms(2) by (auto simp: list_all_iff main_free_def)
  ultimately obtain b' where "evs = a @ Spawned MainProcess pid argv env # b'"
    by (auto simp: append_eq_append_conv2 append_eq_Cons_conv Cons_eq_append_conv)
  with assms(1) show "\<exists>s. Registered i s ss \<in> set a \<and> map_of env ''TOOLSTACK_E_SECRET'' = Some s"
    unfolding registered_before_def by blast
qed

lemma registered_before_free: "list_all main_free evs \<Longrightarrow> registered_before i ss evs"
  using registered_before_append [of i ss "[]" evs] by (simp add: registered_before_def)

lemma registered_as_append: "registered_as i ss s evs \<Longrightarrow> list_all main_free later \<Longrightarrow> registered_as i ss s (evs @ later)"
  by (simp add: registered_as_def)

lemma registered_as_spawn:
  "registered_as i ss s evs \<Longrightarrow> map_of env ''TOOLSTACK_E_SECRET'' = Some s \<Longrightarrow> registered_before i ss (evs @ [Spawned MainProcess pid argv env])"
  unfolding registered_before_def registered_as_def list_all_iff main_free_def
  by (fastforce simp: append_eq_append_conv2 append_eq_Cons_conv Cons_eq_append_conv)

lemma since_emits:
  assumes "emits main_free m" "\<And>evs later. Q evs \<Longrightarrow> list_all main_free later \<Longrightarrow> R (evs @ later)"
  shows "hoare (since L Q) m (\<lambda>_. since L R)"
proof (rule hoareI)
  fix w r w' assume "since L Q w" and run: "run_state m w = (r, w')"
  then obtain evs where "ow_log w = L @ evs" "Q evs" by (auto simp: since_def)
  with emitsD [OF assms(1) run] assms(2) show "since L R w'" unfolding since_def by (metis append_assoc)
qed

lemma since_mono: "since L Q w \<Longrightarrow> (\<And>evs. Q evs \<Longrightarrow> R evs) \<Longrightarrow> since L R w"
  by (auto simp: since_def)

lemma since_keeps:
  assumes "emits main_free m"
  shows "hoare (since L (list_all main_free)) m (\<lambda>_. since L (list_all main_free))"
    "hoare (since L (registered_as i ss s)) m (\<lambda>_. since L (registered_as i ss s))"
    "hoare (since L (registered_before i ss)) m (\<lambda>_. since L (registered_before i ss))"
  by (rule since_emits [OF assms], simp add: registered_as_append registered_before_append)+

definition enrolled :: "os_event list \<Rightarrow> tool_def \<Rightarrow> run_exn + string option \<times> resolved_sps option \<Rightarrow> os_world \<Rightarrow> bool" where
  "enrolled L t res w \<longleftrightarrow> (case res of
       Inl _ \<Rightarrow> since L (registered_before (td_id t) (td_secrets t)) w
     | Inr (s, cfg) \<Rightarrow> \<exists>x c. s = Some x \<and> cfg = Some c \<and> since L (registered_as (td_id t) (td_secrets t) x) w)"

lemma enroll_registers:
  assumes "td_secrets t \<noteq> []"
  shows "hoare (since L (list_all main_free)) (enroll e t (Some s)) (enrolled L t)"
proof -
  let ?free = "since L (list_all main_free)" and ?before = "since L (registered_before (td_id t) (td_secrets t))"
  let ?as = "since L (registered_as (td_id t) (td_secrets t) s)"
  have before: "?before w" if "?free w" for w using since_mono [OF that registered_before_free] .
  have tick: "hoare ?free (State (\<lambda>w. (ru_config e (ow_tick w), w\<lparr>ow_tick := Suc (ow_tick w)\<rparr>))) (\<lambda>_. ?free)"
    by (rule since_keeps(1), rule emits_step) simp
  have reg: "hoare ?free (register_tool e t s) (\<lambda>r. case r of Inl _ \<Rightarrow> ?free | Inr _ \<Rightarrow> ?as)"
  proof (rule hoareI)
    fix w r w' assume free: "?free w" and run: "run_state (register_tool e t s) w = (r, w')"
    show "(case r of Inl _ \<Rightarrow> ?free | Inr _ \<Rightarrow> ?as) w'"
    proof (cases "ru_register e (ow_tick w)")
      case None
      with free run show ?thesis
        by (auto simp: register_tool_def since_def registered_as_def main_freeI)
    qed (use free run in \<open>auto simp: register_tool_def since_def\<close>)
  qed
  have pick: "hoare ?free (case cfg of Inl x \<Rightarrow> ret (None, Inl x) | Inr c \<Rightarrow> do { r \<leftarrow> register_tool e t s; ret (Some c, r) })
      (\<lambda>(cfg', r). case r of Inl _ \<Rightarrow> ?free | Inr _ \<Rightarrow> (\<lambda>w. cfg' \<noteq> None \<and> ?as w))" for cfg :: "run_exn + resolved_sps"
    by (cases cfg) (auto intro!: hoare_ret hoare_bind [OF reg] split: sum.split)
  have answer: "hoare (case r of Inl _ \<Rightarrow> ?free | Inr _ \<Rightarrow> (\<lambda>w. cfg' \<noteq> None \<and> ?as w)) (case r of
            Inr _ \<Rightarrow> ret (Inr (Some s, cfg'))
          | Inl RunnerConfigError \<Rightarrow> ret (Inl RunnerConfigError)
          | Inl Interrupted \<Rightarrow> ret (Inl Interrupted)
          | Inl _ \<Rightarrow> if td_secrets t \<noteq> [] then ret (Inl (RunFailed ''registration failed and the tool declares secrets''))
                     else ret (Inr (None, cfg'))) (enrolled L t)" for r :: "run_exn + unit" and cfg'
    using assms by (cases r) (auto intro!: hoare_ret simp: enrolled_def before split: run_exn.split)
  show ?thesis unfolding enroll_def option.case
    by (rule hoare_bind [OF tick], rule hoare_bind [OF pick]) (clarsimp simp only: prod.case answer)
qed

lemma launch_tool_registered:
  "hoare (since L (registered_as (td_id t) (td_secrets t) s)) (launch_tool e b t command cs (Some s) (Some c))
     (\<lambda>_. since L (registered_before (td_id t) (td_secrets t)))"
proof -
  let ?before = "since L (registered_before (td_id t) (td_secrets t))"
  let ?as = "since L (registered_as (td_id t) (td_secrets t) s)"
  have weak: "?before w" if "?as w" for w
    using that by (rule since_mono) (simp add: registered_as_def registered_before_free)
  have spawned: "hoare ?as (launch e MainProcess argv (tool_environment e t cs (Some s) (Some c) port)) (\<lambda>_. ?before)" for argv port
  proof (rule hoareI)
    fix w r w' assume h: "?as w" and run: "run_state (launch e MainProcess argv (tool_environment e t cs (Some s) (Some c) port)) w = (r, w')"
    then obtain evs where evs: "ow_log w = L @ evs" "registered_as (td_id t) (td_secrets t) s evs" by (auto simp: since_def)
    show "?before w'"
    proof (cases "ru_spawn e (ow_tick w)")
      case Inl
      with run have "ow_log w' = ow_log w" by (auto simp: launch_def)
      with weak [OF h] show ?thesis by (simp add: since_def)
    next
      case (Inr pid)
      with run evs show ?thesis using registered_as_spawn [OF evs(2) tool_environment_secret]
        by (auto simp: launch_def since_def)
    qed
  qed
  have egress: "emits main_free (start_egress e allow)" for allow by (rule emits_start_egress) (rule main_freeI, assumption, rule main_freeI)
  have noted: "emits main_free (note_identity e k pid)" for k pid by (rule emits_note) (rule main_freeI)
  have judge: "emits main_free (judge_start e r)" for r by (rule emits_judge) (rule main_freeI)
  have read_rec: "emits main_free (State (\<lambda>w. (ow_rec w, w)))" by (rule emits_step) simp
  show ?thesis unfolding launch_tool_def
    by (rule hoare_bind_ok [OF since_keeps(2) [OF emits_simple(2)]], rule hoare_bind_ok [OF since_keeps(2) [OF egress]],
        rule hoare_bind_ok [OF since_keeps(2) [OF emits_simple(1)]], rule hoare_bind_ok [OF spawned],
        rule hoare_bind_ok [OF since_keeps(3) [OF noted]], rule hoare_bind_ok [OF since_keeps(3) [OF emits_simple(1)]],
        rule hoare_bind [OF since_keeps(3) [OF read_rec]], rule since_keeps(3) [OF judge]) (simp_all add: weak)
qed

lemma start_body_registered:
  assumes "td_secrets t \<noteq> []"
  shows "hoare (since L (list_all main_free)) (start_body e b t command cs (Some s)) (\<lambda>_. since L (registered_before (td_id t) (td_secrets t)))"
  unfolding start_body_def
proof (rule hoare_bind_ok [OF enroll_registers [OF assms]])
  fix v :: "string option \<times> resolved_sps option"
  obtain s' cfg where v: "v = (s', cfg)" by (cases v)
  show "hoare (enrolled L t (Inr v)) (case v of (e_secret, cfg) \<Rightarrow> launch_tool e b t command cs e_secret cfg)
      (\<lambda>_. since L (registered_before (td_id t) (td_secrets t)))"
  proof (cases "\<exists>x c. s' = Some x \<and> cfg = Some c")
    case True
    then obtain x c where xc: "s' = Some x" "cfg = Some c" by blast
    have "enrolled L t (Inr v) = since L (registered_as (td_id t) (td_secrets t) x)" by (rule ext) (simp add: enrolled_def v xc)
    with launch_tool_registered show ?thesis by (simp add: v xc)
  next
    case False
    then have "enrolled L t (Inr v) = (\<lambda>_. False)" by (auto simp: enrolled_def v)
    then show ?thesis by (simp add: hoare_def)
  qed
qed (simp add: enrolled_def)

lemma start_registered:
  assumes secrets: "td_secrets t \<noteq> []" and skip: "run_getenv e ''TOOLSTACK_SPS_SKIP'' \<noteq> Some ''1''"
  shows "hoare (since L (list_all main_free)) (process_start e b t) (\<lambda>_ w. since L (registered_before (td_id t) (td_secrets t)) w)"
proof (cases "sps_active e \<and> b = ''process'' \<and> (\<exists>command. td_command t = Some command \<and> command \<noteq> [])")
  case False
  let ?free = "since L (list_all main_free)"
  have before: "since L (registered_before (td_id t) (td_secrets t)) w" if "?free w" for w
    using since_mono [OF that registered_before_free] .
  have "hoare ?free (process_start e b t) (\<lambda>_. ?free)"
    using False secrets skip since_keeps(1) [OF emits_simple(1)]
    by (auto simp: process_start_def intro!: hoare_ret hoare_bind_ok [OF since_keeps(1) [OF emits_simple(1)]] split: option.splits)
  from hoare_post [OF this before] show ?thesis .
next
  case True
  then obtain command where t: "td_command t = Some command" "command \<noteq> []" and active: "sps_active e" "b = ''process''" by blast
  let ?free = "since L (list_all main_free)" and ?before = "since L (registered_before (td_id t) (td_secrets t))"
  have before: "?before w" if "?free w" for w using since_mono [OF that registered_before_free] .
  have mint: "hoare ?free (do { s \<leftarrow> draw_hex e; ret (Some s) }) (\<lambda>m w. \<exists>s. m = Some s \<and> ?free w)"
    by (rule hoare_bind [OF since_keeps(1) [OF emits_simple(3)]]) (auto intro: hoare_ret)
  have read_log: "emits main_free (State (\<lambda>w. (ow_log w, w)))" "emits main_free (State (\<lambda>w. ((ow_rec w, ow_log w), w)))"
    by (rule emits_step, simp)+
  have withdraw: "emits main_free (if c then unregister_tool e i else ret ())" for c i
    by (auto simp: emits_def unregister_tool_def main_freeI)
  have abandon: "emits main_free (abandon_start e t earlier cause)" for earlier cause
    unfolding abandon_start_def
    by (auto intro!: emits_bind [OF read_log(2)] emits_bind [OF emits_quiet(3)] emits_bind [OF withdraw] emits_ret main_freeI)
  have finish: "hoare ?before (case res of Inr r \<Rightarrow> ret (Inr r) | Inl cause \<Rightarrow> abandon_start e t earlier cause) (\<lambda>_. ?before)"
    for earlier and res :: "run_exn + running_tool"
    by (cases res) (auto intro: hoare_ret since_keeps(3) [OF abandon])
  have body: "hoare (\<lambda>w. \<exists>s. m = Some s \<and> ?free w) (bind_ok (attempt e l) (\<lambda>_. bind_ok (amend f) (\<lambda>_. do {
      earlier \<leftarrow> State (\<lambda>w. (ow_log w, w));
      res \<leftarrow> start_body e b t command cs m;
      case res of Inr r \<Rightarrow> ret (Inr r) | Inl cause \<Rightarrow> abandon_start e t earlier cause }))) (\<lambda>_. ?before)" for m cs l f
    by (rule hoare_ex, rule hoare_pure, hypsubst, rule hoare_bind_ok [OF since_keeps(1) [OF emits_simple(1)]],
        rule hoare_bind_ok [OF since_keeps(1) [OF emits_simple(2)]], rule hoare_bind [OF since_keeps(1) [OF read_log(1)]],
        rule hoare_bind [OF start_body_registered [OF secrets]], rule finish) (simp_all add: before)
  have "process_start e b t = bind_ok (attempt e ''check port'') (\<lambda>_. do {
      channel_secret \<leftarrow> draw_hex e;
      minted \<leftarrow> (do { s \<leftarrow> draw_hex e; ret (Some s) });
      bind_ok (attempt e ''log path'') (\<lambda>_.
      bind_ok (amend (\<lambda>_. fresh_record e b t (path_in (path_in (td_path t) ''logs'') ''tool.log'') minted channel_secret)) (\<lambda>_. do {
        earlier \<leftarrow> State (\<lambda>w. (ow_log w, w));
        res \<leftarrow> start_body e b t command channel_secret minted;
        case res of Inr r \<Rightarrow> ret (Inr r) | Inl cause \<Rightarrow> abandon_start e t earlier cause })) })"
    unfolding process_start_def t(1) option.case using t(2) active secrets skip by simp
  then show ?thesis
    by (simp only:) (rule hoare_bind_ok [OF since_keeps(1) [OF emits_simple(1)]],
      rule hoare_bind [OF since_keeps(1) [OF emits_simple(3)]], rule hoare_bind [OF mint], rule body, simp add: before)
qed

lemma start_backend:
  assumes "td_secrets t \<noteq> []" "backend \<noteq> ''process''" "run_state (process_start e backend t) w = (res, w')"
  shows "ow_log w' = ow_log w"
  using assms by (auto simp: process_start_def bind_ok_run attempt_def split: option.splits if_splits)

text \<open>C39: Secrets fail closed. A tool that declares secrets is launched only by the backend \<^verbatim>\<open>process\<close>, only
  after its declarations were registered with the secrets provider under a capability, and with this capability
  in its environment; only the owner's development switch \<^verbatim>\<open>TOOLSTACK_SPS_SKIP=1\<close> lets it start without.\<close>

theorem secrets_fail_closed:
  assumes "run_state (process_start e backend t) w = (res, w')"
    and "ow_log w' = ow_log w @ a @ Spawned MainProcess pid argv env # b"
    and "td_secrets t \<noteq> []" "run_getenv e ''TOOLSTACK_SPS_SKIP'' \<noteq> Some ''1''"
  shows "backend = ''process'' \<and> (\<exists>s. Registered (td_id t) s (td_secrets t) \<in> set a \<and> map_of env ''TOOLSTACK_E_SECRET'' = Some s)"
proof -
  have "since (ow_log w) (list_all main_free) w" by (simp add: since_def)
  from hoareD [OF start_registered [OF assms(3,4)] this assms(1)] assms(2)
  have "\<exists>s. Registered (td_id t) s (td_secrets t) \<in> set a \<and> map_of env ''TOOLSTACK_E_SECRET'' = Some s"
    by (auto simp: since_def registered_before_def)
  moreover have "backend = ''process''" using start_backend [OF assms(3) _ assms(1)] assms(2) by auto
  ultimately show ?thesis by simp
qed

section \<open>Witnesses\<close>

text \<open>A tool with one declared secret, started and stopped; the process ends a while after the signal.\<close>

definition run_demo_os :: os_env where
  "run_demo_os = \<lparr>os_boot = Some ''boot'', os_look = (\<lambda>_ _. Some ''t0''), os_wait = (\<lambda>n _. if n < 12 then StillRunning else Reaped),
     os_probe = (\<lambda>_ _. Delivered), os_kill = (\<lambda>_ _ _. Delivered), os_lag = (\<lambda>_. 0)\<rparr>"

definition run_demo_sps :: resolved_sps where
  "run_demo_sps = \<lparr>rs_host = ''sps'', rs_port = 8743, rs_secret = ''s'', rs_ca = ''ca'', rs_verify = True\<rparr>"

definition run_demo_env :: run_env where
  "run_demo_env = \<lparr>ru_os = run_demo_os, ru_environ = [(''HOME'', ''/h''), (''SECRET'', ''x'')], ru_sps_file = True, ru_fails = (\<lambda>_ _. None),
     ru_token = (\<lambda>_. ''e5''), ru_config = (\<lambda>_. Inr run_demo_sps),
     ru_register = (\<lambda>_. None), ru_spawn = (\<lambda>_. Inr 42), ru_port = (\<lambda>_. 5), ru_python = ''/py'', ru_repo = ''/repo''\<rparr>"

definition run_demo_declared :: "secret_spec list" where
  "run_demo_declared = [\<lparr>ss_name = ''k'', ss_field = ''f'', ss_writable = False, ss_item = None\<rparr>]"

definition run_demo_tool :: tool_def where
  "run_demo_tool = \<lparr>td_id = ''mail'', td_type = ''api'', td_port = 7000, td_command = Some ''python3 t.py'', td_image = None,
     td_secrets = run_demo_declared, td_path = ''/t'', td_description = [], td_egress = [], td_manifest_digest = Some ''d''\<rparr>"

definition run_demo_world :: os_world where
  "run_demo_world = \<lparr>ow_tick = 0, ow_log = [], ow_rec = fresh_record run_demo_env ''process'' run_demo_tool [] None []\<rparr>"

definition run_demo_start :: "(run_exn + running_tool) \<times> os_world" where
  "run_demo_start = run_state (process_start run_demo_env ''process'' run_demo_tool) run_demo_world"


lemma run_demo_log: "ow_log run_demo_world = []"
  by (simp add: run_demo_world_def)

lemma run_demo_handle: "py_int (show_int 42) = Inr 42" "show_int 42 \<noteq> []"
  by code_simp+

lemma run_demo_switch: "run_getenv run_demo_env ''TOOLSTACK_SPS_SKIP'' = None" "sps_active run_demo_env"
  by code_simp+

lemma run_demo_run:
  "\<exists>r w. run_state (process_start run_demo_env ''process'' run_demo_tool) run_demo_world = (Inr r, w) \<and> rn_handle r = show_int 42
     \<and> ow_log w = [Registered ''mail'' ''e5'' run_demo_declared,
         Spawned MainProcess 42 (spawn_argv ''process'' (inner_script run_demo_env run_demo_tool ''python3 t.py'') None)
           (tool_environment run_demo_env run_demo_tool ''e5'' (Some ''e5'') (Some run_demo_sps) None),
         Looked 42 (Some ''t0''), Looked 42 (Some ''t0''), Waited 42 StillRunning]"
proof -
  have cmd: "td_command run_demo_tool = Some ''python3 t.py''" "td_secrets run_demo_tool = run_demo_declared" "run_demo_declared \<noteq> []" "td_id run_demo_tool = ''mail''"
    by (simp_all add: run_demo_tool_def run_demo_declared_def)
  have env: "ru_fails run_demo_env = (\<lambda>_ _. None)" "ru_token run_demo_env = (\<lambda>_. ''e5'')" "ru_config run_demo_env = (\<lambda>_. Inr run_demo_sps)"
    "ru_register run_demo_env = (\<lambda>_. None)" "ru_spawn run_demo_env = (\<lambda>_. Inr 42)" "ru_os run_demo_env = run_demo_os" by (simp_all add: run_demo_env_def)
  have w: "ow_log run_demo_world = []" "ow_tick run_demo_world = 0" by (simp_all add: run_demo_world_def)
  have os: "os_boot run_demo_os = Some ''boot''" "os_look run_demo_os = (\<lambda>_ _. Some ''t0'')" "os_wait run_demo_os = (\<lambda>n _. if n < 12 then StillRunning else Reaped)"
    by (simp_all add: run_demo_os_def)
  show ?thesis
    using run_demo_handle
    by (simp add: process_start_def cmd run_demo_switch bind_ok_run attempt_def draw_hex_def amend_def env w start_body_def enroll_def
        register_tool_def launch_tool_def start_egress_def policy_egress_def launch_def note_identity_def look_up_def observe_def
        judge_start_def process_alive_def fresh_record_def os nonempty_def wait_child_def Let_def)
qed

theorem no_process_lost_witness:
  "\<exists>r w. run_state (process_start run_demo_env ''process'' run_demo_tool) run_demo_world = (Inr r, w)
     \<and> pid_of MainProcess r = Some (show_int 42) \<and> \<not> has_exited MainProcess r"
proof -
  from run_demo_run obtain r w where run: "run_state (process_start run_demo_env ''process'' run_demo_tool) run_demo_world = (Inr r, w)"
    and spawned: "Spawned MainProcess 42 (spawn_argv ''process'' (inner_script run_demo_env run_demo_tool ''python3 t.py'') None)
       (tool_environment run_demo_env run_demo_tool ''e5'' (Some ''e5'') (Some run_demo_sps) None) \<in> set (drop (length (ow_log run_demo_world)) (ow_log w))"
    by (auto simp: run_demo_log)
  from no_process_lost [OF run _ refl spawned] run show ?thesis by auto
qed

lemma run_demo_home:
  "(''HOME'', ''/h'') \<in> set (tool_environment run_demo_env run_demo_tool ''e5'' (Some ''e5'') (Some run_demo_sps) None)"
proof (rule map_of_SomeD)
  have "child_environment run_demo_env = [(''HOME'', ''/h'')]" by code_simp
  then show "map_of (tool_environment run_demo_env run_demo_tool ''e5'' (Some ''e5'') (Some run_demo_sps) None) ''HOME'' = Some ''/h''"
    by (simp add: tool_environment_def set_all_map sps_variables_def delete_conv')
qed


theorem secrets_fail_closed_witness:
  "\<exists>s. Registered ''mail'' s run_demo_declared \<in> {Registered ''mail'' ''e5'' run_demo_declared}
     \<and> map_of (tool_environment run_demo_env run_demo_tool ''e5'' (Some ''e5'') (Some run_demo_sps) None) ''TOOLSTACK_E_SECRET'' = Some s"
proof -
  from run_demo_run obtain r w where run: "run_state (process_start run_demo_env ''process'' run_demo_tool) run_demo_world = (Inr r, w)"
    and logged: "ow_log w = ow_log run_demo_world @ [Registered ''mail'' ''e5'' run_demo_declared]
       @ Spawned MainProcess 42 (spawn_argv ''process'' (inner_script run_demo_env run_demo_tool ''python3 t.py'') None)
           (tool_environment run_demo_env run_demo_tool ''e5'' (Some ''e5'') (Some run_demo_sps) None)
       # [Looked 42 (Some ''t0''), Looked 42 (Some ''t0''), Waited 42 StillRunning]"
    by (auto simp: run_demo_log)
  have "td_secrets run_demo_tool = run_demo_declared" "run_demo_declared \<noteq> []" "td_id run_demo_tool = ''mail''"
    by (simp_all add: run_demo_tool_def run_demo_declared_def)
  with secrets_fail_closed [OF run logged] run_demo_switch show ?thesis by simp
qed

lemma run_demo_stop: "fst (run_state (terminate_process run_demo_os (Some (show_int 42)) (Some ''t0'') (Some ''boot'')) run_demo_world) = Inr ()"
  by code_simp

theorem stop_is_bounded_witness:
  "\<exists>evs. ow_log (snd (run_state (terminate_process run_demo_os (Some (show_int 42)) (Some ''t0'') (Some ''boot'')) run_demo_world)) = evs
     \<and> length evs \<le> 193 \<and> signals evs \<le> 2 \<and> (Waited 42 Reaped \<in> set evs \<or> Probed 42 NoProcess \<in> set evs)"
proof -
  let ?stop = "run_state (terminate_process run_demo_os (Some (show_int 42)) (Some ''t0'') (Some ''boot'')) run_demo_world"
  obtain w where run: "?stop = (Inr (), w)" using run_demo_stop by (cases ?stop) simp
  have "os_boot run_demo_os = Some ''boot''" by (simp add: run_demo_os_def)
  with run_demo_log stop_is_bounded [OF run run_demo_handle(1)] show ?thesis by (auto simp: run)
qed

definition run_demo_running :: running_tool where
  "run_demo_running = (fresh_record run_demo_env ''process'' run_demo_tool [] (Some ''e5'') ''c'')\<lparr>rn_handle := show_int 42, rn_process_identity := Some ''t0''\<rparr>"

lemma run_demo_stopped: "fst (run_state (process_stop run_demo_env run_demo_running) run_demo_world) = Inr ()"
  by code_simp

theorem stop_is_certain_witness:
  "\<exists>evs. ow_log (snd (run_state (process_stop run_demo_env run_demo_running) run_demo_world)) = evs @ [Unregistered ''mail'']
     \<and> gone run_demo_os (Some ''boot'') 42 evs"
proof -
  obtain w where run: "run_state (process_stop run_demo_env run_demo_running) run_demo_world = (Inr (), w)"
    using run_demo_stopped by (cases "run_state (process_stop run_demo_env run_demo_running) run_demo_world") auto
  have r: "rn_backend run_demo_running \<in> {''process'', ''seatbelt''}" "pid_of MainProcess run_demo_running = Some (show_int 42)"
    "\<not> has_exited MainProcess run_demo_running" "rn_boot_id run_demo_running = Some ''boot''" "nonempty (rn_e_secret run_demo_running)"
    "rn_tool_id run_demo_running = ''mail''" "ru_os run_demo_env = run_demo_os"
    using run_demo_handle by (simp_all add: run_demo_running_def fresh_record_def pid_of_def has_exited_def nonempty_def run_demo_env_def run_demo_os_def run_demo_tool_def)
  from stop_is_certain [OF run r(1)] r run_demo_handle run_demo_log
  obtain evs where evs: "ow_log w = evs @ [Unregistered ''mail'']" "\<And>k h. pid_of k run_demo_running = Some h \<Longrightarrow>
      has_exited k run_demo_running \<or> (\<exists>p. py_int h = Inr p \<and> gone run_demo_os (Some ''boot'') p evs)" by auto
  from evs(2) [OF r(2)] r(3) run_demo_handle(1) have "gone run_demo_os (Some ''boot'') 42 evs" by simp
  with evs(1) show ?thesis by (auto simp: run)
qed
end
