(* ===== verification/SpsDemo.thy ===== *)
theory SpsDemo
  imports SpsClient
begin

text \<open>A small installation of the secrets provider on which its theorems are applied.\<close>

definition demo_sha :: "string \<Rightarrow> string" where
  "demo_sha s = replicate 64 (CHR ''0'')"

definition demo_sps_config :: sps_config where
  "demo_sps_config = \<lparr>sp_secret = ''sp'', sp_grants = [(''mail'', [''shared''])], sp_max_value_bytes = 16,
     sp_boot_id = ''b'', sp_pid = 7\<rparr>"

definition demo_envelope :: "(nat \<times> vault_data) envelope" where
  "demo_envelope = \<lparr>ev_version = 1, ev_salt = ''salt'', ev_n = 65536, ev_r = 8, ev_p = 1,
     ev_ciphertext = (0, [(''mail'', [(''k'', ''v1'')]), (''shared'', [(''s'', ''v2'')])])\<rparr>"

definition demo_local :: "(string, nat \<times> vault_data) local" where
  "demo_local = \<lparr>lf_file = Some demo_envelope,
     lf_vault = \<lparr>vl_salt = ''salt'', vl_params = (65536, 8, 1), vl_key = ''pw'', vl_data = []\<rparr>,
     lf_kdf = (\<lambda>p s ps. Some p), lf_encrypt = (\<lambda>n k d. (n, d)), lf_decrypt = (\<lambda>k c. Some (snd c)),
     lf_io = (\<lambda>n. n < 10), lf_writes = 0\<rparr>"

definition demo_esecret :: string where
  "demo_esecret = replicate 32 (CHR ''a'')"

definition demo_sps0 :: "(string, nat \<times> vault_data) local sps_server" where
  "demo_sps0 = \<lparr>sv_sps = \<lparr>ss_store = [], ss_backend = demo_local\<rparr>, sv_audit = [], sv_rejects = no_rejects\<rparr>"

definition demo_register :: json where
  "demo_register = JObj [(''op'', JStr ''register''), (''spsecret'', JStr ''sp''), (''toolid'', JStr ''mail''),
     (''esecret'', JStr demo_esecret),
     (''secrets'', JList [JObj [(''name'', JStr ''key''), (''field'', JStr ''k''), (''writable'', JBool True)],
        JObj [(''name'', JStr ''all''), (''field'', JStr ''s''), (''item'', JStr ''shared'')]])]"

definition demo_sps_handle :: "json \<Rightarrow> (string, nat \<times> vault_data) local sps_server \<Rightarrow> json \<times> (string, nat \<times> vault_data) local sps_server" where
  "demo_sps_handle msg sv = sps_handle demo_sha 4096 demo_sps_config localfile_plugin 100 True (Inr msg) sv"

definition demo_sps1 :: "(string, nat \<times> vault_data) local sps_server" where
  "demo_sps1 = snd (demo_sps_handle demo_register demo_sps0)"

lemma demo_registers: "fst (demo_sps_handle demo_register demo_sps0) = ok_reply []"
  by code_simp

lemma demo_sps1_reach: "sps_reach demo_sha 4096 demo_sps_config localfile_plugin demo_local demo_sps1"
  unfolding demo_sps1_def demo_sps_handle_def demo_sps0_def by (intro sps_reach.intros)

definition demo_get :: "(string \<times> json) list" where
  "demo_get = [(''op'', JStr ''get_secrets''), (''toolid'', JStr ''mail''), (''esecret'', JStr demo_esecret)]"

definition demo_write :: "(string \<times> json) list" where
  "demo_write = [(''op'', JStr ''write_secret''), (''toolid'', JStr ''mail''), (''name'', JStr ''key''),
     (''value'', JStr ''v9''), (''esecret'', JStr demo_esecret)]"

definition demo_guess :: "(string \<times> json) list" where
  "demo_guess = [(''op'', JStr ''get_secrets''), (''toolid'', JStr ''mail''), (''esecret'', JStr ''guess'')]"

lemma demo_store: "ss_store (sv_sps demo_sps1) = [(''mail'', \<lparr>rg_esecret = demo_esecret, rg_entries =
    [\<lparr>cs_name = ''key'', cs_field = ''k'', cs_item = None, cs_writable = True\<rparr>,
     \<lparr>cs_name = ''all'', cs_field = ''s'', cs_item = Some ''shared'', cs_writable = False\<rparr>]\<rparr>)]"
  by code_simp

lemma demo_gets: "fst (demo_sps_handle (JObj demo_get) demo_sps1)
    = ok_reply [(''secrets'', JObj [(''key'', JStr ''v1''), (''all'', JStr ''v2'')])]"
  by code_simp

lemma demo_writes: "fst (demo_sps_handle (JObj demo_write) demo_sps1) = ok_reply [(''name'', JStr ''key'')]"
  by code_simp

lemma demo_written: "map_option ev_ciphertext (lf_file (ss_backend (sv_sps (snd (demo_sps_handle (JObj demo_write) demo_sps1)))))
    = Some (0, [(''mail'', [(''k'', ''v9'')]), (''shared'', [(''s'', ''v2'')])])"
  by code_simp

lemma demo_before: "map_option ev_ciphertext (lf_file (ss_backend (sv_sps demo_sps1)))
    = Some (0, [(''mail'', [(''k'', ''v1'')]), (''shared'', [(''s'', ''v2'')])])"
  by code_simp

theorem secrets_only_to_holder_witness:
  "\<exists>t rec fs. speaks_for demo_get (ss_store (sv_sps demo_sps1)) t rec \<and> 32 \<le> length (rg_esecret rec)
    \<and> JObj [(''key'', JStr ''v1''), (''all'', JStr ''v2'')] = JObj fs
    \<and> list_all (reveals localfile_plugin (ss_backend (sv_sps demo_sps1)) t rec) fs
    \<and> list_all (entry_granted demo_sps_config t) (rg_entries rec)"
proof -
  obtain sv' where h: "sps_handle demo_sha 4096 demo_sps_config localfile_plugin 100 True (Inr (JObj demo_get)) demo_sps1
      = (ok_reply [(''secrets'', JObj [(''key'', JStr ''v1''), (''all'', JStr ''v2'')])], sv')"
    using demo_gets unfolding demo_sps_handle_def by (metis prod.collapse)
  have "jget ''secrets'' (ok_reply [(''secrets'', JObj [(''key'', JStr ''v1''), (''all'', JStr ''v2'')])])
      = Some (JObj [(''key'', JStr ''v1''), (''all'', JStr ''v2'')])" by (simp add: ok_reply_def)
  from secrets_only_to_holder [OF demo_sps1_reach h this] show ?thesis by blast
qed

theorem stranger_learns_nothing_witness:
  "fst (sps_handle demo_sha 4096 demo_sps_config localfile_plugin 100 True (Inr (JObj demo_guess)) demo_sps1)
    = fst (sps_handle demo_sha 4096 demo_sps_config localfile_plugin 100 True (Inr (JObj demo_guess)) demo_sps0)"
proof -
  have op: "map_of demo_guess ''op'' = Some (JStr ''get_secrets'')" by (simp add: demo_guess_def)
  have "\<not> speaks_for demo_guess (ss_store (sv_sps demo_sps1)) t rec" for t rec
    by (auto simp: speaks_for_def demo_guess_def demo_store demo_esecret_def numeral_eq_Suc split: if_splits)
  moreover have "\<not> speaks_for demo_guess (ss_store (sv_sps demo_sps0)) t rec" for t rec
    by (simp add: speaks_for_def demo_sps0_def)
  ultimately show ?thesis using stranger_learns_nothing [OF op, of demo_sps1 demo_sps0] by blast
qed

theorem backend_written_only_if_writable_witness:
  "\<exists>t rec e v. speaks_for demo_write (ss_store (sv_sps demo_sps1)) t rec \<and> e \<in> set (rg_entries rec) \<and> cs_writable e
    \<and> map_of demo_write ''value'' = Some (JStr v) \<and> length (utf8_encode v) \<le> sp_max_value_bytes demo_sps_config"
proof -
  have h: "sps_handle demo_sha 4096 demo_sps_config localfile_plugin 100 True (Inr (JObj demo_write)) demo_sps1
      = (fst (demo_sps_handle (JObj demo_write) demo_sps1), snd (demo_sps_handle (JObj demo_write) demo_sps1))"
    by (simp add: demo_sps_handle_def)
  have "ss_backend (sv_sps (snd (demo_sps_handle (JObj demo_write) demo_sps1))) \<noteq> ss_backend (sv_sps demo_sps1)"
    using demo_written demo_before by auto
  from backend_written_only_if_writable [OF demo_sps1_reach h this] show ?thesis by blast
qed

theorem success_is_audited_witness:
  "\<exists>x. sv_audit (snd (demo_sps_handle (JObj demo_write) demo_sps1)) = sv_audit demo_sps1 @
    [audit_record 100 ''write_secret'' ''ok'' (digest demo_sha ''mail'') (digest demo_sha ''key'') None x]"
proof -
  have h: "sps_handle demo_sha 4096 demo_sps_config localfile_plugin 100 True (Inr (JObj demo_write)) demo_sps1
      = (ok_reply [(''name'', JStr ''key'')], snd (demo_sps_handle (JObj demo_write) demo_sps1))"
    using demo_writes by (metis demo_sps_handle_def prod.collapse)
  have "jget ''status'' (ok_reply [(''name'', JStr ''key'')]) = Some (JStr ''ok'')"
    "map_of demo_write ''op'' = Some (JStr ''write_secret'')" "''write_secret'' \<noteq> ''ping''"
    by (simp_all add: ok_reply_def demo_write_def)
  from success_is_audited [OF h this] show ?thesis by (simp add: audit_identity_def demo_write_def)
qed

theorem segmentation_irrelevant_witness:
  "read_socket_json (\<lambda>_. Some (JInt 1)) (map Chunk [''ab'', ''c'' @ [CHR 0x0A]] @ [Late])
     = read_one_json (\<lambda>_. Some (JInt 1)) (''abc'' @ [CHR 0x0A])"
  using segmentation_irrelevant [of "[''ab'', ''c'' @ [CHR 0x0A]]" "\<lambda>_. Some (JInt 1)" "[Late]"] by (simp add: MAX_BODY_BYTES_def)

theorem request_line_bounded_witness:
  "\<exists>raw. collect_line [] [Chunk [CHR 0x0A]] = Inr raw \<and> length raw \<le> MAX_BODY_BYTES
    \<and> read_one_json (\<lambda>_. None) raw = Inr (JObj [])"
proof -
  have "read_socket_json (\<lambda>_. None) [Chunk [CHR 0x0A]] = Inr (JObj [])"
    by (simp add: read_socket_json_def read_one_json_def partition_at_def recv_size_def MAX_BODY_BYTES_def code_def)
  with request_line_bounded [of "[Chunk [CHR 0x0A]]" "\<lambda>_. None" "JObj []"] show ?thesis by blast
qed

definition demo_client :: secret_client where
  "demo_client = \<lparr>cl_tool_id = ''mail'', cl_esecret = demo_esecret, cl_cache = []\<rparr>"

lemma demo_audit: "audit_event 4096 100 ''get_secret'' ''ok'' (digest demo_sha ''mail'') (digest demo_sha ''key'') None None
    = Inr (audit_record 100 ''get_secret'' ''ok'' (digest demo_sha ''mail'') (digest demo_sha ''key'') None None)"
  by code_simp

theorem writeback_visible_witness:
  "\<exists>(sv' :: (string, nat \<times> vault_data) local sps_server) c2' sv2. sdk_refresh (sps_send demo_sha 4096 demo_sps_config localfile_plugin 100 True) ''key'' demo_client sv' = (Inr ''v9'', c2', sv2)
    \<and> sdk_get c2' ''key'' = Inr ''v9''"
proof -
  have ok: "crypto_ok demo_local" by (simp add: crypto_ok_def demo_local_def)
  have "sps_handle demo_sha 4096 demo_sps_config localfile_plugin 100 True (Inr (JObj demo_write)) demo_sps1
      = (ok_reply [(''name'', JStr ''key'')], snd (demo_sps_handle (JObj demo_write) demo_sps1))"
    using demo_writes by (metis demo_sps_handle_def prod.collapse)
  then have "\<exists>c' sv'. sdk_writeback (sps_send demo_sha 4096 demo_sps_config localfile_plugin 100 True) ''key'' ''v9'' demo_client demo_sps1
      = (Inr (), c', sv')"
    by (simp add: sdk_writeback_def client_write_secret_def with_secret_def require_def sps_call_def sps_send_def
        demo_client_def demo_write_def decode_reply_def ok_reply_def)
  then obtain c' sv' where w: "sdk_writeback (sps_send demo_sha 4096 demo_sps_config localfile_plugin 100 True) ''key'' ''v9'' demo_client demo_sps1
      = (Inr (), c', sv')" by blast
  have a: "audit_event 4096 100 ''get_secret'' ''ok'' (digest demo_sha (cl_tool_id demo_client)) (digest demo_sha ''key'') None None
      = Inr (audit_record 100 ''get_secret'' ''ok'' (digest demo_sha ''mail'') (digest demo_sha ''key'') None None)"
    using demo_audit by (simp add: demo_client_def)
  from writeback_visible [OF ok demo_sps1_reach w refl refl a] show ?thesis by blast
qed

end
