(* ===== verification/FwdConfig.thy ===== *)
theory FwdConfig
  imports Template Registry
begin

text \<open>
  \<^verbatim>\<open>toolstack_forwarder/config.py\<close>: loading a REST tool's manifest. A \<^verbatim>\<open>ConfigError\<close> is a
  \<^const>\<open>ValueError\<close>; its message only names the file and field. The parsed TOML document is a
  \<^typ>\<open>json\<close> value; TOML has no null, so an absent key is the only \<^verbatim>\<open>None\<close>.
\<close>

section \<open>The configuration\<close>

record secret_decl =
  sd_name :: string
  sd_field :: string
  sd_writable :: bool

record update_rule =
  ru_secret_name :: string
  ru_response_type :: string
  ru_extract_path :: string
  ru_match_status :: string

record operation =
  op_name :: string
  op_risk :: string
  op_description :: string
  op_verb :: string
  op_path :: string
  op_allowed_headers :: "string list"
  op_body_kind :: string
  op_body_content_type :: "string option"
  op_redact_body :: bool
  op_redact_headers :: bool
  op_rules :: "update_rule list"
  op_headers :: "(string \<times> string) list"
  op_allowed_secrets :: "string list"
  op_body_template :: "string option"

record rest_config =
  rc_tool_id :: string
  rc_port :: "int option"
  rc_base_url :: string
  rc_operations :: "(string \<times> operation) list"
  rc_secrets :: "(string \<times> secret_decl) list"

section \<open>Fields\<close>

text \<open>\<^verbatim>\<open>_ID_RE.match\<close>: \<^verbatim>\<open>$\<close> also matches before a final line feed.\<close>

definition id_match :: "string \<Rightarrow> bool" where
  "id_match s \<longleftrightarrow> id_ok s \<or> (s \<noteq> [] \<and> last s = CHR 0x0A \<and> id_ok (butlast s))"

definition secret_name_ok :: "string \<Rightarrow> bool" where
  "secret_name_ok s \<longleftrightarrow> s \<noteq> [] \<and> list_all is_word s"

definition string_field :: "json \<Rightarrow> string \<Rightarrow> string result" where
  "string_field d key = (case jget key d of Some (JStr s) \<Rightarrow> if s = [] then Inl ValueError else Inr s | _ \<Rightarrow> Inl ValueError)"

definition bool_field :: "json \<Rightarrow> string \<Rightarrow> bool result" where
  "bool_field d key = (case jget key d of None \<Rightarrow> Inr False | Some (JBool b) \<Rightarrow> Inr b | _ \<Rightarrow> Inl ValueError)"

text \<open>\<^verbatim>\<open>item.get(key, default) if isinstance(..., str) else default\<close>.\<close>

definition text_field :: "json \<Rightarrow> string \<Rightarrow> string \<Rightarrow> string" where
  "text_field d key dflt = (case jget key d of Some (JStr s) \<Rightarrow> s | _ \<Rightarrow> dflt)"

definition printable :: "char \<Rightarrow> bool" where
  "printable c \<longleftrightarrow> 33 \<le> code c \<and> code c \<le> 126"

definition validate_base_url :: "string \<Rightarrow> unit result" where
  "validate_base_url v = andthen (urlsplit v) (\<lambda>u. ensure (
     url_scheme u \<in> {''http'', ''https''} \<and> url_hostname u \<noteq> None
     \<and> url_username u = None \<and> url_password u = None \<and> url_query u = [] \<and> url_fragment u = []) ValueError)"

definition validate_path_template :: "string \<Rightarrow> unit result" where
  "validate_path_template v =
     (case partition_at (CHR ''?'') v of (path_part, _, query_part) \<Rightarrow>
        ensure (starts_with ''/'' path_part \<and> \<not> starts_with ''//'' path_part
          \<and> CHR ''#'' \<notin> set v \<and> list_all printable path_part
          \<and> list_all (\<lambda>c. printable c \<or> c = CHR '' '') query_part
          \<and> CHR ''{'' \<notin> set (erase (var_pieces v)) \<and> CHR ''}'' \<notin> set (erase (var_pieces v))) ValueError)"

section \<open>Secrets and templates\<close>

definition load_secret :: "(string \<times> secret_decl) list \<Rightarrow> json \<Rightarrow> (string \<times> secret_decl) list result" where
  "load_secret secrets item =
     andthen (ensure (is_obj item) ValueError) (\<lambda>_.
     andthen (string_field item ''name'') (\<lambda>name.
     andthen (ensure (secret_name_ok name \<and> map_of secrets name = None) ValueError) (\<lambda>_.
     andthen (string_field item ''field'') (\<lambda>fld.
     andthen (bool_field item ''writable'') (\<lambda>writable.
       Inr (secrets @ [(name, \<lparr>sd_name = name, sd_field = fld, sd_writable = writable\<rparr>)]))))))"

definition load_secrets :: "json \<Rightarrow> (string \<times> secret_decl) list result" where
  "load_secrets raw = (case raw of JList items \<Rightarrow> fold_res load_secret [] items | _ \<Rightarrow> Inl ValueError)"

definition str_items :: "json list \<Rightarrow> string list option" where
  "str_items xs = (if list_all is_str xs then Some (map the_str xs) else None)"

text \<open>The loop over the operator headers.\<close>

fun check_headers :: "string list \<Rightarrow> (string \<times> json) list \<Rightarrow> (string \<times> string) list result" where
  "check_headers seen [] = Inr []"
| "check_headers seen ((name, v) # hs) =
     andthen (ensure (id_ok name \<and> py_lower name \<notin> set seen) ValueError) (\<lambda>_.
     case v of
       JStr s \<Rightarrow> if list_ex is_control s then Inl ValueError
                 else andthen (check_headers (py_lower name # seen) hs) (\<lambda>rest. Inr ((name, s) # rest))
     | _ \<Rightarrow> Inl ValueError)"

definition template_ok :: "string list \<Rightarrow> string \<Rightarrow> bool" where
  "template_ok allowed text \<longleftrightarrow>
     \<not> contains secret_marker (erase (secret_pieces text)) \<and> set (refs (secret_pieces text)) \<subseteq> set allowed"

definition validate_secret_placement ::
  "json \<Rightarrow> string list \<Rightarrow> string \<Rightarrow> ((string \<times> string) list \<times> string list \<times> string option) result" where
  "validate_secret_placement item declared body_kind =
     (case jget_or (JList []) ''allowed_secrets'' item of
        JList ss \<Rightarrow>
          (case str_items ss of
             None \<Rightarrow> Inl ValueError
           | Some allowed \<Rightarrow>
               andthen (ensure (set allowed \<subseteq> set declared) ValueError) (\<lambda>_.
               case jget_or (JObj []) ''headers'' item of
                 JObj hs \<Rightarrow>
                   andthen (check_headers [] hs) (\<lambda>headers.
                   andthen (case jget ''body_template'' item of
                              None \<Rightarrow> Inr None
                            | Some (JStr t) \<Rightarrow> if body_kind = ''text'' then Inr (Some t) else Inl ValueError
                            | Some _ \<Rightarrow> Inl ValueError) (\<lambda>template.
                   andthen (ensure (list_all (template_ok allowed)
                              (map snd headers @ (case template of None \<Rightarrow> [] | Some t \<Rightarrow> [t]))) ValueError) (\<lambda>_.
                     Inr (headers, allowed, template))))
               | _ \<Rightarrow> Inl ValueError))
      | _ \<Rightarrow> Inl ValueError)"

section \<open>Rules\<close>

definition rule_types :: "string list" where
  "rule_types = [''json'', ''xml'', ''form'', ''plaintext'']"

definition load_rule :: "string list \<Rightarrow> update_rule list \<Rightarrow> json \<Rightarrow> update_rule list result" where
  "load_rule writable rules item =
     andthen (ensure (is_obj item) ValueError) (\<lambda>_.
     andthen (string_field item ''secret_name'') (\<lambda>name.
     andthen (ensure (name \<in> set writable) ValueError) (\<lambda>_.
     andthen (string_field item ''response_type'') (\<lambda>rt.
     andthen (ensure (rt \<in> set rule_types) ValueError) (\<lambda>_.
     andthen (string_field item ''extract_path'') (\<lambda>ep.
     andthen (string_field item ''match_status'') (\<lambda>ms.
       Inr (rules @ [\<lparr>ru_secret_name = name, ru_response_type = rt, ru_extract_path = ep, ru_match_status = ms\<rparr>]))))))))"

definition load_rules :: "json \<Rightarrow> string list \<Rightarrow> update_rule list result" where
  "load_rules raw writable = (case raw of JList items \<Rightarrow> fold_res (load_rule writable) [] items | _ \<Rightarrow> Inl ValueError)"

section \<open>Operations\<close>

text \<open>\<^verbatim>\<open>body_kind\<close> as a frozenset member: a list or table is not hashable.\<close>

definition load_body_kind :: "string \<Rightarrow> json \<Rightarrow> string result" where
  "load_body_kind verb item =
     (case jget ''body_kind'' item of
        None \<Rightarrow> Inr (if verb \<in> {''GET'', ''DELETE''} then ''none'' else ''text'')
      | Some (JStr k) \<Rightarrow> if k \<in> {''none'', ''text'', ''binary''} then Inr k else Inl ValueError
      | Some (JList _) \<Rightarrow> Inl TypeError
      | Some (JObj _) \<Rightarrow> Inl TypeError
      | Some _ \<Rightarrow> Inl ValueError)"

definition load_content_type :: "string \<Rightarrow> json \<Rightarrow> string option result" where
  "load_content_type body_kind item =
     andthen (case jget ''body_content_type'' item of None \<Rightarrow> Inr [] | Some (JStr s) \<Rightarrow> Inr s | Some _ \<Rightarrow> Inl ValueError)
       (\<lambda>given. Inr (if body_kind = ''none'' then None
          else if given \<noteq> [] then Some given
          else Some (if body_kind = ''text'' then ''application/json'' else ''application/octet-stream'')))"

definition load_allowed_headers :: "json \<Rightarrow> string list result" where
  "load_allowed_headers item =
     (case jget_or (JList []) ''allowed_headers'' item of
        JList hs \<Rightarrow>
          (case str_items hs of
             None \<Rightarrow> Inl ValueError
           | Some names \<Rightarrow> if list_all id_ok names then Inr (map py_lower names) else Inl ValueError)
      | _ \<Rightarrow> Inl ValueError)"

definition has_keys :: "string list \<Rightarrow> json \<Rightarrow> bool" where
  "has_keys ks d \<longleftrightarrow> list_all (\<lambda>k. jget k d \<noteq> None) ks"

definition load_operation ::
  "(string \<times> secret_decl) list \<Rightarrow> (string \<times> operation) list \<Rightarrow> json \<Rightarrow> (string \<times> operation) list result" where
  "load_operation secrets operations item =
     andthen (ensure (is_obj item) ValueError) (\<lambda>_.
     andthen (string_field item ''name'') (\<lambda>name.
     andthen (ensure (id_match name \<and> name \<notin> {''refresh'', ''refresh_one''} \<and> map_of operations name = None) ValueError) (\<lambda>_.
     andthen (string_field item ''verb'') (\<lambda>verb0. let verb = py_upper verb0 in
     andthen (ensure (verb \<in> set rest_verbs) ValueError) (\<lambda>_.
     andthen (string_field item ''path'') (\<lambda>path.
     andthen (validate_path_template path) (\<lambda>_.
     andthen (load_allowed_headers item) (\<lambda>allowed.
     andthen (load_body_kind verb item) (\<lambda>body_kind.
     andthen (load_content_type body_kind item) (\<lambda>content_type.
     andthen (bool_field item ''body_substitution'') (\<lambda>subst.
     andthen (ensure (\<not> subst) ValueError) (\<lambda>_.
     andthen (validate_secret_placement item (map fst secrets) body_kind) (\<lambda>(headers, allowed_secrets, template).
     andthen (ensure (set allowed \<inter> set (map (py_lower \<circ> fst) headers) = {}) ValueError) (\<lambda>_.
     andthen (bool_field item ''redact_response_body'') (\<lambda>redact_body.
     andthen (bool_field item ''redact_response_headers'') (\<lambda>redact_headers.
     andthen (load_rules (jget_or (JList []) ''secret_update_rules'' item)
                (map fst (filter (\<lambda>ns. sd_writable (snd ns)) secrets))) (\<lambda>rules.
     andthen (ensure (rules = [] \<or> has_keys [''redact_response_body'', ''redact_response_headers''] item) ValueError) (\<lambda>_.
       Inr (operations @ [(name,
         \<lparr>op_name = name, op_risk = text_field item ''risk'' ''unknown'', op_description = text_field item ''description'' '''',
          op_verb = verb, op_path = path, op_allowed_headers = allowed, op_body_kind = body_kind,
          op_body_content_type = content_type, op_redact_body = redact_body, op_redact_headers = redact_headers,
          op_rules = rules, op_headers = headers, op_allowed_secrets = allowed_secrets,
          op_body_template = template\<rparr>)])))))))))))))))))))"

definition load_operations :: "json \<Rightarrow> (string \<times> secret_decl) list \<Rightarrow> (string \<times> operation) list result" where
  "load_operations raw secrets =
     (case raw of JList items \<Rightarrow> fold_res (load_operation secrets) [] items | _ \<Rightarrow> Inl ValueError)"

definition load_port :: "json \<Rightarrow> int option result" where
  "load_port entry = (case jget ''port'' entry of None \<Rightarrow> Inr None
     | Some v \<Rightarrow> (case valid_port v of None \<Rightarrow> Inl ValueError | Some p \<Rightarrow> Inr (Some p)))"

definition load_config :: "json \<Rightarrow> rest_config result" where
  "load_config data =
     andthen (ensure (is_obj data) ValueError) (\<lambda>_.
     andthen (case jget ''id'' data of Some (JStr s) \<Rightarrow> if id_match s then Inr s else Inl ValueError | _ \<Rightarrow> Inl ValueError) (\<lambda>tool_id.
     andthen (ensure (jget ''type'' data = Some (JStr ''rest'')) ValueError) (\<lambda>_.
     andthen (ensure (is_obj (jget_or (JObj []) ''entrypoint'' data)) ValueError) (\<lambda>_.
     andthen (load_port (jget_or (JObj []) ''entrypoint'' data)) (\<lambda>port.
     andthen (string_field data ''base_url'') (\<lambda>base_url.
     andthen (validate_base_url base_url) (\<lambda>_.
     andthen (load_secrets (jget_or (JList []) ''secrets'' data)) (\<lambda>secrets.
     andthen (load_operations (jget_or (JList []) ''operations'' data) secrets) (\<lambda>operations.
     andthen (ensure (operations \<noteq> []) ValueError) (\<lambda>_.
       Inr \<lparr>rc_tool_id = tool_id, rc_port = port, rc_base_url = py_rstrip_slash base_url,
            rc_operations = operations, rc_secrets = secrets\<rparr>))))))))))"

section \<open>What loading establishes\<close>

definition op_valid :: "(string \<times> secret_decl) list \<Rightarrow> string \<times> operation \<Rightarrow> bool" where
  "op_valid secrets no \<longleftrightarrow> (let n = fst no; o' = snd no in
     op_name o' = n \<and> op_verb o' \<in> set rest_verbs \<and> validate_path_template (op_path o') = Inr ()
     \<and> op_body_kind o' \<in> {''none'', ''text'', ''binary''}
     \<and> set (op_allowed_headers o') \<inter> set (map (py_lower \<circ> fst) (op_headers o')) = {}
     \<and> distinct (map (py_lower \<circ> fst) (op_headers o')) \<and> list_all (\<lambda>h. \<not> list_ex is_control (snd h)) (op_headers o')
     \<and> set (op_allowed_secrets o') \<subseteq> set (map fst secrets)
     \<and> list_all (template_ok (op_allowed_secrets o')) (map snd (op_headers o'))
     \<and> (case op_body_template o' of None \<Rightarrow> True
        | Some t \<Rightarrow> op_body_kind o' = ''text'' \<and> template_ok (op_allowed_secrets o') t)
     \<and> list_all (\<lambda>r. ru_response_type r \<in> set rule_types
          \<and> (\<exists>d. map_of secrets (ru_secret_name r) = Some d \<and> sd_writable d)) (op_rules o'))"

definition config_valid :: "rest_config \<Rightarrow> bool" where
  "config_valid c \<longleftrightarrow> distinct (map fst (rc_secrets c)) \<and> distinct (map fst (rc_operations c))
     \<and> rc_operations c \<noteq> [] \<and> list_all (op_valid (rc_secrets c)) (rc_operations c)
     \<and> (\<exists>b. rc_base_url c = py_rstrip_slash b \<and> validate_base_url b = Inr ())"

lemma load_secret_inv:
  "load_secret secrets item = Inr s' \<Longrightarrow> distinct (map fst secrets) \<Longrightarrow> distinct (map fst s')"
  by (auto simp: load_secret_def map_of_eq_None_iff)

lemma load_secrets_distinct: "load_secrets raw = Inr s \<Longrightarrow> distinct (map fst s)"
  by (cases raw) (auto simp: load_secrets_def intro: fold_res_inv [where P = "\<lambda>s. distinct (map fst s)"] load_secret_inv)

lemma check_headers_ok:
  "check_headers seen hs = Inr out \<Longrightarrow>
     distinct (map (py_lower \<circ> fst) out) \<and> set (map (py_lower \<circ> fst) out) \<inter> set seen = {}
     \<and> list_all (\<lambda>h. \<not> list_ex is_control (snd h)) out"
proof (induction seen hs arbitrary: out rule: check_headers.induct)
  case (2 seen name v hs)
  from "2.prems" obtain t rest where v: "v = JStr t" "\<not> list_ex is_control t" and fresh: "py_lower name \<notin> set seen" "id_ok name"
    and rest: "check_headers (py_lower name # seen) hs = Inr rest" "out = (name, t) # rest"
    by (auto split: json.splits if_splits)
  from "2.IH" [OF _ v(1,2) rest(1)] fresh have "distinct (map (py_lower \<circ> fst) rest)
      \<and> set (map (py_lower \<circ> fst) rest) \<inter> set (py_lower name # seen) = {}
      \<and> list_all (\<lambda>h. \<not> list_ex is_control (snd h)) rest" by (simp add: comp_def)
  with fresh(1) rest(2) v(2) show ?case by (auto simp: comp_def)
qed simp

lemma load_rules_ok:
  assumes "load_rules raw writable = Inr rules"
  shows "list_all (\<lambda>r. ru_response_type r \<in> set rule_types \<and> ru_secret_name r \<in> set writable) rules"
proof -
  from assms obtain items where "fold_res (load_rule writable) [] items = Inr rules"
    by (auto simp: load_rules_def split: json.splits)
  then show ?thesis by (rule fold_res_inv) (auto simp: load_rule_def)
qed

lemma placement_ok:
  assumes "validate_secret_placement item declared body_kind = Inr (headers, allowed, template)"
  shows "distinct (map (py_lower \<circ> fst) headers) \<and> list_all (\<lambda>h. \<not> list_ex is_control (snd h)) headers
    \<and> set allowed \<subseteq> set declared \<and> list_all (template_ok allowed) (map snd headers)
    \<and> (case template of None \<Rightarrow> True | Some t \<Rightarrow> body_kind = ''text'' \<and> template_ok allowed t)"
  using assms check_headers_ok
  by (fastforce simp: validate_secret_placement_def split: json.splits option.splits if_splits)

lemma load_body_kind_ok: "load_body_kind verb item = Inr k \<Longrightarrow> k \<in> {''none'', ''text'', ''binary''}"
  by (auto simp: load_body_kind_def split: option.splits json.splits if_splits)

lemma writable_declared:
  assumes "list_all (\<lambda>r. ru_response_type r \<in> set rule_types
      \<and> ru_secret_name r \<in> set (map fst (filter (\<lambda>ns. sd_writable (snd ns)) secrets))) rules"
    "distinct (map fst secrets)"
  shows "list_all (\<lambda>r. ru_response_type r \<in> set rule_types
      \<and> (\<exists>d. map_of secrets (ru_secret_name r) = Some d \<and> sd_writable d)) rules"
  using assms(1)
proof (rule list.pred_mono_strong)
  fix r
  assume "ru_response_type r \<in> set rule_types
      \<and> ru_secret_name r \<in> set (map fst (filter (\<lambda>ns. sd_writable (snd ns)) secrets))"
  then show "ru_response_type r \<in> set rule_types
      \<and> (\<exists>d. map_of secrets (ru_secret_name r) = Some d \<and> sd_writable d)"
    using assms(2) by (auto simp: map_of_eq_Some_iff)
qed

lemma load_operation_adds:
  assumes "load_operation secrets ops item = Inr ops'" "distinct (map fst secrets)"
  shows "\<exists>name o'. ops' = ops @ [(name, o')] \<and> map_of ops name = None \<and> op_valid secrets (name, o')"
  using assms(1) unfolding load_operation_def
  apply (clarsimp simp: Let_def)
  apply (drule load_rules_ok, drule placement_ok, drule load_body_kind_ok)
  apply (drule writable_declared [OF _ assms(2)])
  apply (simp add: op_valid_def comp_def Let_def cong: option.case_cong)
  done

lemma load_operation_ok:
  assumes "load_operation secrets ops item = Inr ops'" "distinct (map fst secrets)"
    "distinct (map fst ops) \<and> list_all (op_valid secrets) ops"
  shows "distinct (map fst ops') \<and> list_all (op_valid secrets) ops'"
  using load_operation_adds [OF assms(1,2)] assms(3) by (auto simp: map_of_eq_None_iff)

lemma load_operations_ok:
  assumes "load_operations raw secrets = Inr ops" "distinct (map fst secrets)"
  shows "distinct (map fst ops) \<and> list_all (op_valid secrets) ops"
proof -
  from assms obtain items where "fold_res (load_operation secrets) [] items = Inr ops"
    by (auto simp: load_operations_def split: json.splits)
  then show ?thesis by (rule fold_res_inv) (auto dest: load_operation_ok [OF _ assms(2)])
qed

lemma load_config_valid:
  assumes "load_config data = Inr c"
  shows "config_valid c"
proof -
  from assms obtain secrets ops b where "load_secrets (jget_or (JList []) ''secrets'' data) = Inr secrets"
    "load_operations (jget_or (JList []) ''operations'' data) secrets = Inr ops" "ops \<noteq> []" "validate_base_url b = Inr ()"
    "rc_secrets c = secrets" "rc_operations c = ops" "rc_base_url c = py_rstrip_slash b"
    by (auto simp: load_config_def)
  with load_secrets_distinct load_operations_ok show ?thesis unfolding config_valid_def by blast
qed

end
