(* ===== verification/FwdRequest.thy ===== *)
theory FwdRequest
  imports FwdConfig
begin

text \<open>
  \<^verbatim>\<open>toolstack_forwarder/request_builder.py\<close>: the outbound request of an operation and the
  caller's arguments. \<open>secrets\<close> is the cache of the \<^verbatim>\<open>SecretClient\<close>: \<^const>\<open>None\<close> is the
  \<^verbatim>\<open>KeyError\<close> of a name that is not cached.
\<close>

section \<open>Errors and requests\<close>

text \<open>\<^verbatim>\<open>RequestBuildError\<close>, and an exception of the library that the module does not catch.\<close>

record build_error =
  be_code :: string
  be_detail :: string
  be_fields :: "(string \<times> json) list"

datatype build_exn = Refused build_error | Raised exn

definition refuse :: "string \<Rightarrow> string \<Rightarrow> (string \<times> json) list \<Rightarrow> build_exn" where
  "refuse c d fs = Refused \<lparr>be_code = c, be_detail = (if d = [] then c else d), be_fields = fs\<rparr>"

definition be_envelope :: "build_error \<Rightarrow> json" where
  "be_envelope e = JObj (foldl (\<lambda>d kv. AList.update (fst kv) (snd kv) d)
     ((''error'', JStr (be_code e)) # (if be_detail e \<noteq> [] then [(''detail'', JStr (be_detail e))] else []))
     (be_fields e))"

record outbound_request =
  or_method :: string
  or_url :: string
  or_headers :: "(string \<times> string) list"
  or_body :: "string option"

definition read_secret :: "(string \<Rightarrow> string option) \<Rightarrow> string \<Rightarrow> build_exn + string" where
  "read_secret secrets name =
     (case secrets name of
        None \<Rightarrow> Inl (refuse ''missing_secret'' ''configured secret is unavailable'' [])
      | Some v \<Rightarrow> Inr v)"

section \<open>The path\<close>

abbreviation by_name :: "string \<Rightarrow> (string \<times> json) list" where
  "by_name name \<equiv> [(''name'', JStr name)]"

definition validate_variable_common :: "string \<Rightarrow> string \<Rightarrow> string \<Rightarrow> build_exn + string" where
  "validate_variable_common name raw ctx =
     (let value = py_strip raw in
      andthen (ensure (value \<noteq> []) (refuse ''invalid_variable'' (ctx @ '' variable is empty'') (by_name name))) (\<lambda>_.
      andthen (ensure (length (utf8_encode value) \<le> 4096)
                 (refuse ''invalid_variable'' (ctx @ '' variable exceeds 4096 bytes'') (by_name name))) (\<lambda>_.
      andthen (ensure (list_all (\<lambda>c. code c \<le> 127) value)
                 (refuse ''invalid_variable'' (ctx @ '' variable must be ASCII'') (by_name name))) (\<lambda>_. Inr value))))"

definition path_forbidden :: "char \<Rightarrow> bool" where
  "path_forbidden c \<longleftrightarrow> c = CHR ''/'' \<or> code c = 92"

definition validate_path_variable :: "string \<Rightarrow> string \<Rightarrow> build_exn + string" where
  "validate_path_variable name raw =
     andthen (validate_variable_common name raw ''path'') (\<lambda>value.
     andthen (ensure (list_all printable value)
        (refuse ''invalid_variable'' ''path variable contains whitespace or control characters'' (by_name name))) (\<lambda>_.
     andthen (ensure (\<not> list_ex path_forbidden value)
        (refuse ''invalid_variable'' ''path variable contains a forbidden character'' (by_name name))) (\<lambda>_.
     andthen (ensure (\<not> contains ''..'' value)
        (refuse ''invalid_variable'' (''path variable contains '' @ [CHR 0x27] @ ''..'' @ [CHR 0x27]) (by_name name))) (\<lambda>_.
     let decoded = url_unquote value in
     andthen (ensure (list_all printable decoded)
        (refuse ''invalid_variable'' ''path variable contains an encoded forbidden character'' (by_name name))) (\<lambda>_.
     andthen (ensure (\<not> list_ex path_forbidden decoded)
        (refuse ''invalid_variable'' ''path variable contains an encoded forbidden character'' (by_name name))) (\<lambda>_.
     andthen (ensure (\<not> contains ''..'' decoded)
        (refuse ''invalid_variable'' (''path variable contains '' @ [CHR 0x27] @ ''..'' @ [CHR 0x27]) (by_name name))) (\<lambda>_.
       Inr value)))))))"

definition validate_query_variable :: "string \<Rightarrow> string \<Rightarrow> build_exn + string" where
  "validate_query_variable name raw =
     andthen (validate_variable_common name raw ''query'') (\<lambda>value.
     andthen (ensure (list_all (\<lambda>c. printable c \<or> c = CHR '' '') value)
        (refuse ''invalid_variable'' ''query variable contains a control character'' (by_name name))) (\<lambda>_. Inr value))"

definition missing_variable :: "string \<Rightarrow> string \<Rightarrow> build_exn" where
  "missing_variable what name =
     refuse ''missing_variable'' (''missing '' @ what @ '' variable '' @ [CHR 0x27] @ name @ [CHR 0x27]) (by_name name)"

text \<open>\<^verbatim>\<open>_make_path_fill\<close>. It is applied to the part of the path before the question mark, so no
  match starts after it and the branch for query variables is never taken.\<close>

definition path_fill :: "json \<Rightarrow> string \<Rightarrow> build_exn + string" where
  "path_fill variables name =
     (case jget name variables of
        Some (JStr value) \<Rightarrow> andthen (validate_path_variable name value) (\<lambda>v. Inr (url_quote v))
      | _ \<Rightarrow> Inl (missing_variable ''path'' name))"

definition query_fill :: "json \<Rightarrow> string \<Rightarrow> build_exn + string" where
  "query_fill variables name =
     (case jget name variables of
        Some (JStr value) \<Rightarrow> andthen (validate_query_variable name value) (\<lambda>v. Inr (url_quote v))
      | _ \<Rightarrow> Inl (missing_variable ''query'' name))"

text \<open>One turn of the loop of \<^verbatim>\<open>_hydrate_query\<close>: every referenced value is checked to be a
  string before any is filled in.\<close>

definition hydrate_pair :: "json \<Rightarrow> string \<Rightarrow> build_exn + string option" where
  "hydrate_pair variables pair =
     (let names = refs (var_pieces pair) in
      if pair = [] then Inr None
      else if names = [] then Inr (Some pair)
      else if list_ex (\<lambda>n. jget n variables = None) names then Inr None
      else case find (\<lambda>n. \<not> is_str (jget0 n variables)) names of
             Some n \<Rightarrow> Inl (missing_variable ''query'' n)
           | None \<Rightarrow> andthen (fill_refs (query_fill variables) (var_pieces pair)) (\<lambda>t. Inr (Some t)))"

fun hydrate_pairs :: "json \<Rightarrow> string list \<Rightarrow> build_exn + string list" where
  "hydrate_pairs variables [] = Inr []"
| "hydrate_pairs variables (p # ps) =
     andthen (hydrate_pair variables p) (\<lambda>r.
     andthen (hydrate_pairs variables ps) (\<lambda>rs. Inr (case r of None \<Rightarrow> rs | Some t \<Rightarrow> t # rs)))"

definition hydrate_query :: "string \<Rightarrow> json \<Rightarrow> build_exn + string" where
  "hydrate_query query variables =
     andthen (hydrate_pairs variables (split_on (CHR ''&'') query)) (\<lambda>ps. Inr (join_with ''&'' ps))"

definition hydrate_path :: "operation \<Rightarrow> json \<Rightarrow> build_exn + string" where
  "hydrate_path op arguments =
     (let variables = (case jget_or (JObj []) ''variables'' arguments of JNull \<Rightarrow> JObj [] | v \<Rightarrow> v) in
      andthen (ensure (is_obj variables) (refuse ''invalid_variables'' ''variables must be an object'' [])) (\<lambda>_.
      case partition_at (CHR ''?'') (op_path op) of
        (path_prefix, found, query) \<Rightarrow>
          andthen (fill_refs (path_fill variables) (var_pieces path_prefix)) (\<lambda>rendered.
          if \<not> found then Inr rendered
          else andthen (hydrate_query query variables) (\<lambda>q.
                 Inr (if q = [] then rendered else rendered @ ''?'' @ q)))))"

definition join_url :: "string \<Rightarrow> string \<Rightarrow> build_exn + string" where
  "join_url base_url path =
     (case (urlsplit base_url, urlsplit path) of
        (Inr base, Inr rel) \<Rightarrow>
          let base_path = py_rstrip_slash (url_path base);
              full_path = (if base_path \<noteq> [] then base_path @ url_path rel else url_path rel)
          in Inr (urlunsplit (url_scheme base) (url_netloc base) full_path (url_query rel))
      | (Inl e, _) \<Rightarrow> Inl (Raised e)
      | (_, Inl e) \<Rightarrow> Inl (Raised e))"

section \<open>Headers and body\<close>

definition refuse_caller_refs :: "string \<Rightarrow> build_exn + unit" where
  "refuse_caller_refs s = ensure (\<not> contains secret_marker s)
     (refuse ''caller_secret_reference''
        ''caller secret references are not supported; configure operator headers or body_template with allowed_secrets'' [])"

definition secret_fill :: "(string \<Rightarrow> string option) \<Rightarrow> string list \<Rightarrow> string \<Rightarrow> build_exn + string" where
  "secret_fill secrets allowed name =
     (if name \<notin> set allowed
      then Inl (refuse ''secret_not_allowed'' ''configured secret is not allowed for this operation'' [])
      else read_secret secrets name)"

definition substitute_secrets :: "string \<Rightarrow> (string \<Rightarrow> string option) \<Rightarrow> string list \<Rightarrow> build_exn + string" where
  "substitute_secrets tmpl secrets allowed =
     andthen (fill_refs (secret_fill secrets allowed) (secret_pieces tmpl)) (\<lambda>out.
     andthen (ensure (\<not> contains secret_marker out)
        (refuse ''invalid_secret_ref'' ''secret reference must be {{secret:NAME}}'' [])) (\<lambda>_. Inr out))"

text \<open>The two loops of \<^verbatim>\<open>_build_headers\<close>; a header name is a \<^verbatim>\<open>str\<close> in a parsed object.\<close>

definition caller_header :: "operation \<Rightarrow> string \<Rightarrow> json \<Rightarrow> build_exn + string" where
  "caller_header op name v =
     andthen (ensure (id_ok name) (refuse ''invalid_header'' ''header name is invalid'' (by_name name))) (\<lambda>_.
     andthen (ensure (py_lower name \<in> set (op_allowed_headers op))
        (refuse ''header_not_allowed'' ''header is not allowed for this operation'' (by_name name))) (\<lambda>_.
     case v of
       JStr value \<Rightarrow>
         andthen (refuse_caller_refs value) (\<lambda>_.
         andthen (ensure (py_lower name \<notin> set (map (py_lower \<circ> fst) (op_headers op)))
            (refuse ''header_not_allowed'' ''operator-owned headers cannot be overridden'' [])) (\<lambda>_.
         andthen (ensure (\<not> list_ex is_control value)
            (refuse ''invalid_header'' ''header value contains a control character'' (by_name name))) (\<lambda>_. Inr value)))
     | _ \<Rightarrow> Inl (refuse ''invalid_header'' ''header value must be a string'' (by_name name))))"

definition operator_header :: "operation \<Rightarrow> (string \<Rightarrow> string option) \<Rightarrow> string \<Rightarrow> build_exn + string" where
  "operator_header op secrets tmpl =
     andthen (substitute_secrets tmpl secrets (op_allowed_secrets op)) (\<lambda>value.
     andthen (ensure (\<not> list_ex is_control value)
        (refuse ''invalid_header'' ''configured header contains a control character'' [])) (\<lambda>_. Inr value))"

definition build_headers ::
  "operation \<Rightarrow> json \<Rightarrow> (string \<Rightarrow> string option) \<Rightarrow> build_exn + (string \<times> string) list" where
  "build_headers op arguments secrets =
     (case (case jget_or (JObj []) ''headers'' arguments of JNull \<Rightarrow> JObj [] | v \<Rightarrow> v) of
        JObj raw \<Rightarrow>
          andthen (fold_res (\<lambda>hs (name, v). andthen (caller_header op name v) (\<lambda>s. Inr (AList.update name s hs))) [] raw) (\<lambda>hs.
          fold_res (\<lambda>hs (name, t). andthen (operator_header op secrets t) (\<lambda>s. Inr (AList.update name s hs))) hs (op_headers op))
      | _ \<Rightarrow> Inl (refuse ''invalid_headers'' ''headers must be an object'' []))"

definition encode_body :: "string \<Rightarrow> string \<Rightarrow> build_exn + string" where
  "encode_body knd body =
     (if knd = ''text'' then Inr (utf8_encode body)
      else case b64_decode body of
             None \<Rightarrow> Inl (refuse ''invalid_body'' ''binary body must be base64'' [])
           | Some data \<Rightarrow> andthen (refuse_caller_refs data) (\<lambda>_. Inr data))"

text \<open>\<^verbatim>\<open>_build_body\<close>: the body the operator's template gives in place of the caller's, and the
  bytes that are sent.\<close>

definition operator_body :: "operation \<Rightarrow> bool \<Rightarrow> json \<Rightarrow> (string \<Rightarrow> string option) \<Rightarrow> build_exn + json" where
  "operator_body op present body secrets =
     (case op_body_template op of
        None \<Rightarrow> Inr body
      | Some t \<Rightarrow>
          andthen (ensure (\<not> present) (refuse ''body_not_allowed'' ''operator-owned body cannot be overridden'' [])) (\<lambda>_.
          andthen (substitute_secrets t secrets (op_allowed_secrets op)) (\<lambda>s. Inr (JStr s))))"

definition body_bytes :: "operation \<Rightarrow> bool \<Rightarrow> json \<Rightarrow> nat \<Rightarrow> build_exn + string option" where
  "body_bytes op present body max_body =
     (if op_body_kind op = ''none''
      then andthen (ensure (\<not> present) (refuse ''body_not_allowed'' ''this operation does not accept a body'' [])) (\<lambda>_. Inr None)
      else case body of
             JStr s \<Rightarrow>
               andthen (encode_body (op_body_kind op) s) (\<lambda>data.
               andthen (ensure (length data \<le> max_body)
                  (refuse ''body_too_large'' ''body exceeds configured limit'' [(''limit_bytes'', JInt (int max_body))])) (\<lambda>_.
                 Inr (Some data)))
           | _ \<Rightarrow> Inl (refuse ''missing_body'' ''this operation requires body as a string'' []))"

definition build_body ::
  "operation \<Rightarrow> json \<Rightarrow> (string \<Rightarrow> string option) \<Rightarrow> nat \<Rightarrow> build_exn + string option" where
  "build_body op arguments secrets max_body =
     (let present = jget ''body'' arguments \<noteq> None; body = jget0 ''body'' arguments in
      andthen (case body of JStr s \<Rightarrow> refuse_caller_refs s | _ \<Rightarrow> Inr ()) (\<lambda>_.
      andthen (operator_body op present body secrets) (\<lambda>body. body_bytes op present body max_body)))"

definition with_content_type :: "operation \<Rightarrow> string option \<Rightarrow> (string \<times> string) list \<Rightarrow> (string \<times> string) list" where
  "with_content_type op body headers =
     (case (body, op_body_content_type op) of
        (Some _, Some ct) \<Rightarrow> if ct = [] then headers else AList.update ''Content-Type'' ct headers
      | _ \<Rightarrow> headers)"

definition build_request ::
  "rest_config \<Rightarrow> string \<Rightarrow> json \<Rightarrow> (string \<Rightarrow> string option) \<Rightarrow> nat \<Rightarrow> build_exn + outbound_request" where
  "build_request config name arguments secrets max_body =
     andthen (ensure (is_obj arguments) (refuse ''invalid_arguments'' ''arguments must be an object'' [])) (\<lambda>_.
     case map_of (rc_operations config) name of
       None \<Rightarrow> Inl (refuse ''unknown_op'' ''unknown rest operation'' [(''op'', JStr name)])
     | Some op \<Rightarrow>
         andthen (hydrate_path op arguments) (\<lambda>path.
         andthen (join_url (rc_base_url config) path) (\<lambda>url.
         andthen (build_headers op arguments secrets) (\<lambda>headers.
         andthen (build_body op arguments secrets max_body) (\<lambda>body.
           Inr \<lparr>or_method = op_verb op, or_url = url,
                or_headers = with_content_type op body headers, or_body = body\<rparr>)))))"

end
