(* ===== verification/FwdSafety.thy ===== *)
theory FwdSafety
  imports FwdRequest
begin

text \<open>What the forwarder sends: where the request goes, which headers it has, and which secrets
  it can depend on.\<close>

section \<open>URLs\<close>

definition scheme_ok :: "string \<Rightarrow> bool" where
  "scheme_ok a \<longleftrightarrow> a \<noteq> [] \<and> (is_lower (hd a) \<or> is_upper (hd a)) \<and> list_all is_scheme_char a"

definition ends_netloc :: "string \<Rightarrow> bool" where
  "ends_netloc t \<longleftrightarrow> t = [] \<or> hd t \<in> set ''/?#''"

definition no_delim :: "string \<Rightarrow> bool" where
  "no_delim n \<longleftrightarrow> set n \<inter> set ''/?#'' = {}"

definition clean :: "string \<Rightarrow> bool" where
  "clean s \<longleftrightarrow> list_all (\<lambda>c. code c \<notin> {9, 10, 13}) s"

lemma clean_clean_url: "clean (clean_url s)"
  by (simp add: clean_def clean_url_def list_all_iff)

lemma clean_url_id: "clean s \<Longrightarrow> s = [] \<or> 32 < code (hd s) \<Longrightarrow> clean_url s = s"
  by (cases s) (auto simp: clean_def clean_url_def list_all_iff intro!: filter_True)

lemma cut_append: "c \<notin> set a \<Longrightarrow> cut c (a @ c # b) = (a, Some b)"
proof -
  assume "c \<notin> set a"
  then have "\<forall>x \<in> set a. x \<noteq> c" by auto
  then have "takeWhile (\<lambda>x. x \<noteq> c) (a @ c # b) = a" "dropWhile (\<lambda>x. x \<noteq> c) (a @ c # b) = c # b"
    by (simp_all add: takeWhile_stop dropWhile_stop)
  then show ?thesis by (simp add: cut_def partition_at_def)
qed

lemma cut_fresh: "c \<notin> set a \<Longrightarrow> cut c a = (a, None)"
  by (auto simp: cut_def partition_at_def takeWhile_eq_all_conv)

lemma cutD: "cut c s = (a, r) \<Longrightarrow> c \<notin> set a \<and> s = a @ (case r of None \<Rightarrow> [] | Some b \<Rightarrow> c # b)"
proof (cases "c \<in> set s")
  case True
  then obtain a' b' where "s = a' @ c # b'" "c \<notin> set a'" by (meson split_list_first)
  then show "cut c s = (a, r) \<Longrightarrow> ?thesis" by (auto simp: cut_append)
qed (auto simp: cut_fresh)

text \<open>What follows the network location: path, query and fragment.\<close>

definition split_tail :: "string \<Rightarrow> string \<times> string \<times> string" where
  "split_tail t =
     (case cut (CHR ''#'') t of (r, f) \<Rightarrow>
      case cut (CHR ''?'') r of (p, q) \<Rightarrow>
        (p, (case q of None \<Rightarrow> [] | Some x \<Rightarrow> x), (case f of None \<Rightarrow> [] | Some x \<Rightarrow> x)))"

lemma split_tail_path: "set p \<inter> {CHR ''#'', CHR ''?''} = {} \<Longrightarrow> split_tail p = (p, [], [])"
  by (simp add: split_tail_def cut_fresh)

lemma split_tail_query:
  assumes "set p \<inter> {CHR ''#'', CHR ''?''} = {}" "CHR ''#'' \<notin> set q"
  shows "split_tail (p @ CHR ''?'' # q) = (p, q, [])"
proof -
  have "cut (CHR ''#'') (p @ CHR ''?'' # q) = (p @ CHR ''?'' # q, None)" using assms by (intro cut_fresh) auto
  moreover have "cut (CHR ''?'') (p @ CHR ''?'' # q) = (p, Some q)" using assms by (intro cut_append) auto
  ultimately show ?thesis by (simp add: split_tail_def)
qed

lemma split_tail_chars:
  assumes "split_tail t = (p, q, f)"
  shows "CHR ''?'' \<notin> set p \<and> CHR ''#'' \<notin> set p \<and> CHR ''#'' \<notin> set q \<and> set p \<union> set q \<subseteq> set t"
proof -
  obtain r f' where 1: "cut (CHR ''#'') t = (r, f')" by force
  obtain p' q' where 2: "cut (CHR ''?'') r = (p', q')" by force
  from cutD [OF 1] have r: "CHR ''#'' \<notin> set r" "set r \<subseteq> set t" by auto
  from cutD [OF 2] have p': "CHR ''?'' \<notin> set p'" "r = p' @ (case q' of None \<Rightarrow> [] | Some b \<Rightarrow> CHR ''?'' # b)" by auto
  have "p = p'" "q = (case q' of None \<Rightarrow> [] | Some x \<Rightarrow> x)" using assms 1 2 by (auto simp: split_tail_def)
  with r p' show ?thesis by (auto split: option.splits)
qed

lemma split_tail_hd: "split_tail t = (p, q, f) \<Longrightarrow> ends_netloc t \<Longrightarrow> p = [] \<or> hd p = CHR ''/''"
proof -
  assume "split_tail t = (p, q, f)" "ends_netloc t"
  moreover obtain r f' where 1: "cut (CHR ''#'') t = (r, f')" by force
  moreover obtain p' q' where 2: "cut (CHR ''?'') r = (p', q')" by force
  ultimately have "p = p'" by (auto simp: split_tail_def)
  with cutD [OF 1] cutD [OF 2] \<open>ends_netloc t\<close> show ?thesis
    by (cases p') (auto simp: ends_netloc_def split: option.splits)
qed

text \<open>\<^const>\<open>urlsplit\<close> on a text with a scheme and a location, and on a rooted path.\<close>

lemma urlsplit_absolute:
  assumes "clean_url s = a @ '':'' @ ''//'' @ n @ t" "scheme_ok a" "CHR '':'' \<notin> set a"
    and "no_delim n" "ends_netloc t" "(CHR ''['' \<in> set n) = (CHR '']'' \<in> set n)" "split_tail t = (p, q, f)"
  shows "urlsplit s = Inr \<lparr>url_scheme = py_lower a, url_netloc = n, url_path = p, url_query = q, url_fragment = f\<rparr>"
proof -
  have c: "cut (CHR '':'') (clean_url s) = (a, Some (''//'' @ n @ t))" using assms(1,3) by (simp add: cut_append)
  have n: "\<forall>x \<in> set n. x \<notin> set ''/?#''" "t = [] \<or> \<not> hd t \<notin> set ''/?#''"
    using assms(4,5) by (auto simp: no_delim_def ends_netloc_def)
  note tw = takeWhile_stop [OF n] and dw = dropWhile_stop [OF n]
  have "starts_with ''//'' (''//'' @ n @ t)" by (simp add: starts_with_def)
  with c tw dw assms(2,6,7) show ?thesis
    by (simp add: urlsplit_def Let_def scheme_ok_def split_tail_def split: prod.splits option.splits)
qed

lemma urlsplit_rooted:
  assumes "clean s" "starts_with ''/'' s" "\<not> starts_with ''//'' s" "split_tail s = (p, q, f)"
  shows "urlsplit s = Inr \<lparr>url_scheme = [], url_netloc = [], url_path = p, url_query = q, url_fragment = f\<rparr>"
proof -
  from assms(2) obtain r where s: "s = CHR ''/'' # r" by (auto simp: starts_with_iff)
  then have cl: "clean_url s = s" using assms(1) by (intro clean_url_id) (auto simp: code_def)
  obtain a b where ab: "cut (CHR '':'') s = (a, b)" by force
  from cutD [OF this] s have "b \<noteq> None \<Longrightarrow> a \<noteq> [] \<and> hd a = CHR ''/''" by (cases a) (auto split: option.splits)
  then have "b \<noteq> None \<Longrightarrow> \<not> (is_lower (hd a) \<or> is_upper (hd a))" by (auto simp: char_simps code_def)
  then have bad: "b \<noteq> None \<Longrightarrow> (a \<noteq> [] \<and> (is_lower (hd a) \<or> is_upper (hd a)) \<and> list_all is_scheme_char a) = False"
    by blast
  have none: "(case b of None \<Rightarrow> ([], s) | Some b' \<Rightarrow>
      if a \<noteq> [] \<and> (is_lower (hd a) \<or> is_upper (hd a)) \<and> list_all is_scheme_char a then (py_lower a, b') else ([], s)) = ([], s)"
    using bad by (cases b) (simp_all only: option.case if_False not_None_eq simp_thms option.distinct)
  show ?thesis
    unfolding urlsplit_def Let_def cl ab prod.case none if_not_P [OF assms(3)]
    using assms(4) by (simp add: split_tail_def split: prod.splits)
qed

text \<open>The shape of an absolute URL as one predicate, and what \<^const>\<open>urlsplit\<close> says of it.\<close>

definition absolute :: "string \<Rightarrow> string \<Rightarrow> string \<Rightarrow> string \<Rightarrow> bool" where
  "absolute s a n t \<longleftrightarrow> clean_url s = a @ '':'' @ ''//'' @ n @ t \<and> scheme_ok a \<and> CHR '':'' \<notin> set a
     \<and> no_delim n \<and> ends_netloc t \<and> (CHR ''['' \<in> set n) = (CHR '']'' \<in> set n)"

lemma urlsplit_of_absolute:
  "absolute s a n t \<Longrightarrow> split_tail t = (p, q, f) \<Longrightarrow>
     urlsplit s = Inr \<lparr>url_scheme = py_lower a, url_netloc = n, url_path = p, url_query = q, url_fragment = f\<rparr>"
  by (simp add: absolute_def urlsplit_absolute)

lemma cut_scheme:
  assumes "(case cut (CHR '':'') s0 of (a, Some b) \<Rightarrow>
      if a \<noteq> [] \<and> (is_lower (hd a) \<or> is_upper (hd a)) \<and> list_all is_scheme_char a then (py_lower a, b) else ([], s0)
      | (_, None) \<Rightarrow> ([], s0)) = (sch, r)" "sch \<noteq> []"
  obtains a where "s0 = a @ CHR '':'' # r" "scheme_ok a" "CHR '':'' \<notin> set a" "sch = py_lower a"
proof -
  obtain a b where c: "cut (CHR '':'') s0 = (a, b)" by force
  with assms obtain b' where "b = Some b'" "scheme_ok a" "sch = py_lower a" "r = b'"
    by (cases b) (auto simp: scheme_ok_def split: if_splits)
  with that [of a] cutD [OF c] show ?thesis by simp
qed

lemma absolute_of_urlsplit:
  assumes "urlsplit s = Inr u" "url_scheme u \<noteq> []" "url_netloc u \<noteq> []"
  obtains a n t where "absolute s a n t" "n \<noteq> []" "url_scheme u = py_lower a" "url_netloc u = n"
proof -
  obtain sch r where sr: "(case cut (CHR '':'') (clean_url s) of (a, Some b) \<Rightarrow>
      if a \<noteq> [] \<and> (is_lower (hd a) \<or> is_upper (hd a)) \<and> list_all is_scheme_char a then (py_lower a, b) else ([], clean_url s)
      | (_, None) \<Rightarrow> ([], clean_url s)) = (sch, r)" by force
  define nt where "nt = (if starts_with ''//'' r
     then (takeWhile (\<lambda>c. c \<notin> set ''/?#'') (drop 2 r), dropWhile (\<lambda>c. c \<notin> set ''/?#'') (drop 2 r)) else ([], r))"
  obtain n t where n: "nt = (n, t)" by force
  have u: "url_scheme u = sch \<and> url_netloc u = n \<and> (CHR ''['' \<in> set n) = (CHR '']'' \<in> set n)"
    using assms(1) unfolding urlsplit_def Let_def sr prod.case nt_def [symmetric] n
    by (auto split: if_splits prod.splits)
  with assms(2) have "sch \<noteq> []" by simp
  with sr obtain a where a: "clean_url s = a @ CHR '':'' # r" "scheme_ok a" "CHR '':'' \<notin> set a" "sch = py_lower a"
    by (rule cut_scheme)
  from n u assms(3) have st: "starts_with ''//'' r" by (auto simp: nt_def split: if_splits)
  then have r: "r = ''//'' @ drop 2 r" by (auto simp: starts_with_iff)
  from n st have nt: "n = takeWhile (\<lambda>c. c \<notin> set ''/?#'') (drop 2 r)" "t = dropWhile (\<lambda>c. c \<notin> set ''/?#'') (drop 2 r)"
    by (simp_all add: nt_def)
  have "drop 2 r = n @ t" using nt by (metis takeWhile_dropWhile_id)
  with r have r: "r = ''//'' @ n @ t" by simp
  moreover have "no_delim n" unfolding no_delim_def nt(1) by (auto dest: set_takeWhileD)
  moreover have "ends_netloc t" unfolding ends_netloc_def nt(2) using hd_dropWhile [of "\<lambda>c. c \<notin> set ''/?#''" "drop 2 r"] by auto
  ultimately have "absolute s a n t" using a u unfolding absolute_def by (simp only: append.simps) simp
  with that u a(4) assms(3) show ?thesis by blast
qed

text \<open>A validated base URL keeps its scheme and location when its trailing slashes are stripped.\<close>

lemma rstrip_split: "\<exists>k. s = py_rstrip_slash s @ replicate k (CHR ''/'') \<and> (py_rstrip_slash s = [] \<or> last (py_rstrip_slash s) \<noteq> CHR ''/'')"
proof -
  have "takeWhile (\<lambda>c. c = CHR ''/'') (rev s) = replicate (length (takeWhile (\<lambda>c. c = CHR ''/'') (rev s))) (CHR ''/'')"
    by (intro replicate_eqI) (auto dest: set_takeWhileD)
  then obtain k where k: "takeWhile (\<lambda>c. c = CHR ''/'') (rev s) = replicate k (CHR ''/'')" by blast
  have "rev s = replicate k (CHR ''/'') @ dropWhile (\<lambda>c. c = CHR ''/'') (rev s)" using k by (metis takeWhile_dropWhile_id)
  then have "s = rev (replicate k (CHR ''/'') @ dropWhile (\<lambda>c. c = CHR ''/'') (rev s))" by (metis rev_rev_ident)
  then have "s = py_rstrip_slash s @ replicate k (CHR ''/'')" by (simp add: py_rstrip_slash_def)
  moreover have "py_rstrip_slash s = [] \<or> last (py_rstrip_slash s) \<noteq> CHR ''/''"
    using hd_dropWhile [of "\<lambda>c. c = CHR ''/''" "rev s"] by (auto simp: py_rstrip_slash_def last_rev)
  ultimately show ?thesis by blast
qed

lemma clean_url_append_slashes:
  assumes "clean_url (x @ replicate k (CHR ''/'')) = c # cs" "c \<noteq> CHR ''/''"
  shows "clean_url (x @ replicate k (CHR ''/'')) = clean_url x @ replicate k (CHR ''/'')"
proof -
  let ?r = "replicate k (CHR ''/'')"
  have f: "filter (\<lambda>c. code c \<notin> {9, 10, 13}) ?r = ?r" by (auto simp: code_def intro!: filter_True)
  have d: "dropWhile (\<lambda>c. code c \<le> 32) ?r = ?r" by (cases k) (auto simp: code_def)
  show ?thesis
  proof (cases "\<forall>y \<in> set x. code y \<le> 32")
    case True
    then have "clean_url (x @ ?r) = ?r" using f d by (simp add: clean_url_def dropWhile_append1 dropWhile_append)
    with assms show ?thesis by (cases k) auto
  next
    case False
    then have "dropWhile (\<lambda>c. code c \<le> 32) (x @ ?r) = dropWhile (\<lambda>c. code c \<le> 32) x @ ?r"
      by (auto simp: dropWhile_append1)
    with f show ?thesis by (simp add: clean_url_def)
  qed
qed

lemma scheme_hd: "scheme_ok a \<Longrightarrow> \<exists>c cs. a = c # cs \<and> c \<noteq> CHR ''/'' \<and> 32 < code c"
  by (cases a) (auto simp: scheme_ok_def char_simps code_def)

lemma absolute_rstrip:
  assumes "absolute b a n t" "n \<noteq> []"
  shows "\<exists>t'. absolute (py_rstrip_slash b) a n t'"
proof -
  let ?x = "py_rstrip_slash b" and ?h = "a @ '':'' @ ''//'' @ n"
  obtain k where b: "b = ?x @ replicate k (CHR ''/'')" using rstrip_split [of b] by blast
  from assms have cb: "clean_url b = ?h @ t" and a: "scheme_ok a" by (simp_all add: absolute_def)
  from scheme_hd [OF a] obtain c cs where "a = c # cs" "c \<noteq> CHR ''/''" by blast
  with cb have "clean_url (?x @ replicate k (CHR ''/'')) = c # cs @ '':'' @ ''//'' @ n @ t" using b by simp
  from clean_url_append_slashes [OF this \<open>c \<noteq> CHR ''/''\<close>] cb b
  have eq: "?h @ t = clean_url ?x @ replicate k (CHR ''/'')" by simp
  from iffD1 [OF append_eq_append_conv2 eq]
  consider us where "?h @ us = clean_url ?x" "t = us @ replicate k (CHR ''/'')"
    | us where "?h = clean_url ?x @ us" "us @ t = replicate k (CHR ''/'')"
    by (elim exE disjE conjE) (fast, fast)
  then obtain t' where t': "clean_url ?x = ?h @ t'" "\<exists>r. t = t' @ r"
  proof cases
    case 2
    have "us = []"
    proof (rule ccontr)
      assume "us \<noteq> []"
      with 2(1) have "last n = last us" using assms(2) by (metis append_is_Nil_conv last_append)
      moreover have "last us \<in> set (replicate k (CHR ''/''))" using \<open>us \<noteq> []\<close> 2(2) [symmetric] by simp
      moreover have "last n \<in> set n" using assms(2) by simp
      ultimately show False using assms(1) by (auto simp: absolute_def no_delim_def split: if_splits)
    qed
    with 2 that [of "[]"] show thesis by simp
  next
    case 1
    with that show thesis by (metis append.assoc)
  qed
  then have "ends_netloc t'" using assms(1) by (cases t') (auto simp: absolute_def ends_netloc_def)
  with t' assms(1) show ?thesis by (auto simp: absolute_def)
qed

lemma base_absolute:
  assumes "validate_base_url b = Inr ()"
  obtains a n t where "absolute (py_rstrip_slash b) a n t" "n \<noteq> []"
proof -
  from assms obtain u where u: "urlsplit b = Inr u" "url_scheme u \<in> {''http'', ''https''}" "url_hostname u \<noteq> None"
    by (auto simp: validate_base_url_def)
  have "url_netloc u \<noteq> []"
    using u(3) by (auto simp: url_hostname_def hostinfo_def rcut_def cut_def partition_at_def Let_def)
  moreover have "url_scheme u \<noteq> []" using u(2) by auto
  ultimately obtain a n t where "absolute b a n t" "n \<noteq> []" using absolute_of_urlsplit [OF u(1)] by metis
  with absolute_rstrip that show thesis by blast
qed

section \<open>The rendered path\<close>

definition path_char :: "char \<Rightarrow> bool" where
  "path_char c \<longleftrightarrow> printable c \<and> c \<noteq> CHR ''#'' \<and> c \<noteq> CHR ''?''"

definition query_char :: "char \<Rightarrow> bool" where
  "query_char c \<longleftrightarrow> (printable c \<or> c = CHR '' '') \<and> c \<noteq> CHR ''#''"

lemma quoted_chars:
  "quoted_char c \<Longrightarrow> path_char c \<and> query_char c \<and> c \<noteq> CHR ''/''"
  by (auto simp: quoted_char_def unreserved_def path_char_def query_char_def printable_def char_simps code_def)

lemma list_all_quoted: "list_all quoted_char v \<Longrightarrow> list_all path_char v \<and> list_all query_char v \<and> CHR ''/'' \<notin> set v"
  using quoted_chars by (auto simp: list_all_iff)

lemma common_ok: "validate_variable_common name raw ctx = Inr v \<Longrightarrow> v \<noteq> []"
  by (auto simp: validate_variable_common_def Let_def)

lemma path_fill_ok: "path_fill vs n = Inr v \<Longrightarrow> list_all quoted_char v \<and> v \<noteq> []"
  by (auto simp: path_fill_def validate_path_variable_def Let_def quoted_quote
      split: option.splits json.splits dest!: common_ok dest: quote_not_Nil)

lemma query_fill_ok: "query_fill vs n = Inr v \<Longrightarrow> list_all quoted_char v"
  by (auto simp: query_fill_def quoted_quote split: option.splits json.splits)

lemma list_all_erase: "list_all P s \<Longrightarrow> list_all P (erase (pieces m k s))"
  using set_erase [of m k s] by (auto simp: list_all_iff)

lemma fill_all:
  assumes "fill_refs f (pieces m 0 s) = Inr t" "list_all P s" "\<And>n v. f n = Inr v \<Longrightarrow> list_all P v"
  shows "list_all P t"
  using fill_refs_all [OF assms(1) list_all_erase [OF assms(2)]] assms(3) by blast

lemma render_root:
  assumes "fill_refs (path_fill vs) (var_pieces p) = Inr r" "starts_with ''/'' p" "\<not> starts_with ''//'' p"
  shows "starts_with ''/'' r \<and> \<not> starts_with ''//'' r"
proof -
  from assms(2) obtain p' where p: "p = CHR ''/'' # p'" by (auto simp: starts_with_iff)
  have "var_pieces p = Lit (CHR ''/'') # var_pieces p'" by (simp add: p match_var_def starts_with_def)
  with assms(1) obtain r' where r: "fill_refs (path_fill vs) (var_pieces p') = Inr r'" "r = CHR ''/'' # r'"
    by (auto split: sum.splits)
  have "r' = [] \<or> hd r' \<noteq> CHR ''/''"
  proof (cases p')
    case (Cons c cs)
    with assms(3) p have c: "c \<noteq> CHR ''/''" by (auto simp: starts_with_def)
    show ?thesis
    proof (cases "match_var p'")
      case (Some nk)
      with r(1) Cons obtain v t where "path_fill vs (fst nk) = Inr v" "r' = v @ t"
        by (auto split: sum.splits prod.splits)
      with path_fill_ok [of vs "fst nk" v] list_all_quoted [of v] show ?thesis by (cases v) auto
    qed (use r(1) Cons c in \<open>auto split: sum.splits\<close>)
  qed (use r(1) in simp)
  with r(2) show ?thesis by (cases r') (auto simp: starts_with_def)
qed

lemma match_var_take: "match_var s = Some (n, k) \<Longrightarrow> CHR ''/'' \<notin> set (take k s)"
proof -
  assume "match_var s = Some (n, k)"
  then obtain t where s: "s = CHR ''{'' # n @ t" and k: "k = length n + 2" and n: "list_all is_ident n" and t: "starts_with ''}'' t"
    by (auto simp: match_var_def Let_def starts_with_iff list_all_iff dest: set_takeWhileD split: if_splits)
       (metis append_take_drop_id takeWhile_eq_take set_takeWhileD)
  from t obtain t' where "t = CHR ''}'' # t'" by (auto simp: starts_with_iff)
  with s k have "take k s = CHR ''{'' # n @ ''}''" by simp
  with n show ?thesis by (auto simp: list_all_iff is_ident_def char_simps code_def)
qed

lemma count_erase:
  assumes "\<And>s n k. m s = Some (n, k) \<Longrightarrow> c \<notin> set (take k s) \<and> 0 < k"
  shows "count_list (erase (pieces m k s)) c = count_list (drop k s) c"
proof (induction s arbitrary: k)
  case (Cons x xs)
  show ?case
  proof (cases k)
    case 0
    show ?thesis
    proof (cases "m (x # xs)")
      case (Some nj)
      then obtain n j where j: "m (x # xs) = Some (n, Suc j)" "c \<notin> set (take (Suc j) (x # xs))"
        using assms by (metis gr0_implies_Suc surj_pair)
      then have "count_list (x # xs) c = count_list (drop j xs) c"
        by (metis append_take_drop_id count_list_append count_notin drop_Suc_Cons plus_nat.add_0)
      with j(1) 0 Cons.IH [of j] show ?thesis by simp
    qed (use 0 Cons.IH [of 0] in simp)
  qed (use Cons.IH in simp)
qed simp

lemma render_slashes:
  assumes "fill_refs (path_fill vs) (var_pieces p) = Inr r"
  shows "count_list r (CHR ''/'') = count_list p (CHR ''/'')"
proof -
  have "count_list r (CHR ''/'') = count_list (erase (var_pieces p)) (CHR ''/'')"
    using assms path_fill_ok list_all_quoted by (intro fill_refs_count) blast+
  also have "\<dots> = count_list (drop 0 p) (CHR ''/'')"
    by (intro count_erase) (use match_var_take in \<open>auto simp: match_var_def Let_def split: if_splits\<close>)
  finally show ?thesis by simp
qed

lemma split_on_all: "list_all P s \<Longrightarrow> p \<in> set (split_on c s) \<Longrightarrow> list_all P p"
proof (induction s arbitrary: p)
  case (Cons x xs)
  then show ?case by (cases "split_on c xs") (auto split: if_splits)
qed simp

lemma join_with_all: "list_all P sep \<Longrightarrow> (\<forall>p \<in> set ps. list_all P p) \<Longrightarrow> list_all P (join_with sep ps)"
  by (induction sep ps rule: join_with.induct) auto

lemma hydrate_pair_ok:
  "hydrate_pair vs p = Inr (Some t) \<Longrightarrow> list_all query_char p \<Longrightarrow> list_all query_char t"
  using query_fill_ok list_all_quoted fill_all [of "query_fill vs" match_var p t query_char]
  by (auto simp: hydrate_pair_def Let_def split: if_splits option.splits)

lemma hydrate_pairs_ok:
  "hydrate_pairs vs ps = Inr ts \<Longrightarrow> \<forall>p \<in> set ps. list_all query_char p \<Longrightarrow> \<forall>t \<in> set ts. list_all query_char t"
  by (induction ps arbitrary: ts) (auto split: option.splits dest: hydrate_pair_ok)

lemma hydrate_query_ok:
  assumes "hydrate_query q vs = Inr q'" "list_all query_char q"
  shows "list_all query_char q'"
proof -
  from assms(1) obtain ts where "hydrate_pairs vs (split_on (CHR ''&'') q) = Inr ts" "q' = join_with ''&'' ts"
    by (auto simp: hydrate_query_def)
  moreover have "list_all query_char ''&''" by (simp add: query_char_def printable_def code_def)
  ultimately show ?thesis
    using hydrate_pairs_ok split_on_all [OF assms(2)] by (simp add: join_with_all)
qed

lemma path_char_clean: "path_char c \<Longrightarrow> code c \<notin> {9, 10, 13}"
  by (auto simp: path_char_def printable_def)

lemma query_char_clean: "query_char c \<Longrightarrow> code c \<notin> {9, 10, 13}"
  by (auto simp: query_char_def printable_def code_def)

lemma clean_chars: "list_all path_char p \<Longrightarrow> clean p" "list_all query_char p \<Longrightarrow> clean p"
  unfolding clean_def using path_char_clean query_char_clean by (blast intro: list.pred_mono_strong)+

lemma clean_append [simp]: "clean (a @ b) \<longleftrightarrow> clean a \<and> clean b"
  by (simp add: clean_def)

lemma clean_Cons [simp]: "clean (c # b) \<longleftrightarrow> code c \<notin> {9, 10, 13} \<and> clean b"
  by (simp add: clean_def)

lemma rooted_query:
  assumes "starts_with ''/'' p" "\<not> starts_with ''//'' p"
  shows "starts_with ''/'' (p @ ''?'' @ q) \<and> \<not> starts_with ''//'' (p @ ''?'' @ q)"
proof -
  from assms(1) obtain p' where p: "p = CHR ''/'' # p'" by (auto simp: starts_with_iff)
  with assms(2) show ?thesis by (cases p') (auto simp: starts_with_def)
qed

text \<open>What a hydrated path is, and how it splits.\<close>

lemma hydrate_path_ok:
  assumes "hydrate_path op args = Inr path" "validate_path_template (op_path op) = Inr ()"
  obtains p q where "urlsplit path = Inr \<lparr>url_scheme = [], url_netloc = [], url_path = p, url_query = q, url_fragment = []\<rparr>"
    "starts_with ''/'' p" "list_all path_char p" "list_all query_char q"
    "count_list p (CHR ''/'') = count_list (takeWhile (\<lambda>c. c \<noteq> CHR ''?'') (op_path op)) (CHR ''/'')"
proof -
  obtain pp found qq where part: "partition_at (CHR ''?'') (op_path op) = (pp, found, qq)" by (metis prod_cases3)
  then have pp: "pp = takeWhile (\<lambda>c. c \<noteq> CHR ''?'') (op_path op)" "set qq \<subseteq> set (op_path op)"
    by (auto simp: partition_at_def dest!: in_set_dropD set_dropWhileD)
  then have pset: "set pp \<subseteq> set (op_path op) - {CHR ''?''}" by (auto dest: set_takeWhileD)
  from assms(2) part have tmpl: "starts_with ''/'' pp" "\<not> starts_with ''//'' pp" "CHR ''#'' \<notin> set (op_path op)"
    "list_all printable pp" "list_all (\<lambda>c. printable c \<or> c = CHR '' '') qq"
    by (auto simp: validate_path_template_def)
  have chars: "list_all path_char pp" "list_all query_char qq"
    using tmpl(3-5) pset pp(2) by (auto simp: list_all_iff path_char_def query_char_def)
  from assms(1) part obtain vs p where p: "fill_refs (path_fill vs) (var_pieces pp) = Inr p"
    and rest: "path = p \<or> (\<exists>q. hydrate_query qq vs = Inr q \<and> path = p @ ''?'' @ q)"
    by (auto simp: hydrate_path_def Let_def split: if_splits)
  have pc: "list_all path_char p"
    by (rule fill_all [OF p chars(1)]) (use path_fill_ok list_all_quoted in blast)
  have root: "starts_with ''/'' p" "\<not> starts_with ''//'' p" using render_root [OF p tmpl(1,2)] by simp_all
  have p_split: "set p \<inter> {CHR ''#'', CHR ''?''} = {}" using pc by (auto simp: list_all_iff path_char_def)
  have cp: "clean p" using pc by (rule clean_chars)
  note fin = that [where p = p, OF _ root(1) pc _ render_slashes [OF p, unfolded pp(1)]]
  from rest show thesis
  proof
    assume "path = p"
    with urlsplit_rooted [OF cp root split_tail_path [OF p_split]] fin [of "[]"] show thesis by simp
  next
    assume "\<exists>q. hydrate_query qq vs = Inr q \<and> path = p @ ''?'' @ q"
    then obtain q where q: "hydrate_query qq vs = Inr q" "path = p @ ''?'' @ q" by blast
    have qc: "list_all query_char q" using hydrate_query_ok [OF q(1) chars(2)] .
    have "clean path" using cp clean_chars(2) [OF qc] by (simp add: q(2) code_def)
    moreover have "starts_with ''/'' path \<and> \<not> starts_with ''//'' path"
      unfolding q(2) using root by (rule rooted_query)
    moreover have "split_tail path = (p, q, [])"
      using split_tail_query [OF p_split, of q] qc by (auto simp: q(2) list_all_iff query_char_def)
    ultimately show thesis using fin [OF _ qc] urlsplit_rooted [of path p q "[]"] by blast
  qed
qed

section \<open>The outbound URL\<close>

lemma scheme_lower:
  assumes "scheme_ok a" "CHR '':'' \<notin> set a"
  shows "scheme_ok (py_lower a)" "CHR '':'' \<notin> set (py_lower a)" "clean (py_lower a)" "py_lower (py_lower a) = py_lower a"
proof -
  have ch: "is_scheme_char (py_lower_char c) \<and> code (py_lower_char c) \<notin> {9, 10, 13}
      \<and> py_lower_char (py_lower_char c) = py_lower_char c" if "is_scheme_char c" for c
    using that by (auto simp: is_scheme_char_def py_lower_char_def char_simps code_def)
  have colon: "\<not> is_scheme_char (CHR '':'')" by (simp add: is_scheme_char_def char_simps code_def)
  have all: "\<forall>c \<in> set a. is_scheme_char c" using assms(1) by (auto simp: scheme_ok_def list_all_iff)
  have hd: "is_lower (py_lower_char (hd a)) \<or> is_upper (py_lower_char (hd a))" "a \<noteq> []"
    using assms(1) by (auto simp: scheme_ok_def py_lower_char_def char_simps)
  show "scheme_ok (py_lower a)" using ch all hd by (simp add: scheme_ok_def py_lower_def list_all_iff hd_map)
  show "CHR '':'' \<notin> set (py_lower a)" "clean (py_lower a)" "py_lower (py_lower a) = py_lower a"
    using ch all colon by (fastforce simp: py_lower_def clean_def list_all_iff)+
qed

lemma rstrip_prefix: "\<exists>r. p = py_rstrip_slash p @ r"
  using rstrip_split [of p] by blast

lemma join_url_ok:
  assumes "absolute base a n t" "split_tail t = (bp, bq, bf)"
    and "urlsplit path = Inr \<lparr>url_scheme = [], url_netloc = [], url_path = p, url_query = q, url_fragment = []\<rparr>"
    and "n \<noteq> []" "starts_with ''/'' p" "list_all path_char p" "list_all query_char q"
  obtains url where "join_url base path = Inr url"
    "urlsplit url = Inr \<lparr>url_scheme = py_lower a, url_netloc = n, url_path = py_rstrip_slash bp @ p,
       url_query = q, url_fragment = []\<rparr>"
proof -
  let ?full = "py_rstrip_slash bp @ p"
  define tail where "tail = ?full @ (if q = [] then [] else CHR ''?'' # q)"
  define url where "url = py_lower a @ '':'' @ ''//'' @ n @ tail"
  from assms(1) have cb: "clean_url base = a @ '':'' @ ''//'' @ n @ t" by (simp add: absolute_def)
  have parts: "clean n" "clean t" using clean_clean_url [of base] by (simp_all add: cb)
  obtain r where bp: "bp = py_rstrip_slash bp @ r" using rstrip_prefix by blast
  note tail_chars = split_tail_chars [OF assms(2)]
  have bset: "set (py_rstrip_slash bp) \<subseteq> set bp" by (subst (2) bp) simp
  have cbp: "clean (py_rstrip_slash bp)" using parts(2) tail_chars bset by (auto simp: clean_def list_all_iff)
  have hdf: "?full \<noteq> [] \<and> hd ?full = CHR ''/''"
  proof (cases "py_rstrip_slash bp")
    case Nil then show ?thesis using assms(5) by (auto simp: starts_with_iff)
  next
    case (Cons x xs)
    then have "bp = x # xs @ r" using bp by simp
    with split_tail_hd [OF assms(2)] assms(1) Cons show ?thesis by (auto simp: absolute_def)
  qed
  have "CHR ''#'' \<notin> set p \<and> CHR ''?'' \<notin> set p" using assms(6) by (auto simp: list_all_iff path_char_def)
  moreover have "CHR ''#'' \<notin> set (py_rstrip_slash bp) \<and> CHR ''?'' \<notin> set (py_rstrip_slash bp)"
    using tail_chars bset by blast
  ultimately have fset: "set ?full \<inter> {CHR ''#'', CHR ''?''} = {}" by simp
  have st: "split_tail tail = (?full, q, [])"
  proof (cases "q = []")
    case False
    have "CHR ''#'' \<notin> set q" using assms(7) by (auto simp: list_all_iff query_char_def)
    from split_tail_query [OF fset this] False show ?thesis by (simp add: tail_def)
  qed (use split_tail_path [OF fset] in \<open>simp add: tail_def\<close>)
  have en: "ends_netloc tail" using hdf by (cases ?full) (auto simp: tail_def ends_netloc_def)
  have "join_url base path = Inr (urlunsplit (py_lower a) n ?full q)"
    using urlsplit_of_absolute [OF assms(1,2)] assms(3) by (simp add: join_url_def Let_def)
  moreover have "urlunsplit (py_lower a) n ?full q = url"
  proof -
    have "starts_with ''/'' ?full" using hdf by (cases ?full) (auto simp: starts_with_def)
    moreover have "py_lower a \<noteq> []" using assms(1) by (auto simp: absolute_def scheme_ok_def py_lower_def)
    ultimately show ?thesis using assms(4) by (simp add: urlunsplit_def url_def tail_def)
  qed
  moreover have "absolute url (py_lower a) n tail"
  proof -
    have sch: "scheme_ok a" "CHR '':'' \<notin> set a" using assms(1) by (simp_all add: absolute_def)
    note low = scheme_lower [OF sch]
    have "clean tail" using cbp clean_chars(1) [OF assms(6)] clean_chars(2) [OF assms(7)]
      by (simp add: tail_def code_def clean_def)
    with low parts(1) have "clean url" by (simp add: url_def code_def)
    moreover have "32 < code (hd url)" using scheme_hd [OF low(1)] by (auto simp: url_def)
    ultimately have "clean_url url = url" by (intro clean_url_id) auto
    with low en assms(1) show ?thesis by (simp add: absolute_def url_def)
  qed
  ultimately show thesis using urlsplit_of_absolute [OF _ st, of url "py_lower a" n] that [of url] scheme_lower(4) assms(1)
    by (simp add: absolute_def)
qed

section \<open>Headers\<close>

definition caller_sent :: "operation \<Rightarrow> json \<Rightarrow> string \<Rightarrow> string \<Rightarrow> bool" where
  "caller_sent op arguments k v \<longleftrightarrow> py_lower k \<in> set (op_allowed_headers op) \<and> \<not> contains secret_marker v
     \<and> (\<exists>hs. jget ''headers'' arguments = Some (JObj hs) \<and> (k, JStr v) \<in> set hs)"

definition operator_sent :: "operation \<Rightarrow> (string \<Rightarrow> string option) \<Rightarrow> string \<Rightarrow> string \<Rightarrow> bool" where
  "operator_sent op secrets k v \<longleftrightarrow>
     (\<exists>t. (k, t) \<in> set (op_headers op) \<and> substitute_secrets t secrets (op_allowed_secrets op) = Inr v)"

definition operator_names :: "operation \<Rightarrow> string set" where
  "operator_names op = set (map (py_lower \<circ> fst) (op_headers op))"

lemma caller_header_ok:
  "caller_header op name j = Inr v \<Longrightarrow> j = JStr v \<and> py_lower name \<in> set (op_allowed_headers op)
     \<and> \<not> contains secret_marker v \<and> py_lower name \<notin> operator_names op \<and> \<not> list_ex is_control v"
  by (auto simp: caller_header_def refuse_caller_refs_def operator_names_def split: json.splits)

lemma operator_header_ok:
  "operator_header op secrets t = Inr v \<Longrightarrow>
     substitute_secrets t secrets (op_allowed_secrets op) = Inr v \<and> \<not> list_ex is_control v"
  by (auto simp: operator_header_def)

lemma operator_loop:
  assumes "fold_res (\<lambda>hs (name, t). andthen (operator_header op secrets t) (\<lambda>s. Inr (AList.update name s hs))) hs xs = Inr out"
    and "distinct (map fst xs)"
  shows "(\<forall>(k, t) \<in> set xs. \<exists>v. operator_header op secrets t = Inr v \<and> map_of out k = Some v)
    \<and> (\<forall>k. k \<notin> fst ` set xs \<longrightarrow> map_of out k = map_of hs k)"
  using assms
proof (induction xs arbitrary: hs)
  case (Cons x xs)
  obtain k t where x: "x = (k, t)" by force
  with Cons.prems obtain v where v: "operator_header op secrets t = Inr v"
    and out: "fold_res (\<lambda>hs (name, t). andthen (operator_header op secrets t) (\<lambda>s. Inr (AList.update name s hs)))
      (AList.update k v hs) xs = Inr out" by auto
  note IH = Cons.IH [OF out]
  from Cons.prems(2) x IH have "map_of out k = Some v" by (simp add: update_conv')
  with x v IH Cons.prems(2) show ?case by (auto simp: update_conv')
qed simp

lemma build_headers_ok:
  assumes "build_headers op arguments secrets = Inr hs" "(k, v) \<in> set hs"
  shows "\<not> list_ex is_control v
    \<and> (if py_lower k \<in> operator_names op then operator_sent op secrets k v else caller_sent op arguments k v)"
proof -
  let ?good = "\<lambda>k v. \<not> list_ex is_control v
    \<and> (if py_lower k \<in> operator_names op then operator_sent op secrets k v else caller_sent op arguments k v)"
  from assms(1) obtain raw hs1 where raw: "raw = [] \<or> jget ''headers'' arguments = Some (JObj raw)"
    and caller: "fold_res (\<lambda>hs (name, v). andthen (caller_header op name v) (\<lambda>s. Inr (AList.update name s hs))) [] raw = Inr hs1"
    and oper: "fold_res (\<lambda>hs (name, t). andthen (operator_header op secrets t) (\<lambda>s. Inr (AList.update name s hs))) hs1 (op_headers op) = Inr hs"
    by (auto simp: build_headers_def jget_or_def split: json.splits option.splits)
  from caller have first: "\<forall>(k, v) \<in> set hs1. ?good k v"
  proof (rule fold_res_inv_mem)
    fix s x s'
    assume x: "x \<in> set raw" "(case x of (name, v) \<Rightarrow> andthen (caller_header op name v) (\<lambda>w. Inr (AList.update name w s))) = Inr s'"
      and s: "\<forall>(k, v) \<in> set s. ?good k v"
    obtain name j where nj: "x = (name, j)" by force
    with x obtain w where w: "caller_header op name j = Inr w" "s' = AList.update name w s" by auto
    from caller_header_ok [OF w(1)] raw x(1) nj have "?good name w" by (auto simp: caller_sent_def)
    with s show "\<forall>(k, v) \<in> set s'. ?good k v" unfolding w(2) by (rule update_all)
  qed simp
  from oper first have "\<forall>(k, v) \<in> set hs. ?good k v"
  proof (rule fold_res_inv_mem)
    fix s x s'
    assume x: "x \<in> set (op_headers op)" "(case x of (name, t) \<Rightarrow> andthen (operator_header op secrets t) (\<lambda>w. Inr (AList.update name w s))) = Inr s'"
      and s: "\<forall>(k, v) \<in> set s. ?good k v"
    obtain name t where nt: "x = (name, t)" by force
    with x obtain w where w: "operator_header op secrets t = Inr w" "s' = AList.update name w s" by auto
    from operator_header_ok [OF w(1)] x(1) nt have "?good name w"
      by (auto simp: operator_sent_def operator_names_def intro!: image_eqI [of _ _ "(name, t)"])
    with s show "\<forall>(k, v) \<in> set s'. ?good k v" unfolding w(2) by (rule update_all)
  qed
  with assms(2) show ?thesis by blast
qed

section \<open>Refusals\<close>

text \<open>A refusal that a caller can cause: not an exception of the library, and not a reference to a
  secret outside the operation's list.\<close>

definition caller_refusal :: "build_exn \<Rightarrow> bool" where
  "caller_refusal e \<longleftrightarrow> (case e of Refused b \<Rightarrow> be_code b \<noteq> ''secret_not_allowed'' | Raised _ \<Rightarrow> False)"

lemma caller_refusal_refuse [simp]: "caller_refusal (refuse c d fs) \<longleftrightarrow> c \<noteq> ''secret_not_allowed''"
  by (simp add: caller_refusal_def refuse_def)

lemmas refusal_simps = andthen_Inl missing_variable_def

lemma path_fill_refusal: "path_fill vs n = Inl e \<Longrightarrow> caller_refusal e"
  by (auto simp: path_fill_def validate_path_variable_def validate_variable_common_def Let_def refusal_simps
      split: option.splits json.splits)

lemma query_fill_refusal: "query_fill vs n = Inl e \<Longrightarrow> caller_refusal e"
  by (auto simp: query_fill_def validate_query_variable_def validate_variable_common_def Let_def refusal_simps
      split: option.splits json.splits)

lemma hydrate_pairs_refusal: "hydrate_pairs vs ps = Inl e \<Longrightarrow> caller_refusal e"
proof (induction ps)
  case (Cons p ps)
  have "hydrate_pair vs p = Inl e \<Longrightarrow> caller_refusal e"
    by (auto simp: hydrate_pair_def Let_def refusal_simps split: if_splits option.splits
        dest!: fill_refs_error dest: query_fill_refusal)
  with Cons show ?case by (auto simp: refusal_simps)
qed simp

lemma hydrate_path_refusal: "hydrate_path op args = Inl e \<Longrightarrow> caller_refusal e"
  by (auto simp: hydrate_path_def hydrate_query_def Let_def refusal_simps split: if_splits prod.splits
      dest!: fill_refs_error dest: path_fill_refusal hydrate_pairs_refusal)

lemma substitute_refusal:
  assumes "substitute_secrets t secrets allowed = Inl e" "template_ok allowed t"
  shows "caller_refusal e"
proof -
  have "caller_refusal e" if "n \<in> set (refs (secret_pieces t))" "secret_fill secrets allowed n = Inl e" for n
    using that assms(2) by (auto simp: secret_fill_def read_secret_def template_ok_def split: option.splits if_splits)
  with assms(1) show ?thesis by (auto simp: substitute_secrets_def refusal_simps dest: fill_refs_error)
qed

lemma build_headers_refusal:
  assumes "build_headers op args secrets = Inl e" "list_all (template_ok (op_allowed_secrets op)) (map snd (op_headers op))"
  shows "caller_refusal e"
proof -
  have caller: "caller_refusal e" if "fold_res (\<lambda>hs (name, v). andthen (caller_header op name v) (\<lambda>s. Inr (AList.update name s hs))) hs xs = Inl e" for hs xs
    using that by (induction xs arbitrary: hs)
      (auto simp: caller_header_def refuse_caller_refs_def refusal_simps split: json.splits)
  have "caller_refusal e" if "fold_res (\<lambda>hs (name, t). andthen (operator_header op secrets t) (\<lambda>s. Inr (AList.update name s hs))) hs xs = Inl e"
    "list_all (template_ok (op_allowed_secrets op)) (map snd xs)" for hs xs
    using that by (induction xs arbitrary: hs)
      (auto simp: operator_header_def refusal_simps dest: substitute_refusal)
  with caller assms show ?thesis
    by (auto simp: build_headers_def refusal_simps split: json.splits)
qed

lemma body_bytes_refusal: "body_bytes op present body mx = Inl e \<Longrightarrow> caller_refusal e"
  by (auto simp: body_bytes_def encode_body_def refuse_caller_refs_def refusal_simps
      split: json.splits option.splits if_splits)

lemma build_body_refusal:
  assumes "build_body op args secrets mx = Inl e"
    and "case op_body_template op of None \<Rightarrow> True | Some t \<Rightarrow> template_ok (op_allowed_secrets op) t"
  shows "caller_refusal e"
proof -
  have "operator_body op present body secrets = Inl e \<Longrightarrow> caller_refusal e" for present body
    using assms(2) by (auto simp: operator_body_def refusal_simps split: option.splits dest: substitute_refusal)
  with assms(1) body_bytes_refusal show ?thesis
    by (auto simp: build_body_def refuse_caller_refs_def Let_def refusal_simps split: json.splits)
qed

section \<open>Properties\<close>

lemma loaded_op:
  assumes "load_config data = Inr c" "map_of (rc_operations c) n = Some op"
  shows "op_valid (rc_secrets c) (n, op)" "\<exists>b. rc_base_url c = py_rstrip_slash b \<and> validate_base_url b = Inr ()"
  using load_config_valid [OF assms(1)] map_of_SomeD [OF assms(2)] by (auto simp: config_valid_def list_all_iff)

lemma loaded_join:
  assumes "load_config data = Inr c" "map_of (rc_operations c) n = Some op"
    and "hydrate_path op args = Inr path"
  obtains url a nl bp p q where "join_url (rc_base_url c) path = Inr url"
    "urlsplit url = Inr \<lparr>url_scheme = py_lower a, url_netloc = nl, url_path = py_rstrip_slash bp @ p, url_query = q, url_fragment = []\<rparr>"
    "\<exists>bq bf. urlsplit (rc_base_url c) = Inr \<lparr>url_scheme = py_lower a, url_netloc = nl, url_path = bp, url_query = bq, url_fragment = bf\<rparr>"
    "count_list p (CHR ''/'') = count_list (takeWhile (\<lambda>c. c \<noteq> CHR ''?'') (op_path op)) (CHR ''/'')"
proof -
  from loaded_op [OF assms(1,2)] obtain b where b: "rc_base_url c = py_rstrip_slash b" "validate_base_url b = Inr ()"
    and v: "validate_path_template (op_path op) = Inr ()" by (auto simp: op_valid_def Let_def)
  from b(2) obtain a nl t where ab: "absolute (rc_base_url c) a nl t" "nl \<noteq> []" unfolding b(1) by (rule base_absolute)
  obtain bp bq bf where st: "split_tail t = (bp, bq, bf)" by (metis prod_cases3)
  from hydrate_path_ok [OF assms(3) v] obtain p q where
    p: "urlsplit path = Inr \<lparr>url_scheme = [], url_netloc = [], url_path = p, url_query = q, url_fragment = []\<rparr>"
    and pc: "starts_with ''/'' p" "list_all path_char p" "list_all query_char q"
    and cnt: "count_list p (CHR ''/'') = count_list (takeWhile (\<lambda>c. c \<noteq> CHR ''?'') (op_path op)) (CHR ''/'')" by metis
  from join_url_ok [OF ab(1) st p ab(2) pc] obtain url where "join_url (rc_base_url c) path = Inr url"
    "urlsplit url = Inr \<lparr>url_scheme = py_lower a, url_netloc = nl, url_path = py_rstrip_slash bp @ p, url_query = q, url_fragment = []\<rparr>"
    by metis
  with that urlsplit_of_absolute [OF ab(1) st] cnt show thesis by blast
qed

lemma build_requestD:
  assumes "build_request c n args secrets mx = Inr r"
  obtains op path headers body where "map_of (rc_operations c) n = Some op" "hydrate_path op args = Inr path"
    "join_url (rc_base_url c) path = Inr (or_url r)" "build_headers op args secrets = Inr headers"
    "build_body op args secrets mx = Inr body" "or_method r = op_verb op"
    "or_headers r = with_content_type op body headers" "or_body r = body"
  using assms by (auto simp: build_request_def split: option.splits)

lemma with_content_type_cases:
  "with_content_type op body headers = headers \<or> (\<exists>ct. with_content_type op body headers = AList.update ''Content-Type'' ct headers)"
  by (auto simp: with_content_type_def split: option.splits)

text \<open>C25: Every request that the forwarder builds for a loaded manifest goes to the manifest's base
  URL: the URL, split again, has the scheme and network location of the base URL and no fragment,
  and its path is the base path followed by a path with exactly as many slashes as the operation's
  template has. No argument can leave the configured host or add a path segment.\<close>

theorem outbound_stays_at_base:
  assumes "load_config data = Inr c" "build_request c n args secrets mx = Inr r"
    and "map_of (rc_operations c) n = Some op"
  shows "\<exists>u b p. urlsplit (or_url r) = Inr u \<and> urlsplit (rc_base_url c) = Inr b
    \<and> url_scheme u = url_scheme b \<and> url_netloc u = url_netloc b \<and> url_fragment u = []
    \<and> url_path u = py_rstrip_slash (url_path b) @ p
    \<and> count_list p (CHR ''/'') = count_list (takeWhile (\<lambda>x. x \<noteq> CHR ''?'') (op_path op)) (CHR ''/'')"
proof -
  from assms(2,3) obtain path where path: "hydrate_path op args = Inr path" "join_url (rc_base_url c) path = Inr (or_url r)"
    by (auto elim!: build_requestD)
  from assms(1,3) path(1) show ?thesis
  proof (rule loaded_join)
    fix url a nl bp p q
    let ?u = "\<lparr>url_scheme = py_lower a, url_netloc = nl, url_path = py_rstrip_slash bp @ p, url_query = q, url_fragment = []\<rparr>"
    assume "join_url (rc_base_url c) path = Inr url" "urlsplit url = Inr ?u"
      and "\<exists>bq bf. urlsplit (rc_base_url c) = Inr \<lparr>url_scheme = py_lower a, url_netloc = nl, url_path = bp, url_query = bq, url_fragment = bf\<rparr>"
      and cnt: "count_list p (CHR ''/'') = count_list (takeWhile (\<lambda>c. c \<noteq> CHR ''?'') (op_path op)) (CHR ''/'')"
    then obtain b where "urlsplit (or_url r) = Inr ?u" "urlsplit (rc_base_url c) = Inr b" "url_scheme b = py_lower a"
      "url_netloc b = nl" "url_path b = bp" using path(2) by auto
    with cnt show ?thesis by (intro exI [of _ ?u] exI [of _ b] exI [of _ p]) simp
  qed
qed

text \<open>Every header of a built request other than the content type is free of control characters
  and is either the operator's header of that name with its allowed secrets filled in, or, when no
  operator header has that name in any capitalisation, a header the operation allows, with the
  value the caller gave, which holds no secret reference. Every operator header is in the request.\<close>

theorem outbound_headers:
  assumes "load_config data = Inr c" "build_request c n args secrets mx = Inr r"
    and "map_of (rc_operations c) n = Some op" "k \<noteq> ''Content-Type''"
  shows "((k, v) \<in> set (or_headers r) \<longrightarrow> \<not> list_ex is_control v
      \<and> (if py_lower k \<in> operator_names op then operator_sent op secrets k v else caller_sent op args k v))
    \<and> ((k, t) \<in> set (op_headers op) \<longrightarrow>
        (\<exists>v. map_of (or_headers r) k = Some v \<and> substitute_secrets t secrets (op_allowed_secrets op) = Inr v))"
proof -
  from assms(2,3) obtain hs where hs: "build_headers op args secrets = Inr hs"
    and out: "or_headers r = hs \<or> (\<exists>ct. or_headers r = AList.update ''Content-Type'' ct hs)"
    using with_content_type_cases by (elim build_requestD) (metis option.inject)
  from out assms(4) have mem: "(k, v) \<in> set (or_headers r) \<Longrightarrow> (k, v) \<in> set hs" and
    mo: "map_of (or_headers r) k = map_of hs k" by (auto dest: update_mem simp: update_conv')
  have "distinct (map (py_lower \<circ> fst) (op_headers op))"
    using loaded_op(1) [OF assms(1,3)] by (simp add: op_valid_def Let_def)
  then have d: "distinct (map fst (op_headers op))" by (metis distinct_map map_map)
  from hs obtain hs1 where "fold_res (\<lambda>hs (name, t). andthen (operator_header op secrets t) (\<lambda>s. Inr (AList.update name s hs))) hs1 (op_headers op) = Inr hs"
    by (auto simp: build_headers_def split: json.splits)
  from operator_loop [OF this d] operator_header_ok mo
  have "(k, t) \<in> set (op_headers op) \<Longrightarrow> \<exists>v. map_of (or_headers r) k = Some v \<and> substitute_secrets t secrets (op_allowed_secrets op) = Inr v"
    by fastforce
  with mem build_headers_ok [OF hs] show ?thesis by blast
qed

text \<open>C27: The result of building a request depends on no secret outside the operation's
  \<^verbatim>\<open>allowed_secrets\<close>: two secret caches that agree on those give the same request or the same
  refusal, whatever the caller's arguments.\<close>

theorem outbound_secrets_confined:
  assumes "map_of (rc_operations c) n = Some op"
    and "\<forall>s \<in> set (op_allowed_secrets op). secrets s = secrets' s"
  shows "build_request c n args secrets mx = build_request c n args secrets' mx"
proof -
  have "secret_fill secrets (op_allowed_secrets op) = secret_fill secrets' (op_allowed_secrets op)"
    using assms(2) by (auto simp: secret_fill_def read_secret_def fun_eq_iff)
  then have sub: "substitute_secrets t secrets (op_allowed_secrets op) = substitute_secrets t secrets' (op_allowed_secrets op)" for t
    by (simp add: substitute_secrets_def)
  have "operator_header op secrets = operator_header op secrets'"
    by (simp add: operator_header_def sub fun_eq_iff)
  then have "build_headers op args secrets = build_headers op args secrets'"
    unfolding build_headers_def by (simp only:)
  moreover have "operator_body op p b secrets = operator_body op p b secrets'" for p b
    by (simp add: operator_body_def sub cong: option.case_cong)
  then have "build_body op args secrets mx = build_body op args secrets' mx"
    unfolding build_body_def by (simp only:)
  ultimately show ?thesis using assms(1) by (simp add: build_request_def)
qed


section \<open>An example\<close>

definition demo_rest :: json where
  "demo_rest = JObj [(''id'', JStr ''crm''), (''type'', JStr ''rest''), (''base_url'', JStr ''https://crm.example/api/''),
     (''secrets'', JList [JObj [(''name'', JStr ''key''), (''field'', JStr ''crm_key'')]]),
     (''operations'', JList [JObj [(''name'', JStr ''get_item''), (''verb'', JStr ''get''),
        (''path'', JStr ''/v1/{id}?q={q}''), (''allowed_headers'', JList [JStr ''X-Trace'']),
        (''headers'', JObj [(''Authorization'', JStr ''Bearer {{secret:key}}'')]),
        (''allowed_secrets'', JList [JStr ''key''])]])]"

definition demo_rest_op :: operation where
  "demo_rest_op = \<lparr>op_name = ''get_item'', op_risk = ''unknown'', op_description = '''', op_verb = ''GET'',
     op_path = ''/v1/{id}?q={q}'', op_allowed_headers = [''x-trace''], op_body_kind = ''none'',
     op_body_content_type = None, op_redact_body = False, op_redact_headers = False, op_rules = [],
     op_headers = [(''Authorization'', ''Bearer {{secret:key}}'')], op_allowed_secrets = [''key''], op_body_template = None\<rparr>"

definition demo_rest_config :: rest_config where
  "demo_rest_config = \<lparr>rc_tool_id = ''crm'', rc_port = None, rc_base_url = ''https://crm.example/api'',
     rc_operations = [(''get_item'', demo_rest_op)],
     rc_secrets = [(''key'', \<lparr>sd_name = ''key'', sd_field = ''crm_key'', sd_writable = False\<rparr>)]\<rparr>"

definition demo_rest_args :: json where
  "demo_rest_args = JObj [(''variables'', JObj [(''id'', JStr ''a b''), (''q'', JStr ''x/y'')]),
     (''headers'', JObj [(''X-Trace'', JStr ''t1'')])]"

definition demo_rest_args2 :: json where
  "demo_rest_args2 = JObj [(''variables'', JObj [(''id'', JStr ''a~b''), (''q'', JStr ''x/y'')]),
     (''headers'', JObj [(''X-Trace'', JStr ''t1'')])]"

definition demo_rest_request :: outbound_request where
  "demo_rest_request = \<lparr>or_method = ''GET'', or_url = ''https://crm.example/api/v1/a~b?q=x%2Fy'',
     or_headers = [(''X-Trace'', ''t1''), (''Authorization'', ''Bearer s3'')], or_body = None\<rparr>"

lemma demo_rest_loads: "load_config demo_rest = Inr demo_rest_config"
  by code_simp

lemma demo_rest_op_found: "map_of (rc_operations demo_rest_config) ''get_item'' = Some demo_rest_op"
  by code_simp

lemma demo_rest_builds:
  "build_request demo_rest_config ''get_item'' demo_rest_args2 [''key'' \<mapsto> ''s3''] 100 = Inr demo_rest_request"
  by code_simp

definition demo_rest_refusal :: build_exn where
  "demo_rest_refusal = refuse ''invalid_variable'' ''path variable contains whitespace or control characters'' (by_name ''id'')"

lemma demo_rest_refuses:
  "build_request demo_rest_config ''get_item'' demo_rest_args [''key'' \<mapsto> ''s3''] 100 = Inl demo_rest_refusal"
  by code_simp

theorem outbound_stays_at_base_witness:
  "\<exists>u b p. urlsplit (or_url demo_rest_request) = Inr u \<and> urlsplit (rc_base_url demo_rest_config) = Inr b
    \<and> url_scheme u = url_scheme b \<and> url_netloc u = url_netloc b \<and> url_fragment u = []
    \<and> url_path u = py_rstrip_slash (url_path b) @ p
    \<and> count_list p (CHR ''/'') = count_list (takeWhile (\<lambda>x. x \<noteq> CHR ''?'') (op_path demo_rest_op)) (CHR ''/'')"
  by (rule outbound_stays_at_base [OF demo_rest_loads demo_rest_builds demo_rest_op_found])

theorem outbound_headers_witness:
  "operator_sent demo_rest_op [''key'' \<mapsto> ''s3''] ''Authorization'' ''Bearer s3''
     \<and> map_of (or_headers demo_rest_request) ''Authorization'' = Some ''Bearer s3''"
proof -
  have "''Authorization'' \<noteq> ''Content-Type''" by simp
  note w = outbound_headers [OF demo_rest_loads demo_rest_builds demo_rest_op_found this, of "''Bearer s3''" "''Bearer {{secret:key}}''"]
  have "(''Authorization'', ''Bearer s3'') \<in> set (or_headers demo_rest_request)"
    "py_lower ''Authorization'' \<in> operator_names demo_rest_op" by code_simp+
  with w show ?thesis by (auto simp: demo_rest_request_def)
qed

theorem outbound_secrets_confined_witness:
  "build_request demo_rest_config ''get_item'' demo_rest_args2 [''key'' \<mapsto> ''s3''] 100
     = build_request demo_rest_config ''get_item'' demo_rest_args2 [''key'' \<mapsto> ''s3'', ''other'' \<mapsto> ''s4''] 100"
  by (rule outbound_secrets_confined [OF demo_rest_op_found]) (simp add: demo_rest_op_def)


text \<open>Two variables side by side can make a parent segment, although no variable may contain one,
  and a manifest whose identifier ends in a line feed loads.\<close>

lemma adjacent_variables_make_parent:
  "hydrate_path (demo_rest_op\<lparr>op_path := ''/v1/{a}{b}''\<rparr>)
     (JObj [(''variables'', JObj [(''a'', JStr ''.''), (''b'', JStr ''.'')])]) = Inr ''/v1/..''"
  by code_simp

lemma newline_identifier_loads:
  "\<exists>c. load_config (JObj ((''id'', JStr (''crm'' @ [CHR 0x0A])) # (case demo_rest of JObj d \<Rightarrow> d | _ \<Rightarrow> []))) = Inr c
     \<and> rc_tool_id c = ''crm'' @ [CHR 0x0A]"
proof -
  have "load_config (JObj ((''id'', JStr (''crm'' @ [CHR 0x0A])) # (case demo_rest of JObj d \<Rightarrow> d | _ \<Rightarrow> [])))
      = Inr (demo_rest_config\<lparr>rc_tool_id := ''crm'' @ [CHR 0x0A]\<rparr>)" by code_simp
  then show ?thesis by simp
qed

end
