(* ===== verification/FwdRules.thy ===== *)
theory FwdRules
  imports FwdSafety SpsClient
begin

text \<open>
  \<^verbatim>\<open>toolstack_forwarder/rules.py\<close>: updating secrets from a response. The parsers of the
  standard library that the rules call are functions of a record: \<^verbatim>\<open>json.loads\<close>,
  \<^verbatim>\<open>re.search\<close> and the element tree; \<^const>\<open>None\<close> is the exception the code catches.
\<close>

section \<open>Errors and parsers\<close>

record rule_error =
  re_code :: string
  re_detail :: string
  re_fields :: "(string \<times> json) list"

definition re_envelope :: "rule_error \<Rightarrow> json" where
  "re_envelope e = JObj (foldl (\<lambda>d kv. AList.update (fst kv) (snd kv) d)
     ((''error'', JStr (re_code e)) # (if re_detail e \<noteq> [] then [(''detail'', JStr (re_detail e))] else []))
     (re_fields e))"

text \<open>A \<^verbatim>\<open>RuleError\<close>, or another exception by the name of its class.\<close>

datatype rule_exn = RuleError rule_error | Foreign string

definition rule_fail :: "string \<Rightarrow> string \<Rightarrow> (string \<times> json) list \<Rightarrow> rule_exn" where
  "rule_fail c d fs = RuleError \<lparr>re_code = c, re_detail = (if d = [] then c else d), re_fields = fs\<rparr>"

abbreviation no_value :: "string \<Rightarrow> (string \<times> json) list \<Rightarrow> rule_exn" where
  "no_value \<equiv> rule_fail ''rule_extraction_failed''"

text \<open>\<^verbatim>\<open>re.search\<close>: it raises (a pattern that does not compile), there is no match with a group, or the first
  group, which need not have taken part in the match.\<close>

datatype search_result = SearchRaised string | NoGroup | Group "string option"

record 'x parsers =
  pa_json :: "string \<Rightarrow> json option"
  pa_search :: "string \<Rightarrow> string \<Rightarrow> search_result"
  pa_xml :: "string \<Rightarrow> 'x option"
  pa_findall :: "'x \<Rightarrow> string \<Rightarrow> 'x list option"
  pa_attr :: "'x \<Rightarrow> string \<Rightarrow> string option"
  pa_text :: "'x \<Rightarrow> string option"

section \<open>Matching\<close>

text \<open>One alternative of a status specification; \<^verbatim>\<open>int\<close> rejects the superscript digits that
  \<^verbatim>\<open>isdigit\<close> accepts.\<close>

definition match_part :: "string \<Rightarrow> int \<Rightarrow> bool result" where
  "match_part raw status =
     (let part = py_lower (py_strip raw) in
      if part = [] then Inr False
      else if length part = 3 \<and> is_pydigit (hd part) \<and> drop 1 part = ''xx''
      then andthen (py_int_digits [hd part]) (\<lambda>n. Inr (status div 100 = n))
      else if py_isdigit part then andthen (py_int_digits part) (\<lambda>n. Inr (status = n))
      else Inr False)"

fun match_parts :: "string list \<Rightarrow> int \<Rightarrow> bool result" where
  "match_parts [] status = Inr False"
| "match_parts (p # ps) status = andthen (match_part p status) (\<lambda>b. if b then Inr True else match_parts ps status)"

definition match_status :: "string \<Rightarrow> int \<Rightarrow> bool result" where
  "match_status spec status = match_parts (split_on (CHR ''|'') spec) status"

section \<open>Extraction\<close>

text \<open>\<^verbatim>\<open>urllib.parse.parse_qs(body, keep_blank_values=True).get(key)\<close> on ASCII text: the values of
  the pairs with that key in order.\<close>

definition qs_decode :: "string \<Rightarrow> string" where
  "qs_decode s = url_unquote (map (\<lambda>c. if c = CHR ''+'' then CHR '' '' else c) s)"

definition qs_values :: "string \<Rightarrow> string \<Rightarrow> string list" where
  "qs_values key body =
     map (\<lambda>p. case partition_at (CHR ''='') p of (_, _, v) \<Rightarrow> qs_decode v)
       (filter (\<lambda>p. p \<noteq> [] \<and> (case partition_at (CHR ''='') p of (k, _, _) \<Rightarrow> qs_decode k = key)) (split_on (CHR ''&'') body))"

fun json_walk :: "json \<Rightarrow> string list \<Rightarrow> rule_exn + json" where
  "json_walk cur [] = Inr cur"
| "json_walk cur (part # parts) =
     (case cur of
        JList xs \<Rightarrow>
          if py_isdigit part
          then (case py_int_digits part of
                  Inl _ \<Rightarrow> Inl (Foreign ''ValueError'')
                | Inr n \<Rightarrow> if nat n < length xs then json_walk (xs ! nat n) parts
                           else Inl (no_value ''json index not found'' []))
          else Inl (no_value ''json path not found'' [])
      | JObj d \<Rightarrow> (case map_of d part of Some v \<Rightarrow> json_walk v parts | None \<Rightarrow> Inl (no_value ''json path not found'' []))
      | _ \<Rightarrow> Inl (no_value ''json path not found'' []))"

definition extract_json :: "'x parsers \<Rightarrow> string \<Rightarrow> string \<Rightarrow> rule_exn + string" where
  "extract_json ps body path =
     (case pa_json ps body of
        None \<Rightarrow> Inl (no_value ''invalid json'' [])
      | Some v \<Rightarrow> andthen (json_walk v (split_on (CHR ''.'') path)) (\<lambda>cur.
          case cur of JStr s \<Rightarrow> Inr s | _ \<Rightarrow> Inl (no_value ''json path did not yield a string'' [])))"

text \<open>\<^verbatim>\<open>path.rsplit("/@", 1)\<close>.\<close>

fun rsplit_attr :: "string \<Rightarrow> (string \<times> string) option" where
  "rsplit_attr [] = None"
| "rsplit_attr (c # cs) =
     (case rsplit_attr cs of
        Some (a, b) \<Rightarrow> Some (c # a, b)
      | None \<Rightarrow> if starts_with ''/@'' (c # cs) then Some ([], drop 2 (c # cs)) else None)"

definition extract_xml :: "'x parsers \<Rightarrow> string \<Rightarrow> string \<Rightarrow> string \<Rightarrow> rule_exn + string" where
  "extract_xml ps body path secret_name =
     (let by_secret = [(''secret'', JStr secret_name)];
          (elem_path, attr) = (case rsplit_attr path of None \<Rightarrow> (path, None) | Some (e, a) \<Rightarrow> (e, Some a)) in
      if attr = Some [] then Inl (no_value ''xml attribute is empty'' by_secret)
      else case pa_xml ps body of
             None \<Rightarrow> Inl (no_value ''invalid xml'' by_secret)
           | Some doc \<Rightarrow>
               (case pa_findall ps doc elem_path of
                  None \<Rightarrow> Inl (no_value ''invalid xml path'' by_secret)
                | Some [] \<Rightarrow> Inl (no_value ''xml path not found'' by_secret)
                | Some (x # _) \<Rightarrow>
                    (case attr of
                       Some a \<Rightarrow> (case pa_attr ps x a of None \<Rightarrow> Inl (no_value ''xml attribute not found'' by_secret) | Some v \<Rightarrow> Inr v)
                     | None \<Rightarrow> (case pa_text ps x of None \<Rightarrow> Inl (no_value ''xml element has no text'' by_secret) | Some v \<Rightarrow> Inr v))))"

definition extract_value :: "'x parsers \<Rightarrow> update_rule \<Rightarrow> string \<Rightarrow> rule_exn + string" where
  "extract_value ps rule body =
     (let rt = ru_response_type rule; by_secret = [(''secret'', JStr (ru_secret_name rule))] in
      if rt = ''json'' then extract_json ps body (ru_extract_path rule)
      else if rt = ''form''
      then (case qs_values (ru_extract_path rule) body of [] \<Rightarrow> Inl (no_value ''form field not found'' by_secret) | v # _ \<Rightarrow> Inr v)
      else if rt = ''plaintext''
      then (case pa_search ps (ru_extract_path rule) body of
              SearchRaised n \<Rightarrow> Inl (Foreign n)
            | NoGroup \<Rightarrow> Inl (no_value ''regex group not found'' by_secret)
            | Group None \<Rightarrow> Inl (Foreign ''AttributeError'')
            | Group (Some v) \<Rightarrow> Inr v)
      else if rt = ''xml'' then extract_xml ps body (ru_extract_path rule) (ru_secret_name rule)
      else Inl (no_value ''unsupported response type'' by_secret))"

section \<open>Applying the rules\<close>

definition MAX_SECRET_VALUE :: nat where
  "MAX_SECRET_VALUE = 8192"

text \<open>The \<^verbatim>\<open>try\<close> block: an exception that is not a \<^verbatim>\<open>RuleError\<close> becomes one.\<close>

definition extract_one :: "'x parsers \<Rightarrow> string \<Rightarrow> (string \<times> string) list \<Rightarrow> update_rule \<Rightarrow> rule_error + (string \<times> string) list" where
  "extract_one ps body out rule =
     (case andthen (extract_value ps rule body) (\<lambda>v.
        andthen (ensure (length (utf8_encode v) \<le> MAX_SECRET_VALUE)
          (no_value ''extracted secret value exceeds 8KB'' [(''secret'', JStr (ru_secret_name rule))])) (\<lambda>_. Inr v)) of
        Inl (RuleError e) \<Rightarrow> Inl e
      | Inl (Foreign n) \<Rightarrow> Inl \<lparr>re_code = ''rule_extraction_failed'', re_detail = n, re_fields = []\<rparr>
      | Inr v \<Rightarrow> Inr (out @ [(ru_secret_name rule, v)]))"

definition extract_all :: "'x parsers \<Rightarrow> string \<Rightarrow> update_rule list \<Rightarrow> rule_error + (string \<times> string) list" where
  "extract_all ps body rules = fold_res (extract_one ps body) [] rules"

definition client_exn_name :: "client_exn \<Rightarrow> string" where
  "client_exn_name e = (case e of SPSErr \<Rightarrow> ''SPSError'' | AuthErr \<Rightarrow> ''AuthError'' | NotFoundErr \<Rightarrow> ''NotFound''
     | NotWritableErr \<Rightarrow> ''NotWritable'' | BackendErr \<Rightarrow> ''BackendError'' | BadResponseErr \<Rightarrow> ''BadResponse''
     | TransportErr \<Rightarrow> ''TransportError'')"

fun write_all ::
  "'w transport \<Rightarrow> (string \<times> string) list \<Rightarrow> secret_client \<Rightarrow> 'w \<Rightarrow> (rule_error + unit) \<times> secret_client \<times> 'w" where
  "write_all send [] c w = (Inr (), c, w)"
| "write_all send ((name, v) # vs) c w =
     (case sdk_writeback send name v c w of
        (Inl e, c', w') \<Rightarrow> (Inl \<lparr>re_code = ''secret_update_failed'', re_detail = client_exn_name e, re_fields = [(''secret'', JStr name)]\<rparr>, c', w')
      | (Inr _, c', w') \<Rightarrow> write_all send vs c' w')"

text \<open>The rules that match, in order; a specification that makes \<^verbatim>\<open>int\<close> raise stops the
  comprehension, outside every \<^verbatim>\<open>try\<close>.\<close>

fun matching_rules :: "int \<Rightarrow> update_rule list \<Rightarrow> update_rule list result" where
  "matching_rules status [] = Inr []"
| "matching_rules status (r # rs) =
     andthen (match_status (ru_match_status r) status) (\<lambda>b.
     andthen (matching_rules status rs) (\<lambda>ms. Inr (if b then r # ms else ms)))"

datatype apply_exn = ApplyFailed rule_error | ApplyRaised exn

definition apply_secret_update_rules ::
  "'x parsers \<Rightarrow> 'w transport \<Rightarrow> operation \<Rightarrow> int \<Rightarrow> string \<Rightarrow> secret_client \<Rightarrow> 'w
     \<Rightarrow> (apply_exn + unit) \<times> secret_client \<times> 'w" where
  "apply_secret_update_rules ps send op status body c w =
     (case matching_rules status (op_rules op) of
        Inl e \<Rightarrow> (Inl (ApplyRaised e), c, w)
      | Inr rules \<Rightarrow>
          if rules = [] then (Inr (), c, w)
          else (case extract_all ps body rules of
                  Inl e \<Rightarrow> (Inl (ApplyFailed e), c, w)
                | Inr vs \<Rightarrow>
                    (case write_all send vs c w of
                       (Inl e, c', w') \<Rightarrow> (Inl (ApplyFailed e), c', w')
                     | (Inr _, c', w') \<Rightarrow> (Inr (), c', w'))))"

section \<open>Properties\<close>

lemma extract_one_Inr:
  "extract_one ps body out r = Inr out' \<Longrightarrow> \<exists>v. length (utf8_encode v) \<le> MAX_SECRET_VALUE \<and> out' = out @ [(ru_secret_name r, v)]"
  by (auto simp: extract_one_def split: sum.splits rule_exn.splits)

lemma extract_all_ok:
  assumes "extract_all ps body rules = Inr vs"
  shows "map fst vs = map ru_secret_name rules \<and> list_all (\<lambda>nv. length (utf8_encode (snd nv)) \<le> MAX_SECRET_VALUE) vs"
proof -
  have gen: "fold_res (extract_one ps body) out rules = Inr vs \<Longrightarrow>
      list_all (\<lambda>nv. length (utf8_encode (snd nv)) \<le> MAX_SECRET_VALUE) out \<Longrightarrow>
      map fst vs = map fst out @ map ru_secret_name rules \<and> list_all (\<lambda>nv. length (utf8_encode (snd nv)) \<le> MAX_SECRET_VALUE) vs" for out
  proof (induction rules arbitrary: out)
    case (Cons r rules)
    then obtain o1 where o1: "extract_one ps body out r = Inr o1" "fold_res (extract_one ps body) o1 rules = Inr vs" by auto
    from extract_one_Inr [OF o1(1)] o1(2) obtain v where v: "length (utf8_encode v) \<le> MAX_SECRET_VALUE"
      "fold_res (extract_one ps body) (out @ [(ru_secret_name r, v)]) rules = Inr vs" by blast
    from Cons.IH [OF v(2)] v(1) Cons.prems(2) show ?case by simp
  qed simp
  from gen [of "[]"] assms show ?thesis by (simp add: extract_all_def)
qed

lemma matching_subset: "matching_rules st rs = Inr ms \<Longrightarrow> set ms \<subseteq> set rs"
  by (induction rs arbitrary: ms) (auto split: if_splits)

text \<open>Secret updates are all or nothing up to the first write: unless every rule that matches the
  status extracts a value of at most 8 KiB, the client's cache and the provider are untouched.
  Otherwise the writes are those values, one for each matching rule in the order of the manifest,
  and every secret written is one that the loaded manifest declares writable.\<close>

theorem secret_updates_all_or_nothing:
  assumes "load_config data = Inr cfg" "map_of (rc_operations cfg) n = Some op"
    and "apply_secret_update_rules ps send op status body c w = (res, c', w')"
  shows "c' = c \<and> w' = w \<or> (\<exists>rules vs out. matching_rules status (op_rules op) = Inr rules \<and> extract_all ps body rules = Inr vs
    \<and> map fst vs = map ru_secret_name rules \<and> list_all (\<lambda>nv. length (utf8_encode (snd nv)) \<le> MAX_SECRET_VALUE) vs
    \<and> list_all (\<lambda>nv. \<exists>d. map_of (rc_secrets cfg) (fst nv) = Some d \<and> sd_writable d) vs
    \<and> write_all send vs c w = (out, c', w'))"
proof (cases "\<exists>rules vs. matching_rules status (op_rules op) = Inr rules \<and> rules \<noteq> [] \<and> extract_all ps body rules = Inr vs")
  case True
  then obtain rules vs where rv: "matching_rules status (op_rules op) = Inr rules" "rules \<noteq> []" "extract_all ps body rules = Inr vs"
    by blast
  note ex = extract_all_ok [OF rv(3)]
  have "list_all (\<lambda>r. \<exists>d. map_of (rc_secrets cfg) (ru_secret_name r) = Some d \<and> sd_writable d) rules"
    using loaded_op(1) [OF assms(1,2)] matching_subset [OF rv(1)] by (auto simp: op_valid_def Let_def list_all_iff)
  then have "list_all (\<lambda>nm. \<exists>d. map_of (rc_secrets cfg) nm = Some d \<and> sd_writable d) (map ru_secret_name rules)"
    by (simp add: list.pred_map comp_def)
  then have "list_all (\<lambda>nm. \<exists>d. map_of (rc_secrets cfg) nm = Some d \<and> sd_writable d) (map fst vs)"
    unfolding conjunct1 [OF ex] .
  then have wr: "list_all (\<lambda>nv. \<exists>d. map_of (rc_secrets cfg) (fst nv) = Some d \<and> sd_writable d) vs"
    by (simp only: list.pred_map comp_def)
  have "\<exists>out. write_all send vs c w = (out, c', w')"
    using assms(3) rv by (auto simp: apply_secret_update_rules_def split: sum.splits prod.splits)
  with rv(1,3) ex wr show ?thesis by blast
next
  case False
  with assms(3) show ?thesis by (auto simp: apply_secret_update_rules_def split: sum.splits if_splits)
qed

text \<open>A superscript digit in a status specification raises instead of not matching.\<close>

lemma match_status_superscript: "match_status ([CHR 0xB2] @ ''xx'') 200 = Inl ValueError"
  by code_simp

end
