(* ===== verification/FwdServer.thy ===== *)
theory FwdServer
  imports FwdRules
begin

text \<open>
  \<^verbatim>\<open>toolstack_forwarder/server.py\<close> and \<^verbatim>\<open>toolstack_forwarder/outbound.py\<close>: the handler
  of the broker's calls, and the outbound exchange. \<open>http\<close> is one exchange with the upstream
  server; \<open>decode\<close> reads bytes as UTF-8 with replacement; \<open>loads\<close> is \<^verbatim>\<open>json.loads\<close> on bytes.
\<close>

section \<open>Outbound\<close>

text \<open>What opening the URL gives: a response with what its successive reads could deliver, a failure
  to reach the host, or an exception nothing in the module catches.\<close>

datatype exchange =
    Answered int "(string \<times> string) list" "string list"
  | Unreachable string
  | ExchangeRaised exn

text \<open>\<^verbatim>\<open>_read_capped\<close>: bytes that a read does not ask for stay for the next one; an empty read is
  the end.\<close>

function read_capped :: "nat \<Rightarrow> string \<Rightarrow> string list \<Rightarrow> string option" where
  "read_capped max_body got [] = Some got"
| "read_capped max_body got (c # cs) =
     (let n = min 65536 (max_body + 1 - length got); chunk = take n c in
      if chunk = [] then Some got
      else if length (got @ chunk) > max_body then None
      else read_capped max_body (got @ chunk) (if drop n c = [] then cs else drop n c # cs))"
  by pat_completeness auto
termination
  by (relation "measure (\<lambda>(m, got, cs). length (concat cs) + length cs)") (auto simp: min_def)

declare read_capped.simps(2) [simp del]

definition hop_by_hop :: "string list" where
  "hop_by_hop = [''connection'', ''keep-alive'', ''proxy-authenticate'', ''proxy-authorization'', ''te'', ''trailer'',
     ''transfer-encoding'', ''upgrade'']"

definition clean_headers :: "(string \<times> string) list \<Rightarrow> (string \<times> json) list" where
  "clean_headers hs = foldl (\<lambda>d kv. let lname = py_lower (fst kv) in
     if lname = ''set-cookie'' \<or> lname \<in> set hop_by_hop then d else AList.update lname (JStr (snd kv)) d) [] hs"

definition response_envelope :: "(string \<Rightarrow> string) \<Rightarrow> int \<Rightarrow> (string \<times> string) list \<Rightarrow> string option \<Rightarrow> nat \<Rightarrow> json" where
  "response_envelope decode status headers body max_body =
     (case body of
        None \<Rightarrow> JObj [(''error'', JStr ''response_too_large''), (''limit_bytes'', JInt (int max_body))]
      | Some b \<Rightarrow> JObj [(''status'', JInt status), (''headers'', JObj (clean_headers headers)), (''body'', JStr (decode b))])"

definition outbound_send ::
  "('h \<Rightarrow> outbound_request \<Rightarrow> exchange \<times> 'h) \<Rightarrow> (string \<Rightarrow> string) \<Rightarrow> nat \<Rightarrow> outbound_request \<Rightarrow> 'h \<Rightarrow> json result \<times> 'h" where
  "outbound_send http decode max_body req h =
     (case http h req of
        (Answered status headers chunks, h') \<Rightarrow>
          (Inr (response_envelope decode status headers (read_capped max_body [] chunks) max_body), h')
      | (Unreachable reason, h') \<Rightarrow>
          (andthen (urlsplit (or_url req)) (\<lambda>u.
             Inr (JObj [(''error'', JStr ''outbound_unreachable''),
               (''host'', JStr (case url_hostname u of None \<Rightarrow> [] | Some x \<Rightarrow> x)), (''reason'', JStr reason)])), h')
      | (ExchangeRaised e, h') \<Rightarrow> (Inl e, h'))"

section \<open>The handler\<close>

definition REDACTED_BODY_TEXT :: string where
  "REDACTED_BODY_TEXT = ''response redacted for this operation due to config in toolserver''"

definition REDACTED_BODY_JSON :: string where
  "REDACTED_BODY_JSON = ''{'' @ quote ''message'' @ '':'' @ quote REDACTED_BODY_TEXT @ ''}''"

definition REDACTED_HEADERS :: json where
  "REDACTED_HEADERS = JObj [(''X-ToolStack-Security'', JStr ''headers redacted for this operation due to config in toolserver'')]"

definition set_key :: "string \<Rightarrow> json \<Rightarrow> json \<Rightarrow> json" where
  "set_key k v j = (case j of JObj d \<Rightarrow> JObj (AList.update k v d) | _ \<Rightarrow> j)"

definition redact_response :: "operation \<Rightarrow> json \<Rightarrow> json" where
  "redact_response op result =
     (let ctype = (case jget ''content-type'' (jget_or (JObj []) ''headers'' result) of Some (JStr s) \<Rightarrow> py_lower s | _ \<Rightarrow> []);
          r1 = (if op_redact_body op
                then set_key ''body'' (JStr (if contains ''json'' ctype then REDACTED_BODY_JSON else REDACTED_BODY_TEXT)) result
                else result)
      in if op_redact_headers op then set_key ''headers'' REDACTED_HEADERS r1 else r1)"

record post =
  po_path :: string
  po_channel_secret :: "string option"
  po_content_length :: "string option"
  po_body :: string

definition is_ascii :: "string \<Rightarrow> bool" where
  "is_ascii s \<longleftrightarrow> list_all (\<lambda>c. code c < 128) s"

definition verify_channel_secret :: "string option \<Rightarrow> string option \<Rightarrow> string + unit" where
  "verify_channel_secret environ presented =
     (let expected = (case environ of None \<Rightarrow> [] | Some e \<Rightarrow> e);
          given = py_strip (case presented of None \<Rightarrow> [] | Some p \<Rightarrow> p) in
      if expected = [] then Inl ''channel_secret_missing''
      else if \<not> is_ascii given \<or> \<not> is_ascii expected \<or> given \<noteq> expected then Inl ''channel_secret_mismatch''
      else Inr ())"

datatype load_result = Parsed json | NotJson | NotText

text \<open>A reply, or an exception that ends the connection without one.\<close>

datatype reply = Reply nat json | Dropped

definition err :: "string \<Rightarrow> (string \<times> json) list \<Rightarrow> json" where
  "err c fs = JObj ((''error'', JStr c) # fs)"

definition envelope_max :: "nat \<Rightarrow> nat" where
  "envelope_max max_body = max (max_body * 2 + 65536) (1024 * 1024)"

text \<open>The envelope of a request: what \<^verbatim>\<open>do_POST\<close> does before it looks at the operation.\<close>

definition read_envelope ::
  "(string \<Rightarrow> load_result) \<Rightarrow> string option \<Rightarrow> nat \<Rightarrow> post \<Rightarrow> reply + (string \<times> json)" where
  "read_envelope loads channel max_body rq =
     andthen (ensure (po_path rq = ''/sendrequest'') (Reply 404 (err ''not_found'' []))) (\<lambda>_.
     case verify_channel_secret channel (po_channel_secret rq) of
       Inl why \<Rightarrow> Inl (Reply 401 (err why []))
     | Inr _ \<Rightarrow>
         (case (case po_content_length rq of None \<Rightarrow> Inr 0 | Some s \<Rightarrow> if s = [] then Inr 0 else py_int s) of
            Inl _ \<Rightarrow> Inl (Reply 400 (err ''invalid_content_length'' []))
          | Inr len \<Rightarrow>
              if len < 0 \<or> len > int (envelope_max max_body)
              then Inl (Reply 413 (err ''body_too_large'' [(''limit_bytes'', JInt (int (envelope_max max_body)))]))
              else let raw = take (nat len) (po_body rq) in
                   (case loads (if raw = [] then ''{}'' else raw) of
                      NotText \<Rightarrow> Inl Dropped
                    | NotJson \<Rightarrow> Inl (Reply 400 (err ''invalid_json'' []))
                    | Parsed env \<Rightarrow>
                        if \<not> is_obj env then Inl (Reply 400 (err ''invalid_envelope'' [(''detail'', JStr ''body must be a JSON object'')]))
                        else (case jget ''op'' env of
                                Some (JStr op) \<Rightarrow> Inr (op, jget_or (JObj []) ''arguments'' env)
                              | _ \<Rightarrow> Inl (Reply 400 (err ''invalid_envelope'' [(''detail'', JStr ''op must be a string'')]))))))"

record ('x, 'w, 'h) forwarder =
  fw_config :: rest_config
  fw_max_body :: nat
  fw_channel :: "string option"
  fw_loads :: "string \<Rightarrow> load_result"
  fw_decode :: "string \<Rightarrow> string"
  fw_parsers :: "'x parsers"
  fw_sps :: "'w transport"
  fw_http :: "'h \<Rightarrow> outbound_request \<Rightarrow> exchange \<times> 'h"

type_synonym ('w, 'h) fw_state = "secret_client \<times> 'w \<times> 'h"

definition do_refresh :: "('x, 'w, 'h) forwarder \<Rightarrow> ('w, 'h) fw_state \<Rightarrow> reply \<times> ('w, 'h) fw_state" where
  "do_refresh fw s = (case s of (c, w, h) \<Rightarrow>
     (case sdk_refresh_all (fw_sps fw) c w of
        (Inl _, c', w') \<Rightarrow> (Dropped, c', w', h)
      | (Inr _, c', w') \<Rightarrow> (Reply 200 (ok_reply []), c', w', h)))"

text \<open>\<^verbatim>\<open>refresh_one\<close>: the handler catches \<^verbatim>\<open>KeyError\<close>, which the client does not raise.\<close>

definition do_refresh_one :: "('x, 'w, 'h) forwarder \<Rightarrow> json \<Rightarrow> ('w, 'h) fw_state \<Rightarrow> reply \<times> ('w, 'h) fw_state" where
  "do_refresh_one fw arguments s = (case s of (c, w, h) \<Rightarrow>
     (case jget ''name'' arguments of
        Some (JStr target) \<Rightarrow>
          if target = [] then (Reply 400 (err ''invalid_envelope'' [(''detail'', JStr (''refresh_one: '' @ [CHR 0x27] @ ''name'' @ [CHR 0x27] @ '' argument is required''))]), s)
          else (case sdk_refresh (fw_sps fw) target c w of
                  (Inl _, c', w') \<Rightarrow> (Dropped, c', w', h)
                | (Inr _, c', w') \<Rightarrow> (Reply 200 (ok_reply []), c', w', h))
      | _ \<Rightarrow> (Reply 400 (err ''invalid_envelope'' [(''detail'', JStr (''refresh_one: '' @ [CHR 0x27] @ ''name'' @ [CHR 0x27] @ '' argument is required''))]), s)))"

text \<open>The last part of the handler: rules, redaction and the reply for a result.\<close>

definition finish_call :: "('x, 'w, 'h) forwarder \<Rightarrow> operation \<Rightarrow> json \<Rightarrow> ('w, 'h) fw_state \<Rightarrow> reply \<times> ('w, 'h) fw_state" where
  "finish_call fw op result s = (case s of (c, w, h) \<Rightarrow>
     (case jget ''status'' result of
        Some (JInt status) \<Rightarrow>
          (case apply_secret_update_rules (fw_parsers fw) (fw_sps fw) op status
                  (case jget ''body'' result of Some (JStr b) \<Rightarrow> b | _ \<Rightarrow> []) c w of
             (Inl (ApplyFailed e), c', w') \<Rightarrow> (Reply 502 (re_envelope e), c', w', h)
           | (Inl (ApplyRaised _), c', w') \<Rightarrow> (Dropped, c', w', h)
           | (Inr _, c', w') \<Rightarrow>
               let r = redact_response op result
               in (Reply (if jget ''error'' r \<noteq> None then 502 else 200) r, c', w', h))
      | _ \<Rightarrow> (Reply (if jget ''error'' result \<noteq> None then 502 else 200) result, s)))"

definition do_POST :: "('x, 'w, 'h) forwarder \<Rightarrow> post \<Rightarrow> ('w, 'h) fw_state \<Rightarrow> reply \<times> ('w, 'h) fw_state" where
  "do_POST fw rq s =
     (case read_envelope (fw_loads fw) (fw_channel fw) (fw_max_body fw) rq of
        Inl r \<Rightarrow> (r, s)
      | Inr (op, arguments) \<Rightarrow>
          if op = ''refresh'' then do_refresh fw s
          else if op = ''refresh_one'' then do_refresh_one fw arguments s
          else (case s of (c, w, h) \<Rightarrow>
            (case build_request (fw_config fw) op arguments (map_of (cl_cache c)) (fw_max_body fw) of
               Inl (Raised _) \<Rightarrow> (Dropped, s)
             | Inl (Refused e) \<Rightarrow> (Reply (if be_code e \<noteq> ''unknown_op'' then 400 else 404) (be_envelope e), s)
             | Inr req \<Rightarrow>
                 (case outbound_send (fw_http fw) (fw_decode fw) (fw_max_body fw) req h of
                    (Inl _, h') \<Rightarrow> (Dropped, c, w, h')
                  | (Inr result, h') \<Rightarrow>
                      (case map_of (rc_operations (fw_config fw)) op of
                         Some o' \<Rightarrow> finish_call fw o' result (c, w, h')
                       | None \<Rightarrow> (Dropped, c, w, h'))))))"

section \<open>Properties\<close>

lemma read_capped_concat:
  "[] \<notin> set cs \<Longrightarrow> length got \<le> m \<Longrightarrow>
     read_capped m got cs = (if length (got @ concat cs) \<le> m then Some (got @ concat cs) else None)"
proof (induction m got cs rule: read_capped.induct)
  case (2 m got c cs)
  define n where "n = min 65536 (m + 1 - length got)"
  have n: "0 < n" "n \<le> m + 1 - length got" using "2.prems"(2) by (simp_all add: n_def)
  have c: "c \<noteq> []" using "2.prems"(1) by auto
  with n have tk: "take n c \<noteq> []" by simp
  define rest where "rest = (if drop n c = [] then cs else drop n c # cs)"
  have step: "read_capped m got (c # cs) = (if length (got @ take n c) > m then None else read_capped m (got @ take n c) rest)"
    unfolding read_capped.simps(2) Let_def n_def [symmetric] rest_def using tk by (simp only: if_False)
  have "concat rest = drop n c @ concat cs" by (simp add: rest_def)
  then have eq: "(got @ take n c) @ concat rest = got @ concat (c # cs)" by simp
  show ?case
  proof (cases "length (got @ take n c) > m")
    case True
    then have "length (got @ concat (c # cs)) > m" by simp
    with True step show ?thesis by simp
  next
    case False
    have "[] \<notin> set rest" using "2.prems"(1) by (auto simp: rest_def)
    with "2.IH" [OF n_def refl tk False] False have
      "read_capped m (got @ take n c) rest = (if length ((got @ take n c) @ concat rest) \<le> m then Some ((got @ take n c) @ concat rest) else None)"
      unfolding rest_def by linarith
    with False step show ?thesis unfolding eq by simp
  qed
qed simp

text \<open>Reading a response always ends, with the whole body when it has at most \<^verbatim>\<open>max_body\<close> bytes
  and with a refusal when it has more, however the bytes arrive.\<close>

theorem capped_read_exact:
  assumes "[] \<notin> set chunks"
  shows "read_capped max_body [] chunks = (if length (concat chunks) \<le> max_body then Some (concat chunks) else None)"
  using read_capped_concat [OF assms, of "[]" max_body] by simp

theorem capped_read_exact_witness: "read_capped 3 [] [''ab'', ''cd''] = None"
  using capped_read_exact [of "[''ab'', ''cd'']" 3] by simp

text \<open>Without the channel secret that the forwarder was started with (or when it was started with
  none) a call is answered 401, or 404 on another path, and nothing else happens: no request is
  sent, and neither the secret cache nor the provider is touched.\<close>

theorem channel_secret_required:
  assumes "fw_channel fw = None \<or> fw_channel fw = Some [] \<or>
    py_strip (case po_channel_secret rq of None \<Rightarrow> [] | Some p \<Rightarrow> p) \<noteq> (case fw_channel fw of None \<Rightarrow> [] | Some e \<Rightarrow> e)"
  shows "snd (do_POST fw rq s) = s \<and> (\<exists>code j. fst (do_POST fw rq s) = Reply code j \<and> code \<in> {401, 404})"
proof -
  have "\<exists>why. verify_channel_secret (fw_channel fw) (po_channel_secret rq) = Inl why"
    using assms by (auto simp: verify_channel_secret_def Let_def)
  then obtain why where "verify_channel_secret (fw_channel fw) (po_channel_secret rq) = Inl why" by blast
  then show ?thesis by (cases "po_path rq = ''/sendrequest''") (simp_all add: do_POST_def read_envelope_def)
qed

lemma redact_body:
  "op_redact_body op \<Longrightarrow> jget ''body'' (redact_response op (JObj d)) \<in> {Some (JStr REDACTED_BODY_JSON), Some (JStr REDACTED_BODY_TEXT)}"
  by (simp add: redact_response_def set_key_def Let_def update_conv')

lemma redact_headers: "op_redact_headers op \<Longrightarrow> jget ''headers'' (redact_response op (JObj d)) = Some REDACTED_HEADERS"
  by (simp add: redact_response_def set_key_def Let_def update_conv')

lemma redact_other: "k \<noteq> ''body'' \<Longrightarrow> k \<noteq> ''headers'' \<Longrightarrow> jget k (redact_response op (JObj d)) = map_of d k"
  by (simp add: redact_response_def set_key_def Let_def update_conv')

lemma outbound_result:
  assumes "outbound_send http decode mb req h = (Inr result, h')"
  shows "(\<exists>status hs b. result = JObj [(''status'', JInt status), (''headers'', JObj hs), (''body'', JStr b)])
    \<or> (\<exists>d. result = JObj d \<and> map_of d ''status'' = None \<and> map_of d ''error'' \<noteq> None \<and> map_of d ''body'' = None \<and> map_of d ''headers'' = None)"
  using assms by (auto simp: outbound_send_def response_envelope_def split: exchange.splits prod.splits option.splits)

lemma build_error_no_body: "build_request cfg op args secrets mb = Inr r \<Longrightarrow> \<exists>o'. map_of (rc_operations cfg) op = Some o'"
  by (auto elim: build_requestD)

text \<open>A successful reply of an operation whose manifest redacts the response body carries one of
  two fixed texts as its body, and one whose manifest redacts the headers carries one fixed header:
  nothing of the upstream body or headers reaches the caller, although the secret rules have seen
  them.\<close>

theorem redacted_reply:
  assumes "do_POST fw rq s = (Reply 200 j, s')" "read_envelope (fw_loads fw) (fw_channel fw) (fw_max_body fw) rq = Inr (op, args)"
    and "op \<noteq> ''refresh''" "op \<noteq> ''refresh_one''" "map_of (rc_operations (fw_config fw)) op = Some o'"
  shows "(op_redact_body o' \<longrightarrow> jget ''body'' j \<in> {Some (JStr REDACTED_BODY_JSON), Some (JStr REDACTED_BODY_TEXT)})
    \<and> (op_redact_headers o' \<longrightarrow> jget ''headers'' j = Some REDACTED_HEADERS)"
proof -
  obtain c w h where s: "s = (c, w, h)" by (metis prod_cases3)
  from assms s obtain req result h1 where snd: "outbound_send (fw_http fw) (fw_decode fw) (fw_max_body fw) req h = (Inr result, h1)"
    and fin: "finish_call fw o' result (c, w, h1) = (Reply 200 j, s')"
    by (auto simp: do_POST_def split: sum.splits build_exn.splits prod.splits if_splits)
  from outbound_result [OF snd] show ?thesis
  proof (elim disjE exE conjE)
    fix status hs b
    assume r: "result = JObj [(''status'', JInt status), (''headers'', JObj hs), (''body'', JStr b)]"
    with fin have "j = redact_response o' result"
      by (auto simp: finish_call_def Let_def split: prod.splits sum.splits apply_exn.splits)
    with r redact_body [of o'] redact_headers [of o'] show ?thesis by simp
  next
    fix d
    assume "result = JObj d" "map_of d ''status'' = None" "map_of d ''error'' \<noteq> None"
    with fin show ?thesis by (simp add: finish_call_def)
  qed
qed


end
