(* ===== verification/FwdDemo.thy ===== *)
theory FwdDemo
  imports FwdServer
begin

text \<open>A manifest with a login operation, and the forwarder's theorems applied to it.\<close>

definition demo_login :: json where
  "demo_login = JObj [(''id'', JStr ''crm''), (''type'', JStr ''rest''), (''base_url'', JStr ''https://crm.example''),
     (''secrets'', JList [JObj [(''name'', JStr ''key''), (''field'', JStr ''k''), (''writable'', JBool True)]]),
     (''operations'', JList [JObj [(''name'', JStr ''login''), (''verb'', JStr ''post''), (''path'', JStr ''/login''),
        (''redact_response_body'', JBool True), (''redact_response_headers'', JBool True),
        (''secret_update_rules'', JList [JObj [(''secret_name'', JStr ''key''), (''response_type'', JStr ''form''),
           (''extract_path'', JStr ''token''), (''match_status'', JStr ''2xx'')]])]])]"

definition demo_login_op :: operation where
  "demo_login_op = \<lparr>op_name = ''login'', op_risk = ''unknown'', op_description = '''', op_verb = ''POST'', op_path = ''/login'',
     op_allowed_headers = [], op_body_kind = ''text'', op_body_content_type = Some ''application/json'', op_redact_body = True,
     op_redact_headers = True,
     op_rules = [\<lparr>ru_secret_name = ''key'', ru_response_type = ''form'', ru_extract_path = ''token'', ru_match_status = ''2xx''\<rparr>],
     op_headers = [], op_allowed_secrets = [], op_body_template = None\<rparr>"

definition demo_login_config :: rest_config where
  "demo_login_config = \<lparr>rc_tool_id = ''crm'', rc_port = None, rc_base_url = ''https://crm.example'',
     rc_operations = [(''login'', demo_login_op)],
     rc_secrets = [(''key'', \<lparr>sd_name = ''key'', sd_field = ''k'', sd_writable = True\<rparr>)]\<rparr>"

lemma demo_login_loads: "load_config demo_login = Inr demo_login_config"
  by code_simp

lemma demo_login_found: "map_of (rc_operations demo_login_config) ''login'' = Some demo_login_op"
  by code_simp

definition demo_parsers :: "unit parsers" where
  "demo_parsers = \<lparr>pa_json = (\<lambda>_. None), pa_search = (\<lambda>_ _. NoGroup), pa_xml = (\<lambda>_. None), pa_findall = (\<lambda>_ _. None),
     pa_attr = (\<lambda>_ _. None), pa_text = (\<lambda>_. None)\<rparr>"

definition demo_fw :: "(unit, json list, nat) forwarder" where
  "demo_fw = \<lparr>fw_config = demo_login_config, fw_max_body = 100, fw_channel = Some ''ch'',
     fw_loads = (\<lambda>s. Parsed (JObj [(''op'', JStr ''login''), (''arguments'', JObj [(''body'', JStr ''{}'')])])),
     fw_decode = id, fw_parsers = demo_parsers, fw_sps = (\<lambda>w m. (Inr (ok_reply []), m # w)),
     fw_http = (\<lambda>h req. (Answered 200 [(''Content-Type'', ''text/plain'')] [''token=t9''], Suc h))\<rparr>"

definition demo_crm_client :: secret_client where
  "demo_crm_client = \<lparr>cl_tool_id = ''crm'', cl_esecret = ''e'', cl_cache = []\<rparr>"

definition demo_fw_state :: "(json list, nat) fw_state" where
  "demo_fw_state = (demo_crm_client, [], 0)"

definition demo_call :: "string option \<Rightarrow> post" where
  "demo_call sec = \<lparr>po_path = ''/sendrequest'', po_channel_secret = sec, po_content_length = Some ''2'', po_body = ''{}''\<rparr>"

definition demo_login_reply :: json where
  "demo_login_reply = JObj [(''status'', JInt 200), (''headers'', REDACTED_HEADERS), (''body'', JStr REDACTED_BODY_TEXT)]"

lemma demo_login_envelope: "read_envelope (fw_loads demo_fw) (fw_channel demo_fw) (fw_max_body demo_fw) (demo_call (Some ''ch''))
    = Inr (''login'', JObj [(''body'', JStr ''{}'')])"
proof -
  have "py_int ''2'' = Inr 2" "verify_channel_secret (Some ''ch'') (Some ''ch'') = Inr ()" by code_simp+
  then show ?thesis
    by (simp add: read_envelope_def demo_fw_def demo_call_def envelope_max_def is_obj_def jget_or_def)
qed

definition demo_login_request :: outbound_request where
  "demo_login_request = \<lparr>or_method = ''POST'', or_url = ''https://crm.example/login'',
     or_headers = [(''Content-Type'', ''application/json'')], or_body = Some ''{}''\<rparr>"

lemma demo_login_builds:
  "build_request demo_login_config ''login'' (JObj [(''body'', JStr ''{}'')]) (map_of []) 100 = Inr demo_login_request"
  by code_simp

lemma demo_login_sent: "outbound_send (fw_http demo_fw) (fw_decode demo_fw) (fw_max_body demo_fw) demo_login_request 0
    = (Inr (JObj [(''status'', JInt 200), (''headers'', JObj [(''content-type'', JStr ''text/plain'')]), (''body'', JStr ''token=t9'')]), 1)"
proof -
  have "clean_headers [(''Content-Type'', ''text/plain'')] = [(''content-type'', JStr ''text/plain'')]" by code_simp
  then show ?thesis
    by (simp add: outbound_send_def demo_fw_def response_envelope_def read_capped_concat)
qed

lemma demo_login_applied: "apply_secret_update_rules (fw_parsers demo_fw) (fw_sps demo_fw) demo_login_op 200 ''token=t9''
      demo_crm_client []
    = (Inr (), demo_crm_client\<lparr>cl_cache := [(''key'', ''t9'')]\<rparr>,
       [JObj [(''op'', JStr ''write_secret''), (''toolid'', JStr ''crm''), (''name'', JStr ''key''), (''value'', JStr ''t9''), (''esecret'', JStr ''e'')]])"
proof -
  have "match_status ''2xx'' 200 = Inr True" by code_simp
  moreover have "extract_value demo_parsers (hd (op_rules demo_login_op)) ''token=t9'' = Inr ''t9''" by code_simp
  ultimately show ?thesis
    by (simp add: apply_secret_update_rules_def demo_login_op_def extract_all_def extract_one_def MAX_SECRET_VALUE_def
        utf8_encode_def code_def demo_fw_def demo_crm_client_def sdk_writeback_def client_write_secret_def with_secret_def
        require_def sps_call_def decode_reply_def ok_reply_def)
qed

lemma demo_login_posts: "do_POST demo_fw (demo_call (Some ''ch'')) demo_fw_state
    = (Reply 200 demo_login_reply, demo_crm_client\<lparr>cl_cache := [(''key'', ''t9'')]\<rparr>,
       [JObj [(''op'', JStr ''write_secret''), (''toolid'', JStr ''crm''), (''name'', JStr ''key''), (''value'', JStr ''t9''), (''esecret'', JStr ''e'')]], 1)"
proof -
  have red: "redact_response demo_login_op (JObj [(''status'', JInt 200), (''headers'', JObj [(''content-type'', JStr ''text/plain'')]),
      (''body'', JStr ''token=t9'')]) = demo_login_reply" by code_simp
  have cfg: "fw_config demo_fw = demo_login_config" "fw_max_body demo_fw = 100" by (simp_all add: demo_fw_def)
  have s: "cl_cache demo_crm_client = []" by (simp add: demo_crm_client_def)
  have fin: "finish_call demo_fw demo_login_op (JObj [(''status'', JInt 200), (''headers'', JObj [(''content-type'', JStr ''text/plain'')]),
      (''body'', JStr ''token=t9'')]) (demo_crm_client, [], 1) = (Reply 200 demo_login_reply, demo_crm_client\<lparr>cl_cache := [(''key'', ''t9'')]\<rparr>,
       [JObj [(''op'', JStr ''write_secret''), (''toolid'', JStr ''crm''), (''name'', JStr ''key''), (''value'', JStr ''t9''), (''esecret'', JStr ''e'')]], 1)"
    using demo_login_applied red by (simp add: finish_call_def Let_def) (simp add: demo_login_reply_def)
  show ?thesis
    unfolding do_POST_def demo_login_envelope demo_fw_state_def
    by (simp add: s cfg demo_login_builds [simplified] demo_login_sent [unfolded cfg, simplified] demo_login_found fin [simplified])
qed

theorem redacted_reply_witness:
  "jget ''body'' demo_login_reply \<in> {Some (JStr REDACTED_BODY_JSON), Some (JStr REDACTED_BODY_TEXT)}
    \<and> jget ''headers'' demo_login_reply = Some REDACTED_HEADERS"
proof -
  have f: "map_of (rc_operations (fw_config demo_fw)) ''login'' = Some demo_login_op" by (simp add: demo_fw_def demo_login_found)
  have "''login'' \<noteq> ''refresh''" "''login'' \<noteq> ''refresh_one''" by simp_all
  from redacted_reply [OF demo_login_posts demo_login_envelope this f] show ?thesis by (simp add: demo_login_op_def)
qed


theorem channel_secret_required_witness:
  "snd (do_POST demo_fw (demo_call (Some ''no'')) demo_fw_state) = demo_fw_state"
  using channel_secret_required [of demo_fw "demo_call (Some ''no'')" demo_fw_state]
  by (simp add: demo_fw_def demo_call_def py_strip_def is_space_def code_def)

theorem secret_updates_all_or_nothing_witness:
  "\<exists>c' w' res. apply_secret_update_rules demo_parsers (fw_sps demo_fw) demo_login_op 404 ''token=t9'' demo_crm_client [] = (res, c', w')
    \<and> (c' = demo_crm_client \<and> w' = [] \<or> (\<exists>rules vs out. matching_rules 404 (op_rules demo_login_op) = Inr rules
        \<and> extract_all demo_parsers ''token=t9'' rules = Inr vs \<and> write_all (fw_sps demo_fw) vs demo_crm_client [] = (out, c', w')))"
proof -
  obtain res c' w' where h: "apply_secret_update_rules demo_parsers (fw_sps demo_fw) demo_login_op 404 ''token=t9'' demo_crm_client [] = (res, c', w')"
    by (metis prod_cases3)
  from secret_updates_all_or_nothing [OF demo_login_loads demo_login_found h] h show ?thesis by blast
qed

end
