(* ===== verification/Progress.thy ===== *)
theory Progress
  imports Gateway
begin

text \<open>
  What the gateway does get done: the run of a request for which nothing stands in the way, in
  an environment where no other process writes meanwhile. The runs are computed symbolically,
  transaction by transaction.
\<close>

definition quiet :: "env \<Rightarrow> bool" where
  "quiet e \<longleftrightarrow> (\<forall>n. ev_admin e n = [])"

named_theorems run_simps \<open>one access in a quiet environment\<close>

lemma arrive_quiet [run_simps]: "quiet e \<Longrightarrow> arrive e w = w_db w"
  by (simp add: arrive_def quiet_def)

lemma run_txn [run_simps]:
  "quiet e \<Longrightarrow> run_state (txn e f) w =
     (fst (f (w_tick w) (w_db w)), w\<lparr>w_db := snd (f (w_tick w) (w_db w)), w_tick := w_tick w + 1\<rparr>)"
  by (simp add: txn_def arrive_quiet split: prod.split)

lemma run_query [run_simps]:
  "quiet e \<Longrightarrow> run_state (query e f) w = (f (w_db w), w\<lparr>w_tick := w_tick w + 1\<rparr>)"
  by (simp add: query_def run_txn)

lemma run_now [run_simps]:
  "quiet e \<Longrightarrow> run_state (now_time e) w = (ev_clock e (w_tick w), w\<lparr>w_tick := w_tick w + 1\<rparr>)"
  by (simp add: now_time_def run_txn)

lemma run_find_op [run_simps]:
  "quiet e \<Longrightarrow> run_state (find_op e tool op) w =
     (lookup (ev_sha e) (ev_files e (w_tick w)) (ev_catalog e) tool op, w\<lparr>w_tick := w_tick w + 1\<rparr>)"
  by (simp add: find_op_def run_txn)

lemma run_set_request [run_simps]:
  "quiet e \<Longrightarrow> run_state (set_request e k u) w =
     ((), w\<lparr>w_db := update_request k u (ev_clock e (w_tick w)) (w_db w), w_tick := w_tick w + 1\<rparr>)"
  by (simp add: set_request_def run_txn)

text \<open>The audit table is never read back by the other operations.\<close>

definition log_to :: "audit_row list \<Rightarrow> store \<Rightarrow> store" where
  "log_to rows db = db\<lparr>st_audit := rows\<rparr>"

definition audit_after :: "env \<Rightarrow> string \<Rightarrow> string \<Rightarrow> string \<Rightarrow> string \<Rightarrow> int option \<Rightarrow> (string \<times> json) list \<Rightarrow> nat \<Rightarrow> store \<Rightarrow> audit_row list" where
  "audit_after e c ev oc corr rid d n db =
     st_audit (snd (append_audit (ev_clock e n) c ev oc (Some corr) rid (JObj d) db))"

lemma run_audit [run_simps]:
  "quiet e \<Longrightarrow> run_state (audit_record e c ev oc corr rid d) w =
     ((), w\<lparr>w_db := log_to (audit_after e c ev oc corr rid d (w_tick w) (w_db w)) (w_db w), w_tick := w_tick w + 1\<rparr>)"
  by (simp add: audit_record_def run_txn audit_after_def log_to_def append_audit_def Let_def)

lemma log_to_simps [simp]:
  "request (log_to a db) k = request db k"
  "policy_for (log_to a db) c = policy_for db c"
  "live (log_to a db) c clo = live db c clo"
  "approval_for_request (log_to a db) k = approval_for_request db k"
  "caller_name (log_to a db) c = caller_name db c"
  "prior_request (log_to a db) c key = prior_request db c key"
  "expired_pending_approvals now (log_to a db) = expired_pending_approvals now db"
  "st_requests (log_to a db) = st_requests db"
  "st_callers (log_to a db) = st_callers db"
  "st_tokens (log_to a db) = st_tokens db"
  "st_policies (log_to a db) = st_policies db"
  "st_approvals (log_to a db) = st_approvals db"
  "st_installation (log_to a db) = st_installation db"
  "log_to a (log_to b db) = log_to a db"
  by (simp_all add: log_to_def request_def policy_for_def live_def caller_row_by_id_def active_token_count_def
      approval_for_request_def caller_name_def prior_request_def expired_pending_approvals_def join_request_def
      split: option.split)

lemma authenticate_log_to [simp]: "authenticate sha (log_to a db) header = authenticate sha db header"
  by (cases "bearer_token header") (simp_all add: authenticate_def caller_by_token_hash_def cong: option.case_cong)

section \<open>The transactions\<close>

text \<open>The row a reservation writes is bound to what was asked.\<close>

lemma sort_action:
  "sort_json (action_value c t p g (sort_json a) r n) = sort_json (action_value c t p g a r n)"
  by (simp add: action_value_def sort_json_JObj map_vals_def sort_json_idem)

lemma canonical_action:
  "canonical (action_value c t p g (sort_json a) r n) = canonical (action_value c t p g a r n)"
  using sort_action [of c t p g a r n] by (simp add: canonical_def)

lemma jget0_sorted_action:
  assumes "wf_json a" "wf_json r" "wf_json n"
  shows "jget0 ''arguments'' (sort_json (action_value c t p g a r n)) = sort_json a"
    "jget0 ''reason'' (sort_json (action_value c t p g a r n)) = sort_json r"
    "jget0 ''nonce'' (sort_json (action_value c t p g a r n)) = sort_json n"
  using assms by (simp_all add: jget0_def jget_sort_json)

lemma wf_opt_str [simp]: "wf_json (opt_str x)" "all_finite (opt_str x)" "sort_json (opt_str x) = opt_str x"
  by (cases x; simp add: opt_str_def)+

lemma reserved_bound:
  assumes "wf_json args" "all_finite args"
    "bound_request sha (cl_id cl) tool op g args (opt_str reason) JNull fresh = Inr (msg, binding)"
  shows "bound sha (reserved_row i cl corr tool op args reason g key pol digest binding fresh now) g fresh'"
proof -
  let ?v = "action_value (cl_id cl) tool op g args (opt_str reason) (JStr fresh)"
  from assms(3) have msg: "canonical ?v = Inr msg" and b: "binding = sha msg"
    by (auto simp: bound_request_def split: sum.splits)
  have parts: "jget0 ''arguments'' (sort_json ?v) = sort_json args"
    "jget0 ''reason'' (sort_json ?v) = opt_str reason" "jget0 ''nonce'' (sort_json ?v) = JStr fresh"
    using assms(1) by (simp_all add: jget0_sorted_action)
  have again: "bound_request sha (cl_id cl) tool op g (sort_json args) (opt_str reason) (JStr fresh) fresh'
      = Inr (msg, binding)"
    by (simp add: bound_request_def canonical_action msg b)
  obtain a where a: "canonical args = Inr a" using assms(2) by (simp add: canonical_def)
  have obj: "is_obj ?v" by (simp add: is_obj_def action_value_def)
  show ?thesis
    by (simp add: bound_def reserved_row_def the_or_def parts again Let_def obj canonical_sort_json msg a)
qed

lemma bound_status [simp]: "bound sha (r\<lparr>rq_status := s\<rparr>) g fresh = bound sha r g fresh"
  by (simp add: bound_def Let_def cong: sum.case_cong)

text \<open>What has to hold of a call for its reservation and its claim to succeed.\<close>

definition callable :: "env \<Rightarrow> caller \<Rightarrow> string \<Rightarrow> string \<Rightarrow> tool_op \<Rightarrow> json \<Rightarrow> store \<Rightarrow> bool" where
  "callable e cl tool op t args db \<longleftrightarrow>
     live db (cl_id cl) (Some cl) \<and> to_generation t \<noteq> []
     \<and> (\<forall>n. lookup (ev_sha e) (ev_files e n) (ev_catalog e) tool op = Some t)
     \<and> is_obj args \<and> wf_json args \<and> all_finite args
     \<and> (to_type t = ''rest'' \<longrightarrow> validate_rest_arguments (ev_rest_body_max e) t args = None)
     \<and> list_all (\<lambda>a. ap_status a \<noteq> APending) (st_approvals db)"

definition new_reserved ::
  "env \<Rightarrow> caller \<Rightarrow> string \<Rightarrow> string \<Rightarrow> string \<Rightarrow> tool_op \<Rightarrow> json \<Rightarrow> string option \<Rightarrow> string option \<Rightarrow> nat \<Rightarrow> store \<Rightarrow> request_row" where
  "new_reserved e cl corr tool op t args reason key n db =
     reserved_row (next_rowid rq_id (st_requests db)) cl corr tool op args reason (to_generation t) key
       (policy_for db (cl_id cl))
       (ev_sha e (dumps '','' '':'' (sort_json (payload_value tool op args reason))))
       (ev_sha e (dumps '','' '':'' (sort_json (action_value (cl_id cl) tool op (to_generation t) args (opt_str reason) (JStr (ev_rng e n))))))
       (ev_rng e n) (ev_clock e n)"

lemma reserve_new:
  assumes "callable e cl tool op t args db" "validate_idempotency_key key = Inr ()" "prior_request db (cl_id cl) key = None"
  shows "reserve_action (ev_sha e) cl corr tool op args reason (to_generation t) key (ev_rng e n) (ev_clock e n) db
    = (Inr (new_reserved e cl corr tool op t args reason key n db, True, False),
       db\<lparr>st_requests := st_requests db @ [new_reserved e cl corr tool op t args reason key n db]\<rparr>)"
  using assms
  by (simp add: reserve_action_def callable_def canonical_def payload_value_def bound_request_def new_reserved_def Let_def)

lemma new_reserved_simps [simp]:
  "rq_id (new_reserved e cl corr tool op t args reason key n db) = next_rowid rq_id (st_requests db)"
  "rq_tool (new_reserved e cl corr tool op t args reason key n db) = tool"
  "rq_op (new_reserved e cl corr tool op t args reason key n db) = op"
  "rq_caller_id (new_reserved e cl corr tool op t args reason key n db) = cl_id cl"
  "rq_status (new_reserved e cl corr tool op t args reason key n db) = Received"
  "rq_generation (new_reserved e cl corr tool op t args reason key n db) = Some (to_generation t)"
  "rq_policy_binding (new_reserved e cl corr tool op t args reason key n db) = Some (policy_text (policy_for db (cl_id cl)))"
  by (simp_all add: new_reserved_def reserved_row_def)

lemma new_reserved_bound:
  "wf_json args \<Longrightarrow> all_finite args \<Longrightarrow>
     bound (ev_sha e) (new_reserved e cl corr tool op t args reason key n db) (to_generation t) fresh"
  unfolding new_reserved_def by (rule reserved_bound) (simp_all add: bound_request_def canonical_def)

lemma request_fresh:
  "rq_id row = next_rowid rq_id (st_requests db) \<Longrightarrow>
     request (db\<lparr>st_requests := st_requests db @ [row]\<rparr>) (next_rowid rq_id (st_requests db)) = Some row"
proof -
  assume "rq_id row = next_rowid rq_id (st_requests db)"
  moreover have "find (\<lambda>r. rq_id r = next_rowid rq_id (st_requests db)) (st_requests db) = None"
    by (auto simp: find_None_iff' dest: next_rowid_fresh [of _ _ rq_id])
  ultimately show ?thesis by (simp add: request_def find_append)
qed

text \<open>The claim of a fresh row, and what the row is then.\<close>

lemma claim_fresh:
  assumes "request db k = Some r" "received_valid sha db r g cl d fresh"
  shows "claim_received sha k g cl d fresh now db =
    (True, upd_requests (\<lambda>r. rq_id r = k \<and> rq_status r = Received) (\<lambda>r. r\<lparr>rq_status := Executing, rq_updated_at := now\<rparr>) db)"
  using assms by (simp add: claim_received_def)

lemma request_claimed:
  assumes "request db k = Some r" "rq_status r = Received"
  shows "request (upd_requests (\<lambda>r. rq_id r = k \<and> rq_status r = Received)
      (\<lambda>r. r\<lparr>rq_status := Executing, rq_updated_at := now\<rparr>) db) k
    = Some (r\<lparr>rq_status := Executing, rq_updated_at := now\<rparr>)"
  using assms request_SomeD [OF assms(1)] by (simp add: request_def find_sql_update)

lemma request_updated:
  assumes "request db k = Some r" "up_status u = Some s" "terminal s"
  shows "request (update_request k u now db) k
    = Some ((apply_fields (u\<lparr>up_action := Some None, up_arguments := Some None\<rparr>) r)\<lparr>rq_updated_at := now\<rparr>)"
proof -
  have "u\<lparr>up_action := Some None, up_arguments := Some None\<rparr> \<noteq> no_fields"
    by (auto simp: no_fields_def dest!: arg_cong [where f = up_action])
  then show ?thesis
    using assms request_SomeD [OF assms(1)]
    by (simp add: update_request_def request_def find_sql_update apply_fields_def)
qed

section \<open>Execution\<close>

definition dispatched :: "int \<Rightarrow> tool_op \<Rightarrow> json \<Rightarrow> string option \<Rightarrow> dispatch" where
  "dispatched k t args cname = \<lparr>dp_request_id = k, dp_op = t, dp_arguments = args, dp_caller = cname\<rparr>"

text \<open>How an answer of the runtime ends the request.\<close>

definition exec_status :: "exec_result \<Rightarrow> ostatus \<times> rstatus" where
  "exec_status x = (case x of ExecOk _ \<Rightarrow> (O_OK, Completed) | ExecNotDispatched _ \<Rightarrow> (O_FAILED, Failed)
     | ExecRaised _ \<Rightarrow> (O_UNKNOWN, Unknown))"

lemma execute_runs:
  assumes "quiet e" "request (w_db w) k = Some r" "rq_status r = Executing"
  shows "\<exists>n out w' r'. run_state (execute_request e k tool op args corr cname (Some t)) w = (out, w')
    \<and> (oc_status out, rq_status r') = exec_status (ev_execute e n t args k cname)
    \<and> oc_request_id out = Some k \<and> oc_reused out = False
    \<and> request (w_db w') k = Some r' \<and> w_log w' = w_log w @ [dispatched k t args cname]
    \<and> w_limiter w' = w_limiter w \<and> w_cards w' = w_cards w
    \<and> (\<forall>v. ev_execute e n t args k cname = ExecOk v \<longrightarrow> oc_result out = v \<and> rq_result r' = Some v)"
proof -
  define n where "n = Suc (Suc (w_tick w))"
  show ?thesis
    using assms unfolding n_def [symmetric]
    by (intro exI [of _ n], cases "ev_execute e n t args k cname")
      (auto simp: execute_request_def run_simps runtime_execute_def dispatched_def n_def exec_status_def
         request_updated [where r = r] closed_as_def no_fields_def failure_def outcome0_def apply_fields_def the_or_def terminal_def)
qed

section \<open>Submission\<close>

lemma callable_no_expired: "callable e cl tool op t args db \<Longrightarrow> expired_pending_approvals now db = []"
proof -
  assume "callable e cl tool op t args db"
  then have "filter (\<lambda>a. ap_status a = APending \<and> ap_expires_at a \<le> now) (st_approvals db) = []"
    by (auto simp: callable_def list_all_iff filter_empty_conv)
  then show ?thesis by (simp add: expired_pending_approvals_def join_request_def)
qed

lemma run_sweep:
  "quiet e \<Longrightarrow> (\<And>now. expired_pending_approvals now (w_db w) = []) \<Longrightarrow>
     run_state (sweep_expired e) w = (Inr 0, w\<lparr>w_tick := Suc (Suc (w_tick w))\<rparr>)"
  by (simp add: sweep_expired_def run_simps)

text \<open>The world with the row of a reservation, with the log and the clock where they are.\<close>

definition with_row :: "request_row \<Rightarrow> store \<Rightarrow> store" where
  "with_row row db = db\<lparr>st_requests := st_requests db @ [row]\<rparr>"

lemma with_row_simps [simp]:
  "policy_for (with_row row db) c = policy_for db c"
  "live (with_row row db) c clo = live db c clo"
  "st_approvals (with_row row db) = st_approvals db"
  "st_installation (with_row row db) = st_installation db"
  by (simp_all add: with_row_def policy_for_def live_def caller_row_by_id_def active_token_count_def
      split: option.split)

lemma request_with_row:
  "rq_id row = next_rowid rq_id (st_requests db) \<Longrightarrow> request (with_row row db) (next_rowid rq_id (st_requests db)) = Some row"
  unfolding with_row_def by (rule request_fresh)

lemma received_valid_new:
  assumes "callable e cl tool op t args db" "decide (policy_for db (cl_id cl)) tool op = ALLOW"
    "live db' (cl_id cl) (Some cl) = live db (cl_id cl) (Some cl)" "policy_for db' (cl_id cl) = policy_for db (cl_id cl)"
  shows "received_valid (ev_sha e) db' (new_reserved e cl corr tool op t args reason key n db) (Some (to_generation t)) cl
    (rq_digest (new_reserved e cl corr tool op t args reason key n db)) fresh"
  using assms by (simp add: received_valid_def callable_def new_reserved_bound)

lemma run_advance_allow:
  fixes db
  defines "k \<equiv> next_rowid rq_id (st_requests db)"
  assumes q: "quiet e" and c: "callable e cl tool op t args db"
    and allow: "decide (policy_for db (cl_id cl)) tool op = ALLOW"
    and row: "row = new_reserved e cl corr tool op t args reason key n db" and w: "w_db w = with_row row db"
  shows "\<exists>w1. run_state (advance_received e cl tool op args corr reason key row (Some t)) w
      = apfst Inr (run_state (execute_request e k tool op args corr (Some (cl_name cl)) (Some t)) w1)
    \<and> (\<exists>now. request (w_db w1) k = Some (row\<lparr>rq_status := Executing, rq_updated_at := now\<rparr>))
    \<and> w_log w1 = w_log w \<and> w_limiter w1 = w_limiter w \<and> w_cards w1 = w_cards w"
proof -
  have look: "lookup (ev_sha e) (ev_files e m) (ev_catalog e) tool op = Some t" for m
    using c by (simp add: callable_def)
  have rest: "(if to_type t = ''rest'' then validate_rest_arguments (ev_rest_body_max e) t args else None) = None"
    using c by (simp add: callable_def)
  have id: "rq_id row = k" and st: "rq_status row = Received" by (simp_all add: row k_def)
  have req: "request (with_row row db) k = Some row"
    unfolding k_def by (rule request_with_row) (simp add: row)
  have valid: "received_valid (ev_sha e) (log_to a (with_row row db)) row (Some (to_generation t)) cl (rq_digest row) fresh"
    for a fresh unfolding row by (rule received_valid_new [OF c allow]) simp_all
  have claim: "claim_received (ev_sha e) k (Some (to_generation t)) cl (rq_digest row) fresh now (log_to a (with_row row db))
      = (True, upd_requests (\<lambda>r. rq_id r = k \<and> rq_status r = Received)
           (\<lambda>r. r\<lparr>rq_status := Executing, rq_updated_at := now\<rparr>) (log_to a (with_row row db)))" for fresh now a
    by (rule claim_fresh [OF _ valid]) (simp add: req)
  show ?thesis
    unfolding advance_received_def Let_def option.case rest id
    by (cases reason; simp add: run_simps q w allow look claim apfst_def map_prod_def split_beta;
        rule exI, intro conjI, rule refl, rule refl; auto simp: request_claimed [where r = row] req st)
qed

text \<open>A key that is valid and not used yet, and a reason the code accepts.\<close>

definition fresh_key :: "store \<Rightarrow> caller \<Rightarrow> string option \<Rightarrow> bool" where
  "fresh_key db cl key \<longleftrightarrow> validate_idempotency_key key = Inr () \<and> prior_request db (cl_id cl) key = None"

lemma run_bind_ok:
  "run_state m w = (Inr x, w1) \<Longrightarrow> run_state (bind_ok m f) w = run_state (f x) w1"
  by (simp add: bind_ok_def)

text \<open>Up to the reservation a submission runs the same way whatever the policy says.\<close>

lemma run_submit_inner:
  assumes "quiet e" "callable e cl tool op t args (w_db w)" "fresh_key (w_db w) cl key"
    "reason = JNull \<or> is_str reason"
  shows "run_state (submit_inner e cl tool op args corr reason key) w =
    (let n = w_tick w + 3; row = new_reserved e cl corr tool op t args (clean_reason reason) key n (w_db w)
     in run_state (advance_received e cl tool op args corr (clean_reason reason) key row (Some t))
          (w\<lparr>w_db := with_row row (w_db w), w_tick := w_tick w + 4\<rparr>))"
proof -
  have look: "lookup (ev_sha e) (ev_files e m) (ev_catalog e) tool op = Some t" for m
    using assms(2) by (simp add: callable_def)
  have obj: "is_obj args" using assms(2) by (simp add: callable_def)
  have key: "validate_idempotency_key key = Inr ()" "prior_request (w_db w) (cl_id cl) key = None"
    using assms(3) by (simp_all add: fresh_key_def)
  have reason: "(reason \<noteq> JNull \<and> \<not> is_str reason) = False" using assms(4) by blast
  note res = reserve_new [OF assms(2) key]
  show ?thesis
    unfolding submit_inner_def
    by (simp add: run_bind_ok [OF run_sweep [OF assms(1) callable_no_expired [OF assms(2)]]] run_simps assms(1)
        look obj reason res Let_def with_row_def numeral_3_eq_3 numeral_eq_Suc)
qed

lemma submit_allow_runs:
  fixes w :: world
  defines "k \<equiv> next_rowid rq_id (st_requests (w_db w))"
  assumes "quiet e" "callable e cl tool op t args (w_db w)" "fresh_key (w_db w) cl key"
    "reason = JNull \<or> is_str reason" "decide (policy_for (w_db w) (cl_id cl)) tool op = ALLOW"
  shows "\<exists>n out w' r'. run_state (submit e cl tool op args corr reason key) w = (Inr out, w')
    \<and> (oc_status out, rq_status r') = exec_status (ev_execute e n t args k (Some (cl_name cl)))
    \<and> oc_request_id out = Some k \<and> oc_reused out = False
    \<and> request (w_db w') k = Some r' \<and> w_log w' = w_log w @ [dispatched k t args (Some (cl_name cl))]
    \<and> w_limiter w' = w_limiter w \<and> w_cards w' = w_cards w
    \<and> (\<forall>v. ev_execute e n t args k (Some (cl_name cl)) = ExecOk v \<longrightarrow> oc_result out = v \<and> rq_result r' = Some v)"
proof -
  let ?row = "new_reserved e cl corr tool op t args (clean_reason reason) key (w_tick w + 3) (w_db w)"
  let ?w = "w\<lparr>w_db := with_row ?row (w_db w), w_tick := w_tick w + 4\<rparr>"
  obtain w1 now where adv: "run_state (advance_received e cl tool op args corr (clean_reason reason) key ?row (Some t)) ?w
      = apfst Inr (run_state (execute_request e k tool op args corr (Some (cl_name cl)) (Some t)) w1)"
    and req: "request (w_db w1) k = Some (?row\<lparr>rq_status := Executing, rq_updated_at := now\<rparr>)"
    and same: "w_log w1 = w_log w" "w_limiter w1 = w_limiter w" "w_cards w1 = w_cards w"
    using run_advance_allow [OF assms(2,3,6), of ?row corr "clean_reason reason" key "w_tick w + 3" ?w]
    unfolding k_def by auto
  obtain n out w' r' where ex: "run_state (execute_request e k tool op args corr (Some (cl_name cl)) (Some t)) w1 = (out, w')"
    and st: "(oc_status out, rq_status r') = exec_status (ev_execute e n t args k (Some (cl_name cl)))"
    and out: "oc_request_id out = Some k" "oc_reused out = False" "request (w_db w') k = Some r'"
      "w_log w' = w_log w1 @ [dispatched k t args (Some (cl_name cl))]" "w_limiter w' = w_limiter w1" "w_cards w' = w_cards w1"
    and v: "\<forall>v. ev_execute e n t args k (Some (cl_name cl)) = ExecOk v \<longrightarrow> oc_result out = v \<and> rq_result r' = Some v"
    using execute_runs [OF assms(2) req, of tool op args corr "Some (cl_name cl)" t] by auto
  have inner: "run_state (submit_inner e cl tool op args corr reason key) w = (Inr out, w')"
    using run_submit_inner [OF assms(2-5)] adv ex by (simp add: Let_def)
  have "run_state (submit e cl tool op args corr reason key) w = (Inr (out\<lparr>oc_key := key\<rparr>), w')"
    using assms(4) unfolding submit_def fresh_key_def by (simp add: run_bind_ok [OF inner])
  with st out v same show ?thesis
    by (intro exI [of _ n] exI [of _ "out\<lparr>oc_key := key\<rparr>"] exI [of _ w'] exI [of _ r']) simp
qed

section \<open>The HTTP request\<close>

text \<open>Two worlds that differ in the audit table and the tick only.\<close>

definition logged :: "world \<Rightarrow> world \<Rightarrow> bool" where
  "logged w w' \<longleftrightarrow> (\<exists>a n. w' = w\<lparr>w_db := log_to a (w_db w), w_tick := n\<rparr>)"

lemma logged_refl [simp]: "logged w w"
  unfolding logged_def by (intro exI [of _ "st_audit (w_db w)"] exI [of _ "w_tick w"]) (simp add: log_to_def)

lemma logged_step [simp]:
  "logged w (w\<lparr>w_tick := n\<rparr>)" "logged w (w\<lparr>w_db := log_to a (w_db w), w_tick := n\<rparr>)"
proof -
  show "logged w (w\<lparr>w_tick := n\<rparr>)"
    unfolding logged_def by (intro exI [of _ "st_audit (w_db w)"] exI [of _ n]) (simp add: log_to_def)
  show "logged w (w\<lparr>w_db := log_to a (w_db w), w_tick := n\<rparr>)"
    unfolding logged_def by blast
qed

lemma logged_at: "w_db w = db \<Longrightarrow> logged w (w\<lparr>w_db := log_to a db, w_tick := n\<rparr>)"
  by (auto intro: logged_step)

lemma logged_trans: "logged w w1 \<Longrightarrow> logged w1 w2 \<Longrightarrow> logged w w2"
  unfolding logged_def by clarsimp blast

lemma loggedD: "logged w w' \<Longrightarrow> w_log w' = w_log w \<and> w_cards w' = w_cards w \<and> w_limiter w' = w_limiter w
    \<and> (\<exists>a. w_db w' = log_to a (w_db w))"
  by (auto simp: logged_def)

lemma run_audit_if:
  "quiet e \<Longrightarrow> \<exists>w'. run_state (if b then audit_record e c ev oc corr rid d else ret ()) w = ((), w') \<and> logged w w'"
  by (simp add: run_simps)

lemma run_terminal:
  "quiet e \<Longrightarrow> \<exists>w'. run_state (audit_request_terminal e out corr tool op) w = ((), w') \<and> logged w w'"
  by (auto simp: audit_request_terminal_def run_simps split: option.split)

lemma split_on_dotted: "id_ok tool \<Longrightarrow> id_ok op \<Longrightarrow> split_on (CHR ''.'') (tool @ CHR ''.'' # op) = [tool, op]"
  by (simp add: split_on_append_sep split_on_fresh id_ok_no_dot)

lemma run_action:
  assumes sub: "run_state (submit e cl tool op args corr (jget0 ''reason'' body) key) w = (Inr out, w1)"
    and q: "quiet e" and ids: "id_ok tool" "id_ok op"
    and body: "is_obj body" "jget_or (JObj []) ''arguments'' body = args" "is_obj args"
  shows "\<exists>w'. run_state (action e (actions_prefix @ tool @ CHR ''.'' # op) body cl corr key) w =
    (Inr (respond (outcome_status (oc_status out)) (outcome_body out) corr), w') \<and> logged w1 w'"
proof -
  obtain w' where fin: "run_state (audit_request_terminal e out corr tool op) w1 = ((), w')" "logged w1 w'"
    using run_terminal [OF q] by blast
  have parts: "two_parts id_ok (drop (length actions_prefix) (actions_prefix @ tool @ CHR ''.'' # op)) = Some (tool, op)"
    using ids by (simp add: two_parts_def split_on_dotted)
  show ?thesis
    unfolding action_def parts option.case prod.case body(2)
    by (simp add: body(1,3) run_bind_ok [OF sub] fin)
qed

text \<open>Everything before and after the handler of an authenticated request only logs.\<close>

lemma run_handle:
  assumes q: "quiet e" and auth: "authenticate (ev_sha e) (w_db w) (map_of (lower_headers hs) ''authorization'') = Some cl"
    and nohealth: "\<not> (meth = ''GET'' \<and> path = health_path)"
    and handler: "\<And>corr w1. logged w w1 \<Longrightarrow> \<exists>r w2. run_state (route_caller e meth path (lower_headers hs) body cl corr) w1 = (Inr r, w2) \<and> Q r w2"
    and closed: "\<And>r w1 w2. Q r w1 \<Longrightarrow> logged w1 w2 \<Longrightarrow> Q r w2"
  shows "\<exists>r w'. run_state (handle e meth path hs body) w = (Inr r, w') \<and> Q r w'"
proof -
  have auth': "authenticate (ev_sha e) (log_to a (w_db w)) (map_of (lower_headers hs) ''authorization'') = Some cl" for a
    using auth by simp
  let ?corr = "make_correlation_id (lower_headers hs) (ev_rng e (w_tick w))"
  obtain w1 where w1: "logged w w1"
    and pre: "run_state (handle e meth path hs body) w = run_state (bind_ok (route_caller e meth path (lower_headers hs) body cl ?corr)
       (\<lambda>r. do { audit_record e ''gateway'' ''response_returned'' (audit_outcome (rs_status r)) ?corr None [(''status'', JInt (rs_status r))];
                 ret (Inr r) })) w1"
    using nohealth auth' by (auto simp: handle_def route_def Let_def run_simps q bind_ok_def intro!: that)
  from handler [OF w1] obtain r w2 where h: "run_state (route_caller e meth path (lower_headers hs) body cl ?corr) w1 = (Inr r, w2)" "Q r w2"
    by blast
  then show ?thesis
    unfolding pre run_bind_ok [OF h(1)] by (simp add: run_simps q closed)
qed


text \<open>An accepted action request, in the parts the gateway takes from it.\<close>

definition action_request ::
  "(string \<times> string) list \<Rightarrow> json \<Rightarrow> string \<Rightarrow> string \<Rightarrow> json \<Rightarrow> string option \<Rightarrow> bool" where
  "action_request hs body tool op args key \<longleftrightarrow>
     id_ok tool \<and> id_ok op \<and> is_obj body \<and> jget_or (JObj []) ''arguments'' body = args
     \<and> (jget0 ''reason'' body = JNull \<or> is_str (jget0 ''reason'' body))
     \<and> map_of (lower_headers hs) ''idempotency-key'' = key"

lemma new_log_to:
  "callable e cl tool op t args (log_to a db) = callable e cl tool op t args db"
  "fresh_key (log_to a db) cl key = fresh_key db cl key"
  by (simp_all add: callable_def fresh_key_def)

lemma action_path_facts [simp]:
  "starts_with actions_prefix (actions_prefix @ x)" "actions_prefix @ x \<noteq> health_path" "actions_prefix @ x \<noteq> mcp_path"
  by (auto simp: starts_with_def actions_prefix_def health_path_def mcp_path_def)

text \<open>How the answer and the row of a dispatched request end.\<close>

definition executed :: "env \<Rightarrow> world \<Rightarrow> dispatch \<Rightarrow> response \<Rightarrow> world \<Rightarrow> bool" where
  "executed e w d r w' \<longleftrightarrow> (\<exists>n row. w_log w' = w_log w @ [d] \<and> request (w_db w') (dp_request_id d) = Some row
    \<and> (case ev_execute e n (dp_op d) (dp_arguments d) (dp_request_id d) (dp_caller d) of
         ExecOk v \<Rightarrow> rs_status r = 200 \<and> rq_status row = Completed \<and> rq_result row = Some v
       | ExecNotDispatched _ \<Rightarrow> rs_status r = 502 \<and> rq_status row = Failed
       | ExecRaised _ \<Rightarrow> rs_status r = 502 \<and> rq_status row = Unknown))"

lemma executed_logged: "executed e w d r w1 \<Longrightarrow> logged w1 w2 \<Longrightarrow> executed e w d r w2"
  using loggedD [of w1 w2] unfolding executed_def by auto

lemma route_allow_runs:
  fixes w :: world
  defines "k \<equiv> next_rowid rq_id (st_requests (w_db w))"
  assumes q: "quiet e" and lim: "w_limiter w = None" and req: "action_request hs body tool op args key"
    and call: "callable e cl tool op t args (w_db w)" "fresh_key (w_db w) cl key"
    and allow: "decide (policy_for (w_db w) (cl_id cl)) tool op = ALLOW" and w1: "logged w w1"
  shows "\<exists>r w2. run_state (route_caller e ''POST'' (actions_prefix @ tool @ CHR ''.'' # op) (lower_headers hs) body cl corr) w1
      = (Inr r, w2) \<and> executed e w (dispatched k t args (Some (cl_name cl))) r w2"
proof -
  from w1 obtain a m where w1_def: "w1 = w\<lparr>w_db := log_to a (w_db w), w_tick := m\<rparr>" by (auto simp: logged_def)
  from req have r: "id_ok tool" "id_ok op" "is_obj body" "jget_or (JObj []) ''arguments'' body = args"
    "jget0 ''reason'' body = JNull \<or> is_str (jget0 ''reason'' body)" "map_of (lower_headers hs) ''idempotency-key'' = key"
    by (simp_all add: action_request_def)
  have c1: "callable e cl tool op t args (w_db w1)" "fresh_key (w_db w1) cl key"
    "decide (policy_for (w_db w1) (cl_id cl)) tool op = ALLOW" "next_rowid rq_id (st_requests (w_db w1)) = k"
    "w_log w1 = w_log w" "w_limiter w1 = None"
    using call allow lim by (simp_all add: w1_def new_log_to k_def)
  obtain n out w2 row where sub: "run_state (submit e cl tool op args corr (jget0 ''reason'' body) key) w1 = (Inr out, w2)"
    and st: "(oc_status out, rq_status row) = exec_status (ev_execute e n t args k (Some (cl_name cl)))"
    and row: "request (w_db w2) k = Some row" "w_log w2 = w_log w @ [dispatched k t args (Some (cl_name cl))]"
    and v: "\<forall>v. ev_execute e n t args k (Some (cl_name cl)) = ExecOk v \<longrightarrow> rq_result row = Some v"
    using submit_allow_runs [OF q c1(1,2) r(5) c1(3), of corr] unfolding c1(4,5) by blast
  have "is_obj args" using call by (simp add: callable_def)
  from run_action [OF sub q r(1-4) this] obtain w3 where act:
    "run_state (action e (actions_prefix @ tool @ CHR ''.'' # op) body cl corr key) w1
       = (Inr (respond (outcome_status (oc_status out)) (outcome_body out) corr), w3)" "logged w2 w3" by blast
  have "executed e w (dispatched k t args (Some (cl_name cl))) (respond (outcome_status (oc_status out)) (outcome_body out) corr) w3"
    unfolding executed_def using st row v loggedD [OF act(2)]
    by (intro exI [of _ n] exI [of _ row])
      (auto simp: respond_def outcome_status_def exec_status_def dispatched_def split: exec_result.splits)
  then show ?thesis
    by (simp add: route_caller_def Let_def rate_ok_def c1(6) r(6) act(1))
qed

lemma handle_allow_runs:
  fixes w :: world
  assumes q: "quiet e" and lim: "w_limiter w = None"
    and auth: "authenticate (ev_sha e) (w_db w) (map_of (lower_headers hs) ''authorization'') = Some cl"
    and req: "action_request hs body tool op args key"
    and call: "callable e cl tool op t args (w_db w)" "fresh_key (w_db w) cl key"
    and allow: "decide (policy_for (w_db w) (cl_id cl)) tool op = ALLOW"
  shows "\<exists>r w'. run_state (handle e ''POST'' (actions_prefix @ tool @ CHR ''.'' # op) hs body) w = (Inr r, w')
      \<and> executed e w (dispatched (next_rowid rq_id (st_requests (w_db w))) t args (Some (cl_name cl))) r w'"
  by (rule run_handle [OF q auth]) (auto intro: route_allow_runs [OF q lim req call allow] executed_logged)

section \<open>An approved request\<close>

lemma request_approved:
  assumes "request db k = Some r"
  shows "request (upd_approvals p f (upd_requests (\<lambda>x. rq_id x = k) (\<lambda>x. x\<lparr>rq_status := Executing, rq_updated_at := now\<rparr>) db)) k
    = Some (r\<lparr>rq_status := Executing, rq_updated_at := now\<rparr>)"
  using assms request_SomeD [OF assms] by (simp add: request_def find_sql_update upd_approvals_def)

lemma run_resolve_approved:
  assumes q: "quiet e" and req: "request (w_db w) (rq_id req) = Some req"
    and app: "approval_for_request (w_db w) (rq_id req) = Some a"
    and valid: "\<And>n m. approval_valid (ev_sha e) (w_db w) req a (Some (to_generation t)) (max now (ev_clock e n)) cl (ev_rng e m)"
    and look: "\<And>n. lookup (ev_sha e) (ev_files e n) (ev_catalog e) (rq_tool req) (rq_op req) = Some t"
  shows "\<exists>w1 cname r. run_state (resolve_approved e req state now cl) w
      = apfst (\<lambda>out. Inr (out\<lparr>oc_approver := ss_approver state, oc_note := ss_note state, oc_decided_at := ss_decided_at state\<rparr>))
          (run_state (execute_request e (rq_id req) (rq_tool req) (rq_op req) (the_or (JObj []) (rq_arguments req))
             (rq_correlation_id req) cname (Some t)) w1)
    \<and> request (w_db w1) (rq_id req) = Some r \<and> rq_status r = Executing
    \<and> w_log w1 = w_log w \<and> w_cards w1 = w_cards w \<and> w_limiter w1 = w_limiter w"
proof -
  have claim: "claim_approval (ev_sha e) (rq_id req) (Some (to_generation t)) state (max now (ev_clock e n)) cl (ev_rng e m) (w_db w)
     = (True, upd_approvals (\<lambda>x. Some (ap_id a) = Some (ap_id x))
               (\<lambda>x. x\<lparr>ap_status := AApproved, ap_approver := ss_approver state, ap_note := ss_note state,
                      ap_decided_at := ss_decided_at state\<rparr>)
              (upd_requests (\<lambda>x. rq_id x = rq_id req)
                 (\<lambda>x. x\<lparr>rq_status := Executing, rq_updated_at := max now (ev_clock e n)\<rparr>) (w_db w)))" for n m
    using valid [of n m] by (simp add: claim_approval_def req app)
  show ?thesis
    unfolding resolve_approved_def Let_def
    apply (simp add: run_simps q look claim apfst_def map_prod_def split_beta)
    apply (rule exI, rule exI, intro conjI, rule refl, rule refl)
    apply (auto simp: request_approved [OF req])
    done
qed

text \<open>A pending request whose approval is valid at every reading of the clock.\<close>

definition approvable :: "env \<Rightarrow> caller option \<Rightarrow> request_row \<Rightarrow> approval_row \<Rightarrow> tool_op \<Rightarrow> store \<Rightarrow> bool" where
  "approvable e cl req a t db \<longleftrightarrow>
     request db (rq_id req) = Some req \<and> approval_for_request db (rq_id req) = Some a
     \<and> (\<forall>n m. approval_valid (ev_sha e) db req a (Some (to_generation t)) (ev_clock e n) cl (ev_rng e m))
     \<and> (\<forall>n. lookup (ev_sha e) (ev_files e n) (ev_catalog e) (rq_tool req) (rq_op req) = Some t)"

lemma approvable_log_to [simp]: "approvable e cl req a t (log_to x db) = approvable e cl req a t db"
  by (simp add: approvable_def approval_valid_def)

lemma approvable_max:
  "approvable e cl req a t db \<Longrightarrow>
     approval_valid (ev_sha e) db req a (Some (to_generation t)) (max (ev_clock e l) (ev_clock e n)) cl (ev_rng e m)"
  unfolding approvable_def by (cases "ev_clock e l \<le> ev_clock e n") (simp_all add: max_def)

lemma resolve_approved_runs:
  fixes w :: world
  assumes q: "quiet e" and ok: "approvable e cl req a t (w_db w)"
    and surf: "ev_surface e" "\<And>n. ev_poll e n (ap_surface_ref a) = Inr st" "ss_outcome st = SApproved"
  shows "\<exists>n out w' r cname. run_state (resolve_request e (rq_id req) cl) w = (Inr out, w')
    \<and> w_log w' = w_log w @ [dispatched (rq_id req) t (the_or (JObj []) (rq_arguments req)) cname]
    \<and> request (w_db w') (rq_id req) = Some r
    \<and> (oc_status out, rq_status r) = exec_status (ev_execute e n t (the_or (JObj []) (rq_arguments req)) (rq_id req) cname)"
proof -
  let ?args = "the_or (JObj []) (rq_arguments req)"
  let ?st = "st\<lparr>ss_note := redact (ss_note st) redact_max\<rparr>"
  have v: "approval_valid (ev_sha e) (w_db w) req a (Some (to_generation t)) (ev_clock e n) cl (ev_rng e m)" for n m
    using ok by (simp add: approvable_def)
  then have pend: "rq_status req = PendingApproval" "ap_status a = APending" and ex: "\<not> ap_expires_at a \<le> ev_clock e n" for n
    by (auto simp: approval_valid_def not_le)
  have ex2: "\<not> ap_expires_at a \<le> max (ev_clock e l) (ev_clock e n)" for l n using ex by (auto simp: max_def)
  have rows: "request (w_db w) (rq_id req) = Some req" "approval_for_request (w_db w) (rq_id req) = Some a"
    using ok by (simp_all add: approvable_def)
  let ?now = "ev_clock e (w_tick w)"
  obtain w0 where pre: "run_state (resolve_request e (rq_id req) cl) w = run_state (resolve_approved e req ?st ?now cl) w0"
    and w0: "logged w w0"
    using pend surf rows ex ex2
    by (auto simp: resolve_request_def resolve_pending_def resolve_polled_def resolve_decided_def surface_poll_def
        bind_ok_def run_simps q intro!: that)
  from w0 obtain x where x: "w_db w0 = log_to x (w_db w)" "w_log w0 = w_log w" using loggedD [OF w0] by auto
  have ok0: "approvable e cl req a t (w_db w0)" using ok x by simp
  obtain w1 cname r where app: "run_state (resolve_approved e req ?st ?now cl) w0
      = apfst (\<lambda>out. Inr (out\<lparr>oc_approver := ss_approver ?st, oc_note := ss_note ?st, oc_decided_at := ss_decided_at ?st\<rparr>))
          (run_state (execute_request e (rq_id req) (rq_tool req) (rq_op req) ?args (rq_correlation_id req) cname (Some t)) w1)"
    and r: "request (w_db w1) (rq_id req) = Some r" "rq_status r = Executing" "w_log w1 = w_log w0"
    using run_resolve_approved [OF q _ _ approvable_max [OF ok0], where state = ?st] ok0 unfolding approvable_def by blast
  show ?thesis
    using execute_runs [OF q r(1,2), of "rq_tool req" "rq_op req" ?args "rq_correlation_id req" cname t] r(3) x
    unfolding pre app by (auto simp: apfst_def intro!: exI [of _ cname])
qed

section \<open>A request under review\<close>

lemma request_to_pending:
  assumes "request db k = Some r"
  shows "request (update_request k (no_fields\<lparr>up_status := Some PendingApproval\<rparr>) now db) k
    = Some (r\<lparr>rq_status := PendingApproval, rq_updated_at := now\<rparr>)"
proof -
  have "no_fields\<lparr>up_status := Some PendingApproval\<rparr> \<noteq> no_fields" by (simp add: no_fields_def)
  then show ?thesis
    using request_SomeD [OF assms] assms
    by (simp add: update_request_def request_def find_sql_update apply_fields_def the_or_def)
      (simp add: no_fields_def)
qed

lemma st_approvals_update_request [simp]: "st_approvals (update_request k u now db) = st_approvals db"
  by (simp add: update_request_def upd_requests_def Let_def)

lemma no_approval_yet:
  "store_ok db \<Longrightarrow> find (\<lambda>a. ap_request_id a = next_rowid rq_id (st_requests db)) (st_approvals db) = None"
proof -
  assume "store_ok db"
  then have "ap_request_id ` set (st_approvals db) \<subseteq> rq_id ` set (st_requests db)"
    by (simp add: store_ok_def refs_ok_def)
  then have "ap_request_id a \<noteq> next_rowid rq_id (st_requests db)" if "a \<in> set (st_approvals db)" for a
    using that next_rowid_notin [of rq_id "st_requests db"] by (metis image_eqI subsetD)
  then show ?thesis by (simp add: find_None_iff')
qed

lemma build_card_fields [simp]:
  "card_request_id (build_card k cn tool p risk rs j d ep inst dg g) = k"
  "card_details (build_card k cn tool p risk rs j d ep inst dg g) = d"
  "card_request_digest (build_card k cn tool p risk rs j d ep inst dg g) = dg"
  by (simp_all add: build_card_def Let_def)

text \<open>What is left after a card was opened: the waiting row and its approval.\<close>

definition waits :: "store \<Rightarrow> operation_card \<Rightarrow> string \<Rightarrow> rat \<Rightarrow> bool" where
  "waits db c ref deadline \<longleftrightarrow>
     (\<exists>r a. request db (card_request_id c) = Some r \<and> rq_status r = PendingApproval \<and> rq_digest r = card_request_digest c
        \<and> approval_for_request db (card_request_id c) = Some a \<and> ap_status a = APending \<and> ap_surface_ref a = ref
        \<and> ap_expires_at a = deadline \<and> ap_digest a = rq_digest r)"

lemma run_open_approval:
  fixes w :: world
  assumes q: "quiet e" and surf: "ev_surface e" "\<And>n c. ev_open e n c = Inr ref"
    and det: "summarize args (to_approval_fields t) = Inr details"
    and req: "request (w_db w) k = Some row"
    and none: "find (\<lambda>a. ap_request_id a = k) (st_approvals (w_db w)) = None"
  shows "\<exists>out c n w'. run_state (open_approval e k cname tool op t args corr) w = (Inr out, w')
    \<and> oc_status out = O_PENDING \<and> oc_request_id out = Some k \<and> oc_reused out = False
    \<and> w_log w' = w_log w \<and> w_limiter w' = w_limiter w \<and> w_cards w' = w_cards w @ [c] \<and> card_request_id c = k
    \<and> card_details c = Some details \<and> waits (w_db w') c ref (ev_clock e n + ev_ttl e)"
proof -
  define db1 where "db1 = w_db w"
  have pend: "request (update_request k (no_fields\<lparr>up_status := Some PendingApproval\<rparr>) now (db1\<lparr>st_approvals := x\<rparr>)) k
      = Some (row\<lparr>rq_status := PendingApproval, rq_updated_at := now\<rparr>)" for now x
    by (rule request_to_pending) (use req in \<open>simp add: request_def db1_def\<close>)
  show ?thesis
    unfolding open_approval_def
    by (simp add: surf run_simps q req det surface_open_def bind_ok_def create_approval_def Let_def
        pend [unfolded db1_def] approval_for_request_def find_append none waits_def outcome0_def) blast
qed

lemma run_advance_review:
  fixes w :: world and db
  defines "k \<equiv> next_rowid rq_id (st_requests db)"
  assumes q: "quiet e" and c: "callable e cl tool op t args db" and ok: "store_ok db"
    and review: "decide (policy_for db (cl_id cl)) tool op = REVIEW"
    and row: "row = new_reserved e cl corr tool op t args reason key n db" and w: "w_db w = with_row row db"
    and surf: "ev_surface e" "\<And>n c. ev_open e n c = Inr ref"
    and det: "summarize args (to_approval_fields t) = Inr details"
  shows "\<exists>out c n w'. run_state (advance_received e cl tool op args corr reason key row (Some t)) w = (Inr out, w')
    \<and> oc_status out = O_PENDING \<and> oc_request_id out = Some k \<and> oc_reused out = False
    \<and> w_log w' = w_log w \<and> w_limiter w' = w_limiter w \<and> w_cards w' = w_cards w @ [c] \<and> card_request_id c = k
    \<and> card_details c = Some details \<and> waits (w_db w') c ref (ev_clock e n + ev_ttl e)"
proof -
  have rest: "(if to_type t = ''rest'' then validate_rest_arguments (ev_rest_body_max e) t args else None) = None"
    using c by (simp add: callable_def)
  have id: "rq_id row = k" by (simp add: row k_def)
  have req: "request (with_row row db) k = Some row"
    unfolding k_def by (rule request_with_row) (simp add: row)
  have "\<exists>w1. run_state (advance_received e cl tool op args corr reason key row (Some t)) w
      = run_state (open_approval e k (cl_name cl) tool op t args corr) w1 \<and> logged w w1"
    unfolding advance_received_def Let_def option.case rest id
    by (cases reason; simp add: run_simps q w review; rule exI, rule conjI, rule refl, rule logged_at [OF w])
  then obtain w1 where w1: "logged w w1" and run: "run_state (advance_received e cl tool op args corr reason key row (Some t)) w
      = run_state (open_approval e k (cl_name cl) tool op t args corr) w1" by blast
  from loggedD [OF w1] obtain a where db1: "w_db w1 = log_to a (with_row row db)" and same: "w_log w1 = w_log w"
    "w_limiter w1 = w_limiter w" "w_cards w1 = w_cards w" by (auto simp: w)
  have "request (w_db w1) k = Some row" by (simp add: db1 req)
  moreover have "find (\<lambda>a. ap_request_id a = k) (st_approvals (w_db w1)) = None"
    using no_approval_yet [OF ok] by (simp add: db1 k_def)
  ultimately show ?thesis
    using run_open_approval [OF q surf det, of w1 k row "cl_name cl" tool op corr] same unfolding run by simp
qed

section \<open>A small installation\<close>

text \<open>One tool with one operation, one caller with one token, and one rule.\<close>

definition demo_catalog :: catalog where
  "demo_catalog = [(''echo'', \<lparr>te_port = 7000, te_type = ''api'',
     te_ops = [(''say'', \<lparr>om_risk = JStr ''low'', om_description = JStr '''', om_args = JList [],
                          om_approval_fields = Some [], om_rest = None\<rparr>)],
     te_manifest_path = ''m'', te_manifest_digest = ''raw''\<rparr>)]"

definition demo_env :: env where
  "demo_env = \<lparr>ev_sha = id, ev_catalog = demo_catalog, ev_clock = (\<lambda>_. 5), ev_rng = (\<lambda>_. ''n''),
     ev_files = (\<lambda>_ _. Some ''raw''), ev_admin = (\<lambda>_. []), ev_surface = True,
     ev_open = (\<lambda>_ c. Inr ''ref''),
     ev_poll = (\<lambda>_ _. Inr \<lparr>ss_outcome = SApproved, ss_approver = Some ''ana'', ss_note = None, ss_decided_at = None\<rparr>),
     ev_execute = (\<lambda>_ _ args _ _. ExecOk args), ev_ttl = 300, ev_rest_body_max = 1000,
     ev_observation = ''o''\<rparr>"

definition demo_caller :: caller where
  "demo_caller = \<lparr>cl_id = 1, cl_name = ''bot'', cl_token_hash = Some ''t''\<rparr>"

definition demo_store :: "string \<Rightarrow> store" where
  "demo_store eff = (init_store ''u'')\<lparr>
     st_callers := [\<lparr>cr_id = 1, cr_name = ''bot'', cr_created_at = 0, cr_revoked_at = None\<rparr>],
     st_tokens := [\<lparr>tk_hash = ''t'', tk_caller_id = 1, tk_created_at = 0, tk_revoked_at = None\<rparr>],
     st_policies := [\<lparr>pr_caller_id = 1,
       pr_policy = empty_policy\<lparr>pol_tools := Some [(''echo'', [(''say'', eff)])]\<rparr>, pr_updated_at = 0\<rparr>]\<rparr>"

definition demo_op :: tool_op where
  "demo_op = \<lparr>to_tool = ''echo'', to_op = ''say'', to_risk = JStr ''low'', to_port = 7000, to_type = ''api'',
     to_verb = None, to_path_template = None, to_base_url_host = None, to_body_kind = None,
     to_generation = generation_of id (snd (hd demo_catalog)), to_approval_fields = []\<rparr>"

definition demo_world :: "store \<Rightarrow> world" where
  "demo_world db = \<lparr>w_db = db, w_tick = 0, w_limiter = None, w_log = [], w_cards = []\<rparr>"

lemmas demo_defs = demo_env_def demo_caller_def demo_store_def demo_world_def init_store_def

lemma demo_quiet: "quiet demo_env"
  by (simp add: quiet_def demo_env_def)

lemma demo_lookup: "lookup (ev_sha demo_env) (ev_files demo_env n) (ev_catalog demo_env) ''echo'' ''say'' = Some demo_op"
  by (simp add: demo_env_def demo_op_def demo_catalog_def lookup_def)

lemma demo_generation: "to_generation demo_op \<noteq> []"
  by (simp add: demo_op_def generation_of_def demo_catalog_def entry_json_def dumps_sorted_def)

lemma demo_live: "live (demo_store eff) 1 (Some demo_caller)"
  by (simp add: live_def caller_row_by_id_def demo_defs)

lemma demo_callable: "callable demo_env demo_caller ''echo'' ''say'' demo_op (JObj []) (w_db (demo_world (demo_store eff)))"
  unfolding callable_def
  using demo_live demo_generation demo_lookup
  by (simp add: demo_world_def demo_caller_def is_obj_def demo_op_def) (simp add: demo_store_def init_store_def)

lemma demo_store_ok: "store_ok (demo_store eff)"
  by (simp add: store_ok_def keys_ok_def refs_ok_def idem_ok_def cleared_ok_def demo_defs)

lemma demo_fresh_key: "fresh_key (w_db (demo_world (demo_store eff))) demo_caller None"
  by (simp add: fresh_key_def validate_idempotency_key_def prior_request_def)

lemma demo_policy:
  "policy_for (w_db (demo_world (demo_store eff))) (cl_id demo_caller) = empty_policy\<lparr>pol_tools := Some [(''echo'', [(''say'', eff)])]\<rparr>"
  by (simp add: policy_for_def demo_defs)

definition demo_headers :: "(string \<times> string) list" where
  "demo_headers = [(''Authorization'', ''Bearer t'')]"

lemma demo_auth:
  "authenticate (ev_sha demo_env) (w_db (demo_world (demo_store ''allow''))) (map_of (lower_headers demo_headers) ''authorization'')
     = Some demo_caller"
  by code_simp

lemma demo_request: "action_request demo_headers (JObj []) ''echo'' ''say'' (JObj []) None"
  by code_simp

lemma demo_allow: "decide (policy_for (w_db (demo_world (demo_store ''allow''))) (cl_id demo_caller)) ''echo'' ''say'' = ALLOW"
  unfolding demo_policy by code_simp

lemma demo_limiter: "w_limiter (demo_world db) = None"
  by (simp add: demo_world_def)

lemma demo_next: "next_rowid rq_id (st_requests (w_db (demo_world (demo_store eff)))) = 1"
  by (simp add: demo_defs next_rowid_def)

lemma demo_path: "actions_prefix @ ''echo'' @ CHR ''.'' # ''say'' = ''/v1/actions/echo.say''"
  by (simp add: actions_prefix_def)

lemma demo_runs:
  "\<exists>r w'. run_state (handle demo_env ''POST'' ''/v1/actions/echo.say'' demo_headers (JObj [])) (demo_world (demo_store ''allow'')) = (Inr r, w')
     \<and> w_log w' = [dispatched 1 demo_op (JObj []) (Some ''bot'')]"
  using handle_allow_runs [OF demo_quiet demo_limiter demo_auth demo_request demo_callable demo_fresh_key demo_allow]
  unfolding demo_next demo_path executed_def by (auto simp: demo_caller_def) (simp add: demo_world_def)

text \<open>The same installation with a request under review.\<close>

definition demo_pending :: request_row where
  "demo_pending = (new_reserved demo_env demo_caller ''c'' ''echo'' ''say'' demo_op (JObj []) None None 0
     (demo_store ''review''))\<lparr>rq_status := PendingApproval\<rparr>"

definition demo_approval :: approval_row where
  "demo_approval = \<lparr>ap_id = 1, ap_request_id = rq_id demo_pending, ap_surface_ref = ''ref'', ap_status = APending,
     ap_expires_at = 305, ap_approver = None, ap_note = None, ap_decided_at = None, ap_created_at = 5,
     ap_digest = rq_digest demo_pending\<rparr>"

definition demo_waiting :: store where
  "demo_waiting = (demo_store ''review'')\<lparr>st_requests := [demo_pending], st_approvals := [demo_approval]\<rparr>"

lemma demo_bound: "bound id demo_pending (to_generation demo_op) fresh"
proof -
  have "bound (ev_sha demo_env) (new_reserved demo_env demo_caller ''c'' ''echo'' ''say'' demo_op (JObj []) None None 0
      (demo_store ''review'')) (to_generation demo_op) fresh"
    by (rule new_reserved_bound) simp_all
  then have "bound (ev_sha demo_env) demo_pending (to_generation demo_op) fresh" unfolding demo_pending_def by simp
  moreover have "ev_sha demo_env = id" by (simp add: demo_env_def)
  ultimately show ?thesis by simp
qed

lemma demo_digest: "rq_digest demo_pending \<noteq> None" "rq_digest demo_pending \<noteq> Some []"
  by (simp_all add: demo_pending_def new_reserved_def reserved_row_def demo_env_def action_value_def)

lemma demo_approvable:
  "approvable demo_env (Some demo_caller) demo_pending demo_approval demo_op (w_db (demo_world demo_waiting))"
proof -
  have same: "live demo_waiting c clo = live (demo_store ''review'') c clo" "policy_for demo_waiting c = policy_for (demo_store ''review'') c"
    for c clo by (simp_all add: demo_waiting_def live_def caller_row_by_id_def active_token_count_def policy_for_def
      split: option.split)
  have pol: "policy_for (demo_store ''review'') 1 = empty_policy\<lparr>pol_tools := Some [(''echo'', [(''say'', ''review'')])]\<rparr>"
    using demo_policy [of "''review''"] by (simp add: demo_world_def demo_caller_def)
  have fields: "rq_caller_id demo_pending = 1" "rq_tool demo_pending = ''echo''" "rq_op demo_pending = ''say''"
    "rq_status demo_pending = PendingApproval" "rq_generation demo_pending = Some (to_generation demo_op)"
    "rq_policy_binding demo_pending = Some (policy_text (policy_for (demo_store ''review'') 1))"
    by (simp_all add: demo_pending_def) (simp_all add: demo_caller_def)
  have "approval_valid (ev_sha demo_env) demo_waiting demo_pending demo_approval (Some (to_generation demo_op))
      (ev_clock demo_env n) (Some demo_caller) (ev_rng demo_env m)" for n m
    using demo_generation demo_bound demo_digest demo_live [of "''review''"]
    by (simp add: approval_valid_def fields same demo_approval_def demo_env_def pol decide_def empty_policy_def
        dict_get_def norm_effect_def)
  moreover have "request demo_waiting (rq_id demo_pending) = Some demo_pending"
    "approval_for_request demo_waiting (rq_id demo_pending) = Some demo_approval"
    by (simp_all add: demo_waiting_def request_def approval_for_request_def demo_approval_def)
  ultimately show ?thesis using demo_lookup by (simp add: approvable_def demo_world_def fields)
qed

section \<open>Properties\<close>






text \<open>C7: An approval is honoured: if the surface approves a pending request whose approval, caller,
  policy, operation and digest are still valid, and no other process writes meanwhile, then asking
  for its status calls the tool exactly once, with the arguments stored when it was submitted, and
  ends the request as the tool answered.\<close>

theorem approved_request_executes:
  fixes w :: world
  assumes "quiet e" "approvable e cl req a t (w_db w)" "ev_surface e"
    "\<forall>n. ev_poll e n (ap_surface_ref a) = Inr st" "ss_outcome st = SApproved"
  shows "\<exists>n out w' r cname. run_state (resolve_request e (rq_id req) cl) w = (Inr out, w')
    \<and> w_log w' = w_log w @ [\<lparr>dp_request_id = rq_id req, dp_op = t,
         dp_arguments = the_or (JObj []) (rq_arguments req), dp_caller = cname\<rparr>]
    \<and> request (w_db w') (rq_id req) = Some r
    \<and> (oc_status out, rq_status r) = (case ev_execute e n t (the_or (JObj []) (rq_arguments req)) (rq_id req) cname of
         ExecOk _ \<Rightarrow> (O_OK, Completed) | ExecNotDispatched _ \<Rightarrow> (O_FAILED, Failed) | ExecRaised _ \<Rightarrow> (O_UNKNOWN, Unknown))"
  using resolve_approved_runs [OF assms(1-3) _ assms(5)] assms(4) unfolding exec_status_def dispatched_def by blast

theorem approved_request_executes_witness:
  "\<exists>out w' r cname. run_state (resolve_request demo_env (rq_id demo_pending) (Some demo_caller)) (demo_world demo_waiting) = (Inr out, w')
     \<and> w_log w' = [\<lparr>dp_request_id = rq_id demo_pending, dp_op = demo_op,
          dp_arguments = the_or (JObj []) (rq_arguments demo_pending), dp_caller = cname\<rparr>]
     \<and> request (w_db w') (rq_id demo_pending) = Some r \<and> rq_status r = Completed"
proof -
  let ?st = "\<lparr>ss_outcome = SApproved, ss_approver = Some ''ana'', ss_note = None, ss_decided_at = None\<rparr>"
  have "ev_surface demo_env" "\<forall>n. ev_poll demo_env n (ap_surface_ref demo_approval) = Inr ?st" "ss_outcome ?st = SApproved"
    by (simp_all add: demo_env_def)
  from approved_request_executes [OF demo_quiet demo_approvable this] show ?thesis
    by (auto simp: demo_env_def demo_world_def)
qed

end
