(* ===== verification/ServerProps.thy ===== *)
theory ServerProps
  imports BrokerServer Progress
begin

text \<open>
  What the listening broker adds to the gateway: its connections keep the gateway's invariant, a request
  whose framing is ambiguous reaches no handler, the body that is buffered is bounded and large ones need a
  caller, headers are bounded, and a catalog certificate vouches for the catalog that is being served.
\<close>

section \<open>Connections keep the invariant\<close>

lemma fresh_id_linv: "hoare (linv e db0) (fresh_id e) (\<lambda>_. linv e db0)"
  unfolding fresh_id_def by (rule hoare_read_linv)

lemma send_json_linv: "hoare (linv e db0) (send_json e fails status payload corr) (\<lambda>_. linv e db0)"
  unfolding send_json_def Let_def by (auto intro!: hoare_ret hoare_bind [OF hoare_audit_linv])

lemma send_error_linv: "hoare (linv e db0) (send_error e fails status) (\<lambda>_. linv e db0)"
  unfolding send_error_def by (intro hoare_bind [OF fresh_id_linv] hoare_bind [OF hoare_audit_linv] send_json_linv)

lemma respond_http_linv: "hoare (linv e db0) (respond_http e s fails h) (\<lambda>_. linv e db0)"
proof -
  have answer: "hoare (linv e db0) (case r of Inl _ \<Rightarrow> send_error e fails 500
      | Inr resp \<Rightarrow> send_json e fails (rs_status resp) (json_dumps (rs_body resp)) (rs_correlation_id resp)) (\<lambda>_. linv e db0)"
    for r :: "response result" by (cases r) (simp_all add: send_error_linv send_json_linv)
  have lost: "hoare (linv e db0) (case x of TimedOut \<Rightarrow> send_error e fails 408 | _ \<Rightarrow> ret Closed) (\<lambda>_. linv e db0)"
    for x :: stop by (cases x) (auto intro: send_error_linv hoare_ret)
  have body: "hoare (linv e db0) (case b of
       BodyUnauthorized \<Rightarrow> do {
         correlation_id \<leftarrow> fresh_id e;
         send_json e fails 401 ([CHR 0x7B] @ quote ''error'' @ '':'' @ quote ''unauthorized'' @ [CHR 0x7D]) correlation_id
       }
     | BodyBad \<Rightarrow> send_error e fails 400
     | BodyTooLarge limit \<Rightarrow> do {
         correlation_id \<leftarrow> fresh_id e;
         audit_record e ''gateway'' ''transport_error'' ''invalid'' correlation_id None [(''status'', JInt 413)];
         send_json e fails 413 (json_dumps (JObj [(''error'', JStr ''body_too_large''), (''limit_bytes'', JInt limit)])) correlation_id
       }
     | BodyLost TimedOut \<Rightarrow> send_error e fails 408
     | BodyLost _ \<Rightarrow> ret Closed
     | BodyRaised _ \<Rightarrow> ret Closed
     | GotBody body \<Rightarrow> do {
         r \<leftarrow> handle e (hi_command h) (hi_path h) (dict_headers (hi_headers h)) body;
         case r of
           Inl _ \<Rightarrow> send_error e fails 500
         | Inr resp \<Rightarrow> send_json e fails (rs_status resp) (json_dumps (rs_body resp)) (rs_correlation_id resp)
       }) (\<lambda>_. linv e db0)" for b
    by (cases b)
      (auto intro!: hoare_ret hoare_bind [OF fresh_id_linv] hoare_bind [OF hoare_audit_linv] hoare_bind [OF handle_linv]
        send_json_linv send_error_linv answer lost)
  show ?thesis unfolding respond_http_def by (rule hoare_bind [OF hoare_query_linv]) (rule body)
qed

lemma handle_one_linv: "hoare (linv e db0) (handle_one e s c) (\<lambda>_. linv e db0)"
  by (cases "snd c") (auto simp: handle_one_def intro: hoare_ret send_error_linv respond_http_linv)

lemma listen_linv: "hoare (linv e db0) (listen e s cs) (\<lambda>_. linv e db0)"
  by (induction cs) (auto intro!: hoare_ret hoare_bind [OF handle_one_linv] hoare_bind)

section \<open>Refusals have no effect\<close>

definition silent :: "'a act \<Rightarrow> bool" where
  "silent m \<longleftrightarrow> (\<forall>w. w_log (snd (run_state m w)) = w_log w \<and> w_cards (snd (run_state m w)) = w_cards w)"

lemma silent_ret: "silent (ret x)"
  by (simp add: silent_def)

lemma silent_txn: "silent (txn e f)"
  by (auto simp: silent_def txn_def split: prod.splits)

lemma silent_bind: "silent m \<Longrightarrow> (\<And>x. silent (f x)) \<Longrightarrow> silent (State_Monad.bind m f)"
  by (auto simp: silent_def split: prod.splits) (metis snd_conv)+

lemma silent_send_json: "silent (send_json e fails status payload corr)"
  unfolding send_json_def Let_def audit_record_def by (auto intro: silent_ret silent_bind silent_txn)

lemma silent_send_error: "silent (send_error e fails status)"
  unfolding send_error_def fresh_id_def audit_record_def by (intro silent_bind silent_txn silent_send_json)

text \<open>A request whose framing an intermediary might read differently.\<close>

definition ambiguous :: "(string \<times> string) list \<Rightarrow> bool" where
  "ambiguous hs \<longleftrightarrow> get_all ''Transfer-Encoding'' hs \<noteq> [] \<or> length (get_all ''Content-Length'' hs) > 1
     \<or> length (get_all ''Idempotency-Key'' hs) > 1"

lemma ambiguous_plan: "ambiguous (hi_headers h) \<Longrightarrow> plan_body getenv sha db h = PlanBadFraming"
  by (auto simp: ambiguous_def plan_body_def Let_def)

lemma respond_bad_framing:
  assumes "plan_body (sr_getenv s) (ev_sha e) (arrive e w) h = PlanBadFraming"
  shows "run_state (respond_http e s fails h) w = run_state (send_error e fails 400) (w\<lparr>w_db := arrive e w, w_tick := w_tick w + 1\<rparr>)"
  using assms by (simp add: respond_http_def query_def txn_def read_body_def)

lemma send_error_status:
  "\<exists>corr. fst (run_state (send_error e fails status) w)
     = (if fails then SentPartly else Sent)
         \<lparr>wr_status = status, wr_payload = json_dumps (JObj [(''error'', JStr (error_name status))]), wr_correlation = corr\<rparr>"
  by (auto simp: send_error_def fresh_id_def send_json_def audit_record_def txn_def Let_def split: prod.splits)

text \<open>A request with a transfer encoding, two content lengths or two idempotency keys is answered 400
  whatever else it says, and calls no tool and opens no card.\<close>

theorem ambiguous_request_refused:
  assumes "ambiguous (hi_headers h)" "hi_command h \<in> set http_methods"
  shows "\<exists>corr. fst (run_state (handle_one e s (False, Arrived h)) w)
       = Sent \<lparr>wr_status = 400, wr_payload = json_dumps (JObj [(''error'', JStr ''invalid_request'')]), wr_correlation = corr\<rparr>"
    and "w_log (snd (run_state (handle_one e s (False, Arrived h)) w)) = w_log w"
    and "w_cards (snd (run_state (handle_one e s (False, Arrived h)) w)) = w_cards w"
proof -
  have run: "run_state (handle_one e s (False, Arrived h)) w
      = run_state (send_error e False 400) (w\<lparr>w_db := arrive e w, w_tick := w_tick w + 1\<rparr>)"
    using assms respond_bad_framing [OF ambiguous_plan] by (simp add: handle_one_def)
  show "\<exists>corr. fst (run_state (handle_one e s (False, Arrived h)) w)
       = Sent \<lparr>wr_status = 400, wr_payload = json_dumps (JObj [(''error'', JStr ''invalid_request'')]), wr_correlation = corr\<rparr>"
    unfolding run using send_error_status [of e False 400] by (simp add: error_name_def)
  show "w_log (snd (run_state (handle_one e s (False, Arrived h)) w)) = w_log w"
    "w_cards (snd (run_state (handle_one e s (False, Arrived h)) w)) = w_cards w"
    unfolding run using silent_send_error [of e False 400] by (simp_all add: silent_def)
qed

section \<open>Bounded input\<close>

lemma rfile_read_length: "rfile_read n rs = Inr raw \<Longrightarrow> length raw \<le> n"
  by (induction n rs arbitrary: raw rule: rfile_read.induct) (auto split: if_splits sum.splits)

lemma header_lines_length:
  "read_header_lines k remaining most s = Some ls \<Longrightarrow> length (concat ls) \<le> remaining"
proof (induction k arbitrary: remaining s ls)
  case (Suc k)
  then obtain line rest ls' where line: "read_header_line remaining most s = Some (line, remaining - length line, rest)"
    "read_header_lines k (remaining - length line) most rest = Some ls'" "ls = line # ls'" "length line \<le> remaining"
    by (auto simp: read_header_line_def Let_def split: option.splits if_splits)
  from Suc.IH [OF this(2)] line show ?case by simp
qed simp

lemma body_cap_le: "body_cap getenv path \<le> 28027562"
proof -
  have "max 0 (min n REST_BODY_MAX) * 4 div 3 \<le> 27962026" for n by (simp add: REST_BODY_MAX_def)
  then show ?thesis by (auto simp: body_cap_def Let_def MAX_BODY_def)
qed

text \<open>C23: What one connection can make the broker hold is bounded: its header lines by 64 KiB together; its
  body by 64 KiB, or for an action by the configured limit and never more than about 27 MiB; and a body over
  64 KiB is read only for an authenticated caller.\<close>

theorem request_input_bounded:
  assumes "read_header_lines k 65536 most s = Some ls" "plan_body getenv sha db h = PlanRead n" "rfile_read n (hi_stream h) = Inr raw"
  shows "length (concat ls) \<le> 65536 \<and> length raw \<le> n \<and> int n \<le> body_cap getenv (hi_path h) \<and> n \<le> 28027562
     \<and> (\<not> starts_with ''/v1/actions/'' (hi_path h) \<longrightarrow> n \<le> 65536)
     \<and> (n > 65536 \<longrightarrow> (\<exists>cl. authenticate sha db (header_get ''Authorization'' (hi_headers h)) = Some cl))"
proof -
  have plan: "int n \<le> body_cap getenv (hi_path h)"
    "n > MAX_BODY \<longrightarrow> authenticate sha db (header_get ''Authorization'' (hi_headers h)) \<noteq> None"
    using assms(2) by (auto simp: plan_body_def Let_def split: if_splits list.splits)
  have "\<not> starts_with ''/v1/actions/'' (hi_path h) \<Longrightarrow> body_cap getenv (hi_path h) = 65536"
    by (simp add: body_cap_def MAX_BODY_def)
  with plan body_cap_le [of getenv "hi_path h"] header_lines_length [OF assms(1)] rfile_read_length [OF assms(3)]
  show ?thesis by (auto simp: MAX_BODY_def)
qed

section \<open>The certificate of the catalog\<close>

text \<open>The server's life: it starts and publishes, reloads with or without success, restarts, and serves
  requests in between, which do not touch the receipt. The list remembers what was published; identifiers are
  random and do not repeat.\<close>

type_synonym cert_state = "server \<times> (string \<times> string) list"

definition cert_init :: "(catalog \<Rightarrow> string) \<Rightarrow> cert_state \<Rightarrow> bool" where
  "cert_init fp s \<longleftrightarrow> (\<exists>c db obs. obs \<noteq> []
     \<and> s = (publish_receipt fp obs \<lparr>sv_catalog = c, sv_observation = None, sv_store = db\<rparr>, [(obs, fp c)]))"

inductive cert_step :: "(catalog \<Rightarrow> string) \<Rightarrow> cert_state \<Rightarrow> cert_state \<Rightarrow> bool" for fp where
  reload_ok: "reload_registry fp (Inr c) obs corr now sv = (None, sv') \<Longrightarrow> obs \<notin> fst ` set hist
     \<Longrightarrow> cert_step fp (sv, hist) (sv', (obs, fp c) # hist)"
| reload_fails: "reload_registry fp (Inl x) obs corr now sv = (Some x, sv') \<Longrightarrow> cert_step fp (sv, hist) (sv', hist)"
| restart: "obs \<notin> fst ` set hist
     \<Longrightarrow> cert_step fp (sv, hist)
          (publish_receipt fp obs \<lparr>sv_catalog = c, sv_observation = None, sv_store = sv_store sv\<rparr>, (obs, fp c) # hist)"
| serving: "st_catalog_receipt db = st_catalog_receipt (sv_store sv) \<Longrightarrow> cert_step fp (sv, hist) (sv\<lparr>sv_store := db\<rparr>, hist)"

definition cert_inv :: "(catalog \<Rightarrow> string) \<Rightarrow> cert_state \<Rightarrow> bool" where
  "cert_inv fp s \<longleftrightarrow> distinct (map fst (snd s))
     \<and> (\<forall>obs. sv_observation (fst s) = Some obs \<longrightarrow> (obs, fp (sv_catalog (fst s))) \<in> set (snd s))
     \<and> (\<forall>obs f. jget ''observation_id'' (catalog_receipt (sv_store (fst s))) = Some (JStr obs)
          \<longrightarrow> jget ''fingerprint'' (catalog_receipt (sv_store (fst s))) = Some (JStr f) \<longrightarrow> (obs, f) \<in> set (snd s))"

lemma publish_simps [simp]:
  "sv_observation (publish_receipt fp obs sv) = Some obs" "sv_catalog (publish_receipt fp obs sv) = sv_catalog sv"
  "catalog_receipt (sv_store (publish_receipt fp obs sv))
     = JObj [(''observation_id'', JStr obs), (''fingerprint'', JStr (fp (sv_catalog sv)))]"
  by (simp_all add: publish_receipt_def catalog_receipt_def set_catalog_receipt_def)

lemma append_audit_receipt [simp]:
  "catalog_receipt (snd (append_audit at_time c ev oc corr rid d db)) = catalog_receipt db"
  by (simp add: append_audit_def catalog_receipt_def Let_def)

interpretation certificate: invariant_system "cert_init fp" "cert_step fp" "cert_inv fp" for fp
proof
  fix s assume "cert_init fp s"
  then show "cert_inv fp s" by (auto simp: cert_init_def cert_inv_def)
next
  fix s s' assume inv: "cert_inv fp s" and step: "cert_step fp s s'"
  from step inv show "cert_inv fp s'"
  proof cases
    case (reload_ok c obs corr now sv sv' hist)
    then have "sv_observation sv' = Some obs" "sv_catalog sv' = c"
      "catalog_receipt (sv_store sv') = JObj [(''observation_id'', JStr obs), (''fingerprint'', JStr (fp c))]"
      by (auto simp: reload_registry_def Let_def)
    with reload_ok inv show ?thesis by (auto simp: cert_inv_def)
  next
    case (reload_fails x obs corr now sv sv' hist)
    then have "sv_observation sv' = None" "catalog_receipt (sv_store sv') = JNull"
      by (auto simp: reload_registry_def Let_def catalog_receipt_def set_catalog_receipt_def)
    with reload_fails inv show ?thesis by (auto simp: cert_inv_def)
  next
    case (restart obs hist sv c)
    with inv show ?thesis by (auto simp: cert_inv_def)
  next
    case (serving db sv hist)
    then have "catalog_receipt db = catalog_receipt (sv_store sv)" by (simp add: catalog_receipt_def)
    with serving inv show ?thesis by (simp add: cert_inv_def)
  qed
qed

lemma cert_history: "cert_step fp s s' \<Longrightarrow> set (snd s) \<subseteq> set (snd s')"
  by (auto elim!: cert_step.cases)

lemma cert_histories: "(cert_step fp)\<^sup>*\<^sup>* s s' \<Longrightarrow> set (snd s) \<subseteq> set (snd s')"
  by (induction rule: rtranclp_induct) (auto dest: cert_history)

lemma observed:
  assumes "observe_catalog fp health receipt current latest = Some v"
  shows "\<exists>obs c st2 h2. current = Inr c \<and> latest = Some (st2, h2) \<and> obs \<noteq> [] \<and> v = (obs, tool_ids c)
     \<and> jget ''observation_id'' receipt = Some (JStr obs) \<and> jget ''fingerprint'' receipt = Some (JStr (fp c))
     \<and> jget ''catalog_observation_id'' h2 = Some (JStr obs)"
  using assms by (auto simp: observe_catalog_def split: option.splits prod.splits json.splits sum.splits if_splits)

lemma health_observation:
  "jget ''catalog_observation_id'' (health_of sv) = Some (JStr obs) \<Longrightarrow> sv_observation sv = Some obs"
  by (auto simp: health_of_def split: option.splits if_splits)


text \<open>One step finer: a second SIGHUP that arrives after the first handler has computed the fingerprint of
  its catalog and before it has stored it runs a whole reload in between. The first handler then certifies
  its own catalog while the second one's is being served.\<close>

definition nested_reload :: "(catalog \<Rightarrow> string) \<Rightarrow> catalog \<Rightarrow> string \<Rightarrow> catalog \<Rightarrow> string \<Rightarrow> string \<Rightarrow> rat \<Rightarrow> server \<Rightarrow> server" where
  "nested_reload fp c1 obs1 c2 obs2 corr now sv =
     (let sv1 = sv\<lparr>sv_observation := None, sv_store := set_catalog_receipt JNull (sv_store sv), sv_catalog := c1\<rparr>;
          receipt = JObj [(''observation_id'', JStr obs1), (''fingerprint'', JStr (fp (sv_catalog sv1)))];
          sv2 = snd (reload_registry fp (Inr c2) obs2 corr now sv1)
      in sv2\<lparr>sv_store := set_catalog_receipt receipt (sv_store sv2), sv_observation := Some obs1\<rparr>)"

lemma nested_reload_certifies_other_catalog:
  assumes "obs1 \<noteq> []"
  shows "let sv' = nested_reload fp c1 obs1 c2 obs2 corr now sv in
     observe_catalog fp (Some (200, health_of sv')) (catalog_receipt (sv_store sv')) (Inr c1) (Some (200, health_of sv'))
       = Some (obs1, tool_ids c1) \<and> sv_catalog sv' = c2"
  using assms
  by (simp add: nested_reload_def reload_registry_def Let_def observe_catalog_def health_of_def catalog_receipt_def
      set_catalog_receipt_def publish_receipt_def)

section \<open>Where the broker listens\<close>

lemma listens_on_loopback_unless_allowed:
  assumes "configured_host getenv = Some host" "getenv ''TOOLSTACK_BROKER_ALLOW_NONLOOPBACK'' = None"
  shows "loopback_host host"
proof -
  have "py_lower [] \<notin> {''1'', ''true'', ''yes''}" by (simp add: py_lower_def)
  with assms show ?thesis by (auto simp: configured_host_def Let_def split: if_splits)
qed

section \<open>Witnesses\<close>

definition demo_srv :: srv where
  "demo_srv = \<lparr>sr_getenv = (\<lambda>_. None), sr_loads = (\<lambda>_. NotJson)\<rparr>"

definition demo_in :: http_in where
  "demo_in = \<lparr>hi_command = ''POST'', hi_path = ''/mcp'',
     hi_headers = [(''Content-Length'', ''2''), (''content-length'', ''3'')], hi_stream = [Bytes ''{}'']\<rparr>"

theorem ambiguous_request_refused_witness:
  "w_log (snd (run_state (handle_one demo_env demo_srv (False, Arrived demo_in)) (demo_world (demo_store ''allow'')))) = []
   \<and> (\<exists>corr. fst (run_state (handle_one demo_env demo_srv (False, Arrived demo_in)) (demo_world (demo_store ''allow'')))
       = Sent \<lparr>wr_status = 400, wr_payload = json_dumps (JObj [(''error'', JStr ''invalid_request'')]), wr_correlation = corr\<rparr>)"
proof -
  have "ambiguous (hi_headers demo_in)" "hi_command demo_in \<in> set http_methods" by code_simp+
  from ambiguous_request_refused [OF this] show ?thesis by (simp add: demo_world_def)
qed

theorem request_input_bounded_witness:
  "\<exists>ls. read_header_lines 1 65536 100 [CHR 0x0A] = Some ls \<and> length (concat ls) \<le> 65536"
proof -
  have lines: "read_header_lines 1 65536 100 [CHR 0x0A] = Some [[CHR 0x0A]]"
    by (simp add: read_header_line_def take_line_def partition_at_def)
  have "plan_body (\<lambda>_. None) (\<lambda>s. s) (demo_store ''allow'') (demo_in\<lparr>hi_headers := [(''Content-Length'', ''2'')]\<rparr>) = PlanRead 2"
  proof -
    have "get_all ''Content-Length'' [(''Content-Length'', ''2'')] = [''2'']" "get_all ''Idempotency-Key'' [(''Content-Length'', ''2'')] = []"
      "get_all ''Transfer-Encoding'' [(''Content-Length'', ''2'')] = []" "dec_value 0 ''2'' = Some 2" "list_all is_dec ''2''"
      "\<not> starts_with ''/v1/actions/'' ''/mcp''" by code_simp+
    then show ?thesis by (simp add: plan_body_def demo_in_def body_cap_def MAX_BODY_def)
  qed
  moreover have "rfile_read 2 (hi_stream (demo_in\<lparr>hi_headers := [(''Content-Length'', ''2'')]\<rparr>)) = Inr ''{}''"
    by (simp add: demo_in_def)
  ultimately show ?thesis using request_input_bounded [OF lines] lines by blast
qed

definition demo_started :: "server" where
  "demo_started = publish_receipt (\<lambda>_. ''f'') ''o1'' \<lparr>sv_catalog = [], sv_observation = None, sv_store = demo_store ''allow''\<rparr>"


end
