(* ===== verification/NodProps.thy ===== *)
theory NodProps
  imports Nod
begin

text \<open>
  What the approval surface promises: an approval is read only from an answer about the card that was asked
  for, resolved with the exact pair issued for approval; and the idempotency key of a card names one
  installation and one request.
\<close>

section \<open>Identifiers at any depth\<close>

fun subvalues :: "json \<Rightarrow> json list" where
  "subvalues (JList xs) = JList xs # concat (map subvalues xs)"
| "subvalues (JObj d) = JObj d # concat (map (\<lambda>kv. subvalues (snd kv)) d)"
| "subvalues v = [v]"

definition ids_agree :: "string \<Rightarrow> json \<Rightarrow> bool" where
  "ids_agree ref v \<longleftrightarrow> (\<forall>d. v = JObj d \<longrightarrow> (\<forall>(k, x) \<in> set d.
     (k = ''request_id'' \<longrightarrow> x = JStr ref) \<and> (k = ''request'' \<and> is_obj x \<longrightarrow> jget ''id'' x \<in> {None, Some (JStr ref)})))"

lemma matching_ids_iff: "matching_ids v ref \<longleftrightarrow> (\<forall>u \<in> set (subvalues v). ids_agree ref u)"
proof (induction v ref rule: matching_ids.induct)
  case (1 d ref)
  have "(\<forall>u \<in> set (subvalues (JObj d)). ids_agree ref u)
      \<longleftrightarrow> ids_agree ref (JObj d) \<and> (\<forall>kv \<in> set d. matching_ids (snd kv) ref)" using 1 by auto
  then show ?case by (auto simp: ids_agree_def list_all_iff split_def)
next
  case (2 xs ref)
  then show ?case by (auto simp: ids_agree_def list_all_iff)
qed (auto simp: ids_agree_def)

lemma to_state_approved:
  "ns_outcome (to_state v) = SApproved \<longleftrightarrow>
     jget ''status'' v = Some (JStr ''resolved'')
     \<and> (\<exists>dec. jget ''decision'' v = Some dec \<and> is_obj dec \<and> jget ''option_id'' dec = Some (JStr ''approve'')
           \<and> jget ''option_kind'' dec = Some (JStr ''approve''))"
  by (auto simp: to_state_def Let_def bare_state_def jget_or_def jget0_def is_obj_def split: option.splits json.splits if_splits)

lemma nod_call_Inr:
  assumes "nod_call n e meth path body w = (Inr v, w')"
  shows "\<exists>st hs rs. nw_log w' = nw_log w @ [(nod_request_to n meth path body, Reply st hs rs)] \<and> status_ok st
     \<and> snd (chunk_list nod_response_max rs) = Eof
     \<and> nod_decode (ne_loads e) (concat (fst (chunk_list nod_response_max rs))) = Inr v"
  using assms
  by (auto simp: nod_call_def nod_reply_def nod_stop_def Let_def split: if_splits prod.splits net_result.splits option.splits stop.splits)

text \<open>The adapter reads an approval only from the answer of the service to one request, for the
  decision on exactly this card: a success within the size limit, a JSON object whose identifiers at any
  depth are this card's, resolved, and decided by the pair (approve, approve).\<close>

lemma nod_poll_approved:
  assumes "nod_poll n e ref w = (Inr st, w')" "ns_outcome st = SApproved"
  shows "\<exists>code hs rs v dec.
     nw_log w' = nw_log w @ [(nod_request_to n ''GET'' (''/api/v1/requests/'' @ ref @ ''/decision'') None, Reply code hs rs)]
     \<and> ref_ok ref \<and> status_ok code
     \<and> nod_decode (ne_loads e) (concat (fst (chunk_list nod_response_max rs))) = Inr v
     \<and> jget ''request_id'' v = Some (JStr ref) \<and> (\<forall>u \<in> set (subvalues v). ids_agree ref u)
     \<and> jget ''status'' v = Some (JStr ''resolved'') \<and> jget ''decision'' v = Some dec
     \<and> jget ''option_id'' dec = Some (JStr ''approve'') \<and> jget ''option_kind'' dec = Some (JStr ''approve'')
     \<and> ns_approver st = jget0 ''actor_user_id'' dec"
proof -
  obtain r w1 where call: "nod_call n e ''GET'' (decision_path ref) None w = (r, w1)" by (cases "nod_call n e ''GET'' (decision_path ref) None w")
  from assms have ref: "ref_ok ref" by (auto simp: nod_poll_def split: if_splits)
  from assms ref call obtain v where v: "r = Inr v" "w1 = w'" "jget0 ''request_id'' v = JStr ref" "matching_ids v ref" "st = to_state v"
    by (auto simp: nod_poll_def bare_state_def split: sum.splits nod_exn.splits if_splits)
  from nod_call_Inr [OF call [unfolded v(1)]] obtain code hs rs where reply:
    "nw_log w1 = nw_log w @ [(nod_request_to n ''GET'' (decision_path ref) None, Reply code hs rs)]" "status_ok code"
    "nod_decode (ne_loads e) (concat (fst (chunk_list nod_response_max rs))) = Inr v" by blast
  from assms(2) v(5) to_state_approved [of v] obtain dec where dec: "jget ''status'' v = Some (JStr ''resolved'')"
    "jget ''decision'' v = Some dec" "is_obj dec" "jget ''option_id'' dec = Some (JStr ''approve'')"
    "jget ''option_kind'' dec = Some (JStr ''approve'')" by blast
  have "jget ''request_id'' v = Some (JStr ref)" using v(3) by (simp add: jget0_def split: option.splits)
  moreover have "ns_approver st = jget0 ''actor_user_id'' dec"
    using dec unfolding v(5) by (simp add: to_state_def jget_or_def jget0_def Let_def)
  ultimately show ?thesis using reply ref v(2) matching_ids_iff [of v ref] v(4) dec unfolding decision_path_def by blast
qed

section \<open>The idempotency key\<close>

lemma length_hex_text [simp]: "length (hex_text k n) = k"
  by (induction k arbitrary: n) auto

lemma hex_text_inject:
  assumes "hex_text k m = hex_text k n" "m < 16 ^ k" "n < 16 ^ k"
  shows "m = n"
  using assms
proof (induction k arbitrary: m n)
  case (Suc k)
  then have "hex_text k (m div 16) = hex_text k (n div 16)" "hex_digit (m mod 16) = hex_digit (n mod 16)" by auto
  moreover from this(2) have "m mod 16 = n mod 16" by (metis unhex_hex_digit mod_less_divisor zero_less_numeral)
  moreover have "m div 16 < 16 ^ k" "n div 16 < 16 ^ k" using Suc.prems by (auto simp: less_mult_imp_div_less)
  ultimately show ?case using Suc.IH by (metis div_mult_mod_eq)
qed simp

lemma hex_number_less:
  assumes "hex_number acc s = Some n" "acc < 16 ^ j"
  shows "n < 16 ^ (j + length s)"
  using assms
proof (induction s arbitrary: acc j)
  case (Cons c s)
  have c: "is_hex c" and r: "hex_number (16 * acc + hex_value c) s = Some n" using Cons.prems by (auto split: if_splits)
  have "hex_value c < 16" using c by (auto simp: hex_value_def char_simps)
  then have "16 * acc + hex_value c < 16 ^ Suc j" using Cons.prems(2) by simp
  from Cons.IH [OF r this] show ?case by simp
qed simp

lemma length_concat_split_on: "length (concat (split_on c s)) \<le> length s"
  by (induction s) (auto split: list.splits)

lemma py_int16_less: "py_int16 s = Inr n \<Longrightarrow> n < 16 ^ length s"
proof -
  assume n: "py_int16 s = Inr n"
  define t1 where "t1 = py_strip s"
  define t2 where "t2 = (if t1 \<noteq> [] \<and> hd t1 = CHR ''+'' then tl t1 else t1)"
  define t3 where "t3 = (if starts_with ''0x'' t2 \<or> starts_with ''0X'' t2
    then (let b = drop 2 t2 in if b \<noteq> [] \<and> hd b = CHR ''_'' then tl b else b) else t2)"
  from n have h: "hex_number 0 (concat (split_on (CHR ''_'') t3)) = Some n"
    unfolding py_int16_def Let_def t3_def t2_def t1_def by (auto split: if_splits option.splits)
  have "length t1 \<le> length s" unfolding t1_def py_strip_def
    using length_dropWhile_le [of is_space s] length_dropWhile_le [of is_space "rev (dropWhile is_space s)"] by simp
  moreover have "length t2 \<le> length t1" "length t3 \<le> length t2" by (auto simp: t2_def t3_def Let_def)
  ultimately have "length (concat (split_on (CHR ''_'') t3)) \<le> length s"
    using length_concat_split_on [of "CHR ''_''" t3] by linarith
  moreover have "n < 16 ^ (0 + length (concat (split_on (CHR ''_'') t3)))" by (rule hex_number_less [OF h]) simp
  moreover have "(16 :: nat) ^ j \<le> 16 ^ k" if "j \<le> k" for j k using that by (rule power_increasing) simp
  ultimately show "n < 16 ^ length s" by (simp add: less_le_trans)
qed

lemma uuid_value_less: "uuid_value s = Inr n \<Longrightarrow> n < 16 ^ 32"
  by (auto simp: uuid_value_def Let_def split: if_splits dest!: py_int16_less)

lemma uuid_text_inject:
  assumes "uuid_text m = uuid_text n" "m < 16 ^ 32" "n < 16 ^ 32"
  shows "m = n"
proof (rule hex_text_inject [OF _ assms(2,3)])
  have whole: "xs = take 8 xs @ take 4 (drop 8 xs) @ take 4 (drop 12 xs) @ take 4 (drop 16 xs) @ drop 20 xs" for xs :: string
    using append_take_drop_id [of 8 xs] append_take_drop_id [of 4 "drop 8 xs"] append_take_drop_id [of 4 "drop 12 xs"]
      append_take_drop_id [of 4 "drop 16 xs"] by simp
  have "take 8 (hex_text 32 m) = take 8 (hex_text 32 n)" "take 4 (drop 8 (hex_text 32 m)) = take 4 (drop 8 (hex_text 32 n))"
    "take 4 (drop 12 (hex_text 32 m)) = take 4 (drop 12 (hex_text 32 n))"
    "take 4 (drop 16 (hex_text 32 m)) = take 4 (drop 16 (hex_text 32 n))" "drop 20 (hex_text 32 m) = drop 20 (hex_text 32 n)"
    using assms(1) by (auto simp: uuid_text_def Let_def)
  then show "hex_text 32 m = hex_text 32 n" using whole [of "hex_text 32 m"] whole [of "hex_text 32 n"] by metis
qed

text \<open>The key that makes opening a card idempotent is the same for two cards only when they belong to
  the same installation and the same request: no other request can be answered with this card's reference.\<close>

theorem dedupe_key_names_request:
  assumes "nod_payload n str c = Inr p" "nod_payload n' str' c' = Inr p'" "jget ''dedupe_key'' p = jget ''dedupe_key'' p'"
  shows "card_request_id c = card_request_id c'
     \<and> (\<exists>i i' u. card_installation_id c = Some i \<and> card_installation_id c' = Some i' \<and> uuid_value i = Inr u \<and> uuid_value i' = Inr u)"
proof -
  have key: "\<exists>i u. card_installation_id c = Some i \<and> uuid_value i = Inr u \<and> jget ''dedupe_key'' p = Some (JStr (dedupe_key u (card_request_id c)))"
    if "nod_payload n str c = Inr p" for n str c p
    using that by (auto simp: nod_payload_def andthen_def split: option.splits if_splits sum.splits)
  from key [OF assms(1)] obtain i u where 1: "card_installation_id c = Some i" "uuid_value i = Inr u"
    "jget ''dedupe_key'' p = Some (JStr (dedupe_key u (card_request_id c)))" by blast
  from key [OF assms(2)] obtain i' u' where 2: "card_installation_id c' = Some i'" "uuid_value i' = Inr u'"
    "jget ''dedupe_key'' p' = Some (JStr (dedupe_key u' (card_request_id c')))" by blast
  have len: "length (uuid_text u) = length (uuid_text u')" by (simp add: uuid_text_def Let_def)
  from 1(3) 2(3) assms(3) have "dedupe_key u (card_request_id c) = dedupe_key u' (card_request_id c')" by simp
  then have "uuid_text u = uuid_text u' \<and> card_request_id c = card_request_id c'"
    using len by (simp add: dedupe_key_def)
  with 1 2 uuid_text_inject uuid_value_less show ?thesis by blast
qed

section \<open>Witnesses\<close>

definition demo_nod :: nod_surface where
  "demo_nod = \<lparr>nod_base = ''http://nod:9'', nod_token = ''tok'', nod_channel = ''default'', nod_timeout = 15\<rparr>"

definition demo_answer :: json where
  "demo_answer = JObj [(''request_id'', JStr ''r-1''), (''status'', JStr ''resolved''),
     (''decision'', JObj [(''option_id'', JStr ''approve''), (''option_kind'', JStr ''approve''), (''actor_user_id'', JStr ''ann'')])]"

definition demo_nod_env :: "unit nod_env" where
  "demo_nod_env = \<lparr>ne_net = (\<lambda>h q. (Reply 200 [] [Bytes ''{}''], h)), ne_loads = (\<lambda>s. if s = ''{}'' then Parsed demo_answer else NotJson),
     ne_str = (\<lambda>_. []), ne_late = (\<lambda>_. False)\<rparr>"

definition demo_card :: operation_card where
  "demo_card = build_card 7 ''bot'' ''mail'' ''send'' (JStr ''high'') ''review'' None None None
     (Some ''00000000-0000-0000-0000-000000000007'') (Some ''d1'') (Some ''g1'')"

text \<open>An approval as it is read.\<close>

lemma demo_poll:
  "nod_poll demo_nod demo_nod_env ''r-1'' \<lparr>nw_net = (), nw_log = []\<rparr> =
     (Inr \<lparr>ns_outcome = SApproved, ns_approver = JStr ''ann'', ns_note = JNull, ns_decided_at = JNull\<rparr>,
      \<lparr>nw_net = (), nw_log = [(nod_request_to demo_nod ''GET'' (decision_path ''r-1'') None, Reply 200 [] [Bytes ''{}''])]\<rparr>)"
proof -
  have ok: "ref_ok ''r-1''" by code_simp
  have legal: "\<not> list_ex (\<lambda>kv. illegal_header (snd kv)) (nq_headers (nod_request_to demo_nod ''GET'' (decision_path ''r-1'') None))"
    by code_simp
  have "chunk_list nod_response_max [Bytes ''{}''] = ([''{}''], Eof)"
    by (simp add: nod_response_max_def chunk_list.simps(4))
  moreover have "nod_decode (ne_loads demo_nod_env) ''{}'' = Inr demo_answer" by code_simp
  ultimately have call: "nod_call demo_nod demo_nod_env ''GET'' (decision_path ''r-1'') None \<lparr>nw_net = (), nw_log = []\<rparr> =
      (Inr demo_answer, \<lparr>nw_net = (), nw_log = [(nod_request_to demo_nod ''GET'' (decision_path ''r-1'') None, Reply 200 [] [Bytes ''{}''])]\<rparr>)"
    using legal by (simp add: nod_call_def nod_reply_def nod_stop_def status_ok_def demo_nod_env_def)
  have "jget0 ''request_id'' demo_answer = JStr ''r-1'' \<and> matching_ids demo_answer ''r-1''" by code_simp
  moreover have "to_state demo_answer = \<lparr>ns_outcome = SApproved, ns_approver = JStr ''ann'', ns_note = JNull, ns_decided_at = JNull\<rparr>"
    by code_simp
  ultimately show ?thesis using ok call by (simp add: nod_poll_def)
qed

theorem dedupe_key_names_request_witness:
  "\<exists>p. nod_payload demo_nod (ne_str demo_nod_env) demo_card = Inr p \<and> card_request_id demo_card = 7"
proof -
  have "uuid_value ''00000000-0000-0000-0000-000000000007'' = Inr 7" by code_simp
  then have "\<exists>p. nod_payload demo_nod (ne_str demo_nod_env) demo_card = Inr p"
    by (simp add: nod_payload_def demo_card_def build_card_def Let_def)
  then obtain p where "nod_payload demo_nod (ne_str demo_nod_env) demo_card = Inr p" ..
  with dedupe_key_names_request [OF this this refl] show ?thesis by (auto simp: demo_card_def build_card_def Let_def)
qed

end
