(* ===== verification/Spec2Isabelle.thy ===== *)
theory Spec2Isabelle
  imports AdminProps RuntimeProps SettingsProps EgressProxy RunnerSecrets SpsDemo FwdDemo ServerProps NodProps StoreProps Progress
begin

text \<open>
  Toolstack puts a broker between agents and tools: an agent calls \<^verbatim>\<open>POST /v1/actions/<tool>.<op>\<close>
  (or MCP over \<^verbatim>\<open>/mcp\<close>), the broker authenticates it, decides by a per-caller policy whether the call
  is denied, allowed or needs a human's approval, and calls the tool at most once. Around it are a provider
  that holds the secrets of the tools, a forwarder that turns a REST API into a tool, an application for the
  administrator, and a supervisor that starts the tools. This development models the logic of these parts
  and proves what makes it correct. Paths below are relative to \<^verbatim>\<open>src/\<close>.

  Shared ground.

  \<^item> \<open>Prelude\<close>: Python's exceptions, strings and characters (one byte each), \<^verbatim>\<open>int()\<close>, SQL updates on
    tables as lists. \<open>PyJson\<close>: JSON values, \<^verbatim>\<open>json.dumps\<close> and the canonical text that is hashed; printing
    is injective. \<open>Url\<close>, \<open>Ip\<close>: the parts of \<^verbatim>\<open>urllib.parse\<close> and \<^verbatim>\<open>ipaddress\<close> in use.
  \<^item> \<open>Effects\<close>: actions over a state, calls that may raise, and triples over both.
  \<^item> \<open>Transition\<close>: reachability, runs with labels, and two contracts as locales: a system with an
    invariant, and a register in which a key is claimed at most once.

  The broker, \<^verbatim>\<open>broker/\<close>.

  \<^item> \<open>Policy\<close> (\<^verbatim>\<open>policy.py\<close>): decisions, and that the text a request is bound to determines them.
    \<open>ApprovalSummary\<close> (\<^verbatim>\<open>approval_summary.py\<close>, \<^verbatim>\<open>approval.py\<close>): digests, masking, cards.
    \<open>Redaction\<close>, \<open>RateLimit\<close>, \<open>Identity\<close>, \<open>Registry\<close>: the modules of those names.
  \<^item> \<open>Store\<close> (\<^verbatim>\<open>store.py\<close>): the tables as a record of lists and every transaction as a function.
    \<open>StoreInv\<close> makes them one labelled transition system and interprets the two contracts on it;
    \<open>StoreProps\<close> states what follows.
  \<^item> \<open>Lifecycle\<close> (\<^verbatim>\<open>request_lifecycle.py\<close>): the code as a state monad over the store, with an environment
    record for what is outside: the hash, the clock, randomness, manifest files, the approval surface,
    the runtime, and the transactions other processes commit between any two accesses.
    \<open>LifecycleInv\<close> carries one invariant through all of it with triples.
  \<^item> \<open>Mcp\<close> (\<^verbatim>\<open>mcp.py\<close>) and \<open>Gateway\<close> (\<^verbatim>\<open>gateway.py\<close>): the two framings on top, down to a list of HTTP
    requests served in turn. \<open>Progress\<close>: that requests do get answered and executed when nothing stands in
    their way.
  \<^item> \<open>BrokerServer\<close> (\<^verbatim>\<open>server.py\<close>, \<^verbatim>\<open>admin/catalog_observation.py\<close>): what stands between a socket and the
    gateway (addresses, framing of headers and bodies, replies, the serial loop), and the certificate by which
    the administrator sees which catalog is being served. \<open>ServerProps\<close>: bounds on what a connection makes the
    broker hold, and that a certificate vouches for the catalog served.
  \<^item> \<open>Nod\<close> (\<^verbatim>\<open>surface_nod.py\<close>): opening, polling and cancelling cards; \<open>NodProps\<close>: only the exact answer of
    the service to the card's own number and digest counts as approval.
  \<^item> \<open>Runtime\<close> (\<^verbatim>\<open>runtime.py\<close>, \<^verbatim>\<open>bounds.py\<close>, \<^verbatim>\<open>tool_state.py\<close>): calling a tool in three dialects over loopback;
    \<open>RuntimeProps\<close>: the action is sent at most once, failures are reported honestly, responses are bounded,
    and event streams are read independently of how the bytes arrive.
  \<^item> \<open>Operations\<close> (\<^verbatim>\<open>operations.py\<close>): the administrator's operations, each a sequence of transactions among
    those of other processes; a rely and guarantee contract as a locale, interpreted on the store.

  The administration application, \<^verbatim>\<open>admin/\<close>.

  \<^item> \<open>AdminAuth\<close> (\<^verbatim>\<open>auth.py\<close>, \<^verbatim>\<open>loginguard.py\<close>, the login of \<^verbatim>\<open>api.py\<close>): password hashes, signed sessions,
    revocation, the throttle. \<open>AdminProps\<close>: who has a session, how many failures pass.
  \<^item> \<open>AdminSettings\<close> (\<^verbatim>\<open>caller_settings.py\<close>, \<^verbatim>\<open>policy_edits.py\<close>): from what is posted to a stored policy;
    \<open>SettingsProps\<close>: what was posted is what is decided, and nothing else changes.

  The forwarder, \<^verbatim>\<open>toolstack_forwarder/\<close>.

  \<^item> \<open>Template\<close>, \<open>FwdConfig\<close> (\<^verbatim>\<open>config.py\<close>), \<open>FwdRequest\<close> (\<^verbatim>\<open>request_builder.py\<close>), \<open>FwdRules\<close> (\<^verbatim>\<open>rules.py\<close>),
    \<open>FwdServer\<close> (\<^verbatim>\<open>outbound.py\<close>, \<^verbatim>\<open>server.py\<close>): from a manifest to a request, and from the response to the answer.
    \<open>FwdSafety\<close>: requests stay at the base URL, secrets at the operations that may use them. \<open>FwdDemo\<close>
    applies its theorems.

  The secrets provider, \<^verbatim>\<open>sps/\<close>.

  \<^item> \<open>Sps\<close> (\<^verbatim>\<open>handlers.py\<close>, \<^verbatim>\<open>store.py\<close>, \<^verbatim>\<open>wire.py\<close>, \<^verbatim>\<open>server.py\<close>, \<^verbatim>\<open>audit.py\<close>): registrations, the six operations,
    framing, audit. \<open>SpsVault\<close> (\<^verbatim>\<open>plugins/\<close>): the plugin contract as a locale, interpreted on the encrypted
    local vault. \<open>SpsClient\<close> (\<^verbatim>\<open>client.py\<close>, \<^verbatim>\<open>tool_sdk.py\<close>). \<open>SpsProps\<close>: who gets a secret, who may write one,
    that a written value is read back. \<open>SpsDemo\<close> applies its theorems.

  The tools' supervisor, \<^verbatim>\<open>toolyard/\<close>.

  \<^item> \<open>Processes\<close> and \<open>Runner\<close> (\<^verbatim>\<open>runner.py\<close>): how a process is stopped, and how a tool is started, inspected and
    stopped as a process, over an operating system that may give a process number to another process at any
    time. \<open>RunnerProps\<close>: no process is lost, none but a recognised one is signalled. \<open>RunnerSecrets\<close>: what the
    children are given, and that a tool with secrets starts only registered.
  \<^item> \<open>EgressProxy\<close> (\<^verbatim>\<open>egress_proxy.py\<close>, \<^verbatim>\<open>netguard.py\<close>): the proxy that is the only way out of a sandboxed tool,
    and the text of the packet filter.

  This theory states what the whole gateway guarantees in every environment, and composes server, gateway,
  lifecycle and the approval client.

  Conventions. Functions of the code that may raise return a sum with the exception on the left. Most loops of
  the modelled code run over a list that is given; the others end by a measure that their definitions carry:
  the bytes that are left (\<open>relay\<close>, the readers of streams) or the time that is left (\<open>wait_loop\<close>, where each turn uses at
  least its sleep of 50 ms, so two waits of 2 s and 1 s take at most 60 turns). No definition uses fuel.
  Parameters, because their code is not part of the repository or because they are the outside world: the
  hash, HMAC, scrypt and Fernet; \<^verbatim>\<open>json.loads\<close> of received bytes and UTF-8 decoding; the parser of TOML; the
  exchange over a socket (what arrives, in which pieces, which error); clocks, random tokens and what other
  processes do meanwhile; the operating system's answers about processes. Where a result needs one of them to
  behave as documented (a hash that does not collide on two texts, a decoder that inverts its encoder), its
  statement says so and a witness gives an instance.

  Not modelled, and why. HTML pages, assets, routing of the administration application and the desktop shell:
  presentation. The application's supervision of broker and provider, the editing of manifests and the
  reconciler: process and file handling around operations that are modelled. \<^verbatim>\<open>brokerctl.py\<close>, \<^verbatim>\<open>sps/cli.py\<close>
  and \<^verbatim>\<open>toolyard/cli.py\<close>: argument parsing, prompts, files and printing around the same operations. The Docker
  backend and the execution of \<^verbatim>\<open>nft\<close>: subprocesses with no logic but their arguments. The importer of OpenAPI
  documents, the HTTP vault backends (Infisical, HashiCorp), TLS, worker pools and log rotation, backups of the
  database and migration of old schemas. \<^verbatim>\<open>client/\<close> and \<^verbatim>\<open>tools/\<close>: callers of the interfaces modelled here.
\<close>

section \<open>Serving any requests in any environment\<close>

definition served :: "env \<Rightarrow> http_request list \<Rightarrow> store \<Rightarrow> limiter option \<Rightarrow> world" where
  "served e hs db l = snd (run_state (serve e hs) (start_world db l))"

lemma served_linv:
  assumes "store_ok db" "st_approvals db = []"
  shows "linv e db (served e hs db l)"
  using hoareD [OF serve_linv start_linv [OF assms], of e hs] unfolding served_def
  by (metis prod.collapse)

definition demo_calls :: "http_request list" where
  "demo_calls = [\<lparr>hr_method = ''POST'', hr_path = ''/v1/actions/echo.say'', hr_headers = demo_headers, hr_body = JObj []\<rparr>]"

lemma demo_served: "w_log (served demo_env demo_calls (demo_store ''allow'') None) = [dispatched 1 demo_op (JObj []) (Some ''bot'')]"
proof -
  have "start_world (demo_store ''allow'') None = demo_world (demo_store ''allow'')"
    by (simp add: start_world_def demo_world_def)
  then show ?thesis using demo_runs by (auto simp: served_def demo_calls_def)
qed

lemma demo_no_approvals: "st_approvals (demo_store eff) = []"
  by (simp add: demo_store_def init_store_def)

text \<open>C1: At most one call of a tool per request: whatever HTTP requests the gateway serves, in
  whatever environment (any interleaving of the transactions of the other processes, any clock, any
  answers of the approval surface and the tools), no request is dispatched twice.\<close>

theorem dispatched_at_most_once:
  assumes "store_ok db" "st_approvals db = []"
  shows "distinct (map dp_request_id (w_log (served e hs db l)))"
  using served_linv [OF assms] by (simp add: linv_def)

theorem dispatched_at_most_once_witness:
  "distinct (map dp_request_id (w_log (served demo_env demo_calls (demo_store ''allow'') None)))
     \<and> w_log (served demo_env demo_calls (demo_store ''allow'') None) \<noteq> []"
  using dispatched_at_most_once [OF demo_store_ok demo_no_approvals] by (simp add: demo_served)

text \<open>C3: Every call of a tool is the one that was authorized: its request exists, names the same tool,
  operation and generation, carries the digest of exactly these arguments, and is bound to a policy that
  either allows the operation, or asks for review and then a card with this digest was opened on the
  surface and the surface answered approved for it.\<close>

theorem dispatched_as_authorized:
  assumes "store_ok db" "st_approvals db = []" "d \<in> set (w_log (served e hs db l))"
  shows "\<exists>r p bound_args reason nonce text.
     request (w_db (served e hs db l)) (dp_request_id d) = Some r
     \<and> to_tool (dp_op d) = rq_tool r \<and> to_op (dp_op d) = rq_op r
     \<and> rq_generation r = Some (to_generation (dp_op d))
     \<and> canonical (action_value (rq_caller_id r) (rq_tool r) (rq_op r) (to_generation (dp_op d)) bound_args reason nonce) = Inr text
     \<and> rq_digest r = Some (ev_sha e text) \<and> canonical bound_args = canonical (dp_arguments d)
     \<and> rq_policy_binding r = Some (policy_text p)
     \<and> (decide p (rq_tool r) (rq_op r) = ALLOW
        \<or> decide p (rq_tool r) (rq_op r) = REVIEW
          \<and> (\<exists>c ref m n st. c \<in> set (w_cards (served e hs db l)) \<and> card_request_id c = rq_id r
               \<and> card_request_digest c = rq_digest r \<and> ev_open e m c = Inr ref
               \<and> ev_poll e n ref = Inr st \<and> ss_outcome st = SApproved))"
proof -
  from served_linv [OF assms(1,2)] assms(3)
  have "dispatch_ok e (w_cards (served e hs db l)) (w_db (served e hs db l)) d" by (simp add: linv_def)
  then obtain r where r: "request (w_db (served e hs db l)) (dp_request_id d) = Some r"
    "to_tool (dp_op d) = rq_tool r" "to_op (dp_op d) = rq_op r"
    "rq_generation r = Some (to_generation (dp_op d))" "binds (ev_sha e) r (dp_arguments d)"
    "authorized e (w_cards (served e hs db l)) r" by (auto simp: dispatch_ok_def)
  from r(5) r(4) obtain ba reason nonce msg where b:
    "canonical (action_value (rq_caller_id r) (rq_tool r) (rq_op r) (to_generation (dp_op d)) ba reason nonce) = Inr msg"
    "rq_digest r = Some (ev_sha e msg)" "canonical ba = canonical (dp_arguments d)"
    by (auto simp: binds_def)
  from r(6) have "\<exists>p. rq_policy_binding r = Some (policy_text p) \<and> (decide p (rq_tool r) (rq_op r) = ALLOW
        \<or> decide p (rq_tool r) (rq_op r) = REVIEW
          \<and> (\<exists>c ref m n st. c \<in> set (w_cards (served e hs db l)) \<and> card_request_id c = rq_id r
               \<and> card_request_digest c = rq_digest r \<and> ev_open e m c = Inr ref
               \<and> ev_poll e n ref = Inr st \<and> ss_outcome st = SApproved))"
    unfolding authorized_def approved_def card_for_def by blast
  with r b show ?thesis by blast
qed

theorem dispatched_as_authorized_witness:
  "\<exists>r. request (w_db (served demo_env demo_calls (demo_store ''allow'') None)) 1 = Some r \<and> rq_tool r = ''echo''"
proof -
  have "dispatched 1 demo_op (JObj []) (Some ''bot'') \<in> set (w_log (served demo_env demo_calls (demo_store ''allow'') None))"
    by (simp add: demo_served)
  from dispatched_as_authorized [OF demo_store_ok demo_no_approvals this] show ?thesis
    by (auto simp: dispatched_def demo_op_def)
qed

text \<open>C4: The gateway refines the store: serving any requests in any environment takes the database
  only through transactions of the store's transition system, so everything proved of that system holds of
  the running gateway, and its invariant holds at the end.\<close>

theorem served_refines_store:
  assumes "store_ok db" "st_approvals db = []"
  shows "(\<lambda>s s'. \<exists>k. store_step (ev_sha e) s k s')\<^sup>*\<^sup>* db (w_db (served e hs db l))
    \<and> store_ok (w_db (served e hs db l))"
  using served_linv [OF assms] by (simp add: linv_def)

theorem served_refines_store_witness:
  "store_ok (w_db (served demo_env demo_calls (demo_store ''allow'') None))"
  using served_refines_store [OF demo_store_ok demo_no_approvals] by blast

section \<open>The broker with its approval service\<close>

definition listened :: "env \<Rightarrow> srv \<Rightarrow> (bool \<times> incoming) list \<Rightarrow> store \<Rightarrow> limiter option \<Rightarrow> world" where
  "listened e s cs db l = snd (run_state (listen e s cs) (start_world db l))"

lemma listened_linv:
  assumes "store_ok db" "st_approvals db = []"
  shows "linv e db (listened e s cs db l)"
  using hoareD [OF listen_linv start_linv [OF assms], of e s cs] unfolding listened_def
  by (metis prod.collapse)

text \<open>The lifecycle's surface is the adapter of Nod: what it opens and polls is what some exchange of the
  adapter with the service, at whatever state of the network, gives.\<close>

definition wired :: "env \<Rightarrow> nod_surface \<Rightarrow> 'h nod_env \<Rightarrow> bool" where
  "wired e n ne \<longleftrightarrow>
     (\<forall>k c ref. ev_open e k c = Inr ref \<longrightarrow> (\<exists>w. fst (nod_open n ne c w) = Inr ref))
     \<and> (\<forall>k ref st. ev_poll e k ref = Inr st \<longrightarrow>
          (\<exists>w ns. fst (nod_poll n ne ref w) = Inr ns \<and> ns_outcome ns = ss_outcome st))"

text \<open>An answer of the service that approves the card with this reference.\<close>

definition approves :: "'h nod_env \<Rightarrow> string \<Rightarrow> net_result \<Rightarrow> bool" where
  "approves ne ref r \<longleftrightarrow> (\<exists>code hs rs v dec.
     r = net_result.Reply code hs rs \<and> status_ok code
     \<and> nod_decode (ne_loads ne) (concat (fst (chunk_list nod_response_max rs))) = Inr v
     \<and> jget ''request_id'' v = Some (JStr ref) \<and> jget ''status'' v = Some (JStr ''resolved'')
     \<and> jget ''decision'' v = Some dec \<and> jget ''option_id'' dec = Some (JStr ''approve'')
     \<and> jget ''option_kind'' dec = Some (JStr ''approve''))"

lemma wired_approves:
  assumes "wired e n ne" "ev_poll e k ref = Inr st" "ss_outcome st = SApproved"
  shows "\<exists>r w. (nod_request_to n ''GET'' (''/api/v1/requests/'' @ ref @ ''/decision'') None, r)
       \<in> set (nw_log (snd (nod_poll n ne ref w))) \<and> approves ne ref r"
proof -
  from assms obtain w ns where "fst (nod_poll n ne ref w) = Inr ns" "ns_outcome ns = SApproved"
    unfolding wired_def by metis
  then have "nod_poll n ne ref w = (Inr ns, snd (nod_poll n ne ref w))" by (metis prod.collapse)
  from nod_poll_approved [OF this \<open>ns_outcome ns = SApproved\<close>] show ?thesis
    unfolding approves_def by (metis in_set_conv_decomp)
qed


definition nod_start :: "unit nod_world" where
  "nod_start = \<lparr>nw_net = (), nw_log = []\<rparr>"

definition nod_demo_env :: env where
  "nod_demo_env = demo_env\<lparr>
     ev_open := (\<lambda>k c. case fst (nod_open demo_nod demo_nod_env c nod_start) of Inl _ \<Rightarrow> Inl RuntimeError | Inr ref \<Rightarrow> Inr ref),
     ev_poll := (\<lambda>k ref. case fst (nod_poll demo_nod demo_nod_env ref nod_start) of Inl _ \<Rightarrow> Inl RuntimeError
       | Inr ns \<Rightarrow> Inr \<lparr>ss_outcome = ns_outcome ns, ss_approver = None, ss_note = None, ss_decided_at = None\<rparr>)\<rparr>"

lemma nod_demo_wired: "wired nod_demo_env demo_nod demo_nod_env"
  unfolding wired_def nod_demo_env_def by (fastforce split: sum.splits)

definition demo_connection :: "bool \<times> incoming" where
  "demo_connection = (False, Arrived \<lparr>hi_command = ''POST'', hi_path = ''/v1/actions/echo.say'', hi_headers = demo_headers, hi_stream = []\<rparr>)"

lemma demo_plan:
  "plan_body (sr_getenv demo_srv) sha db
     \<lparr>hi_command = ''POST'', hi_path = ''/v1/actions/echo.say'', hi_headers = demo_headers, hi_stream = []\<rparr> = PlanEmpty"
proof -
  have "get_all ''Content-Length'' demo_headers = []" "get_all ''Transfer-Encoding'' demo_headers = []"
    "get_all ''Idempotency-Key'' demo_headers = []" by code_simp+
  moreover have "dec_value 0 ''0'' = Some 0" "is_dec (CHR ''0'')" by code_simp+
  ultimately show ?thesis by (simp add: plan_body_def)
qed

lemma demo_listened:
  "w_log (listened nod_demo_env demo_srv [demo_connection] (demo_store ''allow'') None) = [dispatched 1 demo_op (JObj []) (Some ''bot'')]"
proof -
  let ?w = "(demo_world (demo_store ''allow''))\<lparr>w_tick := 1\<rparr>"
  have q: "quiet nod_demo_env" using demo_quiet by (simp add: quiet_def nod_demo_env_def)
  have same: "ev_sha nod_demo_env = ev_sha demo_env" "w_db ?w = w_db (demo_world (demo_store ''allow''))"
    "ev_admin nod_demo_env = ev_admin demo_env"
    by (simp_all add: nod_demo_env_def)
  have call: "callable nod_demo_env demo_caller ''echo'' ''say'' demo_op (JObj []) (w_db ?w)"
    using demo_callable [of "''allow''"] by (simp add: callable_def nod_demo_env_def)
  have lim: "w_limiter ?w = None" by (simp add: demo_world_def)
  have key: "fresh_key (w_db ?w) demo_caller None" using demo_fresh_key [of "''allow''"] by simp
  have allow: "decide (policy_for (w_db ?w) (cl_id demo_caller)) ''echo'' ''say'' = ALLOW" using demo_allow by simp
  have hs: "dict_headers demo_headers = demo_headers" by code_simp
  obtain r w' where run: "run_state (handle nod_demo_env ''POST'' ''/v1/actions/echo.say'' demo_headers (JObj [])) ?w = (Inr r, w')"
    "w_log w' = [dispatched 1 demo_op (JObj []) (Some ''bot'')]"
    using handle_allow_runs [OF q lim _ demo_request call key allow] demo_auth demo_next [of "''allow''"]
    unfolding demo_path executed_def same by (auto simp: demo_caller_def) (simp add: demo_world_def)
  have "start_world (demo_store ''allow'') None = demo_world (demo_store ''allow'')"
    by (simp add: start_world_def demo_world_def)
  moreover have "arrive nod_demo_env (demo_world (demo_store ''allow'')) = demo_store ''allow''"
    by (simp add: arrive_def nod_demo_env_def demo_env_def demo_world_def)
  moreover have "(demo_world (demo_store ''allow''))\<lparr>w_db := demo_store ''allow'', w_tick := Suc 0\<rparr> = ?w"
    by (simp add: demo_world_def)
  ultimately show ?thesis
    using run by (simp add: listened_def demo_connection_def handle_one_def http_methods_def respond_http_def query_def txn_def
        demo_plan read_body_def send_json_def hs demo_world_def)
qed


section \<open>Authentication\<close>

text \<open>Authentication yields only live callers: the header carries a token whose hash is a stored,
  unrevoked token of that caller, and the caller is not revoked.\<close>

theorem authenticated_caller_live:
  assumes "authenticate sha db header = Some cl" "store_ok db"
  shows "live db (cl_id cl) (Some cl) \<and> (\<exists>t token. t \<in> set (st_tokens db) \<and> bearer_token header = Some token
     \<and> tk_hash t = sha token \<and> tk_revoked_at t = None \<and> tk_caller_id t = cl_id cl)"
proof
  from assms(2) have "distinct (map cr_id (st_callers db))" by (simp add: store_ok_def keys_ok_def)
  with assms(1) show "live db (cl_id cl) (Some cl)" by (rule authenticate_live)
  from assms(1) show "\<exists>t token. t \<in> set (st_tokens db) \<and> bearer_token header = Some token
     \<and> tk_hash t = sha token \<and> tk_revoked_at t = None \<and> tk_caller_id t = cl_id cl"
    by (rule authenticate_SomeD) metis
qed

theorem authenticated_caller_live_witness: "live (demo_store ''allow'') 1 (Some demo_caller)"
  using authenticated_caller_live [OF demo_auth] demo_store_ok by (simp add: demo_world_def demo_caller_def)

text \<open>No call, no card, and only steps of the store since \<open>db0\<close>.\<close>

definition idle :: "env \<Rightarrow> store \<Rightarrow> dispatch list \<Rightarrow> operation_card list \<Rightarrow> world \<Rightarrow> bool" where
  "idle e db0 calls cards w \<longleftrightarrow> w_log w = calls \<and> w_cards w = cards \<and> steps (ev_sha e) db0 (w_db w)"

lemma idle_arrive: "idle e db0 L C w \<Longrightarrow> steps (ev_sha e) db0 (arrive e w)"
  using arrive_steps [of "ev_sha e" w e] by (auto simp: idle_def)

lemma idle_read: "hoare (idle e db0 L C) (txn e (\<lambda>n db. (f n db, db)))
    (\<lambda>x w. (\<exists>n db. steps (ev_sha e) db0 db \<and> x = f n db) \<and> idle e db0 L C w)"
proof (rule hoare_txn)
  fix w x db assume "idle e db0 L C w" "(f (w_tick w) (arrive e w), arrive e w) = (x, db)"
  then show "(\<exists>n db. steps (ev_sha e) db0 db \<and> x = f n db) \<and> idle e db0 L C (w\<lparr>w_db := db, w_tick := w_tick w + 1\<rparr>)"
    using idle_arrive [of e db0 L C w] by (auto simp: idle_def)
qed

lemma idle_query: "hoare (idle e db0 L C) (query e f) (\<lambda>x w. (\<exists>db. steps (ev_sha e) db0 db \<and> x = f db) \<and> idle e db0 L C w)"
  unfolding query_def using idle_read [of e db0 L C "\<lambda>_. f"] by simp

lemma idle_audit: "hoare (idle e db0 L C) (audit_record e c ev oc corr rid d) (\<lambda>_. idle e db0 L C)"
  unfolding audit_record_def
proof (rule hoare_txn)
  fix w x db assume i: "idle e db0 L C w"
    and eq: "((), snd (append_audit (ev_clock e (w_tick w)) c ev oc (Some corr) rid (JObj d) (arrive e w))) = (x, db)"
  then have "\<exists>l. store_step (ev_sha e) (arrive e w) l db" using append_audit_step by auto
  with idle_arrive [OF i] have "steps (ev_sha e) db0 db" by (rule rtranclp.rtrancl_into_rtrancl)
  with i show "idle e db0 L C (w\<lparr>w_db := db, w_tick := w_tick w + 1\<rparr>)" by (simp add: idle_def)
qed

lemma route_unauthenticated:
  assumes "\<And>db. steps (ev_sha e) db0 db \<Longrightarrow> authenticate (ev_sha e) db (map_of headers ''authorization'') = None"
    and "\<not> (meth = ''GET'' \<and> path = health_path)"
  shows "hoare (idle e db0 L C) (route e meth path headers body corr)
    (\<lambda>r w. (\<exists>r'. r = Inr r' \<and> rs_status r' = 401) \<and> idle e db0 L C w)"
proof -
  have refuse: "hoare (idle e db0 L C) (do { audit_record e c ev oc corr rid d; ret (Inr (respond 401 b corr)) })
      (\<lambda>r w. (\<exists>r'. r = Inr r' \<and> rs_status r' = 401) \<and> idle e db0 L C w)" for c ev oc rid d b
    by (rule hoare_bind [OF idle_audit]) (rule hoare_ret, simp add: respond_def)
  have seen: "hoare (idle e db0 L C) (query e (\<lambda>db. authenticate (ev_sha e) db (map_of headers ''authorization'')))
      (\<lambda>who w. who = None \<and> idle e db0 L C w)"
    by (rule hoare_post [OF idle_query]) (use assms(1) in auto)
  show ?thesis
    using assms(2) unfolding route_def Let_def
    by (auto intro!: hoare_bind [OF seen] hoare_pure refuse)
qed

lemma handle_unauthenticated:
  assumes "\<And>db. steps (ev_sha e) db0 db \<Longrightarrow> authenticate (ev_sha e) db (map_of (lower_headers hs) ''authorization'') = None"
    and "\<not> (meth = ''GET'' \<and> path = health_path)"
  shows "hoare (idle e db0 L C) (handle e meth path hs body)
    (\<lambda>r w. (\<exists>r'. r = Inr r' \<and> rs_status r' = 401) \<and> idle e db0 L C w)"
proof -
  have answer: "hoare (\<lambda>w. (\<exists>r'. Inr v = Inr r' \<and> rs_status r' = 401) \<and> idle e db0 L C w)
      (do { audit_record e c ev oc corr rid d; ret (Inr v) })
      (\<lambda>r w. (\<exists>r'. r = Inr r' \<and> rs_status r' = 401) \<and> idle e db0 L C w)" for c ev oc corr rid d and v :: response
    by (rule hoare_pure, rule hoare_bind [OF idle_audit]) (rule hoare_ret, simp)
  have fresh: "hoare (idle e db0 L C) (txn e (\<lambda>n db. (ev_rng e n, db))) (\<lambda>_. idle e db0 L C)"
    by (rule hoare_post [OF idle_read [of e db0 L C "\<lambda>n _. ev_rng e n"]]) simp
  show ?thesis
    unfolding handle_def Let_def if_P [OF assms(2)]
    by (intro hoare_bind [OF fresh] hoare_bind [OF idle_audit] hoare_bind_ok [OF route_unauthenticated [OF assms]] answer)
      auto
qed



section \<open>Status of a request\<close>



text \<open>Status ids the digit test lets through but the code does not handle: a superscript digit is a
  digit for \<^verbatim>\<open>isdigit\<close> and no digit for \<^verbatim>\<open>int\<close>, and an id beyond 64 bits is refused by
  SQLite. Both leave the handler as exceptions instead of the answer for an invalid id.\<close>

theorem status_id_raises:
  "run_state (request_status e (requests_prefix @ [CHR 0xB2]) cl corr) w = (Inl ValueError, w)
   \<and> run_state (request_status e (requests_prefix @ ''9223372036854775808'') cl corr) w = (Inl OverflowError, w)"
proof -
  have "py_isdigit [CHR 0xB2]" "py_int_digits [CHR 0xB2] = Inl ValueError"
    "py_isdigit ''9223372036854775808''"
    by code_simp+
  moreover have "py_int_digits ''9223372036854775808'' = Inr (2 ^ 63)"
    by (simp add: py_int_digits_def is_dec_def code_def)
  ultimately show ?thesis by (simp add: request_status_def)
qed

section \<open>Catalog and policy\<close>

lemma catalog_ids:
  assumes "catalog_ok c" "map_of c tool = Some e" "map_of (te_ops e) op = Some m"
  shows "id_ok tool \<and> id_ok op"
  using assms(1) map_of_SomeD [OF assms(2)] map_of_SomeD [OF assms(3)]
  by (fastforce simp: catalog_ok_def entry_ok'_def op_ok_def list_all_iff)

lemma spec_matches_iff:
  assumes "CHR ''.'' \<notin> set tool" "op \<noteq> []"
  shows "spec_matches tool op s \<longleftrightarrow> s = tool @ ''.'' @ op"
proof
  assume "s = tool @ ''.'' @ op" then show "spec_matches tool op s" using spec_matches_dotted [OF assms(1)] by metis
next
  assume m: "spec_matches tool op s"
  show "s = tool @ ''.'' @ op"
  proof (cases "dropWhile (\<lambda>x. x \<noteq> CHR ''.'') s")
    case Nil
    with m assms(2) show ?thesis by (simp add: spec_matches_def partition_at_def)
  next
    case (Cons d ds)
    then have "d = CHR ''.''" using hd_dropWhile [of "\<lambda>x. x \<noteq> CHR ''.''" s] by simp
    with m Cons takeWhile_dropWhile_id [of "\<lambda>x. x \<noteq> CHR ''.''" s] show ?thesis
      by (simp add: spec_matches_def partition_at_def)
  qed
qed

text \<open>For every operation of a catalog that loads, a policy built from specs decides by the exact
  spec \<^verbatim>\<open>tool.op\<close>: no spec of another operation reaches it, because loaded names have no dot.\<close>

theorem catalog_policy_exact:
  assumes "from_sources sha root_manifests dir_manifests = Inr c"
    and "map_of c tool = Some e" "map_of (te_ops e) op = Some m"
  shows "decide (build_policy allow review deny) tool op =
     (if tool @ ''.'' @ op \<in> set deny then DENY
      else if tool @ ''.'' @ op \<in> set allow then ALLOW
      else if tool @ ''.'' @ op \<in> set review then REVIEW
      else DENY)"
proof -
  have "catalog_ok c" using load_manifests_ok assms(1) by (auto simp: from_sources_def catalog_ok_def)
  from catalog_ids [OF this assms(2,3)] have "CHR ''.'' \<notin> set tool" "op \<noteq> []"
    using id_ok_no_dot [of tool] by (auto simp: id_ok_def [of op])
  from spec_matches_iff [OF this] show ?thesis by (simp add: policy_of_specs list_ex_iff)
qed

theorem catalog_policy_exact_witness:
  "decide (build_policy [''echo.say''] [] [''echo.say.x'']) ''echo'' ''say'' = ALLOW"
proof -
  let ?m = "JObj [(''id'', JStr ''echo''), (''entrypoint'', JObj [(''port'', JInt 7000)]),
    (''operations'', JList [JObj [(''name'', JStr ''say'')]])]"
  let ?meta = "\<lparr>om_risk = JStr ''unknown'', om_description = JStr '''', om_args = JList [], om_approval_fields = Some [],
    om_rest = None\<rparr>"
  have "from_sources id [(''m'', ''raw'', ?m)] [] = Inr [(''echo'', \<lparr>te_port = 7000, te_type = ''api'',
      te_ops = [(''say'', ?meta)], te_manifest_path = ''m'', te_manifest_digest = ''raw''\<rparr>)]"
    by code_simp
  from catalog_policy_exact [OF this, of "''echo''" _ "''say''" ?meta "[''echo.say'']" "[]" "[''echo.say.x'']"]
  show ?thesis by simp
qed

end
